(* ===== verification/Prelude.thy ===== *)
theory Prelude
  imports Main "HOL-Library.Sublist" "HOL-Library.Option_ord"
begin

text \<open>
  Shared vocabulary of the development.

  \<^item> Results: the code's \<open>Result<T, E>\<close> is the sum \<open>'e + 'a\<close>, \<open>Inl\<close> the error and \<open>Inr\<close>
    the value; \<open>bind_res\<close> is the \<open>?\<close> operator, \<open>ok_or\<close> is \<open>Option::ok_or\<close>, \<open>collect_res\<close> is
    \<open>collect::<Result<Vec<_>, _>>()\<close>.
  \<^item> Machine integers: \<open>u64\<close>, \<open>u32\<close> and \<open>usize\<close> values are \<open>nat\<close>, \<open>i64\<close> and \<open>i32\<close> values are
    \<open>int\<close>; casts, saturation and wrap-around are written out with the functions below.
  \<^item> Strings and byte vectors are lists of \<open>char\<close>, which has exactly the 256 byte values;
    a Rust \<open>String\<close> is the list of its UTF-8 bytes.
\<close>

named_theorems store_simps \<open>rewrite rules for table lookups, updates and deletions\<close>
named_theorems inv_intros \<open>introduction rules for the store invariant\<close>

type_synonym bytes = "char list"

section \<open>Results\<close>

definition bind_res :: "'e + 'a \<Rightarrow> ('a \<Rightarrow> 'e + 'b) \<Rightarrow> 'e + 'b" where
  "bind_res r f = (case r of Inl e \<Rightarrow> Inl e | Inr a \<Rightarrow> f a)"

lemma bind_res_simps [simp]:
  "bind_res (Inl e) f = Inl e"
  "bind_res (Inr a) f = f a"
  by (simp_all add: bind_res_def)

lemma bind_res_Inr_iff: "bind_res r f = Inr b \<longleftrightarrow> (\<exists>a. r = Inr a \<and> f a = Inr b)"
  by (cases r) auto

lemma bind_res_cong [fundef_cong]:
  "r = r' \<Longrightarrow> (\<And>a. r' = Inr a \<Longrightarrow> f a = g a) \<Longrightarrow> bind_res r f = bind_res r' g"
  by (cases r') auto

definition ok_or :: "'e \<Rightarrow> 'a option \<Rightarrow> 'e + 'a" where
  "ok_or e x = (case x of None \<Rightarrow> Inl e | Some a \<Rightarrow> Inr a)"

lemma ok_or_simps [simp]:
  "ok_or e None = Inl e"
  "ok_or e (Some a) = Inr a"
  by (simp_all add: ok_or_def)

lemma ok_or_Inr_iff: "ok_or e x = Inr a \<longleftrightarrow> x = Some a"
  by (cases x) auto

fun collect_res :: "('e + 'a) list \<Rightarrow> 'e + 'a list" where
  "collect_res [] = Inr []"
| "collect_res (r # rs) = bind_res r (\<lambda>a. bind_res (collect_res rs) (\<lambda>xs. Inr (a # xs)))"

lemma collect_res_map_Inr: "(\<And>x. x \<in> set xs \<Longrightarrow> f x = Inr (g x)) \<Longrightarrow> collect_res (map f xs) = Inr (map g xs)"
  by (induction xs) auto

section \<open>Machine integers\<close>

abbreviation u64_max :: nat where "u64_max \<equiv> 2 ^ 64 - 1"
abbreviation i64_max :: int where "i64_max \<equiv> 2 ^ 63 - 1"
abbreviation i64_min :: int where "i64_min \<equiv> - (2 ^ 63)"

text \<open>\<open>u64::saturating_add\<close> and \<open>usize::saturating_add\<close> on the 64-bit targets the crate ships for.\<close>

definition sat_add :: "nat \<Rightarrow> nat \<Rightarrow> nat" where
  "sat_add a b = min (a + b) u64_max"

text \<open>Wrap-around of an \<open>i64\<close> result, the \<open>as i64\<close> cast of a \<open>u64\<close>, the \<open>as u64\<close> cast of an \<open>i64\<close>,
  and saturation into the \<open>i64\<close> range.\<close>

definition wrap_i64 :: "int \<Rightarrow> int" where
  "wrap_i64 x = (x + 2 ^ 63) mod 2 ^ 64 - 2 ^ 63"

definition as_i64 :: "nat \<Rightarrow> int" where
  "as_i64 n = wrap_i64 (int n)"

definition as_u64 :: "int \<Rightarrow> nat" where
  "as_u64 x = nat (x mod 2 ^ 64)"

definition sat_i64 :: "int \<Rightarrow> int" where
  "sat_i64 x = max i64_min (min i64_max x)"

lemma wrap_i64_id: "i64_min \<le> x \<Longrightarrow> x \<le> i64_max \<Longrightarrow> wrap_i64 x = x"
  by (simp add: wrap_i64_def)

lemma wrap_i64_range: "i64_min \<le> wrap_i64 x" "wrap_i64 x \<le> i64_max"
proof -
  have "0 \<le> (x + 2 ^ 63) mod 2 ^ 64" "(x + 2 ^ 63) mod 2 ^ 64 < (2 ^ 64 :: int)"
    by simp_all
  then show "i64_min \<le> wrap_i64 x" "wrap_i64 x \<le> i64_max"
    unfolding wrap_i64_def by simp_all
qed

lemma as_i64_id: "n < 2 ^ 63 \<Longrightarrow> as_i64 n = int n"
  by (simp add: as_i64_def wrap_i64_def)

lemma as_u64_id: "0 \<le> x \<Longrightarrow> x \<le> i64_max \<Longrightarrow> as_u64 x = nat x"
  by (simp add: as_u64_def)

lemma as_u64_as_i64: "n < 2 ^ 64 \<Longrightarrow> as_u64 (as_i64 n) = n"
proof -
  assume "n < 2 ^ 64"
  then have "int n mod 2 ^ 64 = int n" by simp
  moreover have "(wrap_i64 (int n)) mod 2 ^ 64 = int n mod 2 ^ 64"
    unfolding wrap_i64_def by (simp add: mod_diff_left_eq)
  ultimately show ?thesis by (simp add: as_u64_def as_i64_def)
qed

definition clamp :: "nat \<Rightarrow> nat \<Rightarrow> nat \<Rightarrow> nat" where
  "clamp lo hi x = max lo (min hi x)"

lemma clamp_bounds: "lo \<le> hi \<Longrightarrow> lo \<le> clamp lo hi x" "lo \<le> hi \<Longrightarrow> clamp lo hi x \<le> hi"
  by (simp_all add: clamp_def)

section \<open>Lists\<close>

definition last_opt :: "'a list \<Rightarrow> 'a option" where
  "last_opt xs = (if xs = [] then None else Some (last xs))"

definition first_opt :: "'a list \<Rightarrow> 'a option" where
  "first_opt xs = (case xs of [] \<Rightarrow> None | x # _ \<Rightarrow> Some x)"

fun position :: "('a \<Rightarrow> bool) \<Rightarrow> 'a list \<Rightarrow> nat option" where
  "position p [] = None"
| "position p (x # xs) = (if p x then Some 0 else map_option Suc (position p xs))"

lemma position_Some_iff:
  "position p xs = Some i \<longleftrightarrow> i < length xs \<and> p (xs ! i) \<and> (\<forall>j < i. \<not> p (xs ! j))"
proof (induction xs arbitrary: i)
  case Nil
  then show ?case by simp
next
  case (Cons x xs)
  show ?case
    by (cases i) (auto simp: Cons.IH less_Suc_eq_0_disj)
qed

lemma position_None_iff: "position p xs = None \<longleftrightarrow> (\<forall>x \<in> set xs. \<not> p x)"
  by (induction xs) auto

lemma find_Some_mem: "find p xs = Some x \<Longrightarrow> x \<in> set xs \<and> p x"
  by (auto simp: find_Some_iff)

lemma find_distinct:
  assumes "distinct (map k xs)" and "x \<in> set xs"
  shows "find (\<lambda>y. k y = k x) xs = Some x"
  using assms by (induction xs) (auto simp: image_iff)

lemma find_map_same:
  "(\<And>x. p (f x) = p x) \<Longrightarrow> find p (map f xs) = map_option f (find p xs)"
  by (induction xs) auto

lemma filter_map_same: "(\<And>x. p (f x) = p x) \<Longrightarrow> filter p (map f xs) = map f (filter p xs)"
  by (induction xs) auto

lemma sum_list_filter_le: "sum_list (map f (filter p xs)) \<le> (sum_list (map f xs) :: nat)"
  by (induction xs) auto

lemma sum_list_filter_split:
  "sum_list (map f (filter p xs)) + sum_list (map f (filter (Not \<circ> p) xs)) = (sum_list (map f xs) :: nat)"
  by (induction xs) auto

section \<open>Numbers as text\<close>

text \<open>\<open>Display\<close> of unsigned and signed integers: decimal digits without padding.\<close>

fun show_nat :: "nat \<Rightarrow> string" where
  "show_nat n = (if n < 10 then [char_of (48 + n)] else show_nat (n div 10) @ [char_of (48 + n mod 10)])"

declare show_nat.simps [simp del]

definition show_int :: "int \<Rightarrow> string" where
  "show_int i = (if i < 0 then ''-'' @ show_nat (nat (- i)) else show_nat (nat i))"

lemma show_nat_nonempty: "show_nat n \<noteq> []"
  by (subst show_nat.simps) simp

section \<open>Machines\<close>

text \<open>
  Every stateful component is run over a list of inputs. \<open>run_steps\<close> is that run; the locale
  \<open>invariant_machine\<close> states the contract shared by all of them (each step keeps an invariant) and
  lifts it to runs.
\<close>

fun run_steps :: "('s \<Rightarrow> 'i \<Rightarrow> 's) \<Rightarrow> 's \<Rightarrow> 'i list \<Rightarrow> 's" where
  "run_steps f s [] = s"
| "run_steps f s (i # is) = run_steps f (f s i) is"

lemma run_steps_append: "run_steps f s (xs @ ys) = run_steps f (run_steps f s xs) ys"
  by (induction xs arbitrary: s) auto

locale invariant_machine =
  fixes step :: "'s \<Rightarrow> 'i \<Rightarrow> 's" and inv :: "'s \<Rightarrow> bool"
  assumes step_inv: "inv s \<Longrightarrow> inv (step s i)"
begin

lemma run_inv: "inv s \<Longrightarrow> inv (run_steps step s is)"
  by (induction "is" arbitrary: s) (auto intro: step_inv)

end

text \<open>A machine with a relation that every step respects, closed under composition.\<close>

locale monotone_machine = invariant_machine +
  fixes rel :: "'a \<Rightarrow> 'a \<Rightarrow> bool"
  assumes rel_refl: "rel s s"
    and rel_trans: "rel s t \<Longrightarrow> rel t u \<Longrightarrow> rel s u"
    and step_rel: "inv s \<Longrightarrow> rel s (step s i)"
begin

lemma run_rel: "inv s \<Longrightarrow> rel s (run_steps step s is)"
proof (induction "is" arbitrary: s)
  case Nil
  then show ?case by (simp add: rel_refl)
next
  case (Cons i "is")
  from Cons.prems have "rel s (step s i)" by (rule step_rel)
  moreover have "rel (step s i) (run_steps step (step s i) is)"
    using Cons.prems by (intro Cons.IH step_inv)
  ultimately show ?case by (simp add: rel_trans)
qed

end

end
