(* ===== verification/Text.thy ===== *)
theory Text
  imports Prelude
begin

text \<open>
  Text as the standard library sees it: UTF-8 validation (\<open>str::from_utf8\<close>, its \<open>valid_up_to\<close> and
  \<open>error_len\<close>), lossy decoding, scalar values, ASCII case folding and the component view of paths
  (\<open>std::path::Path\<close> on Unix). Nothing here is code of the repository; it is the part of Rust's
  standard library the repository's definitions call.
\<close>

section \<open>UTF-8\<close>

abbreviation bv :: "char \<Rightarrow> nat" where "bv c \<equiv> of_char c"

definition is_cont :: "char \<Rightarrow> bool" where
  "is_cont c \<longleftrightarrow> 128 \<le> bv c \<and> bv c < 192"

text \<open>What the front of a byte string is: nothing, one scalar value of a given width, an invalid
  sequence of a given length (\<open>error_len\<close> is \<open>Some\<close>), or a sequence cut short (\<open>error_len\<close> is \<open>None\<close>).\<close>

datatype utf8_front = Utf8_End | Utf8_Char nat nat | Utf8_Invalid nat | Utf8_Incomplete

definition second3_ok :: "nat \<Rightarrow> nat \<Rightarrow> bool" where
  "second3_ok a b \<longleftrightarrow>
     (if a = 224 then 160 \<le> b \<and> b < 192 else if a = 237 then 128 \<le> b \<and> b < 160 else 128 \<le> b \<and> b < 192)"

definition second4_ok :: "nat \<Rightarrow> nat \<Rightarrow> bool" where
  "second4_ok a b \<longleftrightarrow>
     (if a = 240 then 144 \<le> b \<and> b < 192 else if a = 244 then 128 \<le> b \<and> b < 144 else 128 \<le> b \<and> b < 192)"

fun utf8_next :: "bytes \<Rightarrow> utf8_front" where
  "utf8_next [] = Utf8_End"
| "utf8_next (a # bs) =
     (if bv a < 128 then Utf8_Char 1 (bv a)
      else if 194 \<le> bv a \<and> bv a < 224 then
        (case bs of [] \<Rightarrow> Utf8_Incomplete
         | b # _ \<Rightarrow> if is_cont b then Utf8_Char 2 ((bv a - 192) * 64 + (bv b - 128)) else Utf8_Invalid 1)
      else if 224 \<le> bv a \<and> bv a < 240 then
        (case bs of [] \<Rightarrow> Utf8_Incomplete
         | b # cs \<Rightarrow>
             if \<not> second3_ok (bv a) (bv b) then Utf8_Invalid 1
             else (case cs of [] \<Rightarrow> Utf8_Incomplete
                   | c # _ \<Rightarrow> if is_cont c
                       then Utf8_Char 3 ((bv a - 224) * 4096 + (bv b - 128) * 64 + (bv c - 128))
                       else Utf8_Invalid 2))
      else if 240 \<le> bv a \<and> bv a < 245 then
        (case bs of [] \<Rightarrow> Utf8_Incomplete
         | b # cs \<Rightarrow>
             if \<not> second4_ok (bv a) (bv b) then Utf8_Invalid 1
             else (case cs of [] \<Rightarrow> Utf8_Incomplete
                   | c # ds \<Rightarrow>
                       if \<not> is_cont c then Utf8_Invalid 2
                       else (case ds of [] \<Rightarrow> Utf8_Incomplete
                             | d # _ \<Rightarrow> if is_cont d
                                 then Utf8_Char 4 ((bv a - 240) * 262144 + (bv b - 128) * 4096
                                        + (bv c - 128) * 64 + (bv d - 128))
                                 else Utf8_Invalid 3)))
      else Utf8_Invalid 1)"

declare utf8_next.simps(2) [simp del]

lemma utf8_next_Nil_iff: "utf8_next bs = Utf8_End \<longleftrightarrow> bs = []"
  by (cases bs) (auto simp: utf8_next.simps(2) split: list.splits)

lemma utf8_next_Char_width:
  "utf8_next bs = Utf8_Char w c \<Longrightarrow> 0 < w \<and> w \<le> length bs \<and> w \<le> 4"
  by (cases bs) (auto simp: utf8_next.simps(2) split: list.splits if_splits)

lemma utf8_next_Invalid_width:
  "utf8_next bs = Utf8_Invalid n \<Longrightarrow> 0 < n \<and> n \<le> length bs \<and> n \<le> 3"
  by (cases bs) (auto simp: utf8_next.simps(2) split: list.splits if_splits)

lemma utf8_next_Incomplete_length: "utf8_next bs = Utf8_Incomplete \<Longrightarrow> 0 < length bs \<and> length bs \<le> 3"
  by (cases bs) (auto simp: utf8_next.simps(2) split: list.splits if_splits)

text \<open>What the front is does not change when more bytes arrive, unless it was cut short.\<close>

lemma utf8_next_append:
  assumes "utf8_next bs \<noteq> Utf8_End" and "utf8_next bs \<noteq> Utf8_Incomplete"
  shows "utf8_next (bs @ cs) = utf8_next bs"
proof -
  consider "bs = []" | a where "bs = [a]" | a b where "bs = [a, b]" | a b c where "bs = [a, b, c]"
    | a b c d r where "bs = a # b # c # d # r"
    by (metis list.exhaust)
  then show ?thesis
  proof cases
    case 1
    with assms show ?thesis by simp
  next
    case 2
    with assms(2) show ?thesis by (auto simp: utf8_next.simps(2) split: if_split_asm)
  next
    case 3
    with assms(2) show ?thesis by (auto simp: utf8_next.simps(2) split: if_split_asm)
  next
    case 4
    with assms(2) show ?thesis by (auto simp: utf8_next.simps(2) split: if_split_asm)
  next
    case 5
    then show ?thesis by (simp add: utf8_next.simps(2))
  qed
qed

function valid_up_to :: "bytes \<Rightarrow> nat" where
  "valid_up_to bs = (case utf8_next bs of Utf8_Char w _ \<Rightarrow> w + valid_up_to (drop w bs) | _ \<Rightarrow> 0)"
  by pat_completeness auto
termination
  by (relation "measure length") (auto dest: utf8_next_Char_width)

declare valid_up_to.simps [simp del]

text \<open>\<open>str::from_utf8\<close>: success, or \<open>valid_up_to\<close> with the optional \<open>error_len\<close>.\<close>

datatype utf8_error = Utf8_Error nat "nat option"

definition from_utf8 :: "bytes \<Rightarrow> utf8_error + string" where
  "from_utf8 bs =
     (let v = valid_up_to bs in
      case utf8_next (drop v bs) of
        Utf8_Invalid n \<Rightarrow> Inl (Utf8_Error v (Some n))
      | Utf8_Incomplete \<Rightarrow> Inl (Utf8_Error v None)
      | _ \<Rightarrow> Inr bs)"

text \<open>U+FFFD REPLACEMENT CHARACTER in UTF-8.\<close>

definition replacement :: string where
  "replacement = [char_of (239::nat), char_of (191::nat), char_of (189::nat)]"

text \<open>\<open>String::from_utf8_lossy\<close>: every invalid sequence, and a sequence cut short at the end, becomes
  one replacement character.\<close>

function from_utf8_lossy :: "bytes \<Rightarrow> string" where
  "from_utf8_lossy bs =
     (case utf8_next bs of
        Utf8_End \<Rightarrow> []
      | Utf8_Char w _ \<Rightarrow> take w bs @ from_utf8_lossy (drop w bs)
      | Utf8_Invalid n \<Rightarrow> replacement @ from_utf8_lossy (drop n bs)
      | Utf8_Incomplete \<Rightarrow> replacement)"
  by pat_completeness auto
termination
  by (relation "measure length") (auto dest: utf8_next_Char_width utf8_next_Invalid_width)

declare from_utf8_lossy.simps [simp del]

text \<open>\<open>str::chars\<close> as scalar values (a Rust string is valid, so every front is a character).\<close>

function chars_of :: "string \<Rightarrow> nat list" where
  "chars_of bs =
     (case utf8_next bs of
        Utf8_Char w c \<Rightarrow> c # chars_of (drop w bs)
      | Utf8_Invalid n \<Rightarrow> 65533 # chars_of (drop n bs)
      | Utf8_Incomplete \<Rightarrow> [65533]
      | Utf8_End \<Rightarrow> [])"
  by pat_completeness auto
termination
  by (relation "measure length") (auto dest: utf8_next_Char_width utf8_next_Invalid_width)

declare chars_of.simps [simp del]

lemma from_utf8_lossy_Nil [simp]: "from_utf8_lossy [] = []"
  by (subst from_utf8_lossy.simps) simp

lemma chars_of_Nil [simp]: "chars_of [] = []"
  by (subst chars_of.simps) simp

lemma valid_up_to_le: "valid_up_to bs \<le> length bs"
proof (induction bs rule: valid_up_to.induct)
  case (1 bs)
  show ?case
  proof (cases "utf8_next bs")
    case (Utf8_Char w c)
    with 1 have "valid_up_to (drop w bs) \<le> length bs - w" by simp
    moreover have "w \<le> length bs" using Utf8_Char by (auto dest: utf8_next_Char_width)
    ultimately show ?thesis using Utf8_Char by (simp add: valid_up_to.simps [of bs])
  qed (simp_all add: valid_up_to.simps [of bs])
qed

lemma front_after_valid: "utf8_next (drop (valid_up_to bs) bs) \<noteq> Utf8_Char w c"
proof (induction bs arbitrary: w c rule: valid_up_to.induct)
  case (1 bs)
  show ?case
  proof (cases "utf8_next bs")
    case (Utf8_Char v d)
    then show ?thesis using 1 [OF Utf8_Char] by (simp add: valid_up_to.simps [of bs] add.commute)
  qed (simp_all add: valid_up_to.simps [of bs])
qed

lemma lossy_after_valid:
  "from_utf8_lossy bs = take (valid_up_to bs) bs @ from_utf8_lossy (drop (valid_up_to bs) bs)"
proof (induction bs rule: valid_up_to.induct)
  case (1 bs)
  show ?case
  proof (cases "utf8_next bs")
    case (Utf8_Char w c)
    from 1 [OF Utf8_Char] show ?thesis
      by (simp add: valid_up_to.simps [of bs] from_utf8_lossy.simps [of bs] Utf8_Char take_add add.commute)
  qed (simp_all add: valid_up_to.simps [of bs])
qed

text \<open>Decoding valid text loses nothing.\<close>

lemma from_utf8_Inr_iff: "from_utf8 bs = Inr s \<longleftrightarrow> s = bs \<and> valid_up_to bs = length bs"
proof -
  let ?v = "valid_up_to bs"
  have "utf8_next (drop ?v bs) = Utf8_End \<longleftrightarrow> ?v = length bs"
    using valid_up_to_le [of bs] by (auto simp: utf8_next_Nil_iff)
  then show ?thesis
    using front_after_valid [of bs]
    by (auto simp: from_utf8_def Let_def split: utf8_front.splits)
qed

lemma lossy_valid: "from_utf8 bs = Inr s \<Longrightarrow> from_utf8_lossy bs = bs"
  using lossy_after_valid [of bs] by (simp add: from_utf8_Inr_iff)

section \<open>Characters and strings\<close>

text \<open>\<open>char::is_whitespace\<close> (Unicode White_Space) and \<open>char::is_control\<close> (general category Cc).\<close>

definition is_whitespace :: "nat \<Rightarrow> bool" where
  "is_whitespace c \<longleftrightarrow> (9 \<le> c \<and> c \<le> 13) \<or> c = 32 \<or> c = 133 \<or> c = 160 \<or> c = 5760
     \<or> (8192 \<le> c \<and> c \<le> 8202) \<or> c = 8232 \<or> c = 8233 \<or> c = 8239 \<or> c = 8287 \<or> c = 12288"

definition is_control :: "nat \<Rightarrow> bool" where
  "is_control c \<longleftrightarrow> c < 32 \<or> (127 \<le> c \<and> c < 160)"

text \<open>\<open>s.trim().is_empty()\<close>.\<close>

definition trim_is_empty :: "string \<Rightarrow> bool" where
  "trim_is_empty s \<longleftrightarrow> list_all is_whitespace (chars_of s)"

lemma trim_is_empty_Nil [simp]: "trim_is_empty []"
  by (simp add: trim_is_empty_def)

definition is_ascii_alphanumeric :: "char \<Rightarrow> bool" where
  "is_ascii_alphanumeric c \<longleftrightarrow>
     (48 \<le> bv c \<and> bv c < 58) \<or> (65 \<le> bv c \<and> bv c < 91) \<or> (97 \<le> bv c \<and> bv c < 123)"

definition ascii_lower :: "char \<Rightarrow> char" where
  "ascii_lower c = (if 65 \<le> bv c \<and> bv c < 91 then char_of (bv c + 32) else c)"

definition eq_ignore_ascii_case :: "string \<Rightarrow> string \<Rightarrow> bool" where
  "eq_ignore_ascii_case s t \<longleftrightarrow> map ascii_lower s = map ascii_lower t"

fun contains_sub :: "string \<Rightarrow> string \<Rightarrow> bool" where
  "contains_sub p [] = (p = [])"
| "contains_sub p (c # cs) = (prefix p (c # cs) \<or> contains_sub p cs)"

lemma contains_sub_iff: "contains_sub p s \<longleftrightarrow> sublist p s"
  by (induction s) (auto simp: sublist_Cons_right)

fun join_with :: "string \<Rightarrow> string list \<Rightarrow> string" where
  "join_with sep [] = []"
| "join_with sep [x] = x"
| "join_with sep (x # xs) = x @ sep @ join_with sep xs"

section \<open>Paths\<close>

datatype component = RootDir | CurDir | ParentDir | Normal string

fun split_on :: "char \<Rightarrow> string \<Rightarrow> string list" where
  "split_on c [] = [[]]"
| "split_on c (d # ds) =
     (if d = c then [] # split_on c ds
      else (case split_on c ds of [] \<Rightarrow> [[d]] | x # xs \<Rightarrow> (d # x) # xs))"

lemma split_on_nonempty: "split_on c s \<noteq> []"
  by (induction s) (auto split: list.splits)

definition named_components :: "string list \<Rightarrow> component list" where
  "named_components parts =
     map (\<lambda>x. if x = ''..'' then ParentDir else Normal x) (filter (\<lambda>x. x \<noteq> [] \<and> x \<noteq> ''.'') parts)"

definition is_absolute :: "string \<Rightarrow> bool" where
  "is_absolute p \<longleftrightarrow> (case p of [] \<Rightarrow> False | c # _ \<Rightarrow> c = CHR ''/'')"

definition components :: "string \<Rightarrow> component list" where
  "components p =
     (let parts = split_on (CHR ''/'') p in
      if is_absolute p then RootDir # named_components parts
      else (if hd parts = ''.'' then [CurDir] else []) @ named_components parts)"

text \<open>\<open>PathBuf\<close> equality and \<open>starts_with\<close> compare components; \<open>join\<close> is \<open>PathBuf::push\<close>.\<close>

definition path_eq :: "string \<Rightarrow> string \<Rightarrow> bool" where
  "path_eq p q \<longleftrightarrow> components p = components q"

definition path_starts_with :: "string \<Rightarrow> string \<Rightarrow> bool" where
  "path_starts_with p base \<longleftrightarrow> prefix (components base) (components p)"

definition path_join :: "string \<Rightarrow> string \<Rightarrow> string" where
  "path_join base p =
     (if is_absolute p \<or> base = [] then p
      else if last base = CHR ''/'' then base @ p
      else base @ ''/'' @ p)"

text \<open>\<open>Path::parent\<close>, as the components of the parent, and \<open>Path::file_name\<close>.\<close>

definition path_parent :: "string \<Rightarrow> component list option" where
  "path_parent p =
     (let cs = components p in if cs = [] \<or> last cs = RootDir then None else Some (butlast cs))"

definition path_file_name :: "string \<Rightarrow> string option" where
  "path_file_name p =
     (case last_opt (components p) of Some (Normal n) \<Rightarrow> Some n | _ \<Rightarrow> None)"

lemma path_eq_starts_with: "path_eq p q \<Longrightarrow> path_starts_with p q"
  by (simp add: path_eq_def path_starts_with_def)

lemma path_starts_with_trans: "path_starts_with p q \<Longrightarrow> path_starts_with q r \<Longrightarrow> path_starts_with p r"
  by (auto simp: path_starts_with_def intro: prefix_order.trans)

end
