(* ===== verification/Errors.thy ===== *)
theory Errors
  imports Text
begin

text \<open>
  The crate's error type (\<open>src/error.rs\<close>), its \<open>Display\<close>, and the wire form an error takes
  (\<open>ProtocolError\<close> in \<open>src/protocol.rs\<close>). Errors of third-party crates are carried as a value of
  \<open>db_error\<close> (SQLite) or as their message (I/O, JSON); how those render is the parameter
  \<open>display_env\<close>.
\<close>

datatype db_error =
    FromSqlConversionFailure nat string
  | ConstraintViolation string

datatype error =
    Io string
  | Database db_error
  | StorageUnavailable string
  | Json string
  | Config string
  | WorkspaceNotFound string
  | ExecutionNotFound string
  | AgentSessionNotFound string
  | OutsideWorkspace string string
  | InvalidRequest string
  | Protocol string
  | ProtocolVersionMismatch nat nat
  | DaemonUpgradeRequired nat string
  | DaemonUnavailable string
  | DaemonDraining
  | Timeout
  | AlreadyTerminal string
  | PermissionDenied string

type_synonym 'a result = "error + 'a"

text \<open>How a SQLite error and the \<open>Debug\<close> form of a path are rendered.\<close>

record display_env =
  show_db :: "db_error \<Rightarrow> string"
  debug_path :: "string \<Rightarrow> string"

fun error_display :: "display_env \<Rightarrow> error \<Rightarrow> string" where
  "error_display d (Io m) = ''I/O error: '' @ m"
| "error_display d (Database e) = ''database error: '' @ show_db d e"
| "error_display d (StorageUnavailable m) = ''storage unavailable: '' @ m"
| "error_display d (Json m) = ''serialization error: '' @ m"
| "error_display d (Config m) = ''configuration error: '' @ m"
| "error_display d (WorkspaceNotFound m) = ''workspace not found: '' @ m"
| "error_display d (ExecutionNotFound m) = ''execution not found: '' @ m"
| "error_display d (AgentSessionNotFound m) = ''agent session not found: '' @ m"
| "error_display d (OutsideWorkspace p w) =
     ''path '' @ debug_path d p @ '' is outside workspace '' @ debug_path d w"
| "error_display d (InvalidRequest m) = ''invalid request: '' @ m"
| "error_display d (Protocol m) = ''protocol error: '' @ m"
| "error_display d (ProtocolVersionMismatch c m) =
     ''daemon protocol version '' @ show_nat m @ '' is incompatible with client protocol version ''
       @ show_nat c"
| "error_display d (DaemonUpgradeRequired pid cap) =
     ''daemon process '' @ show_nat pid @ '' does not support '' @ cap
       @ ''; run `loom daemon restart`''"
| "error_display d (DaemonUnavailable p) = ''daemon is unavailable at '' @ debug_path d p"
| "error_display d DaemonDraining = ''daemon is draining and cannot accept new executions''"
| "error_display d Timeout = ''operation timed out''"
| "error_display d (AlreadyTerminal m) = ''execution is already terminal: '' @ m"
| "error_display d (PermissionDenied m) = ''permission denied: '' @ m"

section \<open>Errors on the wire\<close>

record protocol_error =
  pe_code :: string
  pe_message :: string

fun error_code :: "error \<Rightarrow> string" where
  "error_code (WorkspaceNotFound _) = ''workspace_not_found''"
| "error_code (ExecutionNotFound _) = ''execution_not_found''"
| "error_code (AgentSessionNotFound _) = ''agent_session_not_found''"
| "error_code (OutsideWorkspace _ _) = ''outside_workspace''"
| "error_code (InvalidRequest _) = ''invalid_request''"
| "error_code (AlreadyTerminal _) = ''already_terminal''"
| "error_code (PermissionDenied _) = ''permission_denied''"
| "error_code (ProtocolVersionMismatch _ _) = ''protocol_version_mismatch''"
| "error_code (DaemonUpgradeRequired _ _) = ''daemon_upgrade_required''"
| "error_code DaemonDraining = ''daemon_draining''"
| "error_code Timeout = ''timeout''"
| "error_code (Config _) = ''configuration_error''"
| "error_code (StorageUnavailable _) = ''storage_unavailable''"
| "error_code (Io _) = ''internal_error''"
| "error_code (Database _) = ''internal_error''"
| "error_code (Json _) = ''internal_error''"
| "error_code (Protocol _) = ''internal_error''"
| "error_code (DaemonUnavailable _) = ''internal_error''"

definition protocol_error_from :: "display_env \<Rightarrow> error \<Rightarrow> protocol_error" where
  "protocol_error_from d e = \<lparr>pe_code = error_code e, pe_message = error_display d e\<rparr>"

definition into_error :: "protocol_error \<Rightarrow> error" where
  "into_error p = Protocol (pe_code p @ '': '' @ pe_message p)"

text \<open>The code of an error and the text of an error are recoverable from the client's error, since no
  code holds a colon.\<close>

lemma error_code_no_colon: "CHR '':'' \<notin> set (error_code e)"
  by (cases e) auto

lemma append_at_first_sep:
  "x @ c # xs = y @ c # ys \<Longrightarrow> c \<notin> set x \<Longrightarrow> c \<notin> set y \<Longrightarrow> x = y \<and> xs = ys"
proof (induction x arbitrary: y)
  case Nil
  then show ?case by (cases y) auto
next
  case (Cons a x)
  then show ?case by (cases y) auto
qed

lemma into_error_code_inj:
  assumes "into_error (protocol_error_from d e) = into_error (protocol_error_from d f)"
  shows "error_code e = error_code f \<and> error_display d e = error_display d f"
proof -
  from assms have "error_code e @ CHR '':'' # (CHR '' '' # error_display d e)
      = error_code f @ CHR '':'' # (CHR '' '' # error_display d f)"
    by (simp add: into_error_def protocol_error_from_def)
  from append_at_first_sep [OF this error_code_no_colon error_code_no_colon] show ?thesis by simp
qed

end
