(* ===== verification/Model.thy ===== *)
theory Model
  imports Errors
begin

text \<open>
  The data the daemon, its clients and the store exchange (\<open>src/model.rs\<close>): command
  specifications, execution requests and records, agent sessions, turns and actions, events, and
  their validation. Record fields carry a prefix naming their struct. A \<open>BTreeMap\<close> is the list of
  its entries in key order.

  The base64 codec (crate \<open>base64\<close>) is the parameter \<open>base64\<close>; where a property relies on it, the
  hypothesis is \<open>b64_ok\<close>: decoding inverts encoding.
\<close>

record base64 =
  b64_encode :: "bytes \<Rightarrow> string"
  b64_decode :: "string \<Rightarrow> string + bytes"

definition b64_ok :: "base64 \<Rightarrow> bool" where
  "b64_ok B \<longleftrightarrow> (\<forall>d. b64_decode B (b64_encode B d) = Inr d)"

definition PROTOCOL_VERSION :: nat where
  "PROTOCOL_VERSION = 2"

section \<open>Commands\<close>

datatype command_spec =
    Argv string "string list"
  | Shell string "string option"

fun command_validate :: "command_spec \<Rightarrow> unit result" where
  "command_validate (Argv program args) =
     (if program = [] then Inl (InvalidRequest ''program must not be empty'') else Inr ())"
| "command_validate (Shell command shell) =
     (if command = [] then Inl (InvalidRequest ''shell command must not be empty'') else Inr ())"

definition squote :: char where "squote = CHR 0x27"
definition backslash :: char where "backslash = CHR 0x5C"

definition display_safe :: "char \<Rightarrow> bool" where
  "display_safe c \<longleftrightarrow> is_ascii_alphanumeric c \<or> c \<in> set ''-._/:=@+''"

definition escape_squotes :: "string \<Rightarrow> string" where
  "escape_squotes s =
     concat (map (\<lambda>c. if c = squote then [squote, backslash, squote, squote] else [c]) s)"

definition shell_escape_for_display :: "string \<Rightarrow> string" where
  "shell_escape_for_display value =
     (if list_all display_safe value then value
      else [squote] @ escape_squotes value @ [squote])"

fun command_display :: "command_spec \<Rightarrow> string" where
  "command_display (Argv program args) =
     join_with '' '' (map shell_escape_for_display (program # args))"
| "command_display (Shell command shell) = command"

section \<open>Execution requests\<close>

record initiator =
  in_kind :: string
  in_name :: "string option"
  in_session_id :: "string option"

definition default_client_kind :: string where
  "default_client_kind = ''unknown''"

definition default_initiator :: initiator where
  "default_initiator = \<lparr>in_kind = default_client_kind, in_name = None, in_session_id = None\<rparr>"

record execution_request =
  rq_workspace_id :: string
  rq_cwd :: "string option"
  rq_command :: command_spec
  rq_env :: "(string \<times> string) list"
  rq_stdin_base64 :: "string option"
  rq_initiator :: initiator
  rq_capture_limit_bytes :: "nat option"

definition decode_stdin :: "base64 \<Rightarrow> string \<Rightarrow> bytes result" where
  "decode_stdin B s =
     (case b64_decode B s of
        Inl e \<Rightarrow> Inl (InvalidRequest (''invalid stdin_base64: '' @ e))
      | Inr d \<Rightarrow> Inr d)"

definition stdin_bytes :: "base64 \<Rightarrow> execution_request \<Rightarrow> bytes option result" where
  "stdin_bytes B r =
     (case rq_stdin_base64 r of
        None \<Rightarrow> Inr None
      | Some s \<Rightarrow> bind_res (decode_stdin B s) (\<lambda>d. Inr (Some d)))"

definition request_validate :: "base64 \<Rightarrow> execution_request \<Rightarrow> unit result" where
  "request_validate B r =
     (if rq_workspace_id r = [] then Inl (InvalidRequest ''workspace_id must not be empty'')
      else bind_res (command_validate (rq_command r)) (\<lambda>_.
           bind_res (case rq_stdin_base64 r of None \<Rightarrow> Inr () | Some s \<Rightarrow>
                       bind_res (decode_stdin B s) (\<lambda>_. Inr ())) (\<lambda>_.
           if list_ex (\<lambda>(key, _). key = [] \<or> CHR ''='' \<in> set key) (rq_env r)
           then Inl (InvalidRequest (''environment keys must be non-empty and must not contain ''
                       @ [squote] @ ''='' @ [squote]))
           else Inr ())))"

section \<open>Executions\<close>

datatype execution_state = Queued | Running | Finished | Cancelled | Interrupted

fun is_terminal :: "execution_state \<Rightarrow> bool" where
  "is_terminal Finished = True"
| "is_terminal Cancelled = True"
| "is_terminal Interrupted = True"
| "is_terminal Queued = False"
| "is_terminal Running = False"

fun state_str :: "execution_state \<Rightarrow> string" where
  "state_str Queued = ''queued''"
| "state_str Running = ''running''"
| "state_str Finished = ''finished''"
| "state_str Cancelled = ''cancelled''"
| "state_str Interrupted = ''interrupted''"

datatype execution_outcome =
    Exited int
  | Signaled int
  | SpawnError string
  | OutcomeCancelled "int option"
  | OutcomeInterrupted string

record execution =
  ex_id :: string
  ex_workspace_id :: string
  ex_state :: execution_state
  ex_command :: command_spec
  ex_command_display :: string
  ex_cwd :: string
  ex_env_keys :: "string list"
  ex_initiator :: initiator
  ex_created_at_ms :: int
  ex_started_at_ms :: "int option"
  ex_ended_at_ms :: "int option"
  ex_duration_ms :: "nat option"
  ex_pid :: "nat option"
  ex_pgid :: "int option"
  ex_outcome :: "execution_outcome option"
  ex_captured_bytes :: nat
  ex_output_truncated :: bool
  ex_last_seq :: nat

section \<open>Agent sessions\<close>

datatype agent_session_state = Recording | SessionFinished | SessionInterrupted

definition session_is_terminal :: "agent_session_state \<Rightarrow> bool" where
  "session_is_terminal s \<longleftrightarrow> s \<noteq> Recording"

fun session_state_str :: "agent_session_state \<Rightarrow> string" where
  "session_state_str Recording = ''recording''"
| "session_state_str SessionFinished = ''finished''"
| "session_state_str SessionInterrupted = ''interrupted''"

record agent_session =
  as_id :: string
  as_workspace_id :: string
  as_state :: agent_session_state
  as_agent_kind :: string
  as_name :: "string option"
  as_command :: command_spec
  as_command_display :: string
  as_cwd :: string
  as_created_at_ms :: int
  as_ended_at_ms :: "int option"
  as_duration_ms :: "nat option"
  as_recorder_pid :: nat
  as_outcome :: "execution_outcome option"
  as_captured_bytes :: nat
  as_output_truncated :: bool
  as_initial_cols :: nat
  as_initial_rows :: nat
  as_cast_path :: string
  as_html_path :: string

record agent_session_request =
  sr_id :: string
  sr_workspace_id :: string
  sr_agent_kind :: string
  sr_name :: "string option"
  sr_command :: command_spec
  sr_cwd :: string
  sr_recorder_pid :: nat
  sr_initial_cols :: nat
  sr_initial_rows :: nat
  sr_cast_path :: string
  sr_html_path :: string

definition session_request_validate :: "agent_session_request \<Rightarrow> unit result" where
  "session_request_validate r =
     (if sr_id r = [] \<or> sr_workspace_id r = [] \<or> trim_is_empty (sr_agent_kind r)
      then Inl (InvalidRequest ''id, workspace_id, and agent_kind must not be empty'')
      else if sr_initial_cols r = 0 \<or> sr_initial_rows r = 0
      then Inl (InvalidRequest ''terminal dimensions must be greater than zero'')
      else command_validate (sr_command r))"

record agent_session_finish =
  sf_state :: agent_session_state
  sf_outcome :: execution_outcome
  sf_captured_bytes :: nat
  sf_output_truncated :: bool

section \<open>Agent turns, actions and events\<close>

datatype agent_turn_state = TurnActive | TurnCompleted | TurnFailed | TurnInterrupted

fun turn_state_str :: "agent_turn_state \<Rightarrow> string" where
  "turn_state_str TurnActive = ''active''"
| "turn_state_str TurnCompleted = ''completed''"
| "turn_state_str TurnFailed = ''failed''"
| "turn_state_str TurnInterrupted = ''interrupted''"

record agent_turn =
  tn_id :: string
  tn_session_id :: string
  tn_provider :: string
  tn_provider_session_id :: string
  tn_provider_turn_id :: "string option"
  tn_state :: agent_turn_state
  tn_prompt :: string
  tn_created_at_ms :: int
  tn_ended_at_ms :: "int option"
  tn_last_assistant_message :: "string option"

datatype agent_action_state = ActionRunning | ActionCompleted | ActionFailed

fun action_state_str :: "agent_action_state \<Rightarrow> string" where
  "action_state_str ActionRunning = ''running''"
| "action_state_str ActionCompleted = ''completed''"
| "action_state_str ActionFailed = ''failed''"

record agent_action =
  ac_id :: string
  ac_turn_id :: string
  ac_provider_action_id :: string
  ac_tool_name :: string
  ac_state :: agent_action_state
  ac_execution_id :: "string option"
  ac_created_at_ms :: int
  ac_ended_at_ms :: "int option"

datatype agent_event =
    PromptSubmitted string
  | ToolStarted string string
  | ToolFinished string string bool "string option"
  | TurnFinished bool "string option"

record agent_event_request =
  ae_session_id :: string
  ae_provider :: string
  ae_provider_session_id :: string
  ae_provider_turn_id :: "string option"
  ae_event :: agent_event

fun tool_fields_ok :: "agent_event \<Rightarrow> unit result" where
  "tool_fields_ok (PromptSubmitted prompt) =
     (if prompt = [] then Inl (InvalidRequest ''agent prompt must not be empty'') else Inr ())"
| "tool_fields_ok (ToolStarted action_id tool_name) =
     (if trim_is_empty action_id \<or> trim_is_empty tool_name
      then Inl (InvalidRequest ''action_id and tool_name must not be empty'') else Inr ())"
| "tool_fields_ok (ToolFinished action_id tool_name failed execution_id) =
     (if trim_is_empty action_id \<or> trim_is_empty tool_name
      then Inl (InvalidRequest ''action_id and tool_name must not be empty'') else Inr ())"
| "tool_fields_ok (TurnFinished failed message) = Inr ()"

definition event_request_validate :: "agent_event_request \<Rightarrow> unit result" where
  "event_request_validate r =
     (if trim_is_empty (ae_session_id r) \<or> trim_is_empty (ae_provider r)
         \<or> trim_is_empty (ae_provider_session_id r)
      then Inl (InvalidRequest ''session_id, provider, and provider_session_id must not be empty'')
      else if (case ae_provider_turn_id r of None \<Rightarrow> False | Some v \<Rightarrow> trim_is_empty v)
      then Inl (InvalidRequest ''provider_turn_id must not be empty when present'')
      else tool_fields_ok (ae_event r))"

section \<open>Statistics, workspaces, events\<close>

record execution_status_counts =
  sc_queued :: nat
  sc_running :: nat
  sc_exited_zero :: nat
  sc_exited_nonzero :: nat
  sc_signaled :: nat
  sc_spawn_error :: nat
  sc_cancelled :: nat
  sc_interrupted :: nat
  sc_unknown_terminal :: nat

record initiator_stats =
  is_kind :: string
  is_count :: nat

record workspace =
  ws_id :: string
  ws_name :: string
  ws_root :: string
  ws_created_at_ms :: int

record execution_stats =
  st_workspace :: workspace
  st_since_ms :: int
  st_until_ms :: int
  st_total :: nat
  st_status :: execution_status_counts
  st_by_initiator :: "initiator_stats list"
  st_captured_bytes :: nat
  st_truncated_executions :: nat
  st_duration_samples :: nat
  st_duration_p50_ms :: "nat option"
  st_duration_p95_ms :: "nat option"

text \<open>\<open>Workspace::resolve_cwd\<close>. \<open>canonicalize\<close> is the file system's.\<close>

definition resolve_cwd :: "(string \<Rightarrow> string result) \<Rightarrow> workspace \<Rightarrow> string option \<Rightarrow> string result" where
  "resolve_cwd canonicalize w requested =
     (let root = ws_root w;
          candidate = (case requested of
              Some path \<Rightarrow> if is_absolute path then path else path_join root path
            | None \<Rightarrow> root)
      in bind_res (canonicalize candidate) (\<lambda>canonical.
           if path_eq canonical root \<or> path_starts_with canonical root then Inr canonical
           else Inl (OutsideWorkspace canonical root)))"

datatype output_stream = Stdout | Stderr

fun stream_str :: "output_stream \<Rightarrow> string" where
  "stream_str Stdout = ''stdout''"
| "stream_str Stderr = ''stderr''"

datatype event_payload =
    EvStarted nat int
  | EvOutput output_stream string
  | EvCaptureTruncated nat
  | EvFinished execution_outcome

record execution_event =
  ev_execution_id :: string
  ev_seq :: nat
  ev_timestamp_ms :: int
  ev_payload :: event_payload

record read_output_response =
  ro_execution :: execution
  ro_events :: "execution_event list"
  ro_next_seq :: nat
  ro_has_more :: bool

record wait_response =
  wr_execution :: execution
  wr_events :: "execution_event list"
  wr_next_seq :: nat
  wr_has_more :: bool
  wr_timed_out :: bool

record agent_session_detail =
  sd_session :: agent_session
  sd_executions :: "execution list"
  sd_turns :: "agent_turn list"
  sd_actions :: "agent_action list"

record health =
  he_protocol_version :: nat
  he_daemon_pid :: nat
  he_database_path :: string
  he_socket_path :: string
  he_server_version :: "string option"
  he_capabilities :: "string list"
  he_active_executions :: "nat option"
  he_active_sessions :: "nat option"

end
