(* ===== verification/Tables.thy ===== *)
theory Tables
  imports Model
begin

text \<open>
  The fragment of SQL the store uses, over tables held as lists of rows in insertion order:
  \<open>SELECT ... WHERE\<close> (\<open>find\<close>, \<open>filter\<close>), \<open>UPDATE ... WHERE\<close> (\<open>update_where\<close>), \<open>DELETE ... WHERE\<close>
  (\<open>delete_where\<close>), \<open>ORDER BY\<close> with \<open>LIMIT\<close>. An \<open>ORDER BY\<close> leaves the order of equal keys open in
  SQL; here equal keys keep insertion order. The lemmas say what a lookup returns after each of
  them, and that primary keys stay distinct.
\<close>

definition update_where :: "('r \<Rightarrow> bool) \<Rightarrow> ('r \<Rightarrow> 'r) \<Rightarrow> 'r list \<Rightarrow> 'r list" where
  "update_where p f rows = map (\<lambda>r. if p r then f r else r) rows"

definition delete_where :: "('r \<Rightarrow> bool) \<Rightarrow> 'r list \<Rightarrow> 'r list" where
  "delete_where p rows = filter (\<lambda>r. \<not> p r) rows"

definition order_by :: "('r \<Rightarrow> 'k::linorder) \<Rightarrow> 'r list \<Rightarrow> 'r list" where
  "order_by k rows = sort_key k rows"

definition order_by_desc :: "('r \<Rightarrow> int) \<Rightarrow> 'r list \<Rightarrow> 'r list" where
  "order_by_desc k rows = sort_key (\<lambda>r. - k r) rows"

section \<open>Lookup after update and delete\<close>

lemma update_where_Nil [simp]: "update_where p f [] = []"
  by (simp add: update_where_def)

lemma update_where_append [simp]: "update_where p f (xs @ ys) = update_where p f xs @ update_where p f ys"
  by (simp add: update_where_def)

lemma length_update_where [simp]: "length (update_where p f rows) = length rows"
  by (simp add: update_where_def)

lemma set_update_where: "set (update_where p f rows) = (\<lambda>r. if p r then f r else r) ` set rows"
  by (simp add: update_where_def)

lemma map_update_where [store_simps]:
  "(\<And>r. p r \<Longrightarrow> k (f r) = k r) \<Longrightarrow> map k (update_where p f rows) = map k rows"
  by (simp add: update_where_def)

lemma find_update_where [store_simps]:
  "(\<And>r. p r \<Longrightarrow> q (f r) = q r) \<Longrightarrow>
   find q (update_where p f rows) = map_option (\<lambda>r. if p r then f r else r) (find q rows)"
  by (induction rows) (auto simp: update_where_def)

lemma filter_update_where:
  "(\<And>r. p r \<Longrightarrow> q (f r) = q r) \<Longrightarrow> filter q (update_where p f rows) = update_where p f (filter q rows)"
  by (induction rows) (auto simp: update_where_def)

lemma update_where_none: "(\<And>r. r \<in> set rows \<Longrightarrow> \<not> p r) \<Longrightarrow> update_where p f rows = rows"
  by (induction rows) (auto simp: update_where_def)

lemma ball_update_where [store_simps]:
  "(\<forall>r \<in> set (update_where p f rows). Q r) \<longleftrightarrow> (\<forall>r \<in> set rows. if p r then Q (f r) else Q r)"
  by (auto simp: set_update_where split: if_splits)

lemma set_delete_where [store_simps]: "set (delete_where p rows) = {r \<in> set rows. \<not> p r}"
  by (simp add: delete_where_def)

lemma distinct_map_delete_where:
  "distinct (map k rows) \<Longrightarrow> distinct (map k (delete_where p rows))"
  by (simp add: delete_where_def distinct_map_filter)

lemma find_delete_where_other:
  "(\<And>r. q r \<Longrightarrow> \<not> p r) \<Longrightarrow> find q (delete_where p rows) = find q rows"
  by (induction rows) (auto simp: delete_where_def)

lemma find_delete_where_same: "(\<And>r. q r \<Longrightarrow> p r) \<Longrightarrow> find q (delete_where p rows) = None"
  by (auto simp: delete_where_def find_None_iff)

lemma filter_delete_where:
  "(\<And>r. q r \<Longrightarrow> \<not> p r) \<Longrightarrow> filter q (delete_where p rows) = filter q rows"
  by (induction rows) (auto simp: delete_where_def)

lemma delete_where_delete_where:
  "delete_where p (delete_where q rows) = delete_where (\<lambda>r. q r \<or> p r) rows"
  by (induction rows) (auto simp: delete_where_def)

lemma length_delete_where: "length (delete_where p rows) + length (filter p rows) = length rows"
  by (induction rows) (auto simp: delete_where_def)

section \<open>Ordering\<close>

lemma set_order_by [simp]: "set (order_by k rows) = set rows"
  by (simp add: order_by_def)

lemma length_order_by [simp]: "length (order_by k rows) = length rows"
  by (simp add: order_by_def)

lemma sorted_order_by: "sorted (map k (order_by k rows))"
  by (simp add: order_by_def)

lemma set_order_by_desc [simp]: "set (order_by_desc k rows) = set rows"
  by (simp add: order_by_desc_def)

lemma sorted_order_by_desc: "sorted (rev (map k (order_by_desc k rows)))"
proof -
  let ?s = "sort_key (\<lambda>r. - k r) rows"
  have "sorted_wrt (\<lambda>a b. - k a \<le> - k b) ?s"
    using sorted_sort_key [of "\<lambda>r. - k r" rows] by (simp add: sorted_map)
  then have "sorted_wrt (\<lambda>a b. k b \<le> k a) ?s" by simp
  then show ?thesis
    by (simp add: order_by_desc_def sorted_wrt_rev rev_map [symmetric] sorted_wrt_map)
qed

section \<open>Primary keys\<close>

text \<open>A table with distinct keys determines the row of a key.\<close>

lemma key_unique:
  assumes "distinct (map k rows)" and "x \<in> set rows" and "y \<in> set rows" and "k x = k y"
  shows "x = y"
  using assms by (auto simp: distinct_map inj_on_def)

lemma find_key_iff:
  assumes "distinct (map k rows)"
  shows "find (\<lambda>r. k r = a) rows = Some x \<longleftrightarrow> x \<in> set rows \<and> k x = a"
  using assms find_distinct [of k rows x] by (auto dest: find_Some_mem)

lemma find_key_None_iff: "find (\<lambda>r. k r = a) rows = None \<longleftrightarrow> a \<notin> k ` set rows"
  by (auto simp: find_None_iff)

lemma list_ex_key_iff: "list_ex (\<lambda>r. k r = a) rows \<longleftrightarrow> a \<in> k ` set rows"
  by (auto simp: list_ex_iff)

lemma find_key_snoc [store_simps]:
  "find (\<lambda>r. k r = a) (rows @ [x]) =
     (case find (\<lambda>r. k r = a) rows of Some y \<Rightarrow> Some y | None \<Rightarrow> if k x = a then Some x else None)"
  by (induction rows) auto

end
