(* ===== verification/StoreState.thy ===== *)
theory StoreState
  imports Tables
begin

text \<open>
  The SQLite state of the store (\<open>src/store.rs\<close>, schema version 4): one record per table row, the
  database as the six tables, and the functions that turn a row into the model's record
  (\<open>*_from_row\<close>) with the state parsers they use.

  A TEXT column that holds an enum's name is a string, so that the parsers can fail as they do in
  the code. A column that holds JSON carries the value it encodes (\<open>event_json\<close> for the payloads of
  events): serde's derived encoders and decoders are inverse to each other. Counters that only the
  store writes (\<open>seq\<close>, \<open>last_seq\<close>, \<open>captured_bytes\<close> of executions) stay below \<open>2 ^ 63\<close>, so their casts
  between \<open>i64\<close> and \<open>u64\<close> are the identity and they are kept as \<open>nat\<close>; columns a client can fill
  with any \<open>u64\<close> keep the cast.
\<close>

section \<open>Rows\<close>

record workspace_row =
  wk_workspace :: workspace
  wk_active :: bool

record session_row =
  sn_id :: string
  sn_workspace_id :: string
  sn_state :: string
  sn_agent_kind :: string
  sn_name :: "string option"
  sn_command :: command_spec
  sn_cwd :: string
  sn_created_at_ms :: int
  sn_ended_at_ms :: "int option"
  sn_recorder_pid :: nat
  sn_outcome :: "execution_outcome option"
  sn_captured_bytes :: int
  sn_output_truncated :: bool
  sn_initial_cols :: nat
  sn_initial_rows :: nat
  sn_cast_path :: string
  sn_html_path :: string

record execution_row =
  xr_id :: string
  xr_workspace_id :: string
  xr_state :: string
  xr_command :: command_spec
  xr_cwd :: string
  xr_env_keys :: "string list"
  xr_initiator :: initiator
  xr_created_at_ms :: int
  xr_started_at_ms :: "int option"
  xr_ended_at_ms :: "int option"
  xr_pid :: "nat option"
  xr_pgid :: "int option"
  xr_outcome :: "execution_outcome option"
  xr_captured_bytes :: nat
  xr_output_truncated :: bool
  xr_last_seq :: nat
  xr_session_id :: "string option"

datatype event_json = JStarted nat int | JTruncated nat | JOutcome execution_outcome

record event_row =
  er_execution_id :: string
  er_seq :: nat
  er_timestamp_ms :: int
  er_kind :: string
  er_stream :: "string option"
  er_data :: "bytes option"
  er_payload :: "event_json option"

record turn_row =
  tr_id :: string
  tr_session_id :: string
  tr_provider :: string
  tr_provider_session_id :: string
  tr_provider_turn_id :: "string option"
  tr_state :: string
  tr_prompt :: string
  tr_created_at_ms :: int
  tr_ended_at_ms :: "int option"
  tr_last_assistant_message :: "string option"

record action_row =
  cr_id :: string
  cr_turn_id :: string
  cr_provider_action_id :: string
  cr_tool_name :: string
  cr_state :: string
  cr_execution_id :: "string option"
  cr_created_at_ms :: int
  cr_ended_at_ms :: "int option"

record database =
  db_workspaces :: "workspace_row list"
  db_sessions :: "session_row list"
  db_executions :: "execution_row list"
  db_events :: "event_row list"
  db_turns :: "turn_row list"
  db_actions :: "action_row list"

definition empty_db :: database where
  "empty_db = \<lparr>db_workspaces = [], db_sessions = [], db_executions = [], db_events = [],
     db_turns = [], db_actions = []\<rparr>"

text \<open>A store operation returns its result and the database it leaves; an operation inside a
  transaction that fails leaves the database it found.\<close>

type_synonym 'a db_result = "'a result \<times> database"

section \<open>Parsing states\<close>

definition parse_state :: "nat \<Rightarrow> string \<Rightarrow> execution_state result" where
  "parse_state index v =
     (if v = ''queued'' then Inr Queued
      else if v = ''running'' then Inr Running
      else if v = ''finished'' then Inr Finished
      else if v = ''cancelled'' then Inr Cancelled
      else if v = ''interrupted'' then Inr Interrupted
      else Inl (Database (FromSqlConversionFailure index (''unknown execution state '' @ v))))"

definition parse_agent_session_state :: "nat \<Rightarrow> string \<Rightarrow> agent_session_state result" where
  "parse_agent_session_state index v =
     (if v = ''recording'' then Inr Recording
      else if v = ''finished'' then Inr SessionFinished
      else if v = ''interrupted'' then Inr SessionInterrupted
      else Inl (Database (FromSqlConversionFailure index (''unknown agent session state '' @ v))))"

definition parse_agent_turn_state :: "nat \<Rightarrow> string \<Rightarrow> agent_turn_state result" where
  "parse_agent_turn_state index v =
     (if v = ''active'' then Inr TurnActive
      else if v = ''completed'' then Inr TurnCompleted
      else if v = ''failed'' then Inr TurnFailed
      else if v = ''interrupted'' then Inr TurnInterrupted
      else Inl (Database (FromSqlConversionFailure index (''unknown agent turn state '' @ v))))"

definition parse_agent_action_state :: "nat \<Rightarrow> string \<Rightarrow> agent_action_state result" where
  "parse_agent_action_state index v =
     (if v = ''running'' then Inr ActionRunning
      else if v = ''completed'' then Inr ActionCompleted
      else if v = ''failed'' then Inr ActionFailed
      else Inl (Database (FromSqlConversionFailure index (''unknown agent action state '' @ v))))"

lemma parse_state_str [simp]: "parse_state i (state_str s) = Inr s"
  by (cases s) (simp_all add: parse_state_def)

lemma parse_session_state_str [simp]: "parse_agent_session_state i (session_state_str s) = Inr s"
  by (cases s) (simp_all add: parse_agent_session_state_def)

lemma parse_turn_state_str [simp]: "parse_agent_turn_state i (turn_state_str s) = Inr s"
  by (cases s) (simp_all add: parse_agent_turn_state_def)

lemma parse_action_state_str [simp]: "parse_agent_action_state i (action_state_str s) = Inr s"
  by (cases s) (simp_all add: parse_agent_action_state_def)

lemma parse_state_Inr_iff: "parse_state i v = Inr s \<longleftrightarrow> v = state_str s"
  by (cases s) (auto simp: parse_state_def split: if_splits)

lemma parse_session_state_Inr_iff: "parse_agent_session_state i v = Inr s \<longleftrightarrow> v = session_state_str s"
  by (cases s) (auto simp: parse_agent_session_state_def split: if_splits)

lemma parse_turn_state_Inr_iff: "parse_agent_turn_state i v = Inr s \<longleftrightarrow> v = turn_state_str s"
  by (cases s) (auto simp: parse_agent_turn_state_def split: if_splits)

lemma parse_action_state_Inr_iff: "parse_agent_action_state i v = Inr s \<longleftrightarrow> v = action_state_str s"
  by (cases s) (auto simp: parse_agent_action_state_def split: if_splits)

lemma state_str_inj: "state_str s = state_str t \<longleftrightarrow> s = t"
  by (metis parse_state_str sum.inject(2))

text \<open>The strings the SQL statements compare with.\<close>

definition terminal_str :: "string \<Rightarrow> bool" where
  "terminal_str v \<longleftrightarrow> v = ''finished'' \<or> v = ''cancelled'' \<or> v = ''interrupted''"

lemma terminal_str_state [simp]: "terminal_str (state_str s) = is_terminal s"
  by (cases s) (simp_all add: terminal_str_def)

section \<open>From rows to records\<close>

text \<open>\<open>row_u64\<close>: a non-negative reading of an INTEGER column.\<close>

definition row_u64 :: "int \<Rightarrow> nat" where
  "row_u64 v = nat (max v 0)"

definition execution_from_row :: "int \<Rightarrow> execution_row \<Rightarrow> execution result" where
  "execution_from_row now r =
     bind_res (parse_state 2 (xr_state r)) (\<lambda>state.
       Inr \<lparr>ex_id = xr_id r,
            ex_workspace_id = xr_workspace_id r,
            ex_state = state,
            ex_command = xr_command r,
            ex_command_display = command_display (xr_command r),
            ex_cwd = xr_cwd r,
            ex_env_keys = xr_env_keys r,
            ex_initiator = xr_initiator r,
            ex_created_at_ms = xr_created_at_ms r,
            ex_started_at_ms = xr_started_at_ms r,
            ex_ended_at_ms = xr_ended_at_ms r,
            ex_duration_ms =
              map_option (\<lambda>started.
                nat (max 0 (sat_i64 ((case xr_ended_at_ms r of None \<Rightarrow> now | Some e \<Rightarrow> e) - started))))
                (xr_started_at_ms r),
            ex_pid = xr_pid r,
            ex_pgid = xr_pgid r,
            ex_outcome = xr_outcome r,
            ex_captured_bytes = xr_captured_bytes r,
            ex_output_truncated = xr_output_truncated r,
            ex_last_seq = xr_last_seq r\<rparr>)"

definition agent_session_from_row :: "session_row \<Rightarrow> agent_session result" where
  "agent_session_from_row r =
     bind_res (parse_agent_session_state 2 (sn_state r)) (\<lambda>state.
       Inr \<lparr>as_id = sn_id r,
            as_workspace_id = sn_workspace_id r,
            as_state = state,
            as_agent_kind = sn_agent_kind r,
            as_name = sn_name r,
            as_command = sn_command r,
            as_command_display = command_display (sn_command r),
            as_cwd = sn_cwd r,
            as_created_at_ms = sn_created_at_ms r,
            as_ended_at_ms = sn_ended_at_ms r,
            as_duration_ms =
              map_option (\<lambda>ended. nat (max 0 (sat_i64 (ended - sn_created_at_ms r)))) (sn_ended_at_ms r),
            as_recorder_pid = sn_recorder_pid r,
            as_outcome = sn_outcome r,
            as_captured_bytes = row_u64 (sn_captured_bytes r),
            as_output_truncated = sn_output_truncated r,
            as_initial_cols = sn_initial_cols r,
            as_initial_rows = sn_initial_rows r,
            as_cast_path = sn_cast_path r,
            as_html_path = sn_html_path r\<rparr>)"

definition agent_turn_from_row :: "turn_row \<Rightarrow> agent_turn result" where
  "agent_turn_from_row r =
     bind_res (parse_agent_turn_state 5 (tr_state r)) (\<lambda>state.
       Inr \<lparr>tn_id = tr_id r,
            tn_session_id = tr_session_id r,
            tn_provider = tr_provider r,
            tn_provider_session_id = tr_provider_session_id r,
            tn_provider_turn_id = tr_provider_turn_id r,
            tn_state = state,
            tn_prompt = tr_prompt r,
            tn_created_at_ms = tr_created_at_ms r,
            tn_ended_at_ms = tr_ended_at_ms r,
            tn_last_assistant_message = tr_last_assistant_message r\<rparr>)"

definition agent_action_from_row :: "action_row \<Rightarrow> agent_action result" where
  "agent_action_from_row r =
     bind_res (parse_agent_action_state 4 (cr_state r)) (\<lambda>state.
       Inr \<lparr>ac_id = cr_id r,
            ac_turn_id = cr_turn_id r,
            ac_provider_action_id = cr_provider_action_id r,
            ac_tool_name = cr_tool_name r,
            ac_state = state,
            ac_execution_id = cr_execution_id r,
            ac_created_at_ms = cr_created_at_ms r,
            ac_ended_at_ms = cr_ended_at_ms r\<rparr>)"

definition output_event :: "base64 \<Rightarrow> string \<Rightarrow> nat \<Rightarrow> int \<Rightarrow> output_stream \<Rightarrow> bytes \<Rightarrow> execution_event" where
  "output_event B xid seq timestamp stream data =
     \<lparr>ev_execution_id = xid, ev_seq = seq, ev_timestamp_ms = timestamp,
      ev_payload = EvOutput stream (b64_encode B data)\<rparr>"

definition payload_error :: error where
  "payload_error = Database (FromSqlConversionFailure 5 ''invalid JSON payload'')"

text \<open>A missing payload reads as \<open>{}\<close>, which has none of the required fields; so does a payload of
  another kind.\<close>

definition event_from_row :: "base64 \<Rightarrow> string \<Rightarrow> event_row \<Rightarrow> execution_event result" where
  "event_from_row B xid r =
     (let wrap = (\<lambda>p. \<lparr>ev_execution_id = xid, ev_seq = er_seq r,
                        ev_timestamp_ms = er_timestamp_ms r, ev_payload = p\<rparr>) in
      if er_kind r = ''started'' then
        (case er_payload r of
           Some (JStarted pid pgid) \<Rightarrow> Inr (wrap (EvStarted pid pgid))
         | _ \<Rightarrow> Inl payload_error)
      else if er_kind r = ''output'' then
        (case er_stream r of
           Some s \<Rightarrow>
             (if s = ''stdout'' then
                Inr (output_event B xid (er_seq r) (er_timestamp_ms r) Stdout (case er_data r of None \<Rightarrow> [] | Some d \<Rightarrow> d))
              else if s = ''stderr'' then
                Inr (output_event B xid (er_seq r) (er_timestamp_ms r) Stderr (case er_data r of None \<Rightarrow> [] | Some d \<Rightarrow> d))
              else Inl (Database (FromSqlConversionFailure 3 ''invalid output stream'')))
         | None \<Rightarrow> Inl (Database (FromSqlConversionFailure 3 ''invalid output stream'')))
      else if er_kind r = ''capture_truncated'' then
        (case er_payload r of
           Some (JTruncated limit) \<Rightarrow> Inr (wrap (EvCaptureTruncated limit))
         | _ \<Rightarrow> Inl payload_error)
      else if er_kind r = ''finished'' then
        (case er_payload r of
           Some (JOutcome outcome) \<Rightarrow> Inr (wrap (EvFinished outcome))
         | _ \<Rightarrow> Inl payload_error)
      else Inl (Database (FromSqlConversionFailure 2 (''unknown event kind '' @ er_kind r))))"

end
