(* ===== verification/StoreInv.thy ===== *)
theory StoreInv
  imports StoreState
begin

text \<open>
  The invariant of the store: primary keys and unique indexes, foreign keys, well-formed state
  columns, and the event log of every execution (events numbered from 1 to \<open>last_seq\<close>, byte and
  truncation columns that agree with the events). The primitive updates the operations are built
  from come with the lemma that they keep it: appending one event to an execution's log, changing a
  row without touching its keys, inserting a row, deleting executions.
\<close>

section \<open>Lookups and primitive updates\<close>

definition transaction :: "(database \<Rightarrow> ('a \<times> database) result) \<Rightarrow> database \<Rightarrow> 'a db_result" where
  "transaction f db = (case f db of Inl e \<Rightarrow> (Inl e, db) | Inr (a, db') \<Rightarrow> (Inr a, db'))"

definition find_execution :: "string \<Rightarrow> database \<Rightarrow> execution_row option" where
  "find_execution xid db = find (\<lambda>r. xr_id r = xid) (db_executions db)"

definition find_session :: "string \<Rightarrow> database \<Rightarrow> session_row option" where
  "find_session sid db = find (\<lambda>r. sn_id r = sid) (db_sessions db)"

definition find_turn :: "string \<Rightarrow> database \<Rightarrow> turn_row option" where
  "find_turn tid db = find (\<lambda>r. tr_id r = tid) (db_turns db)"

definition update_execution :: "string \<Rightarrow> (execution_row \<Rightarrow> execution_row) \<Rightarrow> database \<Rightarrow> database" where
  "update_execution xid f db =
     db\<lparr>db_executions := update_where (\<lambda>r. xr_id r = xid) f (db_executions db)\<rparr>"

definition events_of :: "database \<Rightarrow> string \<Rightarrow> event_row list" where
  "events_of db xid = filter (\<lambda>e. er_execution_id e = xid) (db_events db)"

text \<open>\<open>INSERT INTO events\<close>: the primary key is \<open>(execution_id, seq)\<close> and the execution must exist.\<close>

definition insert_event :: "event_row \<Rightarrow> database \<Rightarrow> database result" where
  "insert_event e db =
     (if list_ex (\<lambda>e'. er_execution_id e' = er_execution_id e \<and> er_seq e' = er_seq e) (db_events db)
      then Inl (Database (ConstraintViolation ''UNIQUE constraint failed: events.execution_id, events.seq''))
      else if find_execution (er_execution_id e) db = None
      then Inl (Database (ConstraintViolation ''FOREIGN KEY constraint failed''))
      else Inr (db\<lparr>db_events := db_events db @ [e]\<rparr>))"

definition next_seq :: "string \<Rightarrow> database \<Rightarrow> nat result" where
  "next_seq xid db =
     ok_or (ExecutionNotFound xid) (map_option (\<lambda>r. xr_last_seq r + 1) (find_execution xid db))"

lemma transaction_Inr_iff:
  "transaction f db = (Inr a, db') \<longleftrightarrow> f db = Inr (a, db')"
  by (auto simp: transaction_def split: sum.splits prod.splits)

lemma transaction_Inl_iff:
  "transaction f db = (Inl e, db') \<longleftrightarrow> f db = Inl e \<and> db' = db"
  by (auto simp: transaction_def split: sum.splits prod.splits)

lemma transaction_inv:
  "P db \<Longrightarrow> (\<And>a db'. f db = Inr (a, db') \<Longrightarrow> P db') \<Longrightarrow> P (snd (transaction f db))"
  by (auto simp: transaction_def split: sum.splits prod.splits)

lemma find_execution_Some: "find_execution xid db = Some r \<Longrightarrow> r \<in> set (db_executions db) \<and> xr_id r = xid"
  by (auto simp: find_execution_def dest: find_Some_mem)

lemma find_execution_None_iff: "find_execution xid db = None \<longleftrightarrow> xid \<notin> xr_id ` set (db_executions db)"
  by (simp add: find_execution_def find_key_None_iff)

lemma find_session_Some: "find_session sid db = Some r \<Longrightarrow> r \<in> set (db_sessions db) \<and> sn_id r = sid"
  by (auto simp: find_session_def dest: find_Some_mem)

lemma find_execution_update [store_simps]:
  assumes "\<And>r. xr_id r = xid \<Longrightarrow> xr_id (f r) = xid"
  shows "find_execution yid (update_execution xid f db) =
     map_option (\<lambda>r. if xr_id r = xid then f r else r) (find_execution yid db)"
  unfolding find_execution_def update_execution_def
  by (simp, rule find_update_where) (simp add: assms)

lemma update_execution_frame [simp]:
  "db_workspaces (update_execution xid f db) = db_workspaces db"
  "db_sessions (update_execution xid f db) = db_sessions db"
  "db_events (update_execution xid f db) = db_events db"
  "db_turns (update_execution xid f db) = db_turns db"
  "db_actions (update_execution xid f db) = db_actions db"
  by (simp_all add: update_execution_def)

lemma events_of_update_execution [simp]: "events_of (update_execution xid f db) = events_of db"
  by (rule ext) (simp add: events_of_def)

lemma events_of_append [simp]:
  "events_of (db\<lparr>db_events := db_events db @ [e]\<rparr>) xid =
     (if er_execution_id e = xid then events_of db xid @ [e] else events_of db xid)"
  by (simp add: events_of_def)

section \<open>The invariant\<close>

definition workspace_ids :: "database \<Rightarrow> string set" where
  "workspace_ids db = (\<lambda>w. ws_id (wk_workspace w)) ` set (db_workspaces db)"

definition session_ids :: "database \<Rightarrow> string set" where
  "session_ids db = sn_id ` set (db_sessions db)"

definition execution_ids :: "database \<Rightarrow> string set" where
  "execution_ids db = xr_id ` set (db_executions db)"

definition turn_ids :: "database \<Rightarrow> string set" where
  "turn_ids db = tr_id ` set (db_turns db)"

text \<open>The unique index \<open>agent_turns_provider_turn\<close> covers rows with a provider turn id.\<close>

definition turn_index :: "turn_row \<Rightarrow> string \<times> string \<times> string \<times> string option" where
  "turn_index t = (tr_session_id t, tr_provider t, tr_provider_session_id t, tr_provider_turn_id t)"

definition has_turn_id :: "turn_row \<Rightarrow> bool" where
  "has_turn_id t \<longleftrightarrow> tr_provider_turn_id t \<noteq> None"

definition key_inv :: "database \<Rightarrow> bool" where
  "key_inv db \<longleftrightarrow>
     distinct (map (\<lambda>w. ws_id (wk_workspace w)) (db_workspaces db)) \<and>
     distinct (map (\<lambda>w. ws_name (wk_workspace w)) (db_workspaces db)) \<and>
     distinct (map (\<lambda>w. ws_root (wk_workspace w)) (db_workspaces db)) \<and>
     distinct (map sn_id (db_sessions db)) \<and>
     distinct (map xr_id (db_executions db)) \<and>
     distinct (map tr_id (db_turns db)) \<and>
     distinct (map turn_index (filter has_turn_id (db_turns db))) \<and>
     distinct (map cr_id (db_actions db)) \<and>
     distinct (map (\<lambda>a. (cr_turn_id a, cr_provider_action_id a)) (db_actions db))"

definition ref_inv :: "database \<Rightarrow> bool" where
  "ref_inv db \<longleftrightarrow>
     (\<forall>s \<in> set (db_sessions db). sn_workspace_id s \<in> workspace_ids db) \<and>
     (\<forall>x \<in> set (db_executions db). xr_workspace_id x \<in> workspace_ids db \<and>
        (\<forall>sid. xr_session_id x = Some sid \<longrightarrow> sid \<in> session_ids db)) \<and>
     (\<forall>e \<in> set (db_events db). er_execution_id e \<in> execution_ids db) \<and>
     (\<forall>t \<in> set (db_turns db). tr_session_id t \<in> session_ids db) \<and>
     (\<forall>a \<in> set (db_actions db). cr_turn_id a \<in> turn_ids db \<and>
        (\<forall>xid. cr_execution_id a = Some xid \<longrightarrow> xid \<in> execution_ids db))"

definition execution_row_ok :: "execution_row \<Rightarrow> bool" where
  "execution_row_ok x \<longleftrightarrow> xr_state x \<in> range state_str \<and> xr_session_id x = in_session_id (xr_initiator x)"

definition state_inv :: "database \<Rightarrow> bool" where
  "state_inv db \<longleftrightarrow>
     (\<forall>x \<in> set (db_executions db). execution_row_ok x) \<and>
     (\<forall>s \<in> set (db_sessions db). sn_state s \<in> range session_state_str) \<and>
     (\<forall>t \<in> set (db_turns db). tr_state t \<in> range turn_state_str) \<and>
     (\<forall>a \<in> set (db_actions db). cr_state a \<in> range action_state_str)"

definition event_row_ok :: "event_row \<Rightarrow> bool" where
  "event_row_ok e \<longleftrightarrow>
     (er_kind e = ''started'' \<and> er_data e = None \<and> (\<exists>pid pgid. er_payload e = Some (JStarted pid pgid))) \<or>
     (er_kind e = ''output'' \<and> er_data e \<noteq> None \<and> (er_stream e = Some ''stdout'' \<or> er_stream e = Some ''stderr'')) \<or>
     (er_kind e = ''capture_truncated'' \<and> er_data e = None \<and> (\<exists>l. er_payload e = Some (JTruncated l))) \<or>
     (er_kind e = ''finished'' \<and> er_data e = None \<and> (\<exists>out. er_payload e = Some (JOutcome out)))"

definition event_bytes :: "event_row \<Rightarrow> nat" where
  "event_bytes e = (case er_data e of None \<Rightarrow> 0 | Some d \<Rightarrow> length d)"

definition log_ok :: "event_row list \<Rightarrow> execution_row \<Rightarrow> bool" where
  "log_ok es x \<longleftrightarrow>
     map er_seq es = [1..<Suc (xr_last_seq x)] \<and>
     xr_captured_bytes x = sum_list (map event_bytes es) \<and>
     (xr_output_truncated x \<longleftrightarrow> (\<exists>e \<in> set es. er_kind e = ''capture_truncated'')) \<and>
     (\<forall>e \<in> set es. event_row_ok e)"

definition log_inv :: "database \<Rightarrow> bool" where
  "log_inv db \<longleftrightarrow> (\<forall>x \<in> set (db_executions db). log_ok (events_of db (xr_id x)) x)"

definition db_inv :: "database \<Rightarrow> bool" where
  "db_inv db \<longleftrightarrow> key_inv db \<and> ref_inv db \<and> state_inv db \<and> log_inv db"

lemma db_invI [inv_intros]: "key_inv db \<Longrightarrow> ref_inv db \<Longrightarrow> state_inv db \<Longrightarrow> log_inv db \<Longrightarrow> db_inv db"
  by (simp add: db_inv_def)

lemma db_invD:
  "db_inv db \<Longrightarrow> key_inv db" "db_inv db \<Longrightarrow> ref_inv db" "db_inv db \<Longrightarrow> state_inv db" "db_inv db \<Longrightarrow> log_inv db"
  by (simp_all add: db_inv_def)

lemmas inv_defs = key_inv_def ref_inv_def state_inv_def log_inv_def workspace_ids_def session_ids_def
  execution_ids_def turn_ids_def

lemma empty_db_inv: "db_inv empty_db"
  by (simp add: db_inv_def inv_defs empty_db_def)

section \<open>What the invariant gives\<close>

lemma execution_key: "db_inv db \<Longrightarrow> distinct (map xr_id (db_executions db))"
  by (simp add: db_inv_def key_inv_def)

lemma session_key: "db_inv db \<Longrightarrow> distinct (map sn_id (db_sessions db))"
  by (simp add: db_inv_def key_inv_def)

lemma find_execution_iff:
  "db_inv db \<Longrightarrow> find_execution xid db = Some x \<longleftrightarrow> x \<in> set (db_executions db) \<and> xr_id x = xid"
  by (simp add: find_execution_def find_key_iff execution_key)

lemma find_session_iff:
  "db_inv db \<Longrightarrow> find_session sid db = Some s \<longleftrightarrow> s \<in> set (db_sessions db) \<and> sn_id s = sid"
  by (simp add: find_session_def find_key_iff session_key)

lemma log_of: "db_inv db \<Longrightarrow> find_execution xid db = Some x \<Longrightarrow> log_ok (events_of db xid) x"
  by (auto simp: db_inv_def log_inv_def dest!: find_execution_Some)

lemma execution_row_decodes:
  assumes "db_inv db" and "x \<in> set (db_executions db)"
  obtains e where "execution_from_row now x = Inr e"
    and "ex_id e = xr_id x" and "state_str (ex_state e) = xr_state x" and "ex_last_seq e = xr_last_seq x"
    and "ex_captured_bytes e = xr_captured_bytes x" and "ex_outcome e = xr_outcome x"
    and "ex_workspace_id e = xr_workspace_id x"
proof -
  from assms obtain s where s: "xr_state x = state_str s"
    by (auto simp: db_inv_def state_inv_def execution_row_ok_def)
  show thesis
    by (rule that [of "the (case execution_from_row now x of Inr e \<Rightarrow> Some e | Inl _ \<Rightarrow> None)"])
      (simp_all add: execution_from_row_def s)
qed

lemma event_row_decodes: "event_row_ok e \<Longrightarrow> \<exists>ev. event_from_row B xid e = Inr ev \<and> ev_seq ev = er_seq e"
  by (auto simp: event_row_ok_def event_from_row_def output_event_def Let_def)

section \<open>Appending to an execution's log\<close>

lemma insert_event_Inr:
  "insert_event e db = Inr db' \<Longrightarrow> db' = db\<lparr>db_events := db_events db @ [e]\<rparr>"
  by (auto simp: insert_event_def split: if_splits)

text \<open>Under the invariant the next sequence number is never taken.\<close>

lemma insert_event_next:
  assumes inv: "db_inv db" and x: "find_execution xid db = Some x"
    and e: "er_execution_id e = xid" "er_seq e = xr_last_seq x + 1"
  shows "insert_event e db = Inr (db\<lparr>db_events := db_events db @ [e]\<rparr>)"
proof -
  have "er_seq e' \<noteq> er_seq e" if "e' \<in> set (db_events db)" "er_execution_id e' = xid" for e'
  proof -
    from that have "er_seq e' \<in> set (map er_seq (events_of db xid))" by (auto simp: events_of_def)
    moreover have "map er_seq (events_of db xid) = [1..<Suc (xr_last_seq x)]"
      using log_of [OF inv x] by (simp add: log_ok_def del: upt_Suc)
    ultimately have "er_seq e' \<in> set [1..<Suc (xr_last_seq x)]" by metis
    then show ?thesis using e by (simp del: upt_Suc)
  qed
  then have "\<not> list_ex (\<lambda>e'. er_execution_id e' = er_execution_id e \<and> er_seq e' = er_seq e) (db_events db)"
    using e by (auto simp: list_ex_iff)
  then show ?thesis unfolding insert_event_def using x e by simp
qed

lemma log_ok_snoc:
  assumes "log_ok es x" and "er_seq e = xr_last_seq x + 1" and "event_row_ok e"
    and "xr_last_seq y = er_seq e" and "xr_captured_bytes y = xr_captured_bytes x + event_bytes e"
    and "xr_output_truncated y \<longleftrightarrow> xr_output_truncated x \<or> er_kind e = ''capture_truncated''"
  shows "log_ok (es @ [e]) y"
  using assms by (auto simp: log_ok_def)

text \<open>The update of an execution row that goes with a new event: its keys stay, its log columns follow.\<close>

definition row_follows :: "event_row \<Rightarrow> execution_row \<Rightarrow> execution_row \<Rightarrow> bool" where
  "row_follows e x y \<longleftrightarrow>
     xr_id y = xr_id x \<and> xr_workspace_id y = xr_workspace_id x \<and> xr_session_id y = xr_session_id x \<and>
     xr_initiator y = xr_initiator x \<and> xr_state y \<in> range state_str \<and>
     xr_last_seq y = er_seq e \<and> xr_captured_bytes y = xr_captured_bytes x + event_bytes e \<and>
     (xr_output_truncated y \<longleftrightarrow> xr_output_truncated x \<or> er_kind e = ''capture_truncated'')"

lemma set_update_execution:
  assumes "db_inv db" and "find_execution xid db = Some x"
  shows "set (db_executions (update_execution xid f db)) = insert (f x) (set (db_executions db) - {x})"
proof -
  have u: "xr_id r = xid \<longleftrightarrow> r = x" if "r \<in> set (db_executions db)" for r
    using that assms key_unique [OF execution_key [OF assms(1)]] find_execution_Some by metis
  have x: "x \<in> set (db_executions db)" using assms(2) find_execution_Some by auto
  have "set (db_executions (update_execution xid f db)) =
      (\<lambda>r. if xr_id r = xid then f r else r) ` set (db_executions db)"
    by (simp add: update_execution_def set_update_where)
  also have "\<dots> = (\<lambda>r. if r = x then f r else r) ` set (db_executions db)"
    by (rule image_cong) (simp_all add: u)
  also have "\<dots> = insert (f x) (set (db_executions db) - {x})"
    using x by auto
  finally show ?thesis .
qed

lemma update_execution_ids:
  assumes "\<And>r. xr_id r = xid \<Longrightarrow> xr_id (f r) = xid"
  shows "map xr_id (db_executions (update_execution xid f db)) = map xr_id (db_executions db)"
  using assms by (simp add: update_execution_def map_update_where)

lemma execution_ids_update:
  assumes "\<And>r. xr_id r = xid \<Longrightarrow> xr_id (f r) = xid"
  shows "execution_ids (update_execution xid f db) = execution_ids db"
  using arg_cong [OF update_execution_ids [of xid f db, OF assms], of set] unfolding execution_ids_def
  by simp

lemma log_step_inv [inv_intros]:
  assumes inv: "db_inv db" and x: "find_execution xid db = Some x"
    and e: "er_execution_id e = xid" "er_seq e = xr_last_seq x + 1" "event_row_ok e"
    and f: "row_follows e x (f x)" and ids: "\<And>r. xr_id (f r) = xr_id r"
  shows "db_inv (update_execution xid f (db\<lparr>db_events := db_events db @ [e]\<rparr>))"
    (is "db_inv ?db")
proof -
  let ?mid = "db\<lparr>db_events := db_events db @ [e]\<rparr>"
  have xin: "x \<in> set (db_executions db)" "xr_id x = xid" using x find_execution_Some by auto
  have rows: "set (db_executions ?db) = insert (f x) (set (db_executions db) - {x})"
    using set_update_execution [OF inv x, of f] by (simp add: update_execution_def)
  have map_ids: "map xr_id (db_executions ?db) = map xr_id (db_executions db)"
    using update_execution_ids [of xid f ?mid] ids by simp
  then have xids: "execution_ids ?db = execution_ids db"
    unfolding execution_ids_def by (metis list.set_map)
  have key: "key_inv ?db" using inv map_ids by (simp add: db_inv_def key_inv_def)
  have ref: "ref_inv ?db"
    using inv f xin e rows xids
    unfolding db_inv_def ref_inv_def row_follows_def
    by (auto simp: workspace_ids_def session_ids_def turn_ids_def execution_ids_def)
  have st: "state_inv ?db"
    using inv f xin rows unfolding db_inv_def state_inv_def row_follows_def execution_row_ok_def by auto
  have log: "log_inv ?db"
    unfolding log_inv_def
  proof
    fix y assume "y \<in> set (db_executions ?db)"
    then consider "y = f x" | "y \<in> set (db_executions db)" "y \<noteq> x" using rows by auto
    then show "log_ok (events_of ?db (xr_id y)) y"
    proof cases
      case 1
      have "log_ok (events_of db xid @ [e]) (f x)"
        using log_of [OF inv x] e f by (intro log_ok_snoc) (auto simp: row_follows_def)
      then show ?thesis using 1 ids xin e by simp
    next
      case 2
      then have "xr_id y \<noteq> xid"
        using key_unique [OF execution_key [OF inv], of y x] xin by auto
      then show ?thesis using 2 inv e by (simp add: db_inv_def log_inv_def)
    qed
  qed
  show ?thesis by (rule db_invI [OF key ref st log])
qed

end
