(* ===== verification/StoreExecutions.thy ===== *)
theory StoreExecutions
  imports StoreInv
begin

text \<open>
  The operations of \<open>Database\<close> (\<open>src/store.rs\<close>) on executions and their events: creating, starting,
  appending captured output, finishing, reading, cancelling, reconciling and pruning. Each returns
  its result and the database it leaves, and each keeps \<open>db_inv\<close>.

  \<open>now\<close> is the value of the operation's call of \<open>now_ms\<close>; where an operation reads the clock more
  than once, \<open>clock i\<close> is its \<open>i\<close>-th reading. \<open>new_id\<close> is the identifier the operation draws.
\<close>

section \<open>Reading executions\<close>

definition get_execution :: "int \<Rightarrow> string \<Rightarrow> database \<Rightarrow> execution result" where
  "get_execution now xid db =
     (case find_execution xid db of
        None \<Rightarrow> Inl (ExecutionNotFound xid)
      | Some r \<Rightarrow> execution_from_row now r)"

definition read_executions :: "(nat \<Rightarrow> int) \<Rightarrow> execution_row list \<Rightarrow> execution list result" where
  "read_executions clock rows =
     collect_res (map (\<lambda>(i, r). execution_from_row (clock i) r) (enumerate 0 rows))"

definition execution_of_workspace :: "string \<Rightarrow> database \<Rightarrow> execution_row \<Rightarrow> bool" where
  "execution_of_workspace v db x \<longleftrightarrow>
     list_ex (\<lambda>w. ws_id (wk_workspace w) = xr_workspace_id x \<and>
                  (xr_workspace_id x = v \<or> ws_name (wk_workspace w) = v)) (db_workspaces db)"

definition list_executions ::
  "(nat \<Rightarrow> int) \<Rightarrow> string option \<Rightarrow> nat \<Rightarrow> database \<Rightarrow> execution list result" where
  "list_executions clock workspace limit db =
     read_executions clock (take limit (order_by_desc xr_created_at_ms
       (case workspace of
          Some v \<Rightarrow> filter (execution_of_workspace v db) (db_executions db)
        | None \<Rightarrow> db_executions db)))"

section \<open>Creating an execution\<close>

definition get_agent_session_record :: "string \<Rightarrow> database \<Rightarrow> agent_session result" where
  "get_agent_session_record sid db =
     (case find_session sid db of
        None \<Rightarrow> Inl (AgentSessionNotFound sid)
      | Some r \<Rightarrow> agent_session_from_row r)"

definition check_initiator_session :: "execution_request \<Rightarrow> database \<Rightarrow> unit result" where
  "check_initiator_session rq db =
     (case in_session_id (rq_initiator rq) of
        None \<Rightarrow> Inr ()
      | Some sid \<Rightarrow>
          bind_res (get_agent_session_record sid db) (\<lambda>session.
            if as_workspace_id session \<noteq> rq_workspace_id rq
            then Inl (InvalidRequest (''agent session '' @ sid @ '' belongs to a different workspace''))
            else if as_state session \<noteq> Recording
            then Inl (InvalidRequest (''agent session '' @ sid @ '' is no longer recording''))
            else Inr ()))"

definition insert_execution :: "execution_row \<Rightarrow> database \<Rightarrow> database result" where
  "insert_execution x db =
     (if find_execution (xr_id x) db \<noteq> None
      then Inl (Database (ConstraintViolation ''UNIQUE constraint failed: executions.id''))
      else if \<not> list_ex (\<lambda>w. ws_id (wk_workspace w) = xr_workspace_id x) (db_workspaces db)
              \<or> (case xr_session_id x of None \<Rightarrow> False | Some sid \<Rightarrow> find_session sid db = None)
      then Inl (Database (ConstraintViolation ''FOREIGN KEY constraint failed''))
      else Inr (db\<lparr>db_executions := db_executions db @ [x]\<rparr>))"

definition new_execution_row :: "string \<Rightarrow> int \<Rightarrow> execution_request \<Rightarrow> string \<Rightarrow> execution_row" where
  "new_execution_row xid now rq cwd =
     \<lparr>xr_id = xid, xr_workspace_id = rq_workspace_id rq, xr_state = ''queued'',
      xr_command = rq_command rq, xr_cwd = cwd, xr_env_keys = map fst (rq_env rq),
      xr_initiator = rq_initiator rq, xr_created_at_ms = now, xr_started_at_ms = None,
      xr_ended_at_ms = None, xr_pid = None, xr_pgid = None, xr_outcome = None,
      xr_captured_bytes = 0, xr_output_truncated = False, xr_last_seq = 0,
      xr_session_id = in_session_id (rq_initiator rq)\<rparr>"

definition create_execution ::
  "base64 \<Rightarrow> int \<Rightarrow> string \<Rightarrow> execution_request \<Rightarrow> string \<Rightarrow> database \<Rightarrow> execution db_result" where
  "create_execution B now new_id rq cwd db =
     (case bind_res (request_validate B rq) (\<lambda>_.
           bind_res (check_initiator_session rq db) (\<lambda>_.
             insert_execution (new_execution_row new_id now rq cwd) db)) of
        Inl e \<Rightarrow> (Inl e, db)
      | Inr db' \<Rightarrow> (get_execution now new_id db', db'))"

section \<open>Writing an execution's log\<close>

text \<open>The three statements every writer of the log runs in its transaction: draw the next sequence
  number, insert the event, update the row.\<close>

definition append_event ::
  "string \<Rightarrow> (nat \<Rightarrow> event_row) \<Rightarrow> (nat \<Rightarrow> execution_row \<Rightarrow> execution_row) \<Rightarrow> database \<Rightarrow>
   (nat \<times> database) result" where
  "append_event xid event update db =
     bind_res (next_seq xid db) (\<lambda>seq.
     bind_res (insert_event (event seq) db) (\<lambda>db1.
     Inr (seq, update_execution xid (update seq) db1)))"

definition event_of :: "string \<Rightarrow> nat \<Rightarrow> int \<Rightarrow> event_payload \<Rightarrow> execution_event" where
  "event_of xid seq timestamp payload =
     \<lparr>ev_execution_id = xid, ev_seq = seq, ev_timestamp_ms = timestamp, ev_payload = payload\<rparr>"

definition started_row :: "string \<Rightarrow> int \<Rightarrow> nat \<Rightarrow> int \<Rightarrow> nat \<Rightarrow> event_row" where
  "started_row xid now pid pgid seq =
     \<lparr>er_execution_id = xid, er_seq = seq, er_timestamp_ms = now, er_kind = ''started'',
      er_stream = None, er_data = None, er_payload = Some (JStarted pid pgid)\<rparr>"

definition set_running :: "int \<Rightarrow> nat \<Rightarrow> int \<Rightarrow> nat \<Rightarrow> execution_row \<Rightarrow> execution_row" where
  "set_running now pid pgid seq x =
     x\<lparr>xr_state := ''running'', xr_started_at_ms := Some now, xr_pid := Some pid,
       xr_pgid := Some pgid, xr_last_seq := seq\<rparr>"

definition mark_running ::
  "int \<Rightarrow> string \<Rightarrow> nat \<Rightarrow> int \<Rightarrow> database \<Rightarrow> execution_event db_result" where
  "mark_running now xid pid pgid =
     transaction (\<lambda>db.
       bind_res (ok_or (ExecutionNotFound xid) (find_execution xid db)) (\<lambda>x.
         if xr_state x \<noteq> ''queued'' then Inl (AlreadyTerminal xid)
         else bind_res (append_event xid (started_row xid now pid pgid) (set_running now pid pgid) db)
           (\<lambda>(seq, db'). Inr (event_of xid seq now (EvStarted pid pgid), db'))))"

datatype capture_record =
    CaptureOutput string int output_stream bytes
  | CaptureTruncated string int nat

definition output_row :: "string \<Rightarrow> int \<Rightarrow> output_stream \<Rightarrow> bytes \<Rightarrow> nat \<Rightarrow> event_row" where
  "output_row xid timestamp stream data seq =
     \<lparr>er_execution_id = xid, er_seq = seq, er_timestamp_ms = timestamp, er_kind = ''output'',
      er_stream = Some (stream_str stream), er_data = Some data, er_payload = None\<rparr>"

definition truncated_row :: "string \<Rightarrow> int \<Rightarrow> nat \<Rightarrow> nat \<Rightarrow> event_row" where
  "truncated_row xid timestamp limit seq =
     \<lparr>er_execution_id = xid, er_seq = seq, er_timestamp_ms = timestamp, er_kind = ''capture_truncated'',
      er_stream = None, er_data = None, er_payload = Some (JTruncated limit)\<rparr>"

fun append_record :: "base64 \<Rightarrow> capture_record \<Rightarrow> database \<Rightarrow> (execution_event \<times> database) result" where
  "append_record B (CaptureOutput xid timestamp stream data) db =
     bind_res (append_event xid (output_row xid timestamp stream data)
         (\<lambda>seq x. x\<lparr>xr_last_seq := seq, xr_captured_bytes := xr_captured_bytes x + length data\<rparr>) db)
       (\<lambda>(seq, db'). Inr (output_event B xid seq timestamp stream data, db'))"
| "append_record B (CaptureTruncated xid timestamp limit) db =
     bind_res (append_event xid (truncated_row xid timestamp limit)
         (\<lambda>seq x. x\<lparr>xr_last_seq := seq, xr_output_truncated := True\<rparr>) db)
       (\<lambda>(seq, db'). Inr (event_of xid seq timestamp (EvCaptureTruncated limit), db'))"

fun append_records ::
  "base64 \<Rightarrow> capture_record list \<Rightarrow> database \<Rightarrow> (execution_event list \<times> database) result" where
  "append_records B [] db = Inr ([], db)"
| "append_records B (r # rs) db =
     bind_res (append_record B r db) (\<lambda>(e, db1).
     bind_res (append_records B rs db1) (\<lambda>(es, db2). Inr (e # es, db2)))"

definition append_capture_batch ::
  "base64 \<Rightarrow> capture_record list \<Rightarrow> database \<Rightarrow> execution_event list db_result" where
  "append_capture_batch B records db =
     (if records = [] then (Inr [], db) else transaction (append_records B records) db)"

definition finished_row :: "string \<Rightarrow> int \<Rightarrow> execution_outcome \<Rightarrow> nat \<Rightarrow> event_row" where
  "finished_row xid now outcome seq =
     \<lparr>er_execution_id = xid, er_seq = seq, er_timestamp_ms = now, er_kind = ''finished'',
      er_stream = None, er_data = None, er_payload = Some (JOutcome outcome)\<rparr>"

definition set_finished ::
  "int \<Rightarrow> execution_state \<Rightarrow> execution_outcome \<Rightarrow> nat \<Rightarrow> execution_row \<Rightarrow> execution_row" where
  "set_finished now state outcome seq x =
     x\<lparr>xr_state := state_str state, xr_ended_at_ms := Some now, xr_outcome := Some outcome,
       xr_last_seq := seq\<rparr>"

definition finish ::
  "int \<Rightarrow> string \<Rightarrow> execution_state \<Rightarrow> execution_outcome \<Rightarrow> database \<Rightarrow> execution_event db_result" where
  "finish now xid state outcome =
     transaction (\<lambda>db.
       bind_res (ok_or (ExecutionNotFound xid) (find_execution xid db)) (\<lambda>x.
         if terminal_str (xr_state x) then Inl (AlreadyTerminal xid)
         else bind_res (append_event xid (finished_row xid now outcome) (set_finished now state outcome) db)
           (\<lambda>(seq, db'). Inr (event_of xid seq now (EvFinished outcome), db'))))"

section \<open>Finishing many executions\<close>

text \<open>The loop of \<open>reconcile_incomplete\<close> and \<open>cancel_queued\<close>: each \<open>finish\<close> is a transaction of its
  own, and the first failure ends the loop with what was finished so far committed.\<close>

fun finish_all ::
  "(nat \<Rightarrow> int) \<Rightarrow> execution_state \<Rightarrow> execution_outcome \<Rightarrow> string list \<Rightarrow> database \<Rightarrow>
   execution_event list db_result" where
  "finish_all clock state outcome [] db = (Inr [], db)"
| "finish_all clock state outcome (xid # ids) db =
     (case finish (clock 0) xid state outcome db of
        (Inl e, db1) \<Rightarrow> (Inl e, db1)
      | (Inr ev, db1) \<Rightarrow>
          (case finish_all (\<lambda>i. clock (Suc i)) state outcome ids db1 of
             (Inl e, db2) \<Rightarrow> (Inl e, db2)
           | (Inr evs, db2) \<Rightarrow> (Inr (ev # evs), db2)))"

definition ids_in_states :: "string list \<Rightarrow> database \<Rightarrow> string list" where
  "ids_in_states states db = map xr_id (filter (\<lambda>x. xr_state x \<in> set states) (db_executions db))"

definition reconcile_incomplete :: "(nat \<Rightarrow> int) \<Rightarrow> database \<Rightarrow> nat db_result" where
  "reconcile_incomplete clock db =
     (case finish_all clock Interrupted
             (OutcomeInterrupted ''daemon restarted before the execution completed'')
             (ids_in_states [''queued'', ''running''] db) db of
        (Inl e, db') \<Rightarrow> (Inl e, db')
      | (Inr evs, db') \<Rightarrow> (Inr (length evs), db'))"

definition cancel_queued :: "(nat \<Rightarrow> int) \<Rightarrow> database \<Rightarrow> execution_event list db_result" where
  "cancel_queued clock db =
     finish_all clock Cancelled (OutcomeCancelled None) (ids_in_states [''queued''] db) db"

section \<open>Reading output\<close>

fun read_rows ::
  "base64 \<Rightarrow> string \<Rightarrow> nat \<Rightarrow> event_row list \<Rightarrow> nat \<Rightarrow> execution_event list \<Rightarrow>
   (execution_event list \<times> bool) result" where
  "read_rows B xid max_bytes [] bytes events = Inr (events, False)"
| "read_rows B xid max_bytes (r # rs) bytes events =
     (if events \<noteq> [] \<and> sat_add bytes (event_bytes r) > max_bytes then Inr (events, True)
      else bind_res (event_from_row B xid r) (\<lambda>e.
             read_rows B xid max_bytes rs (sat_add bytes (event_bytes r)) (events @ [e])))"

definition select_events :: "string \<Rightarrow> nat \<Rightarrow> database \<Rightarrow> event_row list" where
  "select_events xid after_seq db =
     take 4096 (order_by er_seq (filter (\<lambda>e. int (er_seq e) > as_i64 after_seq) (events_of db xid)))"

definition read_output ::
  "base64 \<Rightarrow> int \<Rightarrow> string \<Rightarrow> nat \<Rightarrow> nat \<Rightarrow> database \<Rightarrow> read_output_response result" where
  "read_output B now xid after_seq max_bytes db =
     bind_res (get_execution now xid db) (\<lambda>execution.
     bind_res (read_rows B xid max_bytes (select_events xid after_seq db) 0 []) (\<lambda>(events, more).
       let next = (case last_opt events of None \<Rightarrow> after_seq | Some e \<Rightarrow> ev_seq e) in
       Inr \<lparr>ro_execution = execution, ro_events = events, ro_next_seq = next,
            ro_has_more = (more \<or> next < ex_last_seq execution)\<rparr>))"

section \<open>Pruning\<close>

text \<open>\<open>DELETE FROM executions WHERE p\<close> with its foreign keys: events cascade, actions lose the link.\<close>

definition delete_executions :: "(execution_row \<Rightarrow> bool) \<Rightarrow> database \<Rightarrow> nat \<times> database" where
  "delete_executions p db =
     (let gone = map xr_id (filter p (db_executions db)) in
      (length gone,
       db\<lparr>db_executions := delete_where p (db_executions db),
          db_events := delete_where (\<lambda>e. er_execution_id e \<in> set gone) (db_events db),
          db_actions := update_where (\<lambda>a. case cr_execution_id a of None \<Rightarrow> False | Some xid \<Rightarrow> xid \<in> set gone)
                          (\<lambda>a. a\<lparr>cr_execution_id := None\<rparr>) (db_actions db)\<rparr>))"

definition prune_cutoff :: "int \<Rightarrow> nat \<Rightarrow> int" where
  "prune_cutoff now retention_days = wrap_i64 (now - wrap_i64 (as_i64 retention_days * 24 * 60 * 60 * 1000))"

definition total_captured :: "database \<Rightarrow> nat" where
  "total_captured db = sum_list (map xr_captured_bytes (db_executions db))"

fun prune_candidates :: "(string \<times> nat) list \<Rightarrow> nat \<Rightarrow> nat \<Rightarrow> database \<Rightarrow> nat \<times> database" where
  "prune_candidates [] excess removed db = (removed, db)"
| "prune_candidates ((xid, bytes) # cs) excess removed db =
     (if excess = 0 then (removed, db)
      else case delete_executions (\<lambda>x. xr_id x = xid) db of
        (n, db') \<Rightarrow> prune_candidates cs (excess - bytes) (removed + n) db')"

definition prune_order :: "database \<Rightarrow> execution_row list" where
  "prune_order db = order_by xr_ended_at_ms (filter (\<lambda>x. terminal_str (xr_state x)) (db_executions db))"

definition expired :: "int \<Rightarrow> execution_row \<Rightarrow> bool" where
  "expired cutoff x \<longleftrightarrow>
     terminal_str (xr_state x) \<and> (case xr_ended_at_ms x of None \<Rightarrow> False | Some t \<Rightarrow> t < cutoff)"

definition prune :: "int \<Rightarrow> nat \<Rightarrow> nat \<Rightarrow> database \<Rightarrow> nat db_result" where
  "prune now retention_days retention_bytes db =
     (case delete_executions (expired (prune_cutoff now retention_days)) db of
        (removed, db1) \<Rightarrow>
          if total_captured db1 > retention_bytes then
            (case prune_candidates (map (\<lambda>x. (xr_id x, xr_captured_bytes x)) (prune_order db1))
                    (total_captured db1 - retention_bytes) removed db1 of
               (removed', db2) \<Rightarrow> (Inr removed', db2))
          else (Inr removed, db1))"


text \<open>
  Every operation of \<open>StoreExecutions\<close> keeps the invariant of the store, and leaves the rows it does
  not name alone.
\<close>

section \<open>Appending an event\<close>

lemma append_event_Some:
  assumes "db_inv db" and "find_execution xid db = Some x"
    and "\<And>seq. er_execution_id (E seq) = xid" "\<And>seq. er_seq (E seq) = seq"
  shows "append_event xid E F db =
     Inr (xr_last_seq x + 1,
          update_execution xid (F (xr_last_seq x + 1))
            (db\<lparr>db_events := db_events db @ [E (xr_last_seq x + 1)]\<rparr>))"
  using insert_event_next [OF assms(1,2), of "E (xr_last_seq x + 1)"] assms(2-)
  by (simp add: append_event_def next_seq_def)

lemma append_event_None:
  "find_execution xid db = None \<Longrightarrow> append_event xid E F db = Inl (ExecutionNotFound xid)"
  by (simp add: append_event_def next_seq_def)

text \<open>What makes an event and a row update a legal pair for \<open>append_event\<close>.\<close>

definition legal_append ::
  "string \<Rightarrow> (nat \<Rightarrow> event_row) \<Rightarrow> (nat \<Rightarrow> execution_row \<Rightarrow> execution_row) \<Rightarrow> bool" where
  "legal_append xid E F \<longleftrightarrow>
     (\<forall>seq. er_execution_id (E seq) = xid \<and> er_seq (E seq) = seq \<and> event_row_ok (E seq) \<and>
        (\<forall>x. xr_id (F seq x) = xr_id x \<and>
             (xr_state x \<in> range state_str \<longrightarrow> row_follows (E seq) x (F seq x))))"

lemma append_event_inv:
  assumes inv: "db_inv db" and ok: "legal_append xid E F" and r: "append_event xid E F db = Inr (seq, db')"
  shows "db_inv db'"
proof (cases "find_execution xid db")
  case None
  then show ?thesis using r by (simp add: append_event_None)
next
  case (Some x)
  have st: "xr_state x \<in> range state_str"
    using inv Some find_execution_Some by (fastforce simp: db_inv_def state_inv_def execution_row_ok_def)
  have db': "db' = update_execution xid (F (xr_last_seq x + 1))
      (db\<lparr>db_events := db_events db @ [E (xr_last_seq x + 1)]\<rparr>)"
    using append_event_Some [OF inv Some, of E F] ok r by (simp add: legal_append_def)
  show ?thesis
    unfolding db' using ok st by (intro log_step_inv [OF inv Some]) (auto simp: legal_append_def)
qed

lemma legal_started [simp]: "legal_append xid (started_row xid now pid pgid) (set_running now pid pgid)"
  by (auto simp: legal_append_def started_row_def set_running_def event_row_ok_def row_follows_def
      event_bytes_def intro: range_eqI [of _ _ Running])

lemma legal_output [simp]:
  "legal_append xid (output_row xid ts stream data)
     (\<lambda>seq x. x\<lparr>xr_last_seq := seq, xr_captured_bytes := xr_captured_bytes x + length data\<rparr>)"
  by (cases stream) (auto simp: legal_append_def output_row_def event_row_ok_def row_follows_def
      event_bytes_def)

lemma legal_truncated [simp]:
  "legal_append xid (truncated_row xid ts limit)
     (\<lambda>seq x. x\<lparr>xr_last_seq := seq, xr_output_truncated := True\<rparr>)"
  by (auto simp: legal_append_def truncated_row_def event_row_ok_def row_follows_def event_bytes_def)

lemma legal_finished [simp]:
  "legal_append xid (finished_row xid now outcome) (set_finished now state outcome)"
  by (auto simp: legal_append_def finished_row_def set_finished_def event_row_ok_def row_follows_def
      event_bytes_def)

lemmas append_inv = append_event_inv [OF _ legal_started] append_event_inv [OF _ legal_output]
  append_event_inv [OF _ legal_truncated] append_event_inv [OF _ legal_finished]

section \<open>Creating and starting\<close>

lemma insert_execution_Inr:
  "insert_execution x db = Inr db' \<Longrightarrow>
     db' = db\<lparr>db_executions := db_executions db @ [x]\<rparr> \<and> find_execution (xr_id x) db = None \<and>
     xr_workspace_id x \<in> workspace_ids db \<and>
     (\<forall>sid. xr_session_id x = Some sid \<longrightarrow> sid \<in> session_ids db)"
  by (auto simp: insert_execution_def workspace_ids_def session_ids_def list_ex_iff image_iff
      split: if_split_asm option.split_asm dest!: find_session_Some; metis)

lemma no_events_of_absent:
  "db_inv db \<Longrightarrow> find_execution xid db = None \<Longrightarrow> events_of db xid = []"
  by (auto simp: events_of_def find_execution_None_iff db_inv_def ref_inv_def execution_ids_def
      filter_empty_conv)

lemma insert_execution_inv [inv_intros]:
  assumes inv: "db_inv db" and r: "insert_execution x db = Inr db'"
    and x: "execution_row_ok x" "xr_last_seq x = 0" "xr_captured_bytes x = 0" "\<not> xr_output_truncated x"
  shows "db_inv db'"
proof -
  from insert_execution_Inr [OF r]
  have db': "db' = db\<lparr>db_executions := db_executions db @ [x]\<rparr>" and new: "find_execution (xr_id x) db = None"
    and fk: "xr_workspace_id x \<in> workspace_ids db" "\<forall>sid. xr_session_id x = Some sid \<longrightarrow> sid \<in> session_ids db"
    by auto
  have ev: "events_of db' = events_of db" by (rule ext) (simp add: db' events_of_def)
  have "key_inv db'"
    using inv new by (auto simp: db' db_inv_def key_inv_def find_execution_None_iff)
  moreover have "ref_inv db'"
    using inv fk by (auto simp: db' db_inv_def inv_defs)
  moreover have "state_inv db'"
    using inv x by (simp add: db' db_inv_def state_inv_def)
  moreover have "log_inv db'"
    unfolding log_inv_def ev
  proof
    fix y assume "y \<in> set (db_executions db')"
    then consider "y = x" | "y \<in> set (db_executions db)" by (auto simp: db')
    then show "log_ok (events_of db (xr_id y)) y"
      by cases (use inv x no_events_of_absent [OF inv new] in \<open>simp_all add: log_ok_def db_inv_def log_inv_def\<close>)
  qed
  ultimately show ?thesis by (rule db_invI)
qed

lemma create_execution_inv: "db_inv db \<Longrightarrow> db_inv (snd (create_execution B now nid rq cwd db))"
  by (auto simp: create_execution_def bind_res_Inr_iff new_execution_row_def execution_row_ok_def
      split: sum.split intro!: insert_execution_inv [of db] range_eqI [of _ _ Queued])

lemma mark_running_inv: "db_inv db \<Longrightarrow> db_inv (snd (mark_running now xid pid pgid db))"
  unfolding mark_running_def
  by (rule transaction_inv) (auto simp: bind_res_Inr_iff split: if_split_asm intro: append_inv)

section \<open>Capturing and finishing\<close>

lemma append_record_inv: "db_inv db \<Longrightarrow> append_record B r db = Inr (e, db') \<Longrightarrow> db_inv db'"
  by (cases r) (auto simp: bind_res_Inr_iff intro: append_inv)

lemma append_records_inv: "db_inv db \<Longrightarrow> append_records B rs db = Inr (es, db') \<Longrightarrow> db_inv db'"
proof (induction rs arbitrary: db es)
  case Nil
  then show ?case by simp
next
  case (Cons r rs)
  then obtain e db1 es' where "append_record B r db = Inr (e, db1)" "append_records B rs db1 = Inr (es', db')"
    by (auto simp: bind_res_Inr_iff)
  then show ?case using Cons.IH Cons.prems(1) append_record_inv by blast
qed

lemma append_capture_batch_inv: "db_inv db \<Longrightarrow> db_inv (snd (append_capture_batch B rs db))"
  using transaction_inv [of db_inv db "append_records B rs"] append_records_inv
  by (simp add: append_capture_batch_def)

lemma finish_inv: "db_inv db \<Longrightarrow> db_inv (snd (finish now xid st out db))"
  unfolding finish_def
  by (rule transaction_inv)
    (auto simp: bind_res_Inr_iff split: if_split_asm dest: append_event_inv [OF _ legal_finished])

lemma finish_all_inv: "db_inv db \<Longrightarrow> db_inv (snd (finish_all clock st out ids db))"
proof (induction ids arbitrary: clock db)
  case Nil
  then show ?case by simp
next
  case (Cons xid ids)
  obtain r db1 where f: "finish (clock 0) xid st out db = (r, db1)" by force
  then have "db_inv db1" using finish_inv [OF Cons.prems, of "clock 0" xid st out] by simp
  then have "db_inv (snd (finish_all (\<lambda>i. clock (Suc i)) st out ids db1))" by (rule Cons.IH)
  then show ?case using f \<open>db_inv db1\<close> by (simp add: split_beta split: sum.split)
qed

lemma reconcile_incomplete_inv: "db_inv db \<Longrightarrow> db_inv (snd (reconcile_incomplete clock db))"
proof -
  assume "db_inv db"
  then have "db_inv (snd (finish_all clock Interrupted
      (OutcomeInterrupted ''daemon restarted before the execution completed'')
      (ids_in_states [''queued'', ''running''] db) db))" by (rule finish_all_inv)
  then show ?thesis unfolding reconcile_incomplete_def by (simp add: split_beta split: sum.split)
qed

lemma cancel_queued_inv: "db_inv db \<Longrightarrow> db_inv (snd (cancel_queued clock db))"
  by (simp add: cancel_queued_def finish_all_inv)

section \<open>Pruning\<close>

lemma delete_executions_simps:
  "db_executions (snd (delete_executions p db)) = delete_where p (db_executions db)"
  "db_sessions (snd (delete_executions p db)) = db_sessions db"
  "db_workspaces (snd (delete_executions p db)) = db_workspaces db"
  "db_turns (snd (delete_executions p db)) = db_turns db"
  "fst (delete_executions p db) = length (filter p (db_executions db))"
  by (simp_all add: delete_executions_def Let_def)

lemma events_of_delete_executions:
  assumes "xid \<notin> xr_id ` set (filter p (db_executions db))"
  shows "events_of (snd (delete_executions p db)) xid = events_of db xid"
  unfolding events_of_def delete_executions_def Let_def using assms
  by (auto intro!: filter_delete_where)

lemma delete_executions_inv [inv_intros]:
  assumes inv: "db_inv db"
  shows "db_inv (snd (delete_executions p db))" (is "db_inv ?db")
proof -
  have kept: "xr_id y \<notin> xr_id ` set (filter p (db_executions db))"
    if "y \<in> set (db_executions db)" "\<not> p y" for y
    using that key_unique [OF execution_key [OF inv], of y] by auto
  have wids: "workspace_ids ?db = workspace_ids db" and sids: "session_ids ?db = session_ids db"
    and tids: "turn_ids ?db = turn_ids db"
    by (simp_all add: workspace_ids_def session_ids_def turn_ids_def delete_executions_simps)
  have xids: "xid \<in> execution_ids ?db"
    if "xid \<in> execution_ids db" "xid \<notin> xr_id ` set (filter p (db_executions db))" for xid
    using that by (auto simp: execution_ids_def delete_executions_simps set_delete_where)
  have "key_inv ?db"
    using inv by (simp add: db_inv_def key_inv_def delete_executions_def Let_def distinct_map_delete_where
        map_update_where)
  moreover have "ref_inv ?db"
  proof -
    have "\<forall>e \<in> set (db_events ?db). er_execution_id e \<in> execution_ids ?db"
      using inv xids by (auto simp: db_inv_def ref_inv_def delete_executions_def set_delete_where Let_def
          execution_ids_def)
    moreover have "\<forall>a \<in> set (db_actions ?db). cr_turn_id a \<in> turn_ids db \<and>
        (\<forall>xid. cr_execution_id a = Some xid \<longrightarrow> xid \<in> execution_ids ?db)"
    proof
      fix a assume "a \<in> set (db_actions ?db)"
      then obtain b where b: "b \<in> set (db_actions db)"
        and a: "a = (if (case cr_execution_id b of None \<Rightarrow> False
            | Some xid \<Rightarrow> xid \<in> set (map xr_id (filter p (db_executions db))))
            then b\<lparr>cr_execution_id := None\<rparr> else b)"
        by (auto simp: delete_executions_def Let_def set_update_where)
      show "cr_turn_id a \<in> turn_ids db \<and> (\<forall>xid. cr_execution_id a = Some xid \<longrightarrow> xid \<in> execution_ids ?db)"
        using inv b a xids by (auto simp: db_inv_def ref_inv_def split: option.splits)
    qed
    ultimately show ?thesis
      using inv unfolding ref_inv_def wids sids tids
      by (auto simp: db_inv_def ref_inv_def delete_executions_simps set_delete_where)
  qed
  moreover have "state_inv ?db"
    using inv by (auto simp: db_inv_def state_inv_def delete_executions_def Let_def set_delete_where
        set_update_where)
  moreover have "log_inv ?db"
    unfolding log_inv_def
    using inv kept by (auto simp: delete_executions_simps set_delete_where events_of_delete_executions
        db_inv_def log_inv_def)
  ultimately show ?thesis by (rule db_invI)
qed

lemma prune_candidates_inv: "db_inv db \<Longrightarrow> db_inv (snd (prune_candidates cs excess removed db))"
proof (induction cs excess removed db rule: prune_candidates.induct)
  case (2 xid bytes cs excess removed db)
  then show ?case by (simp add: split_beta delete_executions_inv)
qed simp

lemma prune_inv: "db_inv db \<Longrightarrow> db_inv (snd (prune now days bytes db))"
  unfolding prune_def by (simp add: split_beta delete_executions_inv prune_candidates_inv)

end
