(* ===== verification/StoreLog.thy ===== *)
theory StoreLog
  imports StoreExecutions
begin

text \<open>
  The event log of an execution as its clients see it: \<open>event_log\<close> is the list of decoded events, the
  abstract value every writer extends and every page of \<open>read_output\<close> is cut from. The lemmas are the
  refinement: a writer's reply is the event it appended, a read is a contiguous piece of the log.
\<close>

definition decode_event :: "base64 \<Rightarrow> string \<Rightarrow> event_row \<Rightarrow> execution_event" where
  "decode_event B xid r = projr (event_from_row B xid r)"

definition event_log :: "base64 \<Rightarrow> string \<Rightarrow> database \<Rightarrow> execution_event list" where
  "event_log B xid db = map (decode_event B xid) (events_of db xid)"

lemma event_row_ok_decode:
  "event_row_ok r \<Longrightarrow> event_from_row B xid r = Inr (decode_event B xid r)"
  using event_row_decodes [of r B xid] by (auto simp: decode_event_def)

lemma decode_event_seq: "event_row_ok r \<Longrightarrow> ev_seq (decode_event B xid r) = er_seq r"
  using event_row_decodes [of r B xid] by (auto simp: decode_event_def)

lemma decode_rows [simp]:
  "decode_event B xid (started_row xid now pid pgid seq) = event_of xid seq now (EvStarted pid pgid)"
  "decode_event B xid (output_row xid now stream data seq) = output_event B xid seq now stream data"
  "decode_event B xid (truncated_row xid now limit seq) = event_of xid seq now (EvCaptureTruncated limit)"
  "decode_event B xid (finished_row xid now outcome seq) = event_of xid seq now (EvFinished outcome)"
  by (auto simp: decode_event_def event_from_row_def event_of_def started_row_def output_row_def
      truncated_row_def finished_row_def Let_def split: if_splits)
    (cases stream; simp)+

lemma events_ok: "db_inv db \<Longrightarrow> e \<in> set (events_of db xid) \<Longrightarrow> event_row_ok e"
proof -
  assume inv: "db_inv db" and e: "e \<in> set (events_of db xid)"
  then have "xid \<in> execution_ids db" by (auto simp: events_of_def db_inv_def ref_inv_def)
  then obtain x where "find_execution xid db = Some x"
    by (auto simp: execution_ids_def find_execution_iff [OF inv])
  from log_of [OF inv this] e show ?thesis by (simp add: log_ok_def)
qed

lemma event_log_seqs:
  assumes inv: "db_inv db" and x: "find_execution xid db = Some x"
  shows "map ev_seq (event_log B xid db) = [1..<Suc (xr_last_seq x)]"
proof -
  have "map ev_seq (event_log B xid db) = map er_seq (events_of db xid)"
    using events_ok [OF inv] by (simp add: event_log_def decode_event_seq)
  then show ?thesis using log_of [OF inv x] by (simp add: log_ok_def)
qed

lemma length_event_log:
  assumes "db_inv db" and "find_execution xid db = Some x"
  shows "length (event_log B xid db) = xr_last_seq x" "length (events_of db xid) = xr_last_seq x"
  using arg_cong [OF event_log_seqs [OF assms, of B], of length] by (simp_all add: event_log_def)

section \<open>Writers extend the log\<close>

lemma append_event_effect:
  assumes inv: "db_inv db" and ok: "legal_append xid E F" and r: "append_event xid E F db = Inr (seq, db')"
  obtains x where "find_execution xid db = Some x" and "seq = xr_last_seq x + 1"
    and "\<And>yid. events_of db' yid = (if yid = xid then events_of db yid @ [E seq] else events_of db yid)"
    and "\<And>yid. find_execution yid db' =
           (if yid = xid then Some (F seq x) else find_execution yid db)"
proof -
  obtain x where x: "find_execution xid db = Some x"
    using r append_event_None [of xid db E F] by (cases "find_execution xid db") auto
  have e: "er_execution_id (E n) = xid" "er_seq (E n) = n" for n
    using ok by (simp_all add: legal_append_def)
  have f: "xr_id (F n y) = xr_id y" for n y
    using ok by (simp add: legal_append_def)
  have eq: "seq = xr_last_seq x + 1"
      "db' = update_execution xid (F seq) (db\<lparr>db_events := db_events db @ [E seq]\<rparr>)"
    using append_event_Some [OF inv x, of E F] e r by auto
  have fe: "find_execution yid (db\<lparr>db_events := v\<rparr>) = find_execution yid db" for yid v
    by (simp add: find_execution_def)
  show thesis
  proof (rule that [OF x eq(1)])
    show "events_of db' yid = (if yid = xid then events_of db yid @ [E seq] else events_of db yid)" for yid
      by (simp add: eq(2) e)
    show "find_execution yid db' = (if yid = xid then Some (F seq x) else find_execution yid db)" for yid
    proof (cases "find_execution yid db")
      case None
      then show ?thesis using x by (auto simp: eq(2) find_execution_update f fe)
    next
      case (Some y)
      then show ?thesis using x find_execution_Some [OF Some]
        by (auto simp: eq(2) find_execution_update f fe)
    qed
  qed
qed

lemma append_event_log:
  assumes "db_inv db" and "legal_append xid E F" and "append_event xid E F db = Inr (seq, db')"
  shows "event_log B yid db' = (if yid = xid then event_log B yid db @ [decode_event B xid (E seq)] else event_log B yid db)"
proof -
  have "events_of db' yid = (if yid = xid then events_of db yid @ [E seq] else events_of db yid)"
    using append_event_effect [OF assms] by metis
  then show ?thesis by (simp add: event_log_def)
qed

lemma mark_running_log:
  assumes "db_inv db" and "mark_running now xid pid pgid db = (Inr ev, db')"
  shows "event_log B yid db' = (if yid = xid then event_log B yid db @ [ev] else event_log B yid db)"
  using assms append_event_log [OF assms(1) legal_started, of xid now pid pgid _ db' B yid]
  by (auto simp: mark_running_def transaction_Inr_iff bind_res_Inr_iff split: if_split_asm)

lemma finish_log:
  assumes "db_inv db" and "finish now xid st out db = (Inr ev, db')"
  shows "event_log B yid db' = (if yid = xid then event_log B yid db @ [ev] else event_log B yid db)"
  using assms append_event_log [OF assms(1) legal_finished, of xid now out st _ db' B yid]
  by (auto simp: finish_def transaction_Inr_iff bind_res_Inr_iff split: if_split_asm)

lemma append_record_log:
  assumes "db_inv db" and "append_record B r db = Inr (ev, db')"
  shows "event_log B yid db' =
     (if yid = ev_execution_id ev then event_log B yid db @ [ev] else event_log B yid db)"
proof (cases r)
  case (CaptureOutput xid ts stream data)
  then show ?thesis
    using assms append_event_log [OF assms(1) legal_output, of xid ts stream data _ db' B yid]
    by (auto simp: bind_res_Inr_iff output_event_def)
next
  case (CaptureTruncated xid ts limit)
  then show ?thesis
    using assms append_event_log [OF assms(1) legal_truncated, of xid ts limit _ db' B yid]
    by (auto simp: bind_res_Inr_iff event_of_def)
qed

lemma append_records_log:
  "db_inv db \<Longrightarrow> append_records B rs db = Inr (evs, db') \<Longrightarrow>
   event_log B yid db' = event_log B yid db @ filter (\<lambda>e. ev_execution_id e = yid) evs"
proof (induction rs arbitrary: db evs)
  case Nil
  then show ?case by simp
next
  case (Cons r rs)
  then obtain e db1 es where r: "append_record B r db = Inr (e, db1)"
    and rs: "append_records B rs db1 = Inr (es, db')" and evs: "evs = e # es"
    by (auto simp: bind_res_Inr_iff)
  have "db_inv db1" by (rule append_record_inv [OF Cons.prems(1) r])
  from Cons.IH [OF this rs] append_record_log [OF Cons.prems(1) r, of yid] show ?case
    by (simp add: evs)
qed

lemma append_capture_batch_log:
  assumes "db_inv db" and "append_capture_batch B rs db = (Inr evs, db')"
  shows "event_log B yid db' = event_log B yid db @ filter (\<lambda>e. ev_execution_id e = yid) evs"
  using assms append_records_log [of db B rs evs db' yid]
  by (auto simp: append_capture_batch_def transaction_Inr_iff split: if_split_asm)

lemma append_capture_batch_error:
  "append_capture_batch B rs db = (Inl e, db') \<Longrightarrow> db' = db"
  by (auto simp: append_capture_batch_def transaction_Inl_iff split: if_split_asm)

text \<open>What one capture record and what a whole batch returns.\<close>

definition record_execution :: "capture_record \<Rightarrow> string" where
  "record_execution r = (case r of CaptureOutput xid _ _ _ \<Rightarrow> xid | CaptureTruncated xid _ _ \<Rightarrow> xid)"

definition record_payload :: "base64 \<Rightarrow> capture_record \<Rightarrow> event_payload" where
  "record_payload B r =
     (case r of CaptureOutput _ _ stream data \<Rightarrow> EvOutput stream (b64_encode B data)
      | CaptureTruncated _ _ limit \<Rightarrow> EvCaptureTruncated limit)"

lemma append_record_returns:
  "append_record B r db = Inr (ev, db') \<Longrightarrow>
     ev_execution_id ev = record_execution r \<and> ev_payload ev = record_payload B r"
  by (cases r) (auto simp: bind_res_Inr_iff output_event_def event_of_def record_execution_def
      record_payload_def)

lemma append_records_returns:
  "append_records B rs db = Inr (evs, db') \<Longrightarrow>
     map ev_execution_id evs = map record_execution rs \<and> map ev_payload evs = map (record_payload B) rs"
proof (induction rs arbitrary: db evs)
  case (Cons r rs)
  then obtain e db1 es where r: "append_record B r db = Inr (e, db1)"
    and rs: "append_records B rs db1 = Inr (es, db')" and evs: "evs = e # es"
    by (auto simp: bind_res_Inr_iff)
  show ?case using append_record_returns [OF r] Cons.IH [OF rs] by (simp add: evs)
qed simp

text \<open>A batch over known executions is always accepted.\<close>

lemma append_event_keeps_ids:
  assumes "db_inv db" and "legal_append xid E F" and "append_event xid E F db = Inr (seq, db')"
  shows "find_execution yid db' = None \<longleftrightarrow> find_execution yid db = None"
  using append_event_effect [OF assms] by (metis option.distinct(1))

lemma append_record_keeps_ids:
  assumes "db_inv db" and "append_record B r db = Inr (ev, db')"
  shows "find_execution yid db' = None \<longleftrightarrow> find_execution yid db = None"
proof (cases r)
  case (CaptureOutput xid ts stream data)
  then obtain seq where "append_event xid (output_row xid ts stream data)
      (\<lambda>seq x. x\<lparr>xr_last_seq := seq, xr_captured_bytes := xr_captured_bytes x + length data\<rparr>) db = Inr (seq, db')"
    using assms by (auto simp: bind_res_Inr_iff)
  then show ?thesis by (rule append_event_keeps_ids [OF assms(1) legal_output])
next
  case (CaptureTruncated xid ts limit)
  then obtain seq where "append_event xid (truncated_row xid ts limit)
      (\<lambda>seq x. x\<lparr>xr_last_seq := seq, xr_output_truncated := True\<rparr>) db = Inr (seq, db')"
    using assms by (auto simp: bind_res_Inr_iff)
  then show ?thesis by (rule append_event_keeps_ids [OF assms(1) legal_truncated])
qed

lemma append_record_accepts:
  assumes "db_inv db" and "find_execution (record_execution r) db \<noteq> None"
  shows "\<exists>ev db'. append_record B r db = Inr (ev, db')"
proof (cases r)
  case (CaptureOutput xid ts stream data)
  then show ?thesis using assms append_event_Some [OF assms(1)]
    by (auto simp: record_execution_def output_row_def)
next
  case (CaptureTruncated xid ts limit)
  then show ?thesis using assms append_event_Some [OF assms(1)]
    by (auto simp: record_execution_def truncated_row_def)
qed

lemma append_records_accepts:
  "db_inv db \<Longrightarrow> (\<forall>r \<in> set rs. find_execution (record_execution r) db \<noteq> None) \<Longrightarrow>
   \<exists>evs db'. append_records B rs db = Inr (evs, db')"
proof (induction rs arbitrary: db)
  case (Cons r rs)
  obtain ev db1 where r: "append_record B r db = Inr (ev, db1)"
    using append_record_accepts [of db r B] Cons.prems by auto
  have "db_inv db1" by (rule append_record_inv [OF Cons.prems(1) r])
  moreover have "\<forall>r \<in> set rs. find_execution (record_execution r) db1 \<noteq> None"
    using append_record_keeps_ids [OF Cons.prems(1) r] Cons.prems(2) by auto
  ultimately obtain evs db' where "append_records B rs db1 = Inr (evs, db')"
    using Cons.IH by blast
  then show ?case using r by simp
qed simp

text \<open>The bytes a row of the log holds of a stream.\<close>

definition row_bytes :: "output_stream \<Rightarrow> event_row \<Rightarrow> bytes" where
  "row_bytes stream r = (if er_stream r = Some (stream_str stream) then (case er_data r of Some d \<Rightarrow> d | None \<Rightarrow> []) else [])"

end
