(* ===== verification/StoreWorkspaces.thy ===== *)
theory StoreWorkspaces
  imports StoreInv "HOL-Library.List_Lexorder" "HOL-Library.Char_ord"
begin

text \<open>
  The workspace operations of \<open>Database\<close> (\<open>src/store.rs\<close>). \<open>canonicalize\<close> and \<open>is_dir\<close> are the file
  system's. A lookup by id or name takes the first matching row.
\<close>

section \<open>Operations\<close>

definition find_workspace_by :: "(workspace_row \<Rightarrow> bool) \<Rightarrow> database \<Rightarrow> workspace_row option" where
  "find_workspace_by p db = find p (db_workspaces db)"

definition named :: "string \<Rightarrow> workspace_row \<Rightarrow> bool" where
  "named identifier w \<longleftrightarrow> ws_id (wk_workspace w) = identifier \<or> ws_name (wk_workspace w) = identifier"

definition set_active :: "bool \<Rightarrow> string \<Rightarrow> database \<Rightarrow> database" where
  "set_active active wid db =
     db\<lparr>db_workspaces := update_where (\<lambda>w. ws_id (wk_workspace w) = wid)
          (\<lambda>w. w\<lparr>wk_active := active\<rparr>) (db_workspaces db)\<rparr>"

definition insert_workspace :: "workspace \<Rightarrow> database \<Rightarrow> database result" where
  "insert_workspace w db =
     (if list_ex (\<lambda>r. ws_id (wk_workspace r) = ws_id w) (db_workspaces db)
      then Inl (Database (ConstraintViolation ''UNIQUE constraint failed: workspaces.id''))
      else if list_ex (\<lambda>r. ws_name (wk_workspace r) = ws_name w) (db_workspaces db)
      then Inl (Database (ConstraintViolation ''UNIQUE constraint failed: workspaces.name''))
      else if list_ex (\<lambda>r. ws_root (wk_workspace r) = ws_root w) (db_workspaces db)
      then Inl (Database (ConstraintViolation ''UNIQUE constraint failed: workspaces.root''))
      else Inr (db\<lparr>db_workspaces := db_workspaces db @ [\<lparr>wk_workspace = w, wk_active = True\<rparr>]\<rparr>))"

definition add_workspace ::
  "(string \<Rightarrow> string result) \<Rightarrow> (string \<Rightarrow> bool) \<Rightarrow> int \<Rightarrow> string \<Rightarrow> string \<Rightarrow> string \<Rightarrow>
   database \<Rightarrow> workspace db_result" where
  "add_workspace canonicalize is_dir now new_id name path db =
     (if trim_is_empty name then (Inl (InvalidRequest ''workspace name must not be empty''), db)
      else case canonicalize path of
        Inl e \<Rightarrow> (Inl e, db)
      | Inr canonical \<Rightarrow>
          if \<not> is_dir canonical
          then (Inl (InvalidRequest (''workspace root is not a directory: '' @ from_utf8_lossy canonical)), db)
          else
            let root = from_utf8_lossy canonical in
            (case find_workspace_by (\<lambda>w. ws_root (wk_workspace w) = root) db of
               Some row \<Rightarrow>
                 let w = wk_workspace row in
                 if ws_name w \<noteq> name
                 then (Inl (InvalidRequest (''workspace root '' @ ws_root w @ '' is already registered as ''
                             @ ws_name w)), db)
                 else if \<not> wk_active row then (Inr w, set_active True (ws_id w) db)
                 else (Inr w, db)
             | None \<Rightarrow>
                 (case find_workspace_by (\<lambda>w. ws_name (wk_workspace w) = name) db of
                    Some row \<Rightarrow>
                      (Inl (InvalidRequest (''workspace name '' @ name @ '' is already registered for ''
                              @ ws_root (wk_workspace row))), db)
                  | None \<Rightarrow>
                      let w = \<lparr>ws_id = new_id, ws_name = name, ws_root = root, ws_created_at_ms = now\<rparr> in
                      (case insert_workspace w db of
                         Inl e \<Rightarrow> (Inl e, db)
                       | Inr db' \<Rightarrow> (Inr w, db')))))"

definition remove_workspace :: "string \<Rightarrow> database \<Rightarrow> unit db_result" where
  "remove_workspace identifier db =
     (case find_workspace_by (named identifier) db of
        None \<Rightarrow> (Inl (WorkspaceNotFound identifier), db)
      | Some row \<Rightarrow> (Inr (), set_active False (ws_id (wk_workspace row)) db))"

definition get_workspace :: "string \<Rightarrow> database \<Rightarrow> workspace result" where
  "get_workspace identifier db =
     ok_or (WorkspaceNotFound identifier)
       (map_option wk_workspace (find_workspace_by (\<lambda>w. named identifier w \<and> wk_active w) db))"

definition find_workspace_by_root ::
  "(string \<Rightarrow> string result) \<Rightarrow> string \<Rightarrow> database \<Rightarrow> workspace option result" where
  "find_workspace_by_root canonicalize path db =
     bind_res (canonicalize path) (\<lambda>canonical.
       Inr (map_option wk_workspace (find_workspace_by
              (\<lambda>w. ws_root (wk_workspace w) = from_utf8_lossy canonical \<and> wk_active w) db)))"

text \<open>\<open>COLLATE NOCASE\<close> folds the ASCII letters and compares bytes.\<close>

definition list_workspaces :: "database \<Rightarrow> workspace list" where
  "list_workspaces db =
     map wk_workspace (order_by (\<lambda>w. map ascii_lower (ws_name (wk_workspace w)))
       (filter wk_active (db_workspaces db)))"

section \<open>The invariant\<close>

lemma set_active_frame [simp]:
  "db_sessions (set_active a wid db) = db_sessions db"
  "db_executions (set_active a wid db) = db_executions db"
  "db_events (set_active a wid db) = db_events db"
  "db_turns (set_active a wid db) = db_turns db"
  "db_actions (set_active a wid db) = db_actions db"
  "events_of (set_active a wid db) = events_of db"
  by (simp_all add: set_active_def events_of_def fun_eq_iff)

lemma set_active_keys:
  "map (\<lambda>w. f (wk_workspace w)) (db_workspaces (set_active a wid db)) = map (\<lambda>w. f (wk_workspace w)) (db_workspaces db)"
  by (simp add: set_active_def map_update_where)

lemma workspace_ids_set_active [simp]: "workspace_ids (set_active a wid db) = workspace_ids db"
  using arg_cong [OF set_active_keys [of ws_id a wid db], of set] by (simp add: workspace_ids_def)

lemma workspaces_only_inv:
  assumes "db_inv db" and "key_inv db'" and "workspace_ids db \<subseteq> workspace_ids db'"
    and "db_sessions db' = db_sessions db" "db_executions db' = db_executions db" "db_events db' = db_events db"
      "db_turns db' = db_turns db" "db_actions db' = db_actions db"
  shows "db_inv db'"
proof (rule db_invI [OF assms(2)])
  have ev: "events_of db' = events_of db" by (rule ext) (simp add: events_of_def assms)
  show "ref_inv db'" using assms(1,3)
    by (auto simp: db_inv_def ref_inv_def session_ids_def execution_ids_def turn_ids_def assms(4-8))
  show "state_inv db'" "log_inv db'"
    using assms(1) by (simp_all add: db_inv_def state_inv_def log_inv_def ev assms(4-8))
qed

lemma set_active_inv [inv_intros]: "db_inv db \<Longrightarrow> db_inv (set_active a wid db)"
  by (rule workspaces_only_inv) (simp_all add: db_inv_def key_inv_def set_active_keys)

lemma insert_workspace_inv [inv_intros]: "db_inv db \<Longrightarrow> insert_workspace w db = Inr db' \<Longrightarrow> db_inv db'"
  by (rule workspaces_only_inv [of db])
    (auto simp: insert_workspace_def db_inv_def key_inv_def workspace_ids_def list_ex_key_iff
      split: if_split_asm)

lemma add_workspace_inv: "db_inv db \<Longrightarrow> db_inv (snd (add_workspace can dir now nid name path db))"
  unfolding add_workspace_def Let_def
  by (auto split: sum.split option.split intro: set_active_inv insert_workspace_inv)

lemma remove_workspace_inv: "db_inv db \<Longrightarrow> db_inv (snd (remove_workspace identifier db))"
  by (simp add: remove_workspace_def set_active_inv split: option.split)

section \<open>What callers see\<close>

lemma find_set_active:
  "find p (db_workspaces (set_active a wid db)) =
     find p (update_where (\<lambda>w. ws_id (wk_workspace w) = wid) (\<lambda>w. w\<lparr>wk_active := a\<rparr>) (db_workspaces db))"
  by (simp add: set_active_def)

text \<open>A workspace that was just added is found by its id, under its canonical root, and is listed.\<close>

lemma add_workspace_active:
  assumes inv: "db_inv db" and r: "add_workspace can dir now nid name path db = (Inr w, db')"
  shows "\<exists>row \<in> set (db_workspaces db'). wk_workspace row = w \<and> wk_active row"
    and "ws_name w = name" and "\<exists>c. can path = Inr c \<and> dir c \<and> ws_root w = from_utf8_lossy c"
proof -
  obtain c where c: "can path = Inr c" "dir c"
    using r by (auto simp: add_workspace_def split: if_split_asm sum.split_asm)
  let ?root = "from_utf8_lossy c"
  have "(\<exists>row \<in> set (db_workspaces db'). wk_workspace row = w \<and> wk_active row) \<and> ws_name w = name
      \<and> ws_root w = ?root"
  proof (cases "find_workspace_by (\<lambda>w. ws_root (wk_workspace w) = ?root) db")
    case (Some row)
    then have row: "row \<in> set (db_workspaces db)" "ws_root (wk_workspace row) = ?root"
      by (auto simp: find_workspace_by_def dest: find_Some_mem)
    have w: "w = wk_workspace row" "ws_name w = name"
      using r c Some by (auto simp: add_workspace_def Let_def split: if_split_asm)
    show ?thesis
    proof (cases "wk_active row")
      case True
      then show ?thesis using r c Some row w by (auto simp: add_workspace_def Let_def split: if_split_asm)
    next
      case False
      then have "db' = set_active True (ws_id w) db"
        using r c Some w by (auto simp: add_workspace_def Let_def split: if_split_asm)
      moreover have "row\<lparr>wk_active := True\<rparr> \<in> set (db_workspaces (set_active True (ws_id w) db))"
        using row w by (force simp: set_active_def set_update_where)
      ultimately show ?thesis using w row(2) by (intro conjI bexI [of _ "row\<lparr>wk_active := True\<rparr>"]) simp_all
    qed
  next
    case None
    then show ?thesis
      using r c by (auto simp: add_workspace_def Let_def insert_workspace_def
          split: if_split_asm option.split_asm sum.split_asm)
  qed
  then show "\<exists>row \<in> set (db_workspaces db'). wk_workspace row = w \<and> wk_active row"
    "ws_name w = name" "\<exists>c. can path = Inr c \<and> dir c \<and> ws_root w = from_utf8_lossy c"
    using c by auto
qed

end
