(* ===== verification/StoreSessions.thy ===== *)
theory StoreSessions
  imports StoreExecutions StoreWorkspaces
begin

text \<open>
  Agent sessions, their turns and their actions (\<open>src/store.rs\<close>): creating, finishing, reading, listing
  and deleting a session, and recording the events an agent's hooks report. Of these only deletion runs
  in a transaction; the others are sequences of statements, and an error leaves what was done before it.
\<close>

section \<open>Sessions\<close>

definition insert_session :: "session_row \<Rightarrow> database \<Rightarrow> database result" where
  "insert_session s db =
     (if find_session (sn_id s) db \<noteq> None
      then Inl (Database (ConstraintViolation ''UNIQUE constraint failed: agent_sessions.id''))
      else if \<not> list_ex (\<lambda>w. ws_id (wk_workspace w) = sn_workspace_id s) (db_workspaces db)
      then Inl (Database (ConstraintViolation ''FOREIGN KEY constraint failed''))
      else Inr (db\<lparr>db_sessions := db_sessions db @ [s]\<rparr>))"

definition new_session_row :: "int \<Rightarrow> agent_session_request \<Rightarrow> workspace \<Rightarrow> string \<Rightarrow> session_row" where
  "new_session_row now rq w cwd =
     \<lparr>sn_id = sr_id rq, sn_workspace_id = ws_id w, sn_state = ''recording'',
      sn_agent_kind = sr_agent_kind rq, sn_name = sr_name rq, sn_command = sr_command rq,
      sn_cwd = from_utf8_lossy cwd, sn_created_at_ms = now, sn_ended_at_ms = None,
      sn_recorder_pid = sr_recorder_pid rq, sn_outcome = None, sn_captured_bytes = 0,
      sn_output_truncated = False, sn_initial_cols = sr_initial_cols rq,
      sn_initial_rows = sr_initial_rows rq, sn_cast_path = sr_cast_path rq,
      sn_html_path = sr_html_path rq\<rparr>"

definition create_agent_session ::
  "(string \<Rightarrow> string result) \<Rightarrow> int \<Rightarrow> agent_session_request \<Rightarrow> database \<Rightarrow> agent_session db_result" where
  "create_agent_session canonicalize now rq db =
     (case bind_res (session_request_validate rq) (\<lambda>_.
           bind_res (get_workspace (sr_workspace_id rq) db) (\<lambda>w.
           bind_res (canonicalize (sr_cwd rq)) (\<lambda>cwd.
             if \<not> path_eq cwd (ws_root w) \<and> \<not> path_starts_with cwd (ws_root w)
             then Inl (OutsideWorkspace cwd (ws_root w))
             else insert_session (new_session_row now rq w cwd) db))) of
        Inl e \<Rightarrow> (Inl e, db)
      | Inr db' \<Rightarrow> (get_agent_session_record (sr_id rq) db', db'))"

definition update_session :: "string \<Rightarrow> (session_row \<Rightarrow> session_row) \<Rightarrow> database \<Rightarrow> database" where
  "update_session sid f db =
     db\<lparr>db_sessions := update_where (\<lambda>s. sn_id s = sid) f (db_sessions db)\<rparr>"

definition update_turns :: "(turn_row \<Rightarrow> bool) \<Rightarrow> (turn_row \<Rightarrow> turn_row) \<Rightarrow> database \<Rightarrow> database" where
  "update_turns p f db = db\<lparr>db_turns := update_where p f (db_turns db)\<rparr>"

definition interrupt_turn :: "int \<Rightarrow> turn_row \<Rightarrow> turn_row" where
  "interrupt_turn now t = t\<lparr>tr_state := ''interrupted'', tr_ended_at_ms := Some now\<rparr>"

definition set_session_finished :: "int \<Rightarrow> agent_session_finish \<Rightarrow> session_row \<Rightarrow> session_row" where
  "set_session_finished now fin s =
     s\<lparr>sn_state := session_state_str (sf_state fin), sn_ended_at_ms := Some now,
       sn_outcome := Some (sf_outcome fin), sn_captured_bytes := as_i64 (sf_captured_bytes fin),
       sn_output_truncated := sf_output_truncated fin\<rparr>"

definition is_interrupted_outcome :: "execution_outcome \<Rightarrow> bool" where
  "is_interrupted_outcome outcome = (case outcome of OutcomeInterrupted _ \<Rightarrow> True | _ \<Rightarrow> False)"

definition finish_agent_session ::
  "int \<Rightarrow> string \<Rightarrow> agent_session_finish \<Rightarrow> database \<Rightarrow> agent_session db_result" where
  "finish_agent_session now sid fin db =
     (if sf_state fin = Recording
      then (Inl (InvalidRequest ''finished agent session must use a terminal state''), db)
      else if (sf_state fin = SessionInterrupted) \<noteq> is_interrupted_outcome (sf_outcome fin)
      then (Inl (InvalidRequest ''interrupted agent session state and outcome must agree''), db)
      else case get_agent_session_record sid db of
        Inl e \<Rightarrow> (Inl e, db)
      | Inr current \<Rightarrow>
          if session_is_terminal (as_state current) then (Inr current, db)
          else
            let db1 = update_session sid (set_session_finished now fin) db;
                db2 = update_turns (\<lambda>t. tr_session_id t = sid \<and> tr_state t = ''active'')
                        (interrupt_turn now) db1
            in (get_agent_session_record sid db2, db2))"

definition delete_agent_session :: "string \<Rightarrow> database \<Rightarrow> unit db_result" where
  "delete_agent_session sid db =
     (case get_agent_session_record sid db of
        Inl e \<Rightarrow> (Inl e, db)
      | Inr session \<Rightarrow>
          if \<not> session_is_terminal (as_state session)
          then (Inl (InvalidRequest (''agent session '' @ sid @ '' is still recording'')), db)
          else
            let gone = map tr_id (filter (\<lambda>t. tr_session_id t = sid) (db_turns db)) in
            (Inr (),
             db\<lparr>db_executions := update_where (\<lambda>x. xr_session_id x = Some sid)
                   (\<lambda>x. x\<lparr>xr_session_id := None, xr_initiator := (xr_initiator x)\<lparr>in_session_id := None\<rparr>\<rparr>)
                   (db_executions db),
                db_sessions := delete_where (\<lambda>s. sn_id s = sid) (db_sessions db),
                db_turns := delete_where (\<lambda>t. tr_session_id t = sid) (db_turns db),
                db_actions := delete_where (\<lambda>a. cr_turn_id a \<in> set gone) (db_actions db)\<rparr>))"

section \<open>Reading sessions\<close>

definition read_sessions :: "session_row list \<Rightarrow> agent_session list result" where
  "read_sessions rows = collect_res (map agent_session_from_row rows)"

definition session_of_workspace :: "string \<Rightarrow> database \<Rightarrow> session_row \<Rightarrow> bool" where
  "session_of_workspace v db s \<longleftrightarrow>
     list_ex (\<lambda>w. ws_id (wk_workspace w) = sn_workspace_id s \<and>
                  (sn_workspace_id s = v \<or> ws_name (wk_workspace w) = v)) (db_workspaces db)"

definition list_agent_sessions :: "string option \<Rightarrow> nat \<Rightarrow> database \<Rightarrow> agent_session list result" where
  "list_agent_sessions workspace limit db =
     read_sessions (take limit (order_by_desc sn_created_at_ms
       (case workspace of
          Some v \<Rightarrow> filter (session_of_workspace v db) (db_sessions db)
        | None \<Rightarrow> db_sessions db)))"

definition active_agent_sessions :: "database \<Rightarrow> agent_session list result" where
  "active_agent_sessions db =
     read_sessions (order_by sn_created_at_ms (filter (\<lambda>s. sn_state s = ''recording'') (db_sessions db)))"

definition turns_of_session :: "string \<Rightarrow> database \<Rightarrow> turn_row list" where
  "turns_of_session sid db = filter (\<lambda>t. tr_session_id t = sid) (db_turns db)"

definition actions_of_session :: "string \<Rightarrow> database \<Rightarrow> action_row list" where
  "actions_of_session sid db =
     filter (\<lambda>a. list_ex (\<lambda>t. tr_id t = cr_turn_id a) (turns_of_session sid db)) (db_actions db)"

definition get_agent_session ::
  "(nat \<Rightarrow> int) \<Rightarrow> string \<Rightarrow> database \<Rightarrow> agent_session_detail result" where
  "get_agent_session clock sid db =
     bind_res (get_agent_session_record sid db) (\<lambda>session.
     bind_res (read_executions clock (order_by xr_created_at_ms
         (filter (\<lambda>x. xr_session_id x = Some sid \<or>
                      Some (xr_id x) \<in> set (map cr_execution_id (actions_of_session sid db)))
            (db_executions db)))) (\<lambda>executions.
     bind_res (collect_res (map agent_turn_from_row
         (order_by tr_created_at_ms (turns_of_session sid db)))) (\<lambda>turns.
     bind_res (collect_res (map agent_action_from_row
         (order_by cr_created_at_ms (actions_of_session sid db)))) (\<lambda>actions.
       Inr \<lparr>sd_session = session, sd_executions = executions, sd_turns = turns, sd_actions = actions\<rparr>))))"

section \<open>Turns\<close>

definition of_provider :: "agent_event_request \<Rightarrow> turn_row \<Rightarrow> bool" where
  "of_provider rq t \<longleftrightarrow>
     tr_session_id t = ae_session_id rq \<and> tr_provider t = ae_provider rq \<and>
     tr_provider_session_id t = ae_provider_session_id rq"

definition find_provider_turn :: "agent_event_request \<Rightarrow> database \<Rightarrow> agent_turn option result" where
  "find_provider_turn rq db =
     (case ae_provider_turn_id rq of
        None \<Rightarrow> Inr None
      | Some pid \<Rightarrow>
          (case find (\<lambda>t. of_provider rq t \<and> tr_provider_turn_id t = Some pid) (db_turns db) of
             None \<Rightarrow> Inr None
           | Some t \<Rightarrow> bind_res (agent_turn_from_row t) (\<lambda>turn. Inr (Some turn))))"

definition find_active_turn :: "agent_event_request \<Rightarrow> database \<Rightarrow> agent_turn option result" where
  "find_active_turn rq db =
     (case first_opt (order_by_desc tr_created_at_ms
             (filter (\<lambda>t. of_provider rq t \<and> tr_state t = ''active'') (db_turns db))) of
        None \<Rightarrow> Inr None
      | Some t \<Rightarrow> bind_res (agent_turn_from_row t) (\<lambda>turn. Inr (Some turn)))"

definition get_agent_turn :: "string \<Rightarrow> database \<Rightarrow> agent_turn result" where
  "get_agent_turn tid db =
     (case find_turn tid db of
        None \<Rightarrow> Inl (InvalidRequest (''agent turn not found: '' @ tid))
      | Some t \<Rightarrow> agent_turn_from_row t)"

definition insert_turn :: "turn_row \<Rightarrow> database \<Rightarrow> database result" where
  "insert_turn t db =
     (if find_turn (tr_id t) db \<noteq> None
      then Inl (Database (ConstraintViolation ''UNIQUE constraint failed: agent_turns.id''))
      else if has_turn_id t \<and> list_ex (\<lambda>u. turn_index u = turn_index t) (filter has_turn_id (db_turns db))
      then Inl (Database (ConstraintViolation ''UNIQUE constraint failed: index agent_turns_provider_turn''))
      else if find_session (tr_session_id t) db = None
      then Inl (Database (ConstraintViolation ''FOREIGN KEY constraint failed''))
      else Inr (db\<lparr>db_turns := db_turns db @ [t]\<rparr>))"

definition new_turn_row :: "agent_event_request \<Rightarrow> string \<Rightarrow> string \<Rightarrow> int \<Rightarrow> turn_row" where
  "new_turn_row rq tid prompt now =
     \<lparr>tr_id = tid, tr_session_id = ae_session_id rq, tr_provider = ae_provider rq,
      tr_provider_session_id = ae_provider_session_id rq, tr_provider_turn_id = ae_provider_turn_id rq,
      tr_state = ''active'', tr_prompt = prompt, tr_created_at_ms = now, tr_ended_at_ms = None,
      tr_last_assistant_message = None\<rparr>"

definition insert_agent_turn ::
  "agent_event_request \<Rightarrow> string \<Rightarrow> string \<Rightarrow> int \<Rightarrow> database \<Rightarrow> agent_turn db_result" where
  "insert_agent_turn rq tid prompt now db =
     (case insert_turn (new_turn_row rq tid prompt now) db of
        Inl e \<Rightarrow> (Inl e, db)
      | Inr db' \<Rightarrow> (get_agent_turn tid db', db'))"

definition find_or_create_agent_turn ::
  "agent_event_request \<Rightarrow> string \<Rightarrow> int \<Rightarrow> database \<Rightarrow> agent_turn db_result" where
  "find_or_create_agent_turn rq tid now db =
     (case (if ae_provider_turn_id rq \<noteq> None then find_provider_turn rq db else find_active_turn rq db) of
        Inl e \<Rightarrow> (Inl e, db)
      | Inr (Some turn) \<Rightarrow> (Inr turn, db)
      | Inr None \<Rightarrow> insert_agent_turn rq tid '''' now db)"

section \<open>Actions\<close>

text \<open>\<open>INSERT ... ON CONFLICT(turn_id, provider_action_id) DO UPDATE\<close>.\<close>

definition upsert_action :: "action_row \<Rightarrow> (action_row \<Rightarrow> action_row) \<Rightarrow> database \<Rightarrow> database result" where
  "upsert_action a f db =
     (let same = (\<lambda>b. cr_turn_id b = cr_turn_id a \<and> cr_provider_action_id b = cr_provider_action_id a) in
      if list_ex (\<lambda>b. cr_id b = cr_id a) (db_actions db)
      then Inl (Database (ConstraintViolation ''UNIQUE constraint failed: agent_actions.id''))
      else if list_ex same (db_actions db)
      then Inr (db\<lparr>db_actions := update_where same f (db_actions db)\<rparr>)
      else if find_turn (cr_turn_id a) db = None \<or>
              (case cr_execution_id a of None \<Rightarrow> False | Some xid \<Rightarrow> find_execution xid db = None)
      then Inl (Database (ConstraintViolation ''FOREIGN KEY constraint failed''))
      else Inr (db\<lparr>db_actions := db_actions db @ [a]\<rparr>))"

definition linked_execution :: "string option \<Rightarrow> string \<Rightarrow> database \<Rightarrow> string option" where
  "linked_execution candidate workspace_id db =
     (case candidate of
        None \<Rightarrow> None
      | Some xid \<Rightarrow>
          if list_ex (\<lambda>x. xr_id x = xid \<and> xr_workspace_id x = workspace_id) (db_executions db)
          then Some xid else None)"

definition started_action :: "string \<Rightarrow> string \<Rightarrow> string \<Rightarrow> string \<Rightarrow> int \<Rightarrow> action_row" where
  "started_action aid turn_id action_id tool_name now =
     \<lparr>cr_id = aid, cr_turn_id = turn_id, cr_provider_action_id = action_id, cr_tool_name = tool_name,
      cr_state = ''running'', cr_execution_id = None, cr_created_at_ms = now, cr_ended_at_ms = None\<rparr>"

definition finished_action ::
  "string \<Rightarrow> string \<Rightarrow> string \<Rightarrow> string \<Rightarrow> string \<Rightarrow> string option \<Rightarrow> int \<Rightarrow> action_row" where
  "finished_action aid turn_id action_id tool_name state xid now =
     \<lparr>cr_id = aid, cr_turn_id = turn_id, cr_provider_action_id = action_id, cr_tool_name = tool_name,
      cr_state = state, cr_execution_id = xid, cr_created_at_ms = now, cr_ended_at_ms = Some now\<rparr>"

section \<open>Recording an agent's event\<close>

definition prompt_submitted ::
  "int \<Rightarrow> string \<Rightarrow> agent_event_request \<Rightarrow> string \<Rightarrow> database \<Rightarrow> agent_turn db_result" where
  "prompt_submitted now tid rq prompt db =
     (let db1 = update_turns (\<lambda>t. of_provider rq t \<and> tr_state t = ''active'' \<and>
                    (ae_provider_turn_id rq = None \<or> tr_provider_turn_id t = None \<or>
                     tr_provider_turn_id t \<noteq> ae_provider_turn_id rq))
                  (interrupt_turn now) db
      in case find_provider_turn rq db1 of
           Inl e \<Rightarrow> (Inl e, db1)
         | Inr (Some turn) \<Rightarrow>
             let db2 = update_turns (\<lambda>t. tr_id t = tn_id turn)
                         (\<lambda>t. t\<lparr>tr_state := ''active'', tr_prompt := prompt, tr_ended_at_ms := None,
                               tr_last_assistant_message := None\<rparr>) db1
             in (get_agent_turn (tn_id turn) db2, db2)
         | Inr None \<Rightarrow> insert_agent_turn rq tid prompt now db1)"

definition tool_started ::
  "int \<Rightarrow> string \<Rightarrow> string \<Rightarrow> agent_event_request \<Rightarrow> string \<Rightarrow> string \<Rightarrow> database \<Rightarrow> agent_turn db_result" where
  "tool_started now tid aid rq action_id tool_name db =
     (case find_or_create_agent_turn rq tid now db of
        (Inl e, db1) \<Rightarrow> (Inl e, db1)
      | (Inr turn, db1) \<Rightarrow>
          (case upsert_action (started_action aid (tn_id turn) action_id tool_name now)
                  (\<lambda>a. a\<lparr>cr_tool_name := tool_name, cr_state := ''running'', cr_ended_at_ms := None\<rparr>) db1 of
             Inl e \<Rightarrow> (Inl e, db1)
           | Inr db2 \<Rightarrow> (Inr turn, db2)))"

definition tool_finished ::
  "int \<Rightarrow> string \<Rightarrow> string \<Rightarrow> string \<Rightarrow> agent_event_request \<Rightarrow> string \<Rightarrow> string \<Rightarrow> bool \<Rightarrow> string option \<Rightarrow>
   database \<Rightarrow> agent_turn db_result" where
  "tool_finished now tid aid workspace_id rq action_id tool_name failed candidate db =
     (case find_or_create_agent_turn rq tid now db of
        (Inl e, db1) \<Rightarrow> (Inl e, db1)
      | (Inr turn, db1) \<Rightarrow>
          let xid = linked_execution candidate workspace_id db1;
              state = (if failed then ''failed'' else ''completed'') in
          (case upsert_action (finished_action aid (tn_id turn) action_id tool_name state xid now)
                  (\<lambda>a. a\<lparr>cr_tool_name := tool_name, cr_state := state,
                        cr_execution_id := (case xid of None \<Rightarrow> cr_execution_id a | Some _ \<Rightarrow> xid),
                        cr_ended_at_ms := Some now\<rparr>) db1 of
             Inl e \<Rightarrow> (Inl e, db1)
           | Inr db2 \<Rightarrow> (Inr turn, db2)))"

definition turn_finished ::
  "int \<Rightarrow> string \<Rightarrow> agent_event_request \<Rightarrow> bool \<Rightarrow> string option \<Rightarrow> database \<Rightarrow> agent_turn db_result" where
  "turn_finished now tid rq failed message db =
     (case find_or_create_agent_turn rq tid now db of
        (Inl e, db1) \<Rightarrow> (Inl e, db1)
      | (Inr turn, db1) \<Rightarrow>
          let db2 = update_turns (\<lambda>t. tr_id t = tn_id turn)
                      (\<lambda>t. t\<lparr>tr_state := (if failed then ''failed'' else ''completed''),
                            tr_ended_at_ms := Some now, tr_last_assistant_message := message\<rparr>) db1
          in (get_agent_turn (tn_id turn) db2, db2))"

definition record_agent_event ::
  "int \<Rightarrow> string \<Rightarrow> string \<Rightarrow> agent_event_request \<Rightarrow> database \<Rightarrow> agent_turn db_result" where
  "record_agent_event now tid aid rq db =
     (case bind_res (event_request_validate rq) (\<lambda>_. get_agent_session_record (ae_session_id rq) db) of
        Inl e \<Rightarrow> (Inl e, db)
      | Inr session \<Rightarrow>
          if as_state session \<noteq> Recording
          then (Inl (InvalidRequest (''agent session '' @ ae_session_id rq @ '' is no longer recording'')), db)
          else case ae_event rq of
            PromptSubmitted prompt \<Rightarrow> prompt_submitted now tid rq prompt db
          | ToolStarted action_id tool_name \<Rightarrow> tool_started now tid aid rq action_id tool_name db
          | ToolFinished action_id tool_name failed xid \<Rightarrow>
              tool_finished now tid aid (as_workspace_id session) rq action_id tool_name failed xid db
          | TurnFinished failed message \<Rightarrow> turn_finished now tid rq failed message db)"


text \<open>Every operation on sessions, turns and actions keeps the invariant of the store.\<close>

section \<open>Reading back\<close>

lemma state_names [simp]:
  "''recording'' \<in> range session_state_str" "''finished'' \<in> range session_state_str"
  "''interrupted'' \<in> range session_state_str"
  "''active'' \<in> range turn_state_str" "''completed'' \<in> range turn_state_str"
  "''failed'' \<in> range turn_state_str" "''interrupted'' \<in> range turn_state_str"
  "''running'' \<in> range action_state_str" "''completed'' \<in> range action_state_str"
  "''failed'' \<in> range action_state_str"
  by (metis rangeI session_state_str.simps turn_state_str.simps action_state_str.simps)+

lemma turn_key: "db_inv db \<Longrightarrow> distinct (map tr_id (db_turns db))"
  by (simp add: db_inv_def key_inv_def)

lemma find_turn_iff:
  "db_inv db \<Longrightarrow> find_turn tid db = Some t \<longleftrightarrow> t \<in> set (db_turns db) \<and> tr_id t = tid"
  by (simp add: find_turn_def find_key_iff turn_key)

lemma find_turn_None_iff: "find_turn tid db = None \<longleftrightarrow> tid \<notin> turn_ids db"
  by (simp add: find_turn_def find_key_None_iff turn_ids_def)

lemma find_session_None_iff: "find_session sid db = None \<longleftrightarrow> sid \<notin> session_ids db"
  by (simp add: find_session_def find_key_None_iff session_ids_def)

lemma agent_turn_from_row_Inr:
  "agent_turn_from_row t = Inr turn \<Longrightarrow>
     tn_id turn = tr_id t \<and> turn_state_str (tn_state turn) = tr_state t \<and>
     tn_session_id turn = tr_session_id t \<and> tn_provider_turn_id turn = tr_provider_turn_id t"
  by (auto simp: agent_turn_from_row_def bind_res_Inr_iff parse_turn_state_Inr_iff)

lemma agent_turn_decodes:
  "db_inv db \<Longrightarrow> t \<in> set (db_turns db) \<Longrightarrow> \<exists>turn. agent_turn_from_row t = Inr turn \<and> tn_id turn = tr_id t"
  by (auto simp: agent_turn_from_row_def db_inv_def state_inv_def)

lemma agent_session_from_row_Inr:
  "agent_session_from_row s = Inr session \<Longrightarrow>
     as_id session = sn_id s \<and> session_state_str (as_state session) = sn_state s \<and>
     as_workspace_id session = sn_workspace_id s"
  by (auto simp: agent_session_from_row_def bind_res_Inr_iff parse_session_state_Inr_iff)

lemma get_agent_session_record_Inr:
  "get_agent_session_record sid db = Inr session \<Longrightarrow>
     \<exists>s. find_session sid db = Some s \<and> agent_session_from_row s = Inr session \<and> as_id session = sid \<and>
         session_state_str (as_state session) = sn_state s \<and> as_workspace_id session = sn_workspace_id s"
  by (auto simp: get_agent_session_record_def split: option.split_asm dest: agent_session_from_row_Inr
      find_session_Some)

lemma session_decodes:
  assumes "db_inv db" and "find_session sid db = Some s"
  obtains session where "get_agent_session_record sid db = Inr session"
    and "session_state_str (as_state session) = sn_state s" and "as_id session = sid"
proof -
  from assms obtain st where "sn_state s = session_state_str st"
    using find_session_Some [OF assms(2)] by (auto simp: db_inv_def state_inv_def)
  then obtain session where "agent_session_from_row s = Inr session"
    by (auto simp: agent_session_from_row_def)
  then show thesis using that assms(2) agent_session_from_row_Inr find_session_Some
    by (fastforce simp: get_agent_session_record_def)
qed

section \<open>Sessions\<close>

lemma insert_session_inv [inv_intros]:
  assumes inv: "db_inv db" and r: "insert_session s db = Inr db'" and st: "sn_state s \<in> range session_state_str"
  shows "db_inv db'"
proof -
  have db': "db' = db\<lparr>db_sessions := db_sessions db @ [s]\<rparr>" and new: "sn_id s \<notin> session_ids db"
    and fk: "sn_workspace_id s \<in> workspace_ids db"
    using r by (auto simp: insert_session_def workspace_ids_def list_ex_key_iff find_session_None_iff
        split: if_split_asm)
  have ev: "events_of db' = events_of db" by (rule ext) (simp add: db' events_of_def)
  show ?thesis
  proof (rule db_invI)
    show "key_inv db'" using inv new by (auto simp: db' db_inv_def key_inv_def session_ids_def)
    show "ref_inv db'" using inv fk by (auto simp: db' db_inv_def inv_defs)
    show "state_inv db'" using inv st by (simp add: db' db_inv_def state_inv_def)
    show "log_inv db'" using inv by (simp add: log_inv_def ev db_inv_def) (simp add: db')
  qed
qed

lemma create_agent_session_inv: "db_inv db \<Longrightarrow> db_inv (snd (create_agent_session can now rq db))"
  by (auto simp: create_agent_session_def bind_res_Inr_iff new_session_row_def split: sum.split if_split_asm
      intro!: insert_session_inv [of db] range_eqI [of _ _ Recording])

lemma update_session_inv [inv_intros]:
  assumes inv: "db_inv db"
    and f: "\<And>s. sn_id (f s) = sn_id s \<and> sn_workspace_id (f s) = sn_workspace_id s"
    and st: "\<And>s. sn_state s \<in> range session_state_str \<Longrightarrow> sn_state (f s) \<in> range session_state_str"
  shows "db_inv (update_session sid f db)" (is "db_inv ?db")
proof -
  have ids: "map sn_id (db_sessions ?db) = map sn_id (db_sessions db)"
    using f by (simp add: update_session_def map_update_where)
  have sids: "session_ids ?db = session_ids db"
    using arg_cong [OF ids, of set] by (simp add: session_ids_def)
  have frame: "workspace_ids ?db = workspace_ids db" "execution_ids ?db = execution_ids db"
    "turn_ids ?db = turn_ids db" "events_of ?db = events_of db"
    by (simp_all add: update_session_def workspace_ids_def execution_ids_def turn_ids_def events_of_def fun_eq_iff)
  show ?thesis
  proof (rule db_invI)
    show "key_inv ?db" using inv ids by (simp add: db_inv_def key_inv_def) (simp add: update_session_def)
    show "ref_inv ?db" using inv f unfolding ref_inv_def sids frame
      by (auto simp: db_inv_def ref_inv_def update_session_def set_update_where)
    show "state_inv ?db" using inv st unfolding state_inv_def
      by (auto simp: db_inv_def state_inv_def update_session_def set_update_where)
    show "log_inv ?db" using inv unfolding log_inv_def frame
      by (simp add: db_inv_def log_inv_def update_session_def)
  qed
qed

section \<open>Turns\<close>

lemma turns_only_inv:
  assumes "db_inv db" and "key_inv db'" and "turn_ids db \<subseteq> turn_ids db'"
    and "\<forall>t \<in> set (db_turns db'). tr_session_id t \<in> session_ids db \<and> tr_state t \<in> range turn_state_str"
    and "db_workspaces db' = db_workspaces db" "db_sessions db' = db_sessions db"
      "db_executions db' = db_executions db" "db_events db' = db_events db" "db_actions db' = db_actions db"
  shows "db_inv db'"
proof (rule db_invI [OF assms(2)])
  have ev: "events_of db' = events_of db" by (rule ext) (simp add: events_of_def assms)
  show "ref_inv db'" using assms(1,3,4)
    by (auto simp: db_inv_def ref_inv_def session_ids_def execution_ids_def workspace_ids_def assms(5-9))
  show "state_inv db'" "log_inv db'"
    using assms(1,4) by (simp_all add: db_inv_def state_inv_def log_inv_def ev assms(5-9))
qed

lemma update_turns_inv [inv_intros]:
  assumes inv: "db_inv db"
    and f: "\<And>t. tr_id (f t) = tr_id t \<and> turn_index (f t) = turn_index t"
    and st: "\<And>t. tr_state (f t) \<in> range turn_state_str"
  shows "db_inv (update_turns p f db)" (is "db_inv ?db")
proof (rule turns_only_inv [OF inv])
  have ids: "map tr_id (db_turns ?db) = map tr_id (db_turns db)"
    using f by (simp add: update_turns_def map_update_where)
  have ht: "has_turn_id (f t) = has_turn_id t" for t
    using f [of t] by (simp add: turn_index_def has_turn_id_def)
  have "filter has_turn_id (db_turns ?db) = update_where p f (filter has_turn_id (db_turns db))"
    using ht by (simp add: update_turns_def filter_update_where)
  then have idx: "map turn_index (filter has_turn_id (db_turns ?db)) = map turn_index (filter has_turn_id (db_turns db))"
    using f by (simp add: map_update_where)
  show "key_inv ?db" using inv ids idx by (simp add: db_inv_def key_inv_def) (simp add: update_turns_def)
  show "turn_ids db \<subseteq> turn_ids ?db" using arg_cong [OF ids, of set] by (simp add: turn_ids_def)
  have sid: "tr_session_id (f t) = tr_session_id t" for t
    using f [of t] by (simp add: turn_index_def)
  show "\<forall>t \<in> set (db_turns ?db). tr_session_id t \<in> session_ids db \<and> tr_state t \<in> range turn_state_str"
    using inv st sid by (auto simp: db_inv_def ref_inv_def state_inv_def update_turns_def set_update_where)
qed (simp_all add: update_turns_def)

lemma interrupt_turn_ok [simp]:
  "tr_id (interrupt_turn now t) = tr_id t" "turn_index (interrupt_turn now t) = turn_index t"
  "tr_state (interrupt_turn now t) = turn_state_str TurnInterrupted"
  by (simp_all add: interrupt_turn_def turn_index_def)

lemma interrupt_turns_inv: "db_inv db \<Longrightarrow> db_inv (update_turns p (interrupt_turn now) db)"
  by (rule update_turns_inv) auto

lemma insert_turn_inv [inv_intros]:
  assumes inv: "db_inv db" and r: "insert_turn t db = Inr db'" and st: "tr_state t \<in> range turn_state_str"
  shows "db_inv db'"
proof -
  have db': "db' = db\<lparr>db_turns := db_turns db @ [t]\<rparr>" and new: "tr_id t \<notin> turn_ids db"
    and idx: "has_turn_id t \<longrightarrow> turn_index t \<notin> turn_index ` set (filter has_turn_id (db_turns db))"
    and fk: "tr_session_id t \<in> session_ids db"
    using r by (auto simp: insert_turn_def list_ex_key_iff find_session_None_iff find_turn_None_iff
        split: if_split_asm)
  show ?thesis
  proof (rule turns_only_inv [OF inv])
    show "key_inv db'" using inv new idx by (auto simp: db' db_inv_def key_inv_def turn_ids_def)
    show "\<forall>u \<in> set (db_turns db'). tr_session_id u \<in> session_ids db \<and> tr_state u \<in> range turn_state_str"
      using inv fk st by (auto simp: db' db_inv_def ref_inv_def state_inv_def)
  qed (auto simp: db' turn_ids_def)
qed

lemma insert_agent_turn_inv: "db_inv db \<Longrightarrow> db_inv (snd (insert_agent_turn rq tid prompt now db))"
  by (auto simp: insert_agent_turn_def new_turn_row_def split: sum.split
      intro!: insert_turn_inv [of db] range_eqI [of _ _ TurnActive])

lemma find_or_create_agent_turn_inv:
  "db_inv db \<Longrightarrow> db_inv (snd (find_or_create_agent_turn rq tid now db))"
  by (simp add: find_or_create_agent_turn_def insert_agent_turn_inv split: sum.split option.split)

lemma finish_agent_session_inv: "db_inv db \<Longrightarrow> db_inv (snd (finish_agent_session now sid fin db))"
  unfolding finish_agent_session_def Let_def
  by (auto simp: set_session_finished_def split: sum.split intro!: interrupt_turns_inv update_session_inv)

section \<open>Deleting a session\<close>

lemma delete_agent_session_inv:
  assumes inv: "db_inv db"
  shows "db_inv (snd (delete_agent_session sid db))"
proof (cases "\<exists>session. get_agent_session_record sid db = Inr session \<and> session_is_terminal (as_state session)")
  case False
  then have "snd (delete_agent_session sid db) = db"
    by (auto simp: delete_agent_session_def split: sum.split)
  then show ?thesis using inv by simp
next
  case True
  let ?gone = "tr_id ` set (filter (\<lambda>t. tr_session_id t = sid) (db_turns db))"
  let ?f = "\<lambda>x. if xr_session_id x = Some sid
      then x\<lparr>xr_session_id := None, xr_initiator := (xr_initiator x)\<lparr>in_session_id := None\<rparr>\<rparr> else x"
  let ?db = "snd (delete_agent_session sid db)"
  have parts: "db_executions ?db = map ?f (db_executions db)"
      "db_sessions ?db = delete_where (\<lambda>s. sn_id s = sid) (db_sessions db)"
      "db_turns ?db = delete_where (\<lambda>t. tr_session_id t = sid) (db_turns db)"
      "db_actions ?db = delete_where (\<lambda>a. cr_turn_id a \<in> ?gone) (db_actions db)"
      "db_events ?db = db_events db" "db_workspaces ?db = db_workspaces db"
    using True by (auto simp: delete_agent_session_def Let_def update_where_def)
  have f: "xr_id (?f x) = xr_id x" "xr_workspace_id (?f x) = xr_workspace_id x" "xr_state (?f x) = xr_state x"
    "log_ok es (?f x) = log_ok es x" for x es by (simp_all add: log_ok_def)
  have ids: "map xr_id (db_executions ?db) = map xr_id (db_executions db)" by (simp add: parts comp_def)
  have xids: "execution_ids ?db = execution_ids db"
    using arg_cong [OF ids, of set] by (simp add: execution_ids_def)
  have ev: "events_of ?db = events_of db" by (rule ext) (simp add: events_of_def parts)
  have sids: "session_ids ?db = session_ids db - {sid}"
    by (auto simp: session_ids_def parts set_delete_where)
  have tids: "tid \<in> turn_ids ?db" if "tid \<in> turn_ids db" "tid \<notin> ?gone" for tid
    using that by (auto simp: turn_ids_def parts set_delete_where)
  show ?thesis
  proof (rule db_invI)
    have "filter has_turn_id (delete_where (\<lambda>t. tr_session_id t = sid) (db_turns db)) =
        delete_where (\<lambda>t. tr_session_id t = sid) (filter has_turn_id (db_turns db))"
      by (simp add: delete_where_def conj_commute)
    then have "distinct (map turn_index (filter has_turn_id (delete_where (\<lambda>t. tr_session_id t = sid) (db_turns db))))"
      using inv by (simp add: db_inv_def key_inv_def distinct_map_delete_where)
    then show "key_inv ?db" using inv ids
      by (auto simp: db_inv_def key_inv_def parts(2-6) distinct_map_delete_where)
    show "ref_inv ?db"
      unfolding ref_inv_def
    proof (intro conjI ballI)
      fix x assume "x \<in> set (db_executions ?db)"
      then obtain y where y: "y \<in> set (db_executions db)" "x = ?f y" by (auto simp: parts)
      then show "xr_workspace_id x \<in> workspace_ids ?db" using inv
        by (simp add: db_inv_def ref_inv_def workspace_ids_def parts)
      show "\<forall>s. xr_session_id x = Some s \<longrightarrow> s \<in> session_ids ?db"
        using inv y by (auto simp: db_inv_def ref_inv_def sids)
    next
      fix a assume "a \<in> set (db_actions ?db)"
      then have a: "a \<in> set (db_actions db)" "cr_turn_id a \<notin> ?gone" by (auto simp: parts set_delete_where)
      then show "cr_turn_id a \<in> turn_ids ?db" using inv tids by (simp add: db_inv_def ref_inv_def)
      show "\<forall>xid. cr_execution_id a = Some xid \<longrightarrow> xid \<in> execution_ids ?db"
        using inv a by (simp add: db_inv_def ref_inv_def xids)
    qed (use inv in \<open>auto simp: parts(2-6) set_delete_where sids xids db_inv_def ref_inv_def workspace_ids_def\<close>)
    show "state_inv ?db" using inv
      by (auto simp: state_inv_def parts set_delete_where db_inv_def execution_row_ok_def)
    show "log_inv ?db" using inv unfolding log_inv_def ev
      by (auto simp: parts db_inv_def log_inv_def log_ok_def)
  qed
qed

section \<open>Actions and events\<close>

lemma actions_only_inv:
  assumes "db_inv db" and "key_inv db'"
    and "\<forall>a \<in> set (db_actions db'). cr_turn_id a \<in> turn_ids db \<and> cr_state a \<in> range action_state_str \<and>
           (\<forall>xid. cr_execution_id a = Some xid \<longrightarrow> xid \<in> execution_ids db)"
    and "db_workspaces db' = db_workspaces db" "db_sessions db' = db_sessions db"
      "db_executions db' = db_executions db" "db_events db' = db_events db" "db_turns db' = db_turns db"
  shows "db_inv db'"
proof (rule db_invI [OF assms(2)])
  have ev: "events_of db' = events_of db" by (rule ext) (simp add: events_of_def assms)
  show "ref_inv db'" using assms(1,3)
    by (auto simp: db_inv_def ref_inv_def session_ids_def execution_ids_def workspace_ids_def turn_ids_def assms(4-8))
  show "state_inv db'" "log_inv db'"
    using assms(1,3) by (simp_all add: db_inv_def state_inv_def log_inv_def ev assms(4-8))
qed

lemma upsert_action_inv [inv_intros]:
  assumes inv: "db_inv db" and r: "upsert_action a f db = Inr db'"
    and a: "cr_state a \<in> range action_state_str"
    and f: "\<And>b. cr_id (f b) = cr_id b \<and> cr_turn_id (f b) = cr_turn_id b \<and>
              cr_provider_action_id (f b) = cr_provider_action_id b \<and> cr_state (f b) \<in> range action_state_str"
    and link: "\<And>b xid. cr_execution_id (f b) = Some xid \<Longrightarrow> cr_execution_id b = Some xid \<or> xid \<in> execution_ids db"
  shows "db_inv db'"
proof -
  let ?same = "\<lambda>b. cr_turn_id b = cr_turn_id a \<and> cr_provider_action_id b = cr_provider_action_id a"
  let ?k = "\<lambda>b. (cr_turn_id b, cr_provider_action_id b)"
  have new: "cr_id a \<notin> cr_id ` set (db_actions db)"
    using r by (auto simp: upsert_action_def Let_def list_ex_key_iff split: if_split_asm)
  show ?thesis
  proof (cases "list_ex ?same (db_actions db)")
    case True
    then have db': "db' = db\<lparr>db_actions := update_where ?same f (db_actions db)\<rparr>"
      using r by (simp add: upsert_action_def Let_def split: if_split_asm)
    have "map cr_id (db_actions db') = map cr_id (db_actions db)" "map ?k (db_actions db') = map ?k (db_actions db)"
      using f by (simp_all add: db' map_update_where)
    then have "key_inv db'" using inv by (simp add: db_inv_def key_inv_def) (simp add: db')
    moreover have "cr_turn_id b \<in> turn_ids db \<and> cr_state b \<in> range action_state_str \<and>
           (\<forall>xid. cr_execution_id b = Some xid \<longrightarrow> xid \<in> execution_ids db)"
      if b: "b \<in> set (db_actions db')" for b
    proof -
      obtain c where c: "c \<in> set (db_actions db)" and b': "b = (if ?same c then f c else c)"
        using b by (auto simp: db' set_update_where)
      have old: "cr_turn_id c \<in> turn_ids db" "cr_state c \<in> range action_state_str"
        "\<forall>xid. cr_execution_id c = Some xid \<longrightarrow> xid \<in> execution_ids db"
        using inv c by (simp_all add: db_inv_def ref_inv_def state_inv_def)
      show ?thesis unfolding b' using old f [of c] link [of c] by auto
    qed
    ultimately show ?thesis by (intro actions_only_inv [OF inv]) (auto simp: db')
  next
    case False
    then have db': "db' = db\<lparr>db_actions := db_actions db @ [a]\<rparr>"
      and fk: "cr_turn_id a \<in> turn_ids db" "\<forall>xid. cr_execution_id a = Some xid \<longrightarrow> xid \<in> execution_ids db"
      using r find_execution_None_iff [of _ db]
      by (auto simp: upsert_action_def Let_def find_turn_None_iff execution_ids_def split: if_split_asm option.split_asm)
    have "?k a \<notin> ?k ` set (db_actions db)" using False by (auto simp: list_ex_iff)
    then have "key_inv db'" using inv new by (simp add: db' db_inv_def key_inv_def)
    then show ?thesis using inv fk a
      by (intro actions_only_inv [OF inv]) (auto simp: db' db_inv_def ref_inv_def state_inv_def)
  qed
qed

lemma linked_execution_exists: "linked_execution c w db = Some xid \<Longrightarrow> xid \<in> execution_ids db"
  by (auto simp: linked_execution_def execution_ids_def list_ex_iff split: option.split_asm if_split_asm)

lemma prompt_submitted_inv: "db_inv db \<Longrightarrow> db_inv (snd (prompt_submitted now tid rq prompt db))"
  unfolding prompt_submitted_def Let_def
  by (auto split: sum.split option.split intro!: insert_agent_turn_inv interrupt_turns_inv
      update_turns_inv range_eqI [of _ _ TurnActive] simp: turn_index_def)

lemma tool_started_inv:
  assumes "db_inv db"
  shows "db_inv (snd (tool_started now tid aid rq action_id tool_name db))"
proof -
  obtain r db1 where fc: "find_or_create_agent_turn rq tid now db = (r, db1)" by force
  then have inv1: "db_inv db1" using find_or_create_agent_turn_inv [OF assms, of rq tid now] by simp
  show ?thesis
    unfolding tool_started_def fc using inv1
    by (auto simp: started_action_def split: sum.split
        intro!: upsert_action_inv [OF inv1] range_eqI [of _ _ ActionRunning])
qed

lemma tool_finished_inv:
  assumes "db_inv db"
  shows "db_inv (snd (tool_finished now tid aid w rq action_id tool_name failed c db))"
proof -
  obtain r db1 where fc: "find_or_create_agent_turn rq tid now db = (r, db1)" by force
  then have inv1: "db_inv db1" using find_or_create_agent_turn_inv [OF assms, of rq tid now] by simp
  show ?thesis
  proof (cases r)
    case (Inl e)
    then show ?thesis using inv1 by (simp add: tool_finished_def fc)
  next
    case (Inr turn)
    define state where "state = (if failed then ''failed'' else ''completed'')"
    have st: "state \<in> range action_state_str" by (simp add: state_def)
    let ?xid = "linked_execution c w db1"
    let ?up = "upsert_action (finished_action aid (tn_id turn) action_id tool_name state ?xid now)
        (\<lambda>a. a\<lparr>cr_tool_name := tool_name, cr_state := state,
              cr_execution_id := (case ?xid of None \<Rightarrow> cr_execution_id a | Some _ \<Rightarrow> ?xid),
              cr_ended_at_ms := Some now\<rparr>) db1"
    have "db_inv db2" if "?up = Inr db2" for db2
      by (rule upsert_action_inv [OF inv1 that])
        (auto simp: finished_action_def st dest: linked_execution_exists split: option.split_asm)
    then have "db_inv (snd (case ?up of Inl e \<Rightarrow> (Inl e, db1) | Inr db2 \<Rightarrow> (Inr turn, db2)))"
      using inv1 by (simp split: sum.split)
    then show ?thesis by (simp add: tool_finished_def fc Inr Let_def state_def)
  qed
qed

lemma turn_finished_inv:
  assumes "db_inv db"
  shows "db_inv (snd (turn_finished now tid rq failed message db))"
proof -
  obtain r db1 where fc: "find_or_create_agent_turn rq tid now db = (r, db1)" by force
  then have inv1: "db_inv db1" using find_or_create_agent_turn_inv [OF assms, of rq tid now] by simp
  show ?thesis
    unfolding turn_finished_def fc Let_def using inv1
    by (auto split: sum.split intro!: update_turns_inv simp: turn_index_def)
qed

lemma record_agent_event_inv: "db_inv db \<Longrightarrow> db_inv (snd (record_agent_event now tid aid rq db))"
  by (simp add: record_agent_event_def prompt_submitted_inv tool_started_inv tool_finished_inv
      turn_finished_inv split: sum.split agent_event.split)

end
