(* ===== verification/StoreTurns.thy ===== *)
theory StoreTurns
  imports StoreSessions
begin

text \<open>
  What the session operations achieve: after a prompt its turn is the provider session's only active
  turn; finishing a session leaves no active turn, and finishing it again changes nothing; a finished
  session accepts no more events; deleting a session keeps the executions it ran.
\<close>

section \<open>Active turns\<close>

definition active_turns :: "agent_event_request \<Rightarrow> database \<Rightarrow> turn_row list" where
  "active_turns rq db = filter (\<lambda>t. of_provider rq t \<and> tr_state t = ''active'') (db_turns db)"

lemma update_turns_mem:
  "u \<in> set (db_turns (update_turns p f db)) \<Longrightarrow> \<exists>v \<in> set (db_turns db). u = (if p v then f v else v)"
  by (auto simp: update_turns_def set_update_where)

lemma update_turns_memI: "v \<in> set (db_turns db) \<Longrightarrow> p v \<Longrightarrow> f v \<in> set (db_turns (update_turns p f db))"
  by (auto simp: update_turns_def set_update_where image_iff)

lemma of_provider_update:
  "tr_session_id (f t) = tr_session_id t \<Longrightarrow> tr_provider (f t) = tr_provider t \<Longrightarrow>
   tr_provider_session_id (f t) = tr_provider_session_id t \<Longrightarrow> of_provider rq (f t) = of_provider rq t"
  by (simp add: of_provider_def)

lemma of_provider_interrupt [simp]: "of_provider rq (interrupt_turn now t) = of_provider rq t"
  by (simp add: of_provider_def interrupt_turn_def)

lemma find_provider_turn_Inr:
  "find_provider_turn rq db = Inr (Some turn) \<Longrightarrow>
     \<exists>t \<in> set (db_turns db). tr_id t = tn_id turn \<and> of_provider rq t \<and>
       tr_provider_turn_id t = ae_provider_turn_id rq \<and> ae_provider_turn_id rq \<noteq> None"
  by (auto simp: find_provider_turn_def bind_res_Inr_iff split: option.split_asm
      dest!: find_Some_mem agent_turn_from_row_Inr)

lemma find_provider_turn_None:
  "find_provider_turn rq db = Inr None \<Longrightarrow> t \<in> set (db_turns db) \<Longrightarrow> of_provider rq t \<Longrightarrow>
   ae_provider_turn_id rq \<noteq> None \<Longrightarrow> tr_provider_turn_id t \<noteq> ae_provider_turn_id rq"
  by (auto simp: find_provider_turn_def bind_res_Inr_iff find_None_iff split: option.split_asm)

text \<open>The unique index allows one turn per provider turn id.\<close>

lemma provider_turn_unique:
  assumes "db_inv db" and "t \<in> set (db_turns db)" and "u \<in> set (db_turns db)"
    and "of_provider rq t" and "of_provider rq u" and "ae_provider_turn_id rq \<noteq> None"
    and "tr_provider_turn_id t = ae_provider_turn_id rq" and "tr_provider_turn_id u = ae_provider_turn_id rq"
  shows "t = u"
proof -
  have "distinct (map turn_index (filter has_turn_id (db_turns db)))"
    using assms(1) by (simp add: db_inv_def key_inv_def)
  then show ?thesis
    using key_unique [of turn_index "filter has_turn_id (db_turns db)" t u] assms(2-)
    by (simp add: has_turn_id_def turn_index_def of_provider_def)
qed

lemma get_agent_turn_Inr: "get_agent_turn tid db = Inr turn \<Longrightarrow> tn_id turn = tid"
  by (auto simp: get_agent_turn_def split: option.split_asm dest!: agent_turn_from_row_Inr
      simp: find_turn_def dest: find_Some_mem)

lemma filter_single:
  assumes "distinct (map k xs)" and "\<And>x. x \<in> set xs \<Longrightarrow> p x \<longleftrightarrow> k x = a" and "\<exists>x \<in> set xs. k x = a"
  shows "map k (filter p xs) = [a]"
proof -
  obtain x where x: "x \<in> set xs" "k x = a" using assms(3) by auto
  have "filter p xs = filter (\<lambda>y. k y = k x) xs" using assms(2) x by (intro filter_cong) auto
  also have "\<dots> = [x]" using assms(1) x(1)
  proof (induction xs)
    case (Cons y ys)
    show ?case
    proof (cases "x = y")
      case True
      then have "filter (\<lambda>y. k y = k x) ys = []" using Cons.prems by (simp add: filter_empty_conv image_iff) metis
      then show ?thesis using True by simp
    next
      case False
      then have "k y \<noteq> k x" using Cons.prems by (auto simp: image_iff)
      then show ?thesis using Cons False by simp
    qed
  qed simp
  finally show ?thesis using x by simp
qed

lemma prompt_submitted_single_active:
  assumes inv: "db_inv db" and r: "prompt_submitted now tid rq prompt db = (Inr turn, db')"
  shows "map tr_id (active_turns rq db') = [tn_id turn]"
proof -
  let ?p = "\<lambda>t. of_provider rq t \<and> tr_state t = ''active'' \<and>
      (ae_provider_turn_id rq = None \<or> tr_provider_turn_id t = None \<or>
       tr_provider_turn_id t \<noteq> ae_provider_turn_id rq)"
  let ?db1 = "update_turns ?p (interrupt_turn now) db"
  have inv1: "db_inv ?db1" by (rule interrupt_turns_inv [OF inv])
  have rest: "tr_provider_turn_id t = ae_provider_turn_id rq \<and> ae_provider_turn_id rq \<noteq> None"
    if "t \<in> set (db_turns ?db1)" "of_provider rq t" "tr_state t = ''active''" for t
    using that by (auto simp: update_turns_def set_update_where split: if_split_asm)
  have inv': "db_inv db'"
    using prompt_submitted_inv [OF inv, of now tid rq prompt] r by simp
  show ?thesis
  proof (cases "find_provider_turn rq ?db1")
    case (Inl e)
    then show ?thesis using r by (simp add: prompt_submitted_def)
  next
    case (Inr opt)
    show ?thesis
    proof (cases opt)
      case (Some old)
      let ?f = "\<lambda>t. t\<lparr>tr_state := ''active'', tr_prompt := prompt, tr_ended_at_ms := None,
          tr_last_assistant_message := None\<rparr>"
      have db': "db' = update_turns (\<lambda>t. tr_id t = tn_id old) ?f ?db1" and turn: "tn_id turn = tn_id old"
        using r Inr Some get_agent_turn_Inr by (auto simp: prompt_submitted_def Let_def)
      obtain t where t: "t \<in> set (db_turns ?db1)" "tr_id t = tn_id old" "of_provider rq t"
          "tr_provider_turn_id t = ae_provider_turn_id rq" "ae_provider_turn_id rq \<noteq> None"
        using find_provider_turn_Inr Inr Some by blast
      have "of_provider rq u \<and> tr_state u = ''active'' \<longleftrightarrow> tr_id u = tn_id old"
        if u: "u \<in> set (db_turns db')" for u
      proof -
        obtain v where v: "v \<in> set (db_turns ?db1)" "u = (if tr_id v = tn_id old then ?f v else v)"
          using update_turns_mem [OF u [unfolded db']] by blast
        show ?thesis
        proof (cases "tr_id v = tn_id old")
          case True
          then have "v = t" using key_unique [OF turn_key [OF inv1] v(1) t(1)] t(2) by simp
          then show ?thesis using v t True by (simp add: of_provider_def)
        next
          case False
          then have "v \<noteq> t" using t by auto
          then have "\<not> (of_provider rq v \<and> tr_state v = ''active'')"
            using rest [OF v(1)] provider_turn_unique [OF inv1 v(1) t(1)] t by blast
          then show ?thesis using v False by simp
        qed
      qed
      moreover have "\<exists>u \<in> set (db_turns db'). tr_id u = tn_id old"
      proof -
        have "?f t \<in> set (db_turns db')" unfolding db' by (rule update_turns_memI [OF t(1)]) (simp add: t(2))
        then show ?thesis using t(2) by (intro bexI [of _ "?f t"]) simp_all
      qed
      ultimately show ?thesis
        unfolding active_turns_def turn by (intro filter_single [OF turn_key [OF inv']]) auto
    next
      case None
      have ins: "insert_agent_turn rq tid prompt now ?db1 = (Inr turn, db')"
        using r Inr None by (simp add: prompt_submitted_def Let_def)
      then have db': "db' = ?db1\<lparr>db_turns := db_turns ?db1 @ [new_turn_row rq tid prompt now]\<rparr>"
        and turn: "tn_id turn = tid"
        using get_agent_turn_Inr
        by (auto simp: insert_agent_turn_def insert_turn_def split: sum.split_asm if_split_asm)
      have "\<not> (of_provider rq t \<and> tr_state t = ''active'')" if "t \<in> set (db_turns ?db1)" for t
        using rest [OF that] find_provider_turn_None [OF Inr [unfolded None] that] by blast
      then have "filter (\<lambda>t. of_provider rq t \<and> tr_state t = ''active'') (db_turns ?db1) = []"
        by (simp add: filter_empty_conv)
      then show ?thesis
        by (simp add: active_turns_def db' turn new_turn_row_def of_provider_def)
    qed
  qed
qed

section \<open>Finishing a session\<close>

lemma find_session_updated:
  assumes "\<And>s. sn_id (f s) = sn_id s"
  shows "find_session sid (update_turns p g (update_session sid f db)) = map_option f (find_session sid db)"
proof -
  have "find_session sid (update_turns p g (update_session sid f db)) =
      map_option (\<lambda>s. if sn_id s = sid then f s else s) (find_session sid db)"
    unfolding find_session_def update_turns_def update_session_def
    by (simp, rule find_update_where) (simp add: assms)
  then show ?thesis
    by (cases "find_session sid db") (auto dest: find_session_Some)
qed

lemma finish_agent_session_effect:
  assumes inv: "db_inv db" and r: "finish_agent_session now sid fin db = (Inr session, db')"
  shows "as_id session = sid" and "session_is_terminal (as_state session)"
    and "get_agent_session_record sid db' = Inr session"
    and "\<And>current. get_agent_session_record sid db = Inr current \<Longrightarrow> session_is_terminal (as_state current) \<Longrightarrow>
           session = current \<and> db' = db"
    and "\<And>current t. get_agent_session_record sid db = Inr current \<Longrightarrow> as_state current = Recording \<Longrightarrow>
           t \<in> set (db_turns db') \<Longrightarrow> tr_session_id t = sid \<Longrightarrow> tr_state t \<noteq> ''active''"
proof -
  have fin: "sf_state fin \<noteq> Recording"
    using r by (auto simp: finish_agent_session_def split: if_split_asm)
  obtain current where cur: "get_agent_session_record sid db = Inr current"
    using r by (cases "get_agent_session_record sid db") (auto simp: finish_agent_session_def split: if_split_asm)
  let ?db1 = "update_session sid (set_session_finished now fin) db"
  let ?db2 = "update_turns (\<lambda>t. tr_session_id t = sid \<and> tr_state t = ''active'') (interrupt_turn now) ?db1"
  have cases: "session_is_terminal (as_state current) \<and> session = current \<and> db' = db \<or>
      \<not> session_is_terminal (as_state current) \<and> db' = ?db2 \<and> get_agent_session_record sid ?db2 = Inr session"
    using r cur by (auto simp: finish_agent_session_def Let_def split: if_split_asm)
  have keep: "sn_id (set_session_finished now fin s) = sn_id s" for s
    by (simp add: set_session_finished_def)
  show rec: "get_agent_session_record sid db' = Inr session" using cases cur by auto
  show "as_id session = sid" using get_agent_session_record_Inr [OF rec] by auto
  show "session_is_terminal (as_state session)"
  proof (cases "session_is_terminal (as_state current)")
    case True
    then show ?thesis using cases by simp
  next
    case False
    then have db': "db' = ?db2" using cases by simp
    obtain s where "find_session sid db' = Some s" "session_state_str (as_state session) = sn_state s"
      using get_agent_session_record_Inr [OF rec] by blast
    then have "session_state_str (as_state session) = session_state_str (sf_state fin)"
      unfolding db' find_session_updated [OF keep] by (auto simp: set_session_finished_def)
    then have "as_state session = sf_state fin"
      by (cases "as_state session"; cases "sf_state fin") simp_all
    then show ?thesis using fin by (simp add: session_is_terminal_def)
  qed
  show "session = c \<and> db' = db"
    if "get_agent_session_record sid db = Inr c" "session_is_terminal (as_state c)" for c
    using that cases cur by auto
  show "tr_state t \<noteq> ''active''"
    if c: "get_agent_session_record sid db = Inr c" "as_state c = Recording"
      and t: "t \<in> set (db_turns db')" "tr_session_id t = sid" for c t
  proof -
    have "\<not> session_is_terminal (as_state current)" using c cur by (simp add: session_is_terminal_def)
    then have db': "db' = ?db2" using cases by simp
    obtain v where "t = (if tr_session_id v = sid \<and> tr_state v = ''active'' then interrupt_turn now v else v)"
      using update_turns_mem [OF t(1) [unfolded db']] by blast
    then show ?thesis using t(2) by (auto simp: interrupt_turn_def split: if_split_asm)
  qed
qed

section \<open>Deleting a session\<close>

lemma delete_agent_session_effect:
  assumes r: "delete_agent_session sid db = (Inr (), db')"
  shows "find_session sid db' = None" and "turns_of_session sid db' = []" and "db_events db' = db_events db"
    and "map xr_id (db_executions db') = map xr_id (db_executions db)"
    and "\<forall>x \<in> set (db_executions db'). xr_session_id x \<noteq> Some sid"
    and "db_workspaces db' = db_workspaces db"
    and "\<And>other. other \<noteq> sid \<Longrightarrow> find_session other db' = find_session other db \<and>
            turns_of_session other db' = turns_of_session other db"
proof -
  let ?gone = "tr_id ` set (filter (\<lambda>t. tr_session_id t = sid) (db_turns db))"
  let ?f = "\<lambda>x. x\<lparr>xr_session_id := None, xr_initiator := (xr_initiator x)\<lparr>in_session_id := None\<rparr>\<rparr>"
  have db': "db' = db\<lparr>db_executions := update_where (\<lambda>x. xr_session_id x = Some sid) ?f (db_executions db),
      db_sessions := delete_where (\<lambda>s. sn_id s = sid) (db_sessions db),
      db_turns := delete_where (\<lambda>t. tr_session_id t = sid) (db_turns db),
      db_actions := delete_where (\<lambda>a. cr_turn_id a \<in> ?gone) (db_actions db)\<rparr>"
    using r by (auto simp: delete_agent_session_def Let_def split: sum.split_asm if_split_asm)
  show "find_session sid db' = None"
    unfolding find_session_def db' by (simp add: find_delete_where_same)
  show "turns_of_session sid db' = []"
    by (auto simp: turns_of_session_def db' delete_where_def filter_empty_conv)
  show "db_events db' = db_events db" "db_workspaces db' = db_workspaces db" by (simp_all add: db')
  show "map xr_id (db_executions db') = map xr_id (db_executions db)" by (simp add: db' map_update_where)
  show "\<forall>x \<in> set (db_executions db'). xr_session_id x \<noteq> Some sid"
    by (auto simp: db' set_update_where)
  show "find_session other db' = find_session other db \<and> turns_of_session other db' = turns_of_session other db"
    if "other \<noteq> sid" for other
    unfolding find_session_def turns_of_session_def db'
    using that by (simp add: find_delete_where_other filter_delete_where)
qed

lemma finished_session_rejects_events:
  assumes "get_agent_session_record (ae_session_id rq) db = Inr session"
    and "session_is_terminal (as_state session)"
  shows "\<exists>e. record_agent_event now tid aid rq db = (Inl e, db)"
  using assms by (cases "event_request_validate rq")
    (auto simp: record_agent_event_def session_is_terminal_def)

end
