(* ===== verification/StoreLifecycle.thy ===== *)
theory StoreLifecycle
  imports StoreLog StoreTurns
begin

text \<open>
  The life cycle of an execution across the operations of the store: its state only moves from queued
  to running to one of the three terminal states, a terminal state is final together with its outcome
  and end time, the recorded log only grows at its end.
\<close>

section \<open>The order of states\<close>

instantiation execution_state :: order
begin

definition less_eq_execution_state :: "execution_state \<Rightarrow> execution_state \<Rightarrow> bool" where
  "less_eq_execution_state s t \<longleftrightarrow> s = t \<or> s = Queued \<or> s = Running \<and> is_terminal t"

definition less_execution_state :: "execution_state \<Rightarrow> execution_state \<Rightarrow> bool" where
  "less_execution_state (s :: execution_state) t \<longleftrightarrow> s \<le> t \<and> \<not> t \<le> s"

instance
proof
  fix s t u :: execution_state
  show "(s < t) = (s \<le> t \<and> \<not> t \<le> s)" by (simp add: less_execution_state_def)
  show "s \<le> s" by (simp add: less_eq_execution_state_def)
  show "s \<le> t \<Longrightarrow> t \<le> u \<Longrightarrow> s \<le> u" by (auto simp: less_eq_execution_state_def)
  show "s \<le> t \<Longrightarrow> t \<le> s \<Longrightarrow> s = t" by (auto simp: less_eq_execution_state_def)
qed

end

lemma terminal_maximal: "is_terminal s \<Longrightarrow> s \<le> t \<Longrightarrow> t = s"
  by (auto simp: less_eq_execution_state_def)

definition row_state :: "execution_row \<Rightarrow> execution_state" where
  "row_state x = projr (parse_state 2 (xr_state x))"

lemma row_state_str [simp]: "xr_state x = state_str s \<Longrightarrow> row_state x = s"
  by (simp add: row_state_def)

lemma row_state_eq: "xr_state x \<in> range state_str \<Longrightarrow> state_str (row_state x) = xr_state x"
  by (auto simp: row_state_def)

section \<open>One row, one database\<close>

definition row_advances :: "execution_row \<Rightarrow> execution_row \<Rightarrow> bool" where
  "row_advances x y \<longleftrightarrow>
     xr_workspace_id y = xr_workspace_id x \<and> xr_command y = xr_command x \<and> xr_cwd y = xr_cwd x \<and>
     xr_env_keys y = xr_env_keys x \<and> xr_created_at_ms y = xr_created_at_ms x \<and>
     row_state x \<le> row_state y \<and>
     (is_terminal (row_state x) \<longrightarrow> xr_ended_at_ms y = xr_ended_at_ms x \<and> xr_outcome y = xr_outcome x) \<and>
     (row_state x \<noteq> Queued \<longrightarrow> xr_started_at_ms y = xr_started_at_ms x \<and> xr_pid y = xr_pid x \<and> xr_pgid y = xr_pgid x) \<and>
     xr_captured_bytes x \<le> xr_captured_bytes y \<and> (xr_output_truncated x \<longrightarrow> xr_output_truncated y)"

lemma row_advances_refl [simp]: "row_advances x x"
  by (simp add: row_advances_def)

lemma row_advances_trans: "row_advances x y \<Longrightarrow> row_advances y z \<Longrightarrow> row_advances x z"
proof -
  assume xy: "row_advances x y" and yz: "row_advances y z"
  have "row_state x \<le> row_state z" using xy yz unfolding row_advances_def by (meson order_trans)
  moreover have "is_terminal (row_state y)" if "is_terminal (row_state x)"
    using that terminal_maximal xy unfolding row_advances_def by metis
  moreover have "row_state y \<noteq> Queued" if "row_state x \<noteq> Queued"
    using that xy unfolding row_advances_def less_eq_execution_state_def by auto
  ultimately show ?thesis using xy yz unfolding row_advances_def by auto
qed

definition db_advances :: "database \<Rightarrow> database \<Rightarrow> bool" where
  "db_advances db db' \<longleftrightarrow>
     (\<forall>xid x. find_execution xid db = Some x \<longrightarrow>
        (\<exists>y. find_execution xid db' = Some y \<and> row_advances x y \<and>
             prefix (events_of db xid) (events_of db' xid)))"

lemma db_advances_refl [simp]: "db_advances db db"
  by (simp add: db_advances_def)

lemma db_advances_trans: "db_advances db db1 \<Longrightarrow> db_advances db1 db2 \<Longrightarrow> db_advances db db2"
  unfolding db_advances_def by (meson row_advances_trans prefix_order.trans)

definition same_log :: "database \<Rightarrow> database \<Rightarrow> bool" where
  "same_log db db' \<longleftrightarrow> db_executions db' = db_executions db \<and> db_events db' = db_events db"

lemma same_log_refl [simp]: "same_log db db"
  by (simp add: same_log_def)

lemma same_log_trans: "same_log db db1 \<Longrightarrow> same_log db1 db2 \<Longrightarrow> same_log db db2"
  by (simp add: same_log_def)

lemma same_log_advances: "same_log db db' \<Longrightarrow> db_advances db db'"
  by (simp add: same_log_def db_advances_def find_execution_def events_of_def)

section \<open>The writers\<close>

lemma append_event_advances:
  assumes inv: "db_inv db" and ok: "legal_append xid E F" and r: "append_event xid E F db = Inr (seq, db')"
    and adv: "\<And>x n. find_execution xid db = Some x \<Longrightarrow> row_advances x (F n x)"
  shows "db_advances db db'"
proof -
  obtain x where x: "find_execution xid db = Some x"
    and ev: "\<And>yid. events_of db' yid = (if yid = xid then events_of db yid @ [E seq] else events_of db yid)"
    and fe: "\<And>yid. find_execution yid db' = (if yid = xid then Some (F seq x) else find_execution yid db)"
    using append_event_effect [OF inv ok r] by metis
  show ?thesis
    unfolding db_advances_def using adv [OF x] x by (simp add: ev fe)
qed

lemma mark_running_advances: "db_inv db \<Longrightarrow> db_advances db (snd (mark_running now xid pid pgid db))"
  unfolding mark_running_def
proof (rule transaction_inv [where P = "db_advances db"], simp)
  fix a db'
  assume inv: "db_inv db" and "bind_res (ok_or (ExecutionNotFound xid) (find_execution xid db)) (\<lambda>x.
      if xr_state x \<noteq> ''queued'' then Inl (AlreadyTerminal xid)
      else bind_res (append_event xid (started_row xid now pid pgid) (set_running now pid pgid) db)
        (\<lambda>(seq, db'). Inr (event_of xid seq now (EvStarted pid pgid), db'))) = Inr (a, db')"
  then obtain x seq where x: "find_execution xid db = Some x" "xr_state x = ''queued''"
    and r: "append_event xid (started_row xid now pid pgid) (set_running now pid pgid) db = Inr (seq, db')"
    by (auto simp: bind_res_Inr_iff ok_or_Inr_iff split: if_split_asm)
  have q: "row_state x = Queued" using x by (intro row_state_str) simp
  show "db_advances db db'"
  proof (rule append_event_advances [OF inv legal_started r])
    fix y n assume "find_execution xid db = Some y"
    then show "row_advances y (set_running now pid pgid n y)"
      using x q by (simp add: row_advances_def set_running_def less_eq_execution_state_def)
  qed
qed

lemma finish_advances:
  assumes inv: "db_inv db" and t: "is_terminal st"
  shows "db_advances db (snd (finish now xid st out db))"
  unfolding finish_def
proof (rule transaction_inv [where P = "db_advances db"], simp)
  fix a db'
  assume "bind_res (ok_or (ExecutionNotFound xid) (find_execution xid db)) (\<lambda>x.
      if terminal_str (xr_state x) then Inl (AlreadyTerminal xid)
      else bind_res (append_event xid (finished_row xid now out) (set_finished now st out) db)
        (\<lambda>(seq, db'). Inr (event_of xid seq now (EvFinished out), db'))) = Inr (a, db')"
  then obtain x seq where x: "find_execution xid db = Some x" "\<not> terminal_str (xr_state x)"
    and r: "append_event xid (finished_row xid now out) (set_finished now st out) db = Inr (seq, db')"
    by (auto simp: bind_res_Inr_iff ok_or_Inr_iff split: if_split_asm)
  have "xr_state x \<in> range state_str" using inv x find_execution_Some [OF x(1)]
    by (auto simp: db_inv_def state_inv_def execution_row_ok_def)
  then have q: "\<not> is_terminal (row_state x)" using x(2) by (auto simp: row_state_def)
  show "db_advances db db'"
  proof (rule append_event_advances [OF inv legal_finished r])
    fix y n assume "find_execution xid db = Some y"
    then have y: "y = x" using x by simp
    have "row_state (set_finished now st out n x) = st" by (rule row_state_str) (simp add: set_finished_def)
    then show "row_advances y (set_finished now st out n y)"
      using q t y by (cases "row_state x") (simp_all add: row_advances_def set_finished_def less_eq_execution_state_def)
  qed
qed

lemma append_record_advances:
  assumes inv: "db_inv db" and r: "append_record B rec db = Inr (e, db')"
  shows "db_advances db db'"
proof (cases rec)
  case (CaptureOutput xid ts stream data)
  then obtain seq where "append_event xid (output_row xid ts stream data)
      (\<lambda>seq x. x\<lparr>xr_last_seq := seq, xr_captured_bytes := xr_captured_bytes x + length data\<rparr>) db = Inr (seq, db')"
    using r by (auto simp: bind_res_Inr_iff)
  then show ?thesis
    by (rule append_event_advances [OF inv legal_output]) (simp add: row_advances_def row_state_def)
next
  case (CaptureTruncated xid ts limit)
  then obtain seq where "append_event xid (truncated_row xid ts limit)
      (\<lambda>seq x. x\<lparr>xr_last_seq := seq, xr_output_truncated := True\<rparr>) db = Inr (seq, db')"
    using r by (auto simp: bind_res_Inr_iff)
  then show ?thesis
    by (rule append_event_advances [OF inv legal_truncated]) (simp add: row_advances_def row_state_def)
qed

lemma append_records_advances:
  "db_inv db \<Longrightarrow> append_records B rs db = Inr (es, db') \<Longrightarrow> db_advances db db'"
proof (induction rs arbitrary: db es)
  case (Cons r rs)
  then obtain e db1 es' where r: "append_record B r db = Inr (e, db1)"
    and rs: "append_records B rs db1 = Inr (es', db')"
    by (auto simp: bind_res_Inr_iff)
  show ?case
    using Cons.IH [OF append_record_inv [OF Cons.prems(1) r] rs] append_record_advances [OF Cons.prems(1) r]
      db_advances_trans by blast
qed simp

lemma append_capture_batch_advances: "db_inv db \<Longrightarrow> db_advances db (snd (append_capture_batch B rs db))"
  using transaction_inv [of "db_advances db" db "append_records B rs"] append_records_advances [of db B rs]
  by (simp add: append_capture_batch_def)

lemma finish_all_advances:
  "db_inv db \<Longrightarrow> is_terminal st \<Longrightarrow> db_advances db (snd (finish_all clock st out ids db))"
proof (induction ids arbitrary: clock db)
  case (Cons xid ids)
  obtain r db1 where f: "finish (clock 0) xid st out db = (r, db1)" by force
  have inv1: "db_inv db1" and adv1: "db_advances db db1"
    using finish_inv [OF Cons.prems(1), of "clock 0" xid st out] f
      finish_advances [OF Cons.prems, of "clock 0" xid out] by simp_all
  have "db_advances db1 (snd (finish_all (\<lambda>i. clock (Suc i)) st out ids db1))"
    by (rule Cons.IH [OF inv1 Cons.prems(2)])
  then show ?case using f adv1 db_advances_trans by (auto simp: split_beta split: sum.split)
qed simp

lemma create_execution_advances: "db_advances db (snd (create_execution B now nid rq cwd db))"
proof (cases "snd (create_execution B now nid rq cwd db) = db")
  case False
  then obtain db' where db': "insert_execution (new_execution_row nid now rq cwd) db = Inr db'"
    and eq: "snd (create_execution B now nid rq cwd db) = db'"
    by (auto simp: create_execution_def bind_res_Inr_iff split: sum.split_asm)
  from insert_execution_Inr [OF db'] show ?thesis unfolding eq
    by (auto simp: db_advances_def find_execution_def find_key_snoc events_of_def)
qed simp

section \<open>Everything else leaves the log alone\<close>

lemma same_log_simps [simp]:
  "same_log db (update_turns p f db') \<longleftrightarrow> same_log db db'"
  "same_log db (update_session sid g db') \<longleftrightarrow> same_log db db'"
  "same_log db (set_active a wid db') \<longleftrightarrow> same_log db db'"
  by (simp_all add: same_log_def update_turns_def update_session_def)

lemma insert_turn_same_log: "insert_turn t db = Inr db' \<Longrightarrow> same_log db db'"
  by (auto simp: insert_turn_def same_log_def split: if_split_asm)

lemma insert_agent_turn_same_log: "same_log db0 db \<Longrightarrow> same_log db0 (snd (insert_agent_turn rq tid prompt now db))"
  by (auto simp: insert_agent_turn_def split: sum.split dest: insert_turn_same_log intro: same_log_trans)

lemma find_or_create_same_log: "same_log db (snd (find_or_create_agent_turn rq tid now db))"
  by (simp add: find_or_create_agent_turn_def insert_agent_turn_same_log split: sum.split option.split)

lemma upsert_action_same_log: "upsert_action a f db = Inr db' \<Longrightarrow> same_log db db'"
  by (auto simp: upsert_action_def Let_def same_log_def split: if_split_asm)

lemma prompt_submitted_same_log: "same_log db (snd (prompt_submitted now tid rq prompt db))"
  by (simp add: prompt_submitted_def Let_def insert_agent_turn_same_log split: sum.split option.split)

lemma tool_event_same_log:
  "same_log db (snd (tool_started now tid aid rq action_id tool_name db))"
  "same_log db (snd (tool_finished now tid aid w rq action_id tool_name failed c db))"
  "same_log db (snd (turn_finished now tid rq failed message db))"
proof -
  obtain r db1 where fc: "find_or_create_agent_turn rq tid now db = (r, db1)" by force
  then have s1: "same_log db db1" using find_or_create_same_log [of db rq tid now] by simp
  have up: "same_log db db2" if "upsert_action a f db1 = Inr db2" for a f db2
    by (rule same_log_trans [OF s1 upsert_action_same_log [OF that]])
  show "same_log db (snd (tool_started now tid aid rq action_id tool_name db))"
    using s1 up by (simp add: tool_started_def fc split: sum.split)
  show "same_log db (snd (tool_finished now tid aid w rq action_id tool_name failed c db))"
    unfolding tool_finished_def fc Let_def
    by (cases r) (auto simp: s1 intro: up split: sum.split simp del: if_image_distrib)
  show "same_log db (snd (turn_finished now tid rq failed message db))"
    using s1 by (simp add: turn_finished_def fc Let_def split: sum.split)
qed

lemma record_agent_event_same_log: "same_log db (snd (record_agent_event now tid aid rq db))"
  by (simp add: record_agent_event_def prompt_submitted_same_log tool_event_same_log
      split: sum.split agent_event.split)

lemma session_same_log:
  "same_log db (snd (create_agent_session can now srq db))"
  "same_log db (snd (finish_agent_session now sid fin db))"
  by (auto simp: create_agent_session_def bind_res_Inr_iff insert_session_def same_log_def
      split: sum.split if_split_asm)
    (auto simp: finish_agent_session_def Let_def update_turns_def update_session_def same_log_def
      split: sum.split if_split_asm)

lemma workspace_same_log:
  "same_log db (snd (add_workspace can dir now nid name path db))"
  "same_log db (snd (remove_workspace identifier db))"
proof -
  have "insert_workspace w db = Inr db' \<Longrightarrow> same_log db db'" for w db'
    by (auto simp: insert_workspace_def same_log_def split: if_split_asm)
  then show "same_log db (snd (add_workspace can dir now nid name path db))"
    by (auto simp: add_workspace_def Let_def split: sum.split option.split)
  show "same_log db (snd (remove_workspace identifier db))"
    by (simp add: remove_workspace_def split: option.split)
qed

lemma delete_agent_session_advances: "db_advances db (snd (delete_agent_session sid db))"
proof (cases "fst (delete_agent_session sid db)")
  case (Inl e)
  then have "snd (delete_agent_session sid db) = db"
    by (auto simp: delete_agent_session_def Let_def split: sum.split_asm if_split_asm)
  then show ?thesis by simp
next
  case (Inr u)
  let ?f = "\<lambda>x. x\<lparr>xr_session_id := None, xr_initiator := (xr_initiator x)\<lparr>in_session_id := None\<rparr>\<rparr>"
  let ?p = "\<lambda>x. xr_session_id x = Some sid"
  have ex: "db_executions (snd (delete_agent_session sid db)) = update_where ?p ?f (db_executions db)"
    and ev: "db_events (snd (delete_agent_session sid db)) = db_events db"
    using Inr by (auto simp: delete_agent_session_def Let_def split: sum.split_asm if_split_asm)
  have fe: "find_execution xid (snd (delete_agent_session sid db)) =
      map_option (\<lambda>x. if ?p x then ?f x else x) (find_execution xid db)" for xid
    unfolding find_execution_def ex by (rule find_update_where) simp
  show ?thesis
    by (auto simp: db_advances_def fe events_of_def ev row_advances_def row_state_def)
qed

end
