(* ===== verification/StoreRead.thy ===== *)
theory StoreRead
  imports StoreLog
begin

text \<open>
  Reading an execution's log in pages (\<open>read_output\<close>): every page is the next contiguous piece of
  \<open>event_log\<close>, is never empty while events remain, and respects the byte budget except for a first
  event that is larger than the budget by itself.
\<close>

section \<open>Rows after a cursor\<close>

lemma filter_upt_gt: "filter (\<lambda>i. a < i) [1..<Suc n] = [Suc a..<Suc n]"
proof (induction n)
  case (Suc n)
  then show ?case by (cases "a \<le> n") (auto simp: upt_Suc)
qed simp

lemma log_ok_rows_after:
  assumes "map er_seq es = [1..<Suc n]"
  shows "filter (\<lambda>e. a < er_seq e) es = drop a es"
  using assms
proof (induction n arbitrary: es)
  case 0
  then show ?case by simp
next
  case (Suc n)
  then have "es \<noteq> []" by auto
  then obtain fs e where es: "es = fs @ [e]" by (metis append_butlast_last_id)
  with Suc.prems have fs: "map er_seq fs = [1..<Suc n]" and e: "er_seq e = Suc n" by auto
  have "length fs = n" using arg_cong [OF fs, of length] by simp
  then show ?case using Suc.IH [OF fs] e by (auto simp: es)
qed

lemma sort_key_sorted_id: "sorted (map k xs) \<Longrightarrow> sort_key k xs = xs"
  by (simp add: sorted_sort_id sort_key_id_if_sorted)

lemma select_events_drop:
  assumes inv: "db_inv db" and x: "find_execution xid db = Some x" and a: "after < 2 ^ 63"
  shows "select_events xid after db = take 4096 (drop after (events_of db xid))"
proof -
  let ?es = "events_of db xid"
  have seqs: "map er_seq ?es = [1..<Suc (xr_last_seq x)]" using log_of [OF inv x] by (simp add: log_ok_def)
  have "filter (\<lambda>e. int (er_seq e) > as_i64 after) ?es = drop after ?es"
    using log_ok_rows_after [OF seqs, of after] a by (simp add: as_i64_id)
  moreover have "sorted (map er_seq (drop after ?es))"
    unfolding drop_map [symmetric] seqs by (simp del: upt_Suc add: drop_upt)
  ultimately show ?thesis by (simp add: select_events_def order_by_def sort_key_sorted_id)
qed

section \<open>The byte budget\<close>

definition rows_bytes :: "event_row list \<Rightarrow> nat" where
  "rows_bytes rs = sum_list (map event_bytes rs)"

lemma rows_bytes_simps [simp]:
  "rows_bytes [] = 0" "rows_bytes (r # rs) = event_bytes r + rows_bytes rs"
  by (simp_all add: rows_bytes_def)

lemma sat_add_min: "sat_add (min t u64_max) b = min (t + b) u64_max"
  by (simp add: sat_add_def)

lemma read_rows_page:
  assumes "\<forall>r \<in> set rows. event_row_ok r" and "mb < u64_max"
  shows "\<exists>k \<le> length rows.
     read_rows B xid mb rows (min t u64_max) acc =
       Inr (acc @ map (decode_event B xid) (take k rows), k < length rows) \<and>
     (acc = [] \<and> rows \<noteq> [] \<longrightarrow> 0 < k) \<and>
     (k < length rows \<longrightarrow> mb < t + rows_bytes (take (Suc k) rows)) \<and>
     (t \<le> mb \<or> length acc \<le> 1 \<and> (acc = [] \<longrightarrow> t = 0) \<longrightarrow>
        t + rows_bytes (take k rows) \<le> mb \<or> length acc + k \<le> 1)"
  using assms(1)
proof (induction rows arbitrary: t acc)
  case Nil
  then show ?case by auto
next
  case (Cons r rs)
  have dec: "event_from_row B xid r = Inr (decode_event B xid r)"
    using Cons.prems by (simp add: event_row_ok_decode)
  have sum: "sat_add (min t u64_max) (event_bytes r) = min (t + event_bytes r) u64_max"
    by (rule sat_add_min)
  have cmp: "sat_add (min t u64_max) (event_bytes r) > mb \<longleftrightarrow> t + event_bytes r > mb"
    unfolding sat_add_min using assms(2) by (simp add: min_def)
  show ?case
  proof (cases "acc \<noteq> [] \<and> t + event_bytes r > mb")
    case True
    then show ?thesis using cmp by (intro exI [of _ 0]) auto
  next
    case False
    from Cons.IH [of "t + event_bytes r" "acc @ [decode_event B xid r]"] Cons.prems
    obtain k where k: "k \<le> length rs"
        "read_rows B xid mb rs (min (t + event_bytes r) u64_max) (acc @ [decode_event B xid r]) =
         Inr ((acc @ [decode_event B xid r]) @ map (decode_event B xid) (take k rs), k < length rs)"
        "k < length rs \<longrightarrow> mb < t + event_bytes r + rows_bytes (take (Suc k) rs)"
        "t + event_bytes r \<le> mb \<or> length (acc @ [decode_event B xid r]) \<le> 1 \<longrightarrow>
           t + event_bytes r + rows_bytes (take k rs) \<le> mb \<or> length acc + Suc k \<le> 1"
      by auto
    have "read_rows B xid mb (r # rs) (min t u64_max) acc =
        Inr (acc @ map (decode_event B xid) (take (Suc k) (r # rs)), Suc k < length (r # rs))"
      using False cmp dec k(2) sum by auto
    then show ?thesis
      using k False by (intro exI [of _ "Suc k"]) auto
  qed
qed

lemma read_rows_first_page:
  assumes "\<forall>r \<in> set rows. event_row_ok r" and "mb < u64_max"
  obtains k where "k \<le> length rows"
    and "read_rows B xid mb rows 0 [] = Inr (map (decode_event B xid) (take k rows), k < length rows)"
    and "rows \<noteq> [] \<longrightarrow> 0 < k" and "k < length rows \<longrightarrow> mb < rows_bytes (take (Suc k) rows)"
    and "rows_bytes (take k rows) \<le> mb \<or> k \<le> 1"
  using read_rows_page [OF assms, of B xid 0 "[]"] by auto

section \<open>A page\<close>

lemma read_output_page:
  assumes inv: "db_inv db" and x: "find_execution xid db = Some x"
    and a: "after < 2 ^ 63" and mb: "mb < u64_max"
  obtains ro k where "read_output B now xid after mb db = Inr ro"
    and "ro_events ro = take k (drop after (event_log B xid db))"
    and "k \<le> 4096" and "k \<le> xr_last_seq x - after" and "after < xr_last_seq x \<Longrightarrow> 0 < k"
    and "ro_next_seq ro = after + k" and "ro_has_more ro \<longleftrightarrow> after + k < xr_last_seq x"
    and "k \<le> 1 \<or> rows_bytes (take k (drop after (events_of db xid))) \<le> mb"
    and "k < 4096 \<Longrightarrow> after + k < xr_last_seq x \<Longrightarrow>
           mb < rows_bytes (take (Suc k) (drop after (events_of db xid)))"
    and "get_execution now xid db = Inr (ro_execution ro)"
proof -
  let ?es = "drop after (events_of db xid)"
  have len: "length (events_of db xid) = xr_last_seq x" by (rule length_event_log(2) [OF inv x])
  have sel: "select_events xid after db = take 4096 ?es" by (rule select_events_drop [OF inv x a])
  have "\<forall>r \<in> set (take 4096 ?es). event_row_ok r"
    using events_ok [OF inv] by (meson in_set_dropD in_set_takeD)
  from read_rows_first_page [OF this mb, of B xid]
  obtain k where k: "k \<le> length (take 4096 ?es)"
    and rr: "read_rows B xid mb (take 4096 ?es) 0 [] =
      Inr (map (decode_event B xid) (take k (take 4096 ?es)), k < length (take 4096 ?es))"
    and pos: "take 4096 ?es \<noteq> [] \<longrightarrow> 0 < k"
    and full: "k < length (take 4096 ?es) \<longrightarrow> mb < rows_bytes (take (Suc k) (take 4096 ?es))"
    and fit: "rows_bytes (take k (take 4096 ?es)) \<le> mb \<or> k \<le> 1" .
  from find_execution_Some [OF x] obtain ex where
    ex: "execution_from_row now x = Inr ex" "ex_last_seq ex = xr_last_seq x"
    using execution_row_decodes [OF inv, of x now] by auto
  have get: "get_execution now xid db = Inr ex" by (simp add: get_execution_def x ex)
  let ?evs = "map (decode_event B xid) (take k ?es)"
  have kk: "k \<le> 4096" "k \<le> xr_last_seq x - after" using k len by auto
  have evs: "?evs = take k (drop after (event_log B xid db))"
    by (simp add: event_log_def drop_map take_map)
  have nxt: "(case last_opt ?evs of None \<Rightarrow> after | Some e \<Rightarrow> ev_seq e) = after + k"
  proof (cases "k = 0")
    case True
    then show ?thesis by (simp add: last_opt_def)
  next
    case False
    have "after + k \<le> xr_last_seq x" using kk False by auto
    then have "map ev_seq ?evs = [Suc after..<Suc (after + k)]"
      unfolding evs using event_log_seqs [OF inv x, of B]
      by (simp del: upt_Suc add: take_map [symmetric] drop_map [symmetric] drop_upt take_upt)
    moreover have "?evs \<noteq> []" using False kk len by auto
    ultimately have "ev_seq (last ?evs) = after + k"
      using last_map [of ?evs ev_seq] False by (simp del: upt_Suc add: last_upt) 
    then show ?thesis using \<open>?evs \<noteq> []\<close> by (simp add: last_opt_def)
  qed
  have more: "(k < length (take 4096 ?es) \<or> after + k < xr_last_seq x) = (after + k < xr_last_seq x)"
    using k len by auto
  have tk: "take k (take 4096 ?es) = take k ?es" "k < 4096 \<Longrightarrow> take (Suc k) (take 4096 ?es) = take (Suc k) ?es"
    using kk by (simp_all add: min_def)
  have "read_output B now xid after mb db =
      Inr \<lparr>ro_execution = ex, ro_events = ?evs, ro_next_seq = after + k,
           ro_has_more = (after + k < xr_last_seq x)\<rparr>"
    using nxt more min_absorb1 [OF kk(1)] by (simp add: read_output_def get sel rr ex(2) Let_def)
  then show thesis
    by (rule that [where k = k]) (use evs kk pos full fit tk len get in \<open>auto simp: min_def split: if_splits\<close>)
qed

end
