(* ===== verification/StorePrune.thy ===== *)
theory StorePrune
  imports StoreExecutions
begin

text \<open>
  What \<open>prune\<close> removes: first every terminal execution that ended before the cutoff, then terminal
  executions from the oldest on until the captured bytes fit the bound. Executions that are queued or
  running are never touched, and those kept keep their row and their events.
\<close>

lemma filter_key_one:
  assumes "distinct (map k rows)" and "x \<in> set rows"
  shows "filter (\<lambda>r. k r = k x) rows = [x]"
  using assms
proof (induction rows)
  case (Cons r rows)
  show ?case
  proof (cases "x = r")
    case True
    then have "filter (\<lambda>s. k s = k x) rows = []" using Cons.prems by (simp add: filter_empty_conv image_iff) metis
    then show ?thesis using True by simp
  next
    case False
    then have "k r \<noteq> k x" using Cons.prems by (auto simp: image_iff)
    then show ?thesis using Cons False by simp
  qed
qed simp

lemma sum_delete_key:
  fixes f :: "'r \<Rightarrow> nat"
  assumes "distinct (map k rows)" and "x \<in> set rows"
  shows "sum_list (map f (delete_where (\<lambda>r. k r = k x) rows)) + f x = sum_list (map f rows)"
  using sum_list_filter_split [of f "\<lambda>r. k r = k x" rows] filter_key_one [OF assms]
  by (simp add: delete_where_def comp_def)

text \<open>Deleting executions keeps the rows and the events of the others.\<close>

definition keeps_rest :: "database \<Rightarrow> database \<Rightarrow> bool" where
  "keeps_rest db db' \<longleftrightarrow>
     (\<forall>x \<in> set (db_executions db'). x \<in> set (db_executions db) \<and>
        events_of db' (xr_id x) = events_of db (xr_id x))"

lemma keeps_rest_refl: "keeps_rest db db"
  by (simp add: keeps_rest_def)

lemma keeps_rest_trans: "keeps_rest db db1 \<Longrightarrow> keeps_rest db1 db2 \<Longrightarrow> keeps_rest db db2"
  by (simp add: keeps_rest_def)

lemma keeps_rest_delete: "db_inv db \<Longrightarrow> keeps_rest db (snd (delete_executions p db))"
proof (unfold keeps_rest_def, intro ballI conjI)
  fix x
  assume inv: "db_inv db" and "x \<in> set (db_executions (snd (delete_executions p db)))"
  then have x: "x \<in> set (db_executions db)" "\<not> p x"
    by (auto simp: delete_executions_simps set_delete_where)
  then have "xr_id x \<notin> xr_id ` set (filter p (db_executions db))"
    using key_unique [OF execution_key [OF inv], of x] by auto
  then show "events_of (snd (delete_executions p db)) (xr_id x) = events_of db (xr_id x)"
    by (rule events_of_delete_executions)
  show "x \<in> set (db_executions db)" by (rule x(1))
qed

definition size_entry :: "execution_row \<Rightarrow> string \<times> nat" where
  "size_entry x = (xr_id x, xr_captured_bytes x)"

definition captured :: "execution_row list \<Rightarrow> nat" where
  "captured xs = sum_list (map xr_captured_bytes xs)"

lemma captured_simps [simp]: "captured [] = 0" "captured (x # xs) = xr_captured_bytes x + captured xs"
  by (simp_all add: captured_def)

text \<open>The size-bounded loop deletes a prefix of its candidates, the shortest that frees the excess.\<close>

lemma prune_candidates_prefix:
  assumes "db_inv db" and "distinct (map xr_id L)" and "set L \<subseteq> set (db_executions db)"
  obtains k db' where
    "prune_candidates (map size_entry L) excess removed db = (removed + k, db')"
    and "k \<le> length L" and "\<And>j. j < k \<Longrightarrow> captured (take j L) < excess"
    and "k = length L \<or> excess \<le> captured (take k L)"
    and "set (db_executions db') = set (db_executions db) - set (take k L)"
    and "total_captured db' + captured (take k L) = total_captured db"
    and "length (db_executions db') + k = length (db_executions db)"
    and "keeps_rest db db'"
  using assms
proof (induction L arbitrary: excess removed db thesis)
  case Nil
  then show ?case by (auto simp: keeps_rest_refl)
next
  case (Cons x L)
  note prems = Cons.prems(2-) and goal = Cons.prems(1)
  show ?case
  proof (cases "excess = 0")
    case True
    then show ?thesis
      by (intro goal [where k = 0 and db' = db]) (simp_all add: size_entry_def keeps_rest_refl)
  next
    case False
    let ?p = "\<lambda>y. xr_id y = xr_id x"
    let ?db1 = "snd (delete_executions ?p db)"
    have x: "x \<in> set (db_executions db)" using prems(3) by simp
    have key: "distinct (map xr_id (db_executions db))" by (rule execution_key [OF prems(1)])
    have one: "filter ?p (db_executions db) = [x]" by (rule filter_key_one [OF key x])
    have ex1: "set (db_executions ?db1) = set (db_executions db) - {x}"
      using key_unique [OF key _ x] by (auto simp: delete_executions_simps set_delete_where)
    have d1: "fst (delete_executions ?p db) = 1"
      by (simp add: delete_executions_simps one)
    have tot1: "total_captured ?db1 + xr_captured_bytes x = total_captured db"
      unfolding total_captured_def delete_executions_simps by (rule sum_delete_key [OF key x])
    have len1: "length (db_executions ?db1) + 1 = length (db_executions db)"
      using length_delete_where [of ?p "db_executions db"] one by (simp add: delete_executions_simps)
    have dl: "distinct (map xr_id L)" using prems(2) by simp
    have sub: "set L \<subseteq> set (db_executions ?db1)" using prems(2,3) ex1 by auto
    obtain k db' where k: "prune_candidates (map size_entry L) (excess - xr_captured_bytes x) (removed + 1) ?db1
          = (removed + 1 + k, db')" "k \<le> length L"
        "\<And>j. j < k \<Longrightarrow> captured (take j L) < excess - xr_captured_bytes x"
        "k = length L \<or> excess - xr_captured_bytes x \<le> captured (take k L)"
        "set (db_executions db') = set (db_executions ?db1) - set (take k L)"
        "total_captured db' + captured (take k L) = total_captured ?db1"
        "length (db_executions db') + k = length (db_executions ?db1)" "keeps_rest ?db1 db'"
    proof (rule Cons.IH [where excess = "excess - xr_captured_bytes x" and removed = "removed + 1",
          OF _ delete_executions_inv [OF prems(1)] dl sub], goal_cases)
      case (1 k db')
      then show ?case by (intro that) blast+
    qed
    show ?thesis
    proof (rule goal [where k = "Suc k" and db' = db'])
      show "prune_candidates (map size_entry (x # L)) excess removed db = (removed + Suc k, db')"
        using False k(1) d1 by (simp add: size_entry_def split_beta)
      show "captured (take j (x # L)) < excess" if "j < Suc k" for j
        using that False k(3) [of "j - 1"] by (cases j) auto
      show "keeps_rest db db'"
        using keeps_rest_trans [OF keeps_rest_delete [OF prems(1)] k(8)] .
    qed (use k ex1 tot1 len1 in auto)
  qed
qed

definition terminal_row :: "execution_row \<Rightarrow> bool" where
  "terminal_row x \<longleftrightarrow> terminal_str (xr_state x)"

lemma prune_order_facts:
  assumes "db_inv db"
  shows "distinct (map xr_id (prune_order db))" "set (prune_order db) \<subseteq> set (db_executions db)"
    "set (prune_order db) = {x \<in> set (db_executions db). terminal_row x}"
    "sorted (map xr_ended_at_ms (prune_order db))"
proof -
  have "distinct (map xr_id (filter terminal_row (db_executions db)))"
    using execution_key [OF assms] by (simp add: distinct_map_filter)
  then show "distinct (map xr_id (prune_order db))"
    unfolding prune_order_def order_by_def terminal_row_def
    by (auto simp: distinct_map)
  show "set (prune_order db) \<subseteq> set (db_executions db)"
    "set (prune_order db) = {x \<in> set (db_executions db). terminal_row x}"
    by (auto simp: prune_order_def terminal_row_def)
  show "sorted (map xr_ended_at_ms (prune_order db))"
    unfolding prune_order_def by (rule sorted_order_by)
qed

lemma sorted_take_drop_le:
  assumes "sorted (map f xs)" and "x \<in> set (take k xs)" and "y \<in> set (drop k xs)"
  shows "f x \<le> f y"
proof -
  have "sorted (map f (take k xs) @ map f (drop k xs))"
    using assms(1) by (simp add: map_append [symmetric])
  then show ?thesis using assms(2,3) by (simp add: sorted_append)
qed

text \<open>The whole operation.\<close>

lemma prune_effect:
  assumes inv: "db_inv db"
  obtains dbe k db' where
    "prune now days bytes db = (Inr (length (db_executions db) - length (db_executions db')), db')"
    and "set (db_executions dbe) = {x \<in> set (db_executions db). \<not> expired (prune_cutoff now days) x}"
    and "set (db_executions db') = set (db_executions dbe) - set (take k (prune_order dbe))"
    and "set (prune_order dbe) = {x \<in> set (db_executions dbe). terminal_row x}"
    and "sorted (map xr_ended_at_ms (prune_order dbe))"
    and "total_captured db' \<le> bytes \<or> (\<forall>x \<in> set (db_executions db'). \<not> terminal_row x)"
    and "\<And>j. j < k \<Longrightarrow> bytes < total_captured dbe - captured (take j (prune_order dbe))"
    and "keeps_rest db db'" and "length (db_executions db') \<le> length (db_executions db)"
    and "distinct (map xr_id (prune_order dbe))"
proof -
  let ?p = "expired (prune_cutoff now days)"
  let ?db1 = "snd (delete_executions ?p db)"
  have inv1: "db_inv ?db1" by (rule delete_executions_inv [OF inv])
  note d1 = delete_executions_simps(5) [of ?p db]
  have len1: "length (filter ?p (db_executions db)) + length (db_executions ?db1) = length (db_executions db)"
    using length_delete_where [of ?p "db_executions db"] by (simp add: delete_executions_simps)
  have ex1: "set (db_executions ?db1) = {x \<in> set (db_executions db). \<not> ?p x}"
    by (simp add: delete_executions_simps set_delete_where)
  note order = prune_order_facts [OF inv1]
  have entry: "(\<lambda>x. (xr_id x, xr_captured_bytes x)) = size_entry"
    by (rule ext) (simp add: size_entry_def)
  show thesis
  proof (cases "total_captured ?db1 > bytes")
    case False
    show thesis
    proof (rule that [where db' = ?db1 and dbe = ?db1 and k = 0, OF _ ex1 _ order(3,4) _ _
          keeps_rest_delete [OF inv] _ order(1)])
      have "length (filter ?p (db_executions db)) = length (db_executions db) - length (db_executions ?db1)"
        using len1 by linarith
      moreover have "prune now days bytes db = (Inr (length (filter ?p (db_executions db))), ?db1)"
        using False by (simp add: prune_def split_beta d1)
      ultimately show "prune now days bytes db =
          (Inr (length (db_executions db) - length (db_executions ?db1)), ?db1)" by metis
    qed (use False len1 in simp_all)
  next
    case True
    obtain k db' where k: "prune_candidates (map size_entry (prune_order ?db1)) (total_captured ?db1 - bytes)
          (length (filter ?p (db_executions db))) ?db1 = (length (filter ?p (db_executions db)) + k, db')"
        "k \<le> length (prune_order ?db1)"
        "\<And>j. j < k \<Longrightarrow> captured (take j (prune_order ?db1)) < total_captured ?db1 - bytes"
        "k = length (prune_order ?db1) \<or> total_captured ?db1 - bytes \<le> captured (take k (prune_order ?db1))"
        "set (db_executions db') = set (db_executions ?db1) - set (take k (prune_order ?db1))"
        "total_captured db' + captured (take k (prune_order ?db1)) = total_captured ?db1"
        "length (db_executions db') + k = length (db_executions ?db1)" "keeps_rest ?db1 db'"
    proof (rule prune_candidates_prefix [OF inv1 order(1,2), of "total_captured ?db1 - bytes"
          "length (filter ?p (db_executions db))"], goal_cases)
      case (1 k db')
      then show ?case by (intro that) blast+
    qed
    have res: "prune now days bytes db = (Inr (length (filter ?p (db_executions db)) + k), db')"
      using True k(1) by (simp add: prune_def entry split_beta d1)
    have bound: "total_captured db' \<le> bytes \<or> (\<forall>x \<in> set (db_executions db'). \<not> terminal_row x)"
      using k(4,5,6) order(3) by auto
    have min: "bytes < total_captured ?db1 - captured (take j (prune_order ?db1))" if "j < k" for j
      using k(3) [OF that] by linarith
    have rest: "keeps_rest db db'" using keeps_rest_trans [OF keeps_rest_delete [OF inv] k(8)] .
    have count: "length (filter ?p (db_executions db)) + k =
        length (db_executions db) - length (db_executions db')"
      using len1 k(7) by linarith
    have le: "length (db_executions db') \<le> length (db_executions db)"
      using len1 k(7) by linarith
    show thesis
      by (rule that [where db' = db' and dbe = ?db1 and k = k,
            OF res [unfolded count] ex1 k(5) order(3,4) bound min rest le order(1)])
  qed
qed

end
