(* ===== verification/StoreStats.thy ===== *)
theory StoreStats
  imports StoreWorkspaces
begin

text \<open>
  \<open>execution_stats\<close> (\<open>src/store.rs\<close>): the status counters, the counts per initiator and the nearest-rank
  percentiles of the durations, over the executions of a workspace in a window. The lemmas say that
  the status counters partition the executions and that the percentile query computes the nearest rank.
\<close>

section \<open>The queries\<close>

definition count_where :: "('r \<Rightarrow> bool) \<Rightarrow> 'r list \<Rightarrow> nat" where
  "count_where p rows = length (filter p rows)"

definition in_window :: "string \<Rightarrow> int \<Rightarrow> int \<Rightarrow> execution_row \<Rightarrow> bool" where
  "in_window wid since until x \<longleftrightarrow>
     xr_workspace_id x = wid \<and> since \<le> xr_created_at_ms x \<and> xr_created_at_ms x \<le> until"

definition window_rows :: "string \<Rightarrow> int \<Rightarrow> int \<Rightarrow> database \<Rightarrow> execution_row list" where
  "window_rows wid since until db = filter (in_window wid since until) (db_executions db)"

text \<open>A comparison with a missing outcome is NULL, which no \<open>SUM\<close> counts.\<close>

definition outcome_is :: "(execution_outcome \<Rightarrow> bool) \<Rightarrow> execution_row \<Rightarrow> bool" where
  "outcome_is p x \<longleftrightarrow> xr_state x = ''finished'' \<and> (case xr_outcome x of None \<Rightarrow> False | Some out \<Rightarrow> p out)"

fun is_exited_zero :: "execution_outcome \<Rightarrow> bool" where
  "is_exited_zero (Exited code) = (code = 0)" | "is_exited_zero _ = False"

fun is_exited_nonzero :: "execution_outcome \<Rightarrow> bool" where
  "is_exited_nonzero (Exited code) = (code \<noteq> 0)" | "is_exited_nonzero _ = False"

fun is_signaled :: "execution_outcome \<Rightarrow> bool" where
  "is_signaled (Signaled _) = True" | "is_signaled _ = False"

fun is_spawn_error :: "execution_outcome \<Rightarrow> bool" where
  "is_spawn_error (SpawnError _) = True" | "is_spawn_error _ = False"

fun is_cancelled :: "execution_outcome \<Rightarrow> bool" where
  "is_cancelled (OutcomeCancelled _) = True" | "is_cancelled _ = False"

fun is_interrupted :: "execution_outcome \<Rightarrow> bool" where
  "is_interrupted (OutcomeInterrupted _) = True" | "is_interrupted _ = False"

definition status_counts :: "execution_row list \<Rightarrow> execution_status_counts" where
  "status_counts rows =
     \<lparr>sc_queued = count_where (\<lambda>x. xr_state x = ''queued'') rows,
      sc_running = count_where (\<lambda>x. xr_state x = ''running'') rows,
      sc_exited_zero = count_where (outcome_is is_exited_zero) rows,
      sc_exited_nonzero = count_where (outcome_is is_exited_nonzero) rows,
      sc_signaled = count_where (outcome_is is_signaled) rows,
      sc_spawn_error = count_where (outcome_is is_spawn_error) rows,
      sc_cancelled = count_where (\<lambda>x. xr_state x = ''cancelled'' \<or> outcome_is is_cancelled x) rows,
      sc_interrupted = count_where (\<lambda>x. xr_state x = ''interrupted'' \<or> outcome_is is_interrupted x) rows,
      sc_unknown_terminal = count_where (\<lambda>x. xr_state x = ''finished'' \<and> xr_outcome x = None) rows\<rparr>"

definition initiator_kind :: "execution_row \<Rightarrow> string" where
  "initiator_kind x =
     (if in_kind (xr_initiator x) = '''' then ''unknown'' else in_kind (xr_initiator x))"

definition by_initiator :: "execution_row list \<Rightarrow> initiator_stats list" where
  "by_initiator rows =
     map (\<lambda>k. \<lparr>is_kind = k, is_count = count_where (\<lambda>x. initiator_kind x = k) rows\<rparr>)
       (sort (remdups (map initiator_kind rows)))"

definition timed :: "execution_row \<Rightarrow> bool" where
  "timed x \<longleftrightarrow> terminal_str (xr_state x) \<and> xr_started_at_ms x \<noteq> None \<and> xr_ended_at_ms x \<noteq> None"

definition row_duration :: "execution_row \<Rightarrow> int" where
  "row_duration x =
     (let started = the (xr_started_at_ms x); ended = the (xr_ended_at_ms x) in
      if ended \<ge> started then ended - started else 0)"

definition max_opt :: "int list \<Rightarrow> int option" where
  "max_opt xs = (case xs of [] \<Rightarrow> None | x # rest \<Rightarrow> Some (fold max rest x))"

text \<open>\<open>MAX(CASE WHEN rank_number = (sample_count * q + 99) / 100 THEN duration_ms END)\<close>.\<close>

definition percentile :: "nat \<Rightarrow> int list \<Rightarrow> int option" where
  "percentile q durations =
     max_opt (map snd (filter (\<lambda>(rank, d). rank = (length durations * q + 99) div 100)
       (enumerate 1 (sort durations))))"

definition execution_stats ::
  "string \<Rightarrow> int \<Rightarrow> int \<Rightarrow> database \<Rightarrow> execution_stats result" where
  "execution_stats workspace since until db =
     (if since > until
      then Inl (InvalidRequest ''statistics window start must not exceed its end'')
      else bind_res (get_workspace workspace db) (\<lambda>w.
        let rows = window_rows (ws_id w) since until db;
            durations = map row_duration (filter timed rows) in
        Inr \<lparr>st_workspace = w, st_since_ms = since, st_until_ms = until,
             st_total = length rows, st_status = status_counts rows,
             st_by_initiator = by_initiator rows,
             st_captured_bytes = sum_list (map xr_captured_bytes rows),
             st_truncated_executions = count_where xr_output_truncated rows,
             st_duration_samples = length durations,
             st_duration_p50_ms = map_option as_u64 (percentile 50 durations),
             st_duration_p95_ms = map_option as_u64 (percentile 95 durations)\<rparr>))"

section \<open>The counters partition the executions\<close>

definition status_total :: "execution_status_counts \<Rightarrow> nat" where
  "status_total c = sc_queued c + sc_running c + sc_exited_zero c + sc_exited_nonzero c + sc_signaled c
     + sc_spawn_error c + sc_cancelled c + sc_interrupted c + sc_unknown_terminal c"

lemma status_total_one:
  assumes "xr_state x \<in> range state_str"
  shows "status_total (status_counts (x # rows)) = Suc (status_total (status_counts rows))"
proof -
  from assms obtain s where s: "xr_state x = state_str s" by auto
  show ?thesis
  proof (cases "xr_outcome x")
    case None
    then show ?thesis using s
      by (cases s) (simp_all add: status_total_def status_counts_def count_where_def outcome_is_def)
  next
    case (Some out)
    then show ?thesis using s
      by (cases s; cases out) (simp_all add: status_total_def status_counts_def count_where_def outcome_is_def)
  qed
qed

lemma status_counts_total:
  "(\<And>x. x \<in> set rows \<Longrightarrow> xr_state x \<in> range state_str) \<Longrightarrow> status_total (status_counts rows) = length rows"
proof (induction rows)
  case Nil
  then show ?case by (simp add: status_total_def status_counts_def count_where_def)
next
  case (Cons x rows)
  have "status_total (status_counts (x # rows)) = Suc (status_total (status_counts rows))"
    by (rule status_total_one) (simp add: Cons.prems)
  then show ?case using Cons by simp
qed

lemma sum_count_distinct:
  "distinct ks \<Longrightarrow> (\<And>x. x \<in> set rows \<Longrightarrow> f x \<in> set ks) \<Longrightarrow>
   sum_list (map (\<lambda>k. count_where (\<lambda>x. f x = k) rows) ks) = length rows"
proof (induction rows)
  case Nil
  then show ?case by (simp add: count_where_def)
next
  case (Cons x rows)
  have "count_where (\<lambda>y. f y = k) (x # rows) = count_where (\<lambda>y. f y = k) rows + (if f x = k then 1 else 0)" for k
    by (simp add: count_where_def)
  then have "sum_list (map (\<lambda>k. count_where (\<lambda>y. f y = k) (x # rows)) ks) =
      sum_list (map (\<lambda>k. count_where (\<lambda>y. f y = k) rows) ks) + sum_list (map (\<lambda>k. if f x = k then 1 else 0) ks)"
    by (simp add: sum_list_addf)
  moreover have "sum_list (map (\<lambda>k. if f x = k then (1::nat) else 0) ks) = 1"
    using Cons.prems by (simp add: sum_list_distinct_conv_sum_set)
  ultimately show ?case using Cons by simp
qed

lemma by_initiator_total: "sum_list (map is_count (by_initiator rows)) = length rows"
  using sum_count_distinct [of "sort (remdups (map initiator_kind rows))" rows initiator_kind]
  by (simp add: by_initiator_def comp_def)

section \<open>The percentile query\<close>

lemma filter_rank:
  "1 \<le> r \<Longrightarrow> r \<le> length xs \<Longrightarrow> filter (\<lambda>(i, d). i = r) (enumerate 1 xs) = [(r, xs ! (r - 1))]"
proof -
  have gen: "n \<le> r \<Longrightarrow> r < n + length xs \<Longrightarrow> filter (\<lambda>(i, d). i = r) (enumerate n xs) = [(r, xs ! (r - n))]" for n r
  proof (induction xs arbitrary: n)
    case Nil
    then show ?case by simp
  next
    case (Cons x xs)
    show ?case
    proof (cases "n = r")
      case True
      have "filter (\<lambda>(i, d). i = r) (enumerate (Suc r) xs) = []"
        by (auto simp: filter_empty_conv in_set_enumerate_eq)
      then show ?thesis using True by simp
    next
      case False
      then show ?thesis using Cons by (simp add: nth_Cons' Suc_diff_Suc)
    qed
  qed
  show "1 \<le> r \<Longrightarrow> r \<le> length xs \<Longrightarrow> ?thesis" using gen [of 1 r] by simp
qed

definition nearest_rank :: "nat \<Rightarrow> nat \<Rightarrow> nat" where
  "nearest_rank q n = (n * q + 99) div 100"

lemma nearest_rank_bounds: "0 < n \<Longrightarrow> 0 < q \<Longrightarrow> q \<le> 100 \<Longrightarrow> 1 \<le> nearest_rank q n \<and> nearest_rank q n \<le> n"
proof -
  assume a: "0 < n" "0 < q" "q \<le> 100"
  have "0 < n * q" using a by simp
  then have "100 \<le> n * q + 99" by linarith
  moreover have "n * q \<le> n * 100" using a(3) by (rule mult_le_mono2)
  moreover have "1 \<le> (m + 99) div 100 \<and> (m + 99) div 100 \<le> n" if "100 \<le> m + 99" "m \<le> n * 100" for m
    using that by linarith
  ultimately show ?thesis unfolding nearest_rank_def by blast
qed

lemma percentile_nearest_rank:
  assumes "ds \<noteq> []" and "0 < q" and "q \<le> 100"
  shows "percentile q ds = Some (sort ds ! (nearest_rank q (length ds) - 1))"
proof -
  have "1 \<le> nearest_rank q (length ds)" "nearest_rank q (length ds) \<le> length (sort ds)"
    using nearest_rank_bounds [of "length ds" q] assms by auto
  from filter_rank [OF this] show ?thesis
    by (simp add: percentile_def nearest_rank_def max_opt_def)
qed

lemma percentile_empty: "percentile q [] = None"
  by (simp add: percentile_def max_opt_def)

text \<open>At least \<open>q\<close> percent of the samples are at most the value of rank \<open>nearest_rank q n\<close>, and more than
  \<open>100 - q\<close> percent are at least it.\<close>

lemma count_sort: "count_where p (sort ds) = count_where p (ds :: int list)"
  by (metis count_where_def filter_sort length_sort)

lemma rank_count_le:
  assumes "sorted xs" and "i < length xs"
  shows "Suc i \<le> count_where (\<lambda>d. d \<le> xs ! i) (xs :: int list)"
proof -
  have "filter (\<lambda>d. d \<le> xs ! i) (take (Suc i) xs) = take (Suc i) xs"
    using assms by (auto simp: filter_id_conv in_set_conv_nth sorted_iff_nth_mono)
  then have "Suc i \<le> length (filter (\<lambda>d. d \<le> xs ! i) (take (Suc i) xs @ drop (Suc i) xs))"
    using assms(2) by (simp only: filter_append length_append) simp
  then show ?thesis by (simp add: count_where_def)
qed

lemma rank_count_ge:
  assumes "sorted xs" and "i < length xs"
  shows "length xs - i \<le> count_where (\<lambda>d. xs ! i \<le> d) (xs :: int list)"
proof -
  have "filter (\<lambda>d. xs ! i \<le> d) (drop i xs) = drop i xs"
    using assms by (auto simp: filter_id_conv in_set_conv_nth sorted_iff_nth_mono)
  then have "length xs - i \<le> length (filter (\<lambda>d. xs ! i \<le> d) (take i xs @ drop i xs))"
    by (simp only: filter_append length_append) simp
  then show ?thesis by (simp add: count_where_def)
qed

lemma percentile_spec:
  assumes "ds \<noteq> []" and "0 < q" and "q \<le> 100"
  shows "\<exists>v. percentile q ds = Some v \<and> v \<in> set ds \<and>
     q * length ds \<le> 100 * count_where (\<lambda>d. d \<le> v) ds \<and>
     (100 - q) * length ds < 100 * count_where (\<lambda>d. v \<le> d) ds"
proof -
  let ?n = "length ds" and ?r = "nearest_rank q (length ds)"
  have r: "1 \<le> ?r" "?r \<le> ?n" using nearest_rank_bounds [of ?n q] assms by auto
  let ?v = "sort ds ! (?r - 1)"
  have "?r - 1 < length (sort ds)" using r by simp
  note counts = rank_count_le [OF sorted_sort this] rank_count_ge [OF sorted_sort this]
  have le: "?r \<le> count_where (\<lambda>d. d \<le> ?v) ds" and ge: "?n - (?r - 1) \<le> count_where (\<lambda>d. ?v \<le> d) ds"
    using counts r by (simp_all add: count_sort)
  have "q * ?n \<le> 100 * ?r" "100 * ?r \<le> q * ?n + 99"
    unfolding nearest_rank_def by (simp_all add: mult.commute)
  moreover have "(100 - q) * ?n = 100 * ?n - q * ?n" by (simp add: diff_mult_distrib)
  ultimately have "q * ?n \<le> 100 * count_where (\<lambda>d. d \<le> ?v) ds"
      "(100 - q) * ?n < 100 * count_where (\<lambda>d. ?v \<le> d) ds"
    using le ge r by linarith+
  moreover have "?v \<in> set ds" using r nth_mem [of "?r - 1" "sort ds"] by simp
  ultimately show ?thesis using percentile_nearest_rank [OF assms] by blast
qed

end
