(* ===== verification/StoreActor.thy ===== *)
theory StoreActor
  imports StoreLifecycle StoreRead StorePrune StoreStats
begin

text \<open>
  The storage actor (\<open>StoreCommand\<close> and \<open>run_store_actor\<close> in \<open>src/store.rs\<close>): one thread owns the
  database and serves one command at a time, so the whole store is the sequence of its commands. The
  machine of the actor is an interpretation of \<open>invariant_machine\<close> and, for the commands that keep
  executions, of \<open>monotone_machine\<close>.
\<close>

section \<open>Commands and replies\<close>

datatype store_command =
    AddWorkspace string string
  | RemoveWorkspace string
  | GetWorkspace string
  | FindWorkspaceByRoot string
  | ListWorkspaces
  | CreateExecution execution_request string
  | MarkRunning string nat int
  | AppendCaptureBatch "capture_record list"
  | Finish string execution_state execution_outcome
  | GetExecution string
  | ListExecutions "string option" nat
  | ExecutionStats string int int
  | CreateAgentSession agent_session_request
  | FinishAgentSession string agent_session_finish
  | GetAgentSession string
  | ListAgentSessions "string option" nat
  | DeleteAgentSession string
  | RecordAgentEvent agent_event_request
  | ActiveAgentSessions
  | ReadOutput string nat nat
  | ReconcileIncomplete
  | CancelQueued
  | Prune nat nat
  | Shutdown

datatype store_reply =
    RWorkspace "workspace result"
  | RUnit "unit result"
  | RWorkspaceOption "workspace option result"
  | RWorkspaces "workspace list result"
  | RExecution "execution result"
  | REvent "execution_event result"
  | REvents "execution_event list result"
  | RExecutions "execution list result"
  | RStats "execution_stats result"
  | RSession "agent_session result"
  | RDetail "agent_session_detail result"
  | RSessions "agent_session list result"
  | RTurn "agent_turn result"
  | ROutput "read_output_response result"
  | RCount "nat result"

text \<open>What a command takes from outside: the readings of the clock, the identifiers it draws, the file
  system, the base64 codec.\<close>

record store_env =
  e_clock :: "nat \<Rightarrow> int"
  e_new_id :: "nat \<Rightarrow> string"
  e_canonicalize :: "string \<Rightarrow> string result"
  e_is_dir :: "string \<Rightarrow> bool"
  e_base64 :: base64

section \<open>Serving a command\<close>

fun exec_command :: "store_env \<Rightarrow> store_command \<Rightarrow> database \<Rightarrow> store_reply \<times> database" where
  "exec_command E (AddWorkspace name root) db =
     map_prod RWorkspace id (add_workspace (e_canonicalize E) (e_is_dir E) (e_clock E 0) (e_new_id E 0) name root db)"
| "exec_command E (RemoveWorkspace identifier) db = map_prod RUnit id (remove_workspace identifier db)"
| "exec_command E (GetWorkspace identifier) db = (RWorkspace (get_workspace identifier db), db)"
| "exec_command E (FindWorkspaceByRoot root) db =
     (RWorkspaceOption (find_workspace_by_root (e_canonicalize E) root db), db)"
| "exec_command E ListWorkspaces db = (RWorkspaces (Inr (list_workspaces db)), db)"
| "exec_command E (CreateExecution request cwd) db =
     map_prod RExecution id (create_execution (e_base64 E) (e_clock E 0) (e_new_id E 0) request cwd db)"
| "exec_command E (MarkRunning xid pid pgid) db = map_prod REvent id (mark_running (e_clock E 0) xid pid pgid db)"
| "exec_command E (AppendCaptureBatch records) db = map_prod REvents id (append_capture_batch (e_base64 E) records db)"
| "exec_command E (Finish xid state outcome) db = map_prod REvent id (finish (e_clock E 0) xid state outcome db)"
| "exec_command E (GetExecution xid) db = (RExecution (get_execution (e_clock E 0) xid db), db)"
| "exec_command E (ListExecutions workspace limit) db =
     (RExecutions (list_executions (e_clock E) workspace limit db), db)"
| "exec_command E (ExecutionStats workspace since until) db =
     (RStats (execution_stats workspace since until db), db)"
| "exec_command E (CreateAgentSession request) db =
     map_prod RSession id (create_agent_session (e_canonicalize E) (e_clock E 0) request db)"
| "exec_command E (FinishAgentSession sid fin) db =
     map_prod RSession id (finish_agent_session (e_clock E 0) sid fin db)"
| "exec_command E (GetAgentSession sid) db = (RDetail (get_agent_session (e_clock E) sid db), db)"
| "exec_command E (ListAgentSessions workspace limit) db =
     (RSessions (list_agent_sessions workspace limit db), db)"
| "exec_command E (DeleteAgentSession sid) db = map_prod RUnit id (delete_agent_session sid db)"
| "exec_command E (RecordAgentEvent request) db =
     map_prod RTurn id (record_agent_event (e_clock E 0) (e_new_id E 0) (e_new_id E 1) request db)"
| "exec_command E ActiveAgentSessions db = (RSessions (active_agent_sessions db), db)"
| "exec_command E (ReadOutput xid after_seq max_bytes) db =
     (ROutput (read_output (e_base64 E) (e_clock E 0) xid after_seq max_bytes db), db)"
| "exec_command E ReconcileIncomplete db = map_prod RCount id (reconcile_incomplete (e_clock E) db)"
| "exec_command E CancelQueued db = map_prod REvents id (cancel_queued (e_clock E) db)"
| "exec_command E (Prune days bytes) db = map_prod RCount id (prune (e_clock E 0) days bytes db)"
| "exec_command E Shutdown db = (RUnit (Inr ()), db)"

text \<open>The actor's loop ends at a shutdown; the commands queued behind it are dropped with their reply
  channels.\<close>

fun run_store_actor ::
  "(store_env \<times> store_command) list \<Rightarrow> database \<Rightarrow> store_reply list \<times> database" where
  "run_store_actor [] db = ([], db)"
| "run_store_actor ((E, c) # rest) db =
     (case exec_command E c db of (reply, db1) \<Rightarrow>
        if c = Shutdown then ([reply], db1)
        else case run_store_actor rest db1 of (replies, db2) \<Rightarrow> (reply # replies, db2))"

section \<open>The facade\<close>

text \<open>\<open>Store::append_output\<close> and \<open>Store::mark_truncated\<close>: a batch of one record, of whose events the
  last is taken. The window check of \<open>Store::execution_stats\<close> comes before the request.\<close>

definition pop_event :: "execution_event list result \<Rightarrow> execution_event result" where
  "pop_event r = bind_res r (\<lambda>events. ok_or (Protocol ''capture batch produced no event'') (last_opt events))"

definition append_output ::
  "base64 \<Rightarrow> int \<Rightarrow> string \<Rightarrow> output_stream \<Rightarrow> bytes \<Rightarrow> database \<Rightarrow> execution_event db_result" where
  "append_output B now xid stream data db =
     map_prod pop_event id (append_capture_batch B [CaptureOutput xid now stream data] db)"

definition mark_truncated :: "base64 \<Rightarrow> int \<Rightarrow> string \<Rightarrow> nat \<Rightarrow> database \<Rightarrow> execution_event db_result" where
  "mark_truncated B now xid limit db =
     map_prod pop_event id (append_capture_batch B [CaptureTruncated xid now limit] db)"

definition request_stats ::
  "(store_command \<Rightarrow> execution_stats result) \<Rightarrow> string \<Rightarrow> int \<Rightarrow> int \<Rightarrow> execution_stats result" where
  "request_stats send workspace since until =
     (if since > until
      then Inl (InvalidRequest ''statistics window start must not exceed its end'')
      else send (ExecutionStats workspace since until))"

section \<open>The invariant of the actor\<close>

lemma exec_command_inv: "db_inv db \<Longrightarrow> db_inv (snd (exec_command E c db))"
  by (cases c) (simp_all add: map_prod_def split_beta add_workspace_inv remove_workspace_inv
      create_execution_inv mark_running_inv append_capture_batch_inv finish_inv create_agent_session_inv
      finish_agent_session_inv delete_agent_session_inv record_agent_event_inv reconcile_incomplete_inv
      cancel_queued_inv prune_inv)

definition actor_step :: "database \<Rightarrow> store_env \<times> store_command \<Rightarrow> database" where
  "actor_step db i = snd (exec_command (fst i) (snd i) db)"

interpretation actor: invariant_machine actor_step db_inv
  by unfold_locales (simp add: actor_step_def exec_command_inv)

text \<open>The commands among which executions only advance: all but pruning, with \<open>finish\<close> used for
  terminal states, as every caller does.\<close>

fun advancing :: "store_command \<Rightarrow> bool" where
  "advancing (Prune days bytes) = False"
| "advancing (Finish xid state outcome) = is_terminal state"
| "advancing _ = True"

definition advancing_step :: "database \<Rightarrow> store_env \<times> store_command \<Rightarrow> database" where
  "advancing_step db i = (if advancing (snd i) then actor_step db i else db)"

lemma reconcile_advances: "db_inv db \<Longrightarrow> db_advances db (snd (reconcile_incomplete clock db))"
proof -
  assume "db_inv db"
  then have "db_advances db (snd (finish_all clock Interrupted
      (OutcomeInterrupted ''daemon restarted before the execution completed'')
      (ids_in_states [''queued'', ''running''] db) db))" by (rule finish_all_advances) simp
  then show ?thesis unfolding reconcile_incomplete_def by (simp add: split_beta split: sum.split)
qed

lemma exec_command_advances:
  "db_inv db \<Longrightarrow> advancing c \<Longrightarrow> db_advances db (snd (exec_command E c db))"
  by (cases c) (simp_all add: map_prod_def split_beta workspace_same_log session_same_log
      record_agent_event_same_log same_log_advances create_execution_advances mark_running_advances
      append_capture_batch_advances finish_advances delete_agent_session_advances reconcile_advances
      cancel_queued_def finish_all_advances)

interpretation actor_log: monotone_machine advancing_step db_inv db_advances
proof
  fix s t u :: database and i
  show "db_inv s \<Longrightarrow> db_inv (advancing_step s i)"
    by (simp add: advancing_step_def actor.step_inv)
  show "db_advances s s" by simp
  show "db_advances s t \<Longrightarrow> db_advances t u \<Longrightarrow> db_advances s u" by (rule db_advances_trans)
  show "db_inv s \<Longrightarrow> db_advances s (advancing_step s i)"
    by (simp add: advancing_step_def actor_step_def exec_command_advances)
qed

lemma run_advancing:
  "\<forall>i \<in> set cs. advancing (snd i) \<Longrightarrow> run_steps actor_step db cs = run_steps advancing_step db cs"
  by (induction cs arbitrary: db) (simp_all add: advancing_step_def)

text \<open>The run of the actor is the run of the machine up to the first shutdown.\<close>

lemma run_store_actor_steps:
  "snd (run_store_actor cs db) = run_steps actor_step db (takeWhile (\<lambda>i. snd i \<noteq> Shutdown) cs)"
proof (induction cs arbitrary: db)
  case (Cons i cs)
  obtain E c where i: "i = (E, c)" by force
  show ?case
  proof (cases "c = Shutdown")
    case True
    then show ?thesis by (simp add: i)
  next
    case False
    then show ?thesis using Cons.IH [of "snd (exec_command E c db)"]
      by (simp add: i split_beta actor_step_def)
  qed
qed simp

lemma run_store_actor_inv: "db_inv db \<Longrightarrow> db_inv (snd (run_store_actor cs db))"
  by (simp add: run_store_actor_steps actor.run_inv)

end
