(* ===== verification/StoreReconcile.thy ===== *)
theory StoreReconcile
  imports StoreLifecycle
begin

text \<open>
  The branches of \<open>mark_running\<close> and \<open>finish\<close>, and the two operations that finish every execution of
  a kind: \<open>reconcile_incomplete\<close> after a restart and \<open>cancel_queued\<close> when the daemon drains.
\<close>

section \<open>The branches of the writers\<close>

lemma mark_running_refused:
  "find_execution xid db = None \<Longrightarrow> mark_running now xid pid pgid db = (Inl (ExecutionNotFound xid), db)"
  "find_execution xid db = Some x \<Longrightarrow> xr_state x \<noteq> ''queued'' \<Longrightarrow>
     mark_running now xid pid pgid db = (Inl (AlreadyTerminal xid), db)"
  by (simp_all add: mark_running_def transaction_def)

lemma mark_running_queued:
  assumes inv: "db_inv db" and x: "find_execution xid db = Some x" "xr_state x = ''queued''"
  shows "\<exists>db'. mark_running now xid pid pgid db =
           (Inr (event_of xid (xr_last_seq x + 1) now (EvStarted pid pgid)), db') \<and>
         (\<forall>yid. find_execution yid db' =
            (if yid = xid then Some (set_running now pid pgid (xr_last_seq x + 1) x) else find_execution yid db))"
proof -
  obtain db' where r: "append_event xid (started_row xid now pid pgid) (set_running now pid pgid) db =
      Inr (xr_last_seq x + 1, db')"
    using append_event_Some [OF inv x(1), of "started_row xid now pid pgid"] by (simp add: started_row_def)
  have "find_execution yid db' =
      (if yid = xid then Some (set_running now pid pgid (xr_last_seq x + 1) x) else find_execution yid db)" for yid
    using append_event_effect [OF inv legal_started r] x(1) by (metis option.sel)
  then show ?thesis using x r by (simp add: mark_running_def transaction_def)
qed

lemma finish_refused:
  "find_execution xid db = None \<Longrightarrow> finish now xid st out db = (Inl (ExecutionNotFound xid), db)"
  "find_execution xid db = Some x \<Longrightarrow> terminal_str (xr_state x) \<Longrightarrow>
     finish now xid st out db = (Inl (AlreadyTerminal xid), db)"
  by (simp_all add: finish_def transaction_def)

lemma finish_live:
  assumes inv: "db_inv db" and x: "find_execution xid db = Some x" "\<not> terminal_str (xr_state x)"
  shows "\<exists>db'. finish now xid st out db =
           (Inr (event_of xid (xr_last_seq x + 1) now (EvFinished out)), db') \<and>
         (\<forall>yid. find_execution yid db' =
            (if yid = xid then Some (set_finished now st out (xr_last_seq x + 1) x)
             else find_execution yid db)) \<and>
         map xr_id (db_executions db') = map xr_id (db_executions db)"
proof -
  have "append_event xid (finished_row xid now out) (set_finished now st out) db =
      Inr (xr_last_seq x + 1, update_execution xid (set_finished now st out (xr_last_seq x + 1))
        (db\<lparr>db_events := db_events db @ [finished_row xid now out (xr_last_seq x + 1)]\<rparr>))"
    by (rule append_event_Some [OF inv x(1)]) (simp_all add: finished_row_def)
  then obtain db' where r: "append_event xid (finished_row xid now out) (set_finished now st out) db =
      Inr (xr_last_seq x + 1, db')"
    and ids: "map xr_id (db_executions db') = map xr_id (db_executions db)"
    by (simp add: update_execution_ids set_finished_def)
  have "find_execution yid db' = (if yid = xid then Some (set_finished now st out (xr_last_seq x + 1) x)
      else find_execution yid db)" for yid
    using append_event_effect [OF inv legal_finished r] x(1) by (metis option.sel)
  then show ?thesis using x r ids by (simp add: finish_def transaction_def)
qed

section \<open>Finishing many\<close>

definition all_finished ::
  "string list \<Rightarrow> execution_state \<Rightarrow> execution_outcome \<Rightarrow> database \<Rightarrow> execution_event list \<Rightarrow> database \<Rightarrow> bool" where
  "all_finished ids st out db evs db' \<longleftrightarrow>
     map ev_execution_id evs = ids \<and> (\<forall>e \<in> set evs. ev_payload e = EvFinished out) \<and>
     map xr_id (db_executions db') = map xr_id (db_executions db) \<and>
     (\<forall>xid. if xid \<in> set ids
            then \<exists>y. find_execution xid db' = Some y \<and> xr_state y = state_str st \<and> xr_outcome y = Some out
            else find_execution xid db' = find_execution xid db)"

lemma all_finishedD:
  "all_finished ids st out db evs db' \<Longrightarrow> xid \<in> set ids \<Longrightarrow>
     \<exists>y. find_execution xid db' = Some y \<and> xr_state y = state_str st \<and> xr_outcome y = Some out"
  "all_finished ids st out db evs db' \<Longrightarrow> xid \<notin> set ids \<Longrightarrow> find_execution xid db' = find_execution xid db"
  unfolding all_finished_def by presburger+

lemma finish_all_effect:
  assumes "db_inv db" and "distinct ids"
    and "\<forall>xid \<in> set ids. \<exists>x. find_execution xid db = Some x \<and> \<not> terminal_str (xr_state x)"
  shows "\<exists>evs db'. finish_all clock st out ids db = (Inr evs, db') \<and> all_finished ids st out db evs db'"
  using assms
proof (induction ids arbitrary: clock db)
  case Nil
  then show ?case by (simp add: all_finished_def)
next
  case (Cons xid ids)
  obtain x where x: "find_execution xid db = Some x" "\<not> terminal_str (xr_state x)"
    using Cons.prems(3) by auto
  obtain db1 where f: "finish (clock 0) xid st out db =
        (Inr (event_of xid (xr_last_seq x + 1) (clock 0) (EvFinished out)), db1)"
    and fe: "\<forall>yid. find_execution yid db1 =
        (if yid = xid then Some (set_finished (clock 0) st out (xr_last_seq x + 1) x) else find_execution yid db)"
    and ids1: "map xr_id (db_executions db1) = map xr_id (db_executions db)"
    using finish_live [OF Cons.prems(1) x] by blast
  have inv1: "db_inv db1" using finish_inv [OF Cons.prems(1), of "clock 0" xid st out] f by simp
  have live1: "\<forall>yid \<in> set ids. \<exists>y. find_execution yid db1 = Some y \<and> \<not> terminal_str (xr_state y)"
    using Cons.prems(2,3) fe by auto
  have "distinct ids" using Cons.prems(2) by simp
  from Cons.IH [OF inv1 this live1] obtain evs db' where
    r: "finish_all (\<lambda>i. clock (Suc i)) st out ids db1 = (Inr evs, db')" "all_finished ids st out db1 evs db'"
    by blast
  have "finish_all clock st out (xid # ids) db =
      (Inr (event_of xid (xr_last_seq x + 1) (clock 0) (EvFinished out) # evs), db')"
    using f r(1) by simp
  moreover have "all_finished (xid # ids) st out db
      (event_of xid (xr_last_seq x + 1) (clock 0) (EvFinished out) # evs) db'"
    using r(2) fe ids1 Cons.prems(2) by (auto simp: all_finished_def event_of_def set_finished_def)
  ultimately show ?case by blast
qed

lemma ids_in_states_live:
  assumes "db_inv db" and "\<forall>s \<in> set states. \<not> terminal_str s"
  shows "distinct (ids_in_states states db)"
    and "\<forall>xid \<in> set (ids_in_states states db). \<exists>x. find_execution xid db = Some x \<and> \<not> terminal_str (xr_state x)"
  using assms execution_key [OF assms(1)]
  by (auto simp: ids_in_states_def distinct_map_filter find_execution_iff)

lemma live_states: "xr_state x \<in> range state_str \<Longrightarrow>
    \<not> terminal_str (xr_state x) \<longleftrightarrow> xr_state x \<in> set [''queued'', ''running'']"
proof -
  assume "xr_state x \<in> range state_str"
  then obtain s where "xr_state x = state_str s" by auto
  then show ?thesis by (cases s) (simp_all add: terminal_str_def)
qed

lemma execution_state_valid:
  "db_inv db \<Longrightarrow> find_execution xid db = Some x \<Longrightarrow> xr_state x \<in> range state_str"
  using find_execution_Some by (auto simp: db_inv_def state_inv_def execution_row_ok_def)

lemma ids_in_states_mem:
  "db_inv db \<Longrightarrow> find_execution xid db = Some x \<Longrightarrow>
     xid \<in> set (ids_in_states states db) \<longleftrightarrow> xr_state x \<in> set states"
  using key_unique [OF execution_key] by (auto simp: ids_in_states_def find_execution_iff)

lemma reconcile_effect:
  assumes inv: "db_inv db"
  shows "\<exists>db'. reconcile_incomplete clock db =
           (Inr (length (filter (\<lambda>x. \<not> terminal_str (xr_state x)) (db_executions db))), db') \<and>
         map xr_id (db_executions db') = map xr_id (db_executions db) \<and>
         (\<forall>xid x. find_execution xid db = Some x \<longrightarrow>
            (if terminal_str (xr_state x) then find_execution xid db' = Some x
             else \<exists>y. find_execution xid db' = Some y \<and> xr_state y = ''interrupted''))"
proof -
  let ?ids = "ids_in_states [''queued'', ''running''] db"
  let ?out = "OutcomeInterrupted ''daemon restarted before the execution completed''"
  have live: "\<forall>s \<in> set [''queued'', ''running'']. \<not> terminal_str s" by (simp add: terminal_str_def)
  obtain evs db' where r: "finish_all clock Interrupted ?out ?ids db = (Inr evs, db')"
      "all_finished ?ids Interrupted ?out db evs db'"
    using finish_all_effect [OF inv ids_in_states_live [OF inv live]] by blast
  have "xr_state x \<in> range state_str" if "x \<in> set (db_executions db)" for x
    using that inv by (simp add: db_inv_def state_inv_def execution_row_ok_def)
  then have live_filter: "filter (\<lambda>x. \<not> terminal_str (xr_state x)) (db_executions db) =
      filter (\<lambda>x. xr_state x \<in> set [''queued'', ''running'']) (db_executions db)"
    using live_states by (intro filter_cong) auto
  have evs: "map ev_execution_id evs = ?ids" using r(2) by (simp add: all_finished_def)
  have "length evs = length ?ids" unfolding evs [symmetric] by simp
  then have "length evs = length (filter (\<lambda>x. \<not> terminal_str (xr_state x)) (db_executions db))"
    unfolding ids_in_states_def length_map live_filter .
  then have "reconcile_incomplete clock db =
      (Inr (length (filter (\<lambda>x. \<not> terminal_str (xr_state x)) (db_executions db))), db')"
    using r(1) by (simp add: reconcile_incomplete_def)
  moreover have "if terminal_str (xr_state x) then find_execution xid db' = Some x
      else \<exists>y. find_execution xid db' = Some y \<and> xr_state y = ''interrupted''"
    if x: "find_execution xid db = Some x" for xid x
  proof -
    have mem: "xid \<in> set ?ids \<longleftrightarrow> \<not> terminal_str (xr_state x)"
      unfolding ids_in_states_mem [OF inv x] live_states [OF execution_state_valid [OF inv x]] ..
    show ?thesis
    proof (cases "terminal_str (xr_state x)")
      case True
      then show ?thesis using all_finishedD(2) [OF r(2)] mem x by simp
    next
      case False
      then have "\<exists>y. find_execution xid db' = Some y \<and> xr_state y = state_str Interrupted \<and> xr_outcome y = Some ?out"
        using mem by (intro all_finishedD(1) [OF r(2)]) simp
      then show ?thesis using False by auto
    qed
  qed
  moreover have "map xr_id (db_executions db') = map xr_id (db_executions db)"
    using r(2) by (simp add: all_finished_def)
  ultimately show ?thesis by blast
qed

text \<open>Cancelling the queued executions leaves the running ones alone.\<close>

lemma cancel_queued_effect:
  assumes inv: "db_inv db"
  shows "\<exists>evs db'. cancel_queued clock db = (Inr evs, db') \<and>
         map ev_execution_id evs = ids_in_states [''queued''] db \<and>
         (\<forall>xid x. find_execution xid db = Some x \<longrightarrow>
            (if xr_state x = ''queued''
             then \<exists>y. find_execution xid db' = Some y \<and> xr_state y = ''cancelled''
             else find_execution xid db' = Some x))"
proof -
  let ?ids = "ids_in_states [''queued''] db"
  have live: "\<forall>s \<in> set [''queued'']. \<not> terminal_str s" by (simp add: terminal_str_def)
  obtain evs db' where r: "finish_all clock Cancelled (OutcomeCancelled None) ?ids db = (Inr evs, db')"
      "all_finished ?ids Cancelled (OutcomeCancelled None) db evs db'"
    using finish_all_effect [OF inv ids_in_states_live [OF inv live]] by blast
  have "if xr_state x = ''queued'' then \<exists>y. find_execution xid db' = Some y \<and> xr_state y = ''cancelled''
      else find_execution xid db' = Some x"
    if x: "find_execution xid db = Some x" for xid x
    using all_finishedD [OF r(2), of xid] ids_in_states_mem [OF inv x, of "[''queued'']"] x by fastforce
  moreover have "map ev_execution_id evs = ?ids" using r(2) by (simp add: all_finished_def)
  moreover have "cancel_queued clock db = (Inr evs, db')" using r(1) by (simp add: cancel_queued_def)
  ultimately show ?thesis by blast
qed

end
