(* ===== verification/StoreSchema.thy ===== *)
theory StoreSchema
  imports StoreState
begin

text \<open>
  The schema of the database and its migrations (\<open>Database::initialize\<close> in \<open>src/store.rs\<close>). A catalog
  is the schema version with the tables and indexes it declares, a column or table constraint kept as
  its declaration; the statements are the ones of the source. A batch between \<open>BEGIN\<close> and \<open>COMMIT\<close>
  that fails leaves the catalog as it was.
\<close>

section \<open>Catalogs and statements\<close>

datatype sql =
    CreateTable string "string list"
  | CreateIndex string string
  | AddColumn string string
  | SetVersion int

record catalog =
  ct_version :: int
  ct_tables :: "(string \<times> string list) list"
  ct_indexes :: "(string \<times> string) list"

definition SCHEMA_VERSION :: int where
  "SCHEMA_VERSION = 4"

definition sql_error :: "string \<Rightarrow> error" where
  "sql_error m = Database (ConstraintViolation m)"

definition add_column :: "string \<Rightarrow> string \<Rightarrow> (string \<times> string list) list \<Rightarrow> (string \<times> string list) list" where
  "add_column name col tables = map (\<lambda>(t, cols). (t, if t = name then cols @ [col] else cols)) tables"

lemma add_column_simps [simp]:
  "add_column name col [] = []"
  "add_column name col ((t, cols) # ts) = (t, if t = name then cols @ [col] else cols) # add_column name col ts"
  "add_column name col (ts @ us) = add_column name col ts @ add_column name col us"
  by (simp_all add: add_column_def)

lemma map_of_add_column [simp]:
  "map_of (add_column name col ts) t = map_option (\<lambda>cols. if t = name then cols @ [col] else cols) (map_of ts t)"
  by (induction ts) (auto simp: add_column_def)

lemma add_column_absent [simp]: "map_of ts name = None \<Longrightarrow> add_column name col ts = ts"
  by (induction ts) (auto simp: add_column_def split: if_split_asm)

fun run_sql :: "sql \<Rightarrow> catalog \<Rightarrow> catalog result" where
  "run_sql (CreateTable name cols) c =
     (if map_of (ct_tables c) name \<noteq> None then Inl (sql_error (''table already exists: '' @ name))
      else Inr (c\<lparr>ct_tables := ct_tables c @ [(name, cols)]\<rparr>))"
| "run_sql (CreateIndex name decl) c =
     (if map_of (ct_indexes c) name \<noteq> None then Inl (sql_error (''index already exists: '' @ name))
      else Inr (c\<lparr>ct_indexes := ct_indexes c @ [(name, decl)]\<rparr>))"
| "run_sql (AddColumn name col) c =
     (if map_of (ct_tables c) name = None then Inl (sql_error (''no such table: '' @ name))
      else Inr (c\<lparr>ct_tables := add_column name col (ct_tables c)\<rparr>))"
| "run_sql (SetVersion v) c = Inr (c\<lparr>ct_version := v\<rparr>)"

fun run_batch :: "sql list \<Rightarrow> catalog \<Rightarrow> catalog result" where
  "run_batch [] c = Inr c"
| "run_batch (s # ss) c = bind_res (run_sql s c) (run_batch ss)"

section \<open>The batches\<close>

definition create_v4 :: "sql list" where
  "create_v4 =
     [CreateTable ''workspaces''
        [''id TEXT PRIMARY KEY'',
         ''name TEXT NOT NULL UNIQUE'',
         ''root TEXT NOT NULL UNIQUE'',
         ''created_at_ms INTEGER NOT NULL'',
         ''active INTEGER NOT NULL DEFAULT 1''],
      CreateTable ''agent_sessions''
        [''id TEXT PRIMARY KEY'',
         ''workspace_id TEXT NOT NULL REFERENCES workspaces(id)'',
         ''state TEXT NOT NULL'',
         ''agent_kind TEXT NOT NULL'',
         ''name TEXT'',
         ''command_json TEXT NOT NULL'',
         ''cwd TEXT NOT NULL'',
         ''created_at_ms INTEGER NOT NULL'',
         ''ended_at_ms INTEGER'',
         ''recorder_pid INTEGER NOT NULL'',
         ''outcome_json TEXT'',
         ''captured_bytes INTEGER NOT NULL DEFAULT 0'',
         ''output_truncated INTEGER NOT NULL DEFAULT 0'',
         ''initial_cols INTEGER NOT NULL'',
         ''initial_rows INTEGER NOT NULL'',
         ''cast_path TEXT NOT NULL'',
         ''html_path TEXT NOT NULL''],
      CreateIndex ''agent_sessions_workspace_created''
        ''ON agent_sessions(workspace_id, created_at_ms DESC)'',
      CreateIndex ''agent_sessions_state_created''
        ''ON agent_sessions(state, created_at_ms)'',
      CreateTable ''executions''
        [''id TEXT PRIMARY KEY'',
         ''workspace_id TEXT NOT NULL REFERENCES workspaces(id)'',
         ''state TEXT NOT NULL'',
         ''command_json TEXT NOT NULL'',
         ''cwd TEXT NOT NULL'',
         ''env_keys_json TEXT NOT NULL'',
         ''initiator_json TEXT NOT NULL'',
         ''created_at_ms INTEGER NOT NULL'',
         ''started_at_ms INTEGER'',
         ''ended_at_ms INTEGER'',
         ''pid INTEGER'',
         ''pgid INTEGER'',
         ''outcome_json TEXT'',
         ''captured_bytes INTEGER NOT NULL DEFAULT 0'',
         ''output_truncated INTEGER NOT NULL DEFAULT 0'',
         ''last_seq INTEGER NOT NULL DEFAULT 0'',
         ''session_id TEXT REFERENCES agent_sessions(id) ON DELETE SET NULL''],
      CreateIndex ''executions_session_created''
        ''ON executions(session_id, created_at_ms)'',
      CreateIndex ''executions_workspace_created''
        ''ON executions(workspace_id, created_at_ms DESC)'',
      CreateIndex ''executions_state_created''
        ''ON executions(state, created_at_ms)'',
      CreateTable ''events''
        [''execution_id TEXT NOT NULL REFERENCES executions(id) ON DELETE CASCADE'',
         ''seq INTEGER NOT NULL'',
         ''timestamp_ms INTEGER NOT NULL'',
         ''kind TEXT NOT NULL'',
         ''stream TEXT'',
         ''data BLOB'',
         ''payload_json TEXT'',
         ''PRIMARY KEY(execution_id, seq)''],
      CreateTable ''agent_turns''
        [''id TEXT PRIMARY KEY'',
         ''session_id TEXT NOT NULL REFERENCES agent_sessions(id) ON DELETE CASCADE'',
         ''provider TEXT NOT NULL'',
         ''provider_session_id TEXT NOT NULL'',
         ''provider_turn_id TEXT'',
         ''state TEXT NOT NULL'',
         ''prompt TEXT NOT NULL'',
         ''created_at_ms INTEGER NOT NULL'',
         ''ended_at_ms INTEGER'',
         ''last_assistant_message TEXT''],
      CreateIndex ''agent_turns_provider_turn''
        ''UNIQUE ON agent_turns(session_id, provider, provider_session_id, provider_turn_id) WHERE provider_turn_id IS NOT NULL'',
      CreateIndex ''agent_turns_session_created''
        ''ON agent_turns(session_id, created_at_ms)'',
      CreateTable ''agent_actions''
        [''id TEXT PRIMARY KEY'',
         ''turn_id TEXT NOT NULL REFERENCES agent_turns(id) ON DELETE CASCADE'',
         ''provider_action_id TEXT NOT NULL'',
         ''tool_name TEXT NOT NULL'',
         ''state TEXT NOT NULL'',
         ''execution_id TEXT REFERENCES executions(id) ON DELETE SET NULL'',
         ''created_at_ms INTEGER NOT NULL'',
         ''ended_at_ms INTEGER'',
         ''UNIQUE(turn_id, provider_action_id)''],
      CreateIndex ''agent_actions_turn_created''
        ''ON agent_actions(turn_id, created_at_ms)'',
      SetVersion 4]"

definition migrate_1_2 :: "sql list" where
  "migrate_1_2 =
     [AddColumn ''workspaces''
        ''active INTEGER NOT NULL DEFAULT 1'',
      SetVersion 2]"

definition migrate_2_3 :: "sql list" where
  "migrate_2_3 =
     [CreateTable ''agent_sessions''
        [''id TEXT PRIMARY KEY'',
         ''workspace_id TEXT NOT NULL REFERENCES workspaces(id)'',
         ''state TEXT NOT NULL'',
         ''agent_kind TEXT NOT NULL'',
         ''name TEXT'',
         ''command_json TEXT NOT NULL'',
         ''cwd TEXT NOT NULL'',
         ''created_at_ms INTEGER NOT NULL'',
         ''ended_at_ms INTEGER'',
         ''recorder_pid INTEGER NOT NULL'',
         ''outcome_json TEXT'',
         ''captured_bytes INTEGER NOT NULL DEFAULT 0'',
         ''output_truncated INTEGER NOT NULL DEFAULT 0'',
         ''initial_cols INTEGER NOT NULL'',
         ''initial_rows INTEGER NOT NULL'',
         ''cast_path TEXT NOT NULL'',
         ''html_path TEXT NOT NULL''],
      CreateIndex ''agent_sessions_workspace_created''
        ''ON agent_sessions(workspace_id, created_at_ms DESC)'',
      CreateIndex ''agent_sessions_state_created''
        ''ON agent_sessions(state, created_at_ms)'',
      AddColumn ''executions''
        ''session_id TEXT REFERENCES agent_sessions(id) ON DELETE SET NULL'',
      CreateIndex ''executions_session_created''
        ''ON executions(session_id, created_at_ms)'',
      SetVersion 3]"

definition migrate_3_4 :: "sql list" where
  "migrate_3_4 =
     [CreateTable ''agent_turns''
        [''id TEXT PRIMARY KEY'',
         ''session_id TEXT NOT NULL REFERENCES agent_sessions(id) ON DELETE CASCADE'',
         ''provider TEXT NOT NULL'',
         ''provider_session_id TEXT NOT NULL'',
         ''provider_turn_id TEXT'',
         ''state TEXT NOT NULL'',
         ''prompt TEXT NOT NULL'',
         ''created_at_ms INTEGER NOT NULL'',
         ''ended_at_ms INTEGER'',
         ''last_assistant_message TEXT''],
      CreateIndex ''agent_turns_provider_turn''
        ''UNIQUE ON agent_turns(session_id, provider, provider_session_id, provider_turn_id) WHERE provider_turn_id IS NOT NULL'',
      CreateIndex ''agent_turns_session_created''
        ''ON agent_turns(session_id, created_at_ms)'',
      CreateTable ''agent_actions''
        [''id TEXT PRIMARY KEY'',
         ''turn_id TEXT NOT NULL REFERENCES agent_turns(id) ON DELETE CASCADE'',
         ''provider_action_id TEXT NOT NULL'',
         ''tool_name TEXT NOT NULL'',
         ''state TEXT NOT NULL'',
         ''execution_id TEXT REFERENCES executions(id) ON DELETE SET NULL'',
         ''created_at_ms INTEGER NOT NULL'',
         ''ended_at_ms INTEGER'',
         ''UNIQUE(turn_id, provider_action_id)''],
      CreateIndex ''agent_actions_turn_created''
        ''ON agent_actions(turn_id, created_at_ms)'',
      SetVersion 4]"

section \<open>Initializing\<close>

text \<open>\<open>version\<close> is read once; the three conditions that follow all test that reading.\<close>

definition when_version :: "bool \<Rightarrow> sql list \<Rightarrow> catalog \<Rightarrow> catalog result" where
  "when_version b batch c = (if b then run_batch batch c else Inr c)"

definition initialize :: "catalog \<Rightarrow> catalog result" where
  "initialize c =
     (let version = ct_version c in
      if version > SCHEMA_VERSION
      then Inl (Config (''database schema '' @ show_int version @ '' is newer than supported schema ''
                  @ show_int SCHEMA_VERSION))
      else bind_res (if version = 0 then run_batch create_v4 c
                     else when_version (version = 1) migrate_1_2 c) (\<lambda>c1.
           bind_res (when_version (version \<le> 2 \<and> version \<noteq> 0) migrate_2_3 c1) (\<lambda>c2.
           when_version (version \<le> 3 \<and> version \<noteq> 0) migrate_3_4 c2)))"

definition empty_catalog :: catalog where
  "empty_catalog = \<lparr>ct_version = 0, ct_tables = [], ct_indexes = []\<rparr>"

lemmas batch_defs = create_v4_def migrate_1_2_def migrate_2_3_def migrate_3_4_def

end
