(* ===== verification/StoreDemo.thy ===== *)
theory StoreDemo
  imports StoreActor StoreReconcile StoreSchema
begin

text \<open>
  A concrete state of the store for the examples: one workspace, two agent sessions (one finished, one
  recording with an active turn), and three executions (finished, running, queued) with their logs.
\<close>

definition demo_b64 :: base64 where
  "demo_b64 = \<lparr>b64_encode = (\<lambda>d. d), b64_decode = Inr\<rparr>"

definition demo_display :: display_env where
  "demo_display = \<lparr>show_db = (\<lambda>_. ''failed''), debug_path = (\<lambda>p. p)\<rparr>"

definition demo_env :: store_env where
  "demo_env = \<lparr>e_clock = (\<lambda>i. 90 + int i), e_new_id = (\<lambda>i. ''n'' @ show_nat i), e_canonicalize = Inr,
     e_is_dir = (\<lambda>_. True), e_base64 = demo_b64\<rparr>"

definition demo_request :: "string option \<Rightarrow> execution_request" where
  "demo_request sid = \<lparr>rq_workspace_id = ''w0'', rq_cwd = None, rq_command = Argv ''ls'' [''-l''], rq_env = [],
     rq_stdin_base64 = None, rq_initiator = \<lparr>in_kind = ''mcp'', in_name = None, in_session_id = sid\<rparr>,
     rq_capture_limit_bytes = None\<rparr>"

definition demo_session :: "string \<Rightarrow> string \<Rightarrow> session_row" where
  "demo_session sid state = \<lparr>sn_id = sid, sn_workspace_id = ''w0'', sn_state = state, sn_agent_kind = ''codex'',
     sn_name = None, sn_command = Argv ''codex'' [], sn_cwd = ''/w'', sn_created_at_ms = 5,
     sn_ended_at_ms = None, sn_recorder_pid = 7, sn_outcome = None, sn_captured_bytes = 0,
     sn_output_truncated = False, sn_initial_cols = 80, sn_initial_rows = 24,
     sn_cast_path = ''/s/'' @ sid @ ''/a.cast'', sn_html_path = ''/s/'' @ sid @ ''/a.html''\<rparr>"

definition demo_row :: "string \<Rightarrow> int \<Rightarrow> execution_row" where
  "demo_row xid now = new_execution_row xid now (demo_request None) ''/w''"

definition demo_a :: execution_row where
  "demo_a = (demo_row ''a'' 10)\<lparr>xr_state := ''finished'', xr_started_at_ms := Some 40, xr_ended_at_ms := Some 50,
     xr_outcome := Some (Exited 0), xr_captured_bytes := 5, xr_output_truncated := True, xr_last_seq := 4\<rparr>"

definition demo_b :: execution_row where
  "demo_b = (demo_row ''b'' 20)\<lparr>xr_state := ''running'', xr_started_at_ms := Some 41, xr_pid := Some 101,
     xr_pgid := Some 101, xr_captured_bytes := 4, xr_last_seq := 2\<rparr>"

definition demo_turn :: turn_row where
  "demo_turn = \<lparr>tr_id = ''t1'', tr_session_id = ''s2'', tr_provider = ''codex'', tr_provider_session_id = ''p'',
     tr_provider_turn_id = None, tr_state = ''active'', tr_prompt = ''fix'', tr_created_at_ms = 6,
     tr_ended_at_ms = None, tr_last_assistant_message = None\<rparr>"

definition demo_action :: action_row where
  "demo_action = \<lparr>cr_id = ''k1'', cr_turn_id = ''t1'', cr_provider_action_id = ''p1'', cr_tool_name = ''bash'',
     cr_state = ''completed'', cr_execution_id = Some ''a'', cr_created_at_ms = 7, cr_ended_at_ms = Some 8\<rparr>"

definition demo_db :: database where
  "demo_db = \<lparr>db_workspaces = [\<lparr>wk_workspace = \<lparr>ws_id = ''w0'', ws_name = ''work'', ws_root = ''/w'',
                  ws_created_at_ms = 1\<rparr>, wk_active = True\<rparr>],
     db_sessions = [demo_session ''s1'' ''finished'', demo_session ''s2'' ''recording''],
     db_executions = [demo_a, demo_b, demo_row ''c'' 30],
     db_events = [started_row ''a'' 40 100 100 1, started_row ''b'' 41 101 101 1,
                  output_row ''a'' 42 Stdout ''hello'' 2, output_row ''b'' 42 Stderr ''warn'' 2,
                  truncated_row ''a'' 43 5 3, finished_row ''a'' 50 (Exited 0) 4],
     db_turns = [demo_turn], db_actions = [demo_action]\<rparr>"

lemmas demo_defs = demo_db_def demo_a_def demo_b_def demo_row_def demo_turn_def demo_action_def
  demo_session_def demo_request_def new_execution_row_def demo_b64_def

lemma execution_state_names [simp]:
  "''queued'' \<in> range state_str" "''running'' \<in> range state_str" "''finished'' \<in> range state_str"
  by (metis rangeI state_str.simps)+

lemma demo_ids:
  "workspace_ids demo_db = {''w0''}" "session_ids demo_db = {''s1'', ''s2''}"
  "execution_ids demo_db = {''a'', ''b'', ''c''}" "turn_ids demo_db = {''t1''}"
  by (auto simp: workspace_ids_def session_ids_def execution_ids_def turn_ids_def demo_defs)

lemma demo_events:
  "events_of demo_db ''a'' = [started_row ''a'' 40 100 100 1, output_row ''a'' 42 Stdout ''hello'' 2,
     truncated_row ''a'' 43 5 3, finished_row ''a'' 50 (Exited 0) 4]"
  "events_of demo_db ''b'' = [started_row ''b'' 41 101 101 1, output_row ''b'' 42 Stderr ''warn'' 2]"
  "events_of demo_db ''c'' = []"
  by (simp_all add: events_of_def demo_db_def started_row_def output_row_def truncated_row_def finished_row_def)

lemma demo_inv: "db_inv demo_db"
proof (rule db_invI)
  show "key_inv demo_db"
    by (simp add: key_inv_def demo_defs turn_index_def has_turn_id_def)
  show "ref_inv demo_db"
    unfolding ref_inv_def demo_ids
    by (simp add: demo_defs started_row_def output_row_def truncated_row_def finished_row_def)
  show "state_inv demo_db"
    by (simp add: state_inv_def execution_row_ok_def demo_defs)
  have rows: "event_row_ok (started_row x n p g s)" "event_row_ok (output_row x n Stdout d s)"
    "event_row_ok (output_row x n Stderr d s)" "event_row_ok (truncated_row x n l s)"
    "event_row_ok (finished_row x n out s)" for x n p g s d l out
    by (simp_all add: event_row_ok_def started_row_def output_row_def truncated_row_def finished_row_def)
  have upt: "[1..<Suc 4] = [1, 2, 3, 4]" "[1..<Suc 2] = [1, 2]" by (simp_all add: upt_rec)
  have "log_ok (events_of demo_db ''a'') demo_a"
    unfolding demo_events log_ok_def demo_a_def
    by (simp add: rows upt demo_defs event_bytes_def) (simp add: started_row_def output_row_def truncated_row_def finished_row_def upt_rec)
  moreover have "log_ok (events_of demo_db ''b'') demo_b"
    unfolding demo_events log_ok_def demo_b_def
    by (simp add: rows demo_defs event_bytes_def) (simp add: started_row_def output_row_def upt_rec)
  moreover have "log_ok (events_of demo_db ''c'') (demo_row ''c'' 30)"
    unfolding demo_events log_ok_def by (simp add: demo_defs)
  moreover have "xr_id demo_a = ''a''" "xr_id demo_b = ''b''" "xr_id (demo_row ''c'' 30) = ''c''"
    "db_executions demo_db = [demo_a, demo_b, demo_row ''c'' 30]"
    by (simp_all add: demo_defs)
  ultimately show "log_inv demo_db" by (simp add: log_inv_def)
qed

lemma demo_lookups:
  "find_execution ''a'' demo_db = Some demo_a" "find_execution ''b'' demo_db = Some demo_b"
  "find_execution ''c'' demo_db = Some (demo_row ''c'' 30)" "find_execution ''d'' demo_db = None"
  by (simp_all add: find_execution_def demo_defs)

lemma demo_rows:
  "xr_state demo_a = ''finished''" "xr_last_seq demo_a = 4" "xr_state demo_b = ''running''" "xr_last_seq demo_b = 2"
  "xr_state (demo_row xid now) = ''queued''" "xr_last_seq (demo_row xid now) = 0"
  by (simp_all add: demo_defs)

end
