(* ===== verification/ModelProperties.thy ===== *)
theory ModelProperties
  imports StoreSchema
begin

text \<open>
  The display of a command (\<open>CommandSpec::display\<close> in \<open>src/model.rs\<close>) against a reading of it by a
  POSIX shell: \<open>shell_split\<close> splits a line into words at spaces, with single quotes and backslash
  escapes. Words without an empty one are read back exactly.
\<close>

fun split_go :: "string \<Rightarrow> string option \<Rightarrow> bool \<Rightarrow> string list" where
  "split_go [] cur quoted = (case cur of None \<Rightarrow> [] | Some w \<Rightarrow> [w])"
| "split_go (c # cs) cur True =
     (if c = squote then split_go cs cur False
      else split_go cs (Some ((case cur of None \<Rightarrow> [] | Some w \<Rightarrow> w) @ [c])) True)"
| "split_go (c # cs) cur False =
     (let w = (case cur of None \<Rightarrow> [] | Some w \<Rightarrow> w) in
      if c = CHR '' '' then (case cur of None \<Rightarrow> split_go cs None False | Some w \<Rightarrow> w # split_go cs None False)
      else if c = squote then split_go cs (Some w) True
      else if c = backslash then
        (case cs of [] \<Rightarrow> [w @ [backslash]] | d # ds \<Rightarrow> split_go ds (Some (w @ [d])) False)
      else split_go cs (Some (w @ [c])) False)"

definition shell_split :: "string \<Rightarrow> string list" where
  "shell_split line = split_go line None False"

declare split_go.simps [simp del]

lemma safe_plain: "display_safe c \<Longrightarrow> c \<noteq> CHR '' '' \<and> c \<noteq> squote \<and> c \<noteq> backslash"
  by (auto simp: display_safe_def is_ascii_alphanumeric_def squote_def backslash_def)

lemma split_safe:
  "list_all display_safe s \<Longrightarrow> split_go (s @ rest) (Some w) False = split_go rest (Some (w @ s)) False"
  by (induction s arbitrary: w) (auto simp: split_go.simps dest: safe_plain)

lemma escape_simps [simp]:
  "escape_squotes [] = []"
  "escape_squotes (c # s) = (if c = squote then [squote, backslash, squote, squote] else [c]) @ escape_squotes s"
  by (simp_all add: escape_squotes_def)

lemma split_quoted:
  "split_go (escape_squotes s @ squote # rest) (Some w) True = split_go rest (Some (w @ s)) False"
proof (induction s arbitrary: w)
  case Nil
  then show ?case by (simp add: split_go.simps)
next
  case (Cons c s)
  have neq: "squote \<noteq> CHR '' ''" "backslash \<noteq> CHR '' ''" "squote \<noteq> backslash"
    by (simp_all add: squote_def backslash_def)
  show ?case
  proof (cases "c = squote")
    case True
    have "split_go ([squote, backslash, squote, squote] @ escape_squotes s @ squote # rest) (Some w) True =
        split_go (escape_squotes s @ squote # rest) (Some (w @ [squote])) True"
      using neq by (simp add: split_go.simps(2,3) Let_def)
    then show ?thesis using True Cons.IH [of "w @ [squote]"] by simp
  next
    case False
    then show ?thesis using Cons.IH [of "w @ [c]"] by (simp add: split_go.simps)
  qed
qed

lemma split_word:
  assumes "s \<noteq> []"
  shows "split_go (shell_escape_for_display s @ rest) None False = split_go rest (Some s) False"
proof (cases "list_all display_safe s")
  case True
  then obtain c t where s: "s = c # t" using assms by (cases s) auto
  then have "split_go (s @ rest) None False = split_go (t @ rest) (Some [c]) False"
    using True safe_plain [of c] by (simp add: split_go.simps)
  then show ?thesis using True s split_safe [of t rest "[c]"] by (simp add: shell_escape_for_display_def)
next
  case False
  have "squote \<noteq> CHR '' ''" by (simp add: squote_def)
  then have "split_go (squote # escape_squotes s @ squote # rest) None False =
      split_go (escape_squotes s @ squote # rest) (Some []) True"
    by (simp add: split_go.simps(3))
  then show ?thesis using False split_quoted [of s rest "[]"] by (simp add: shell_escape_for_display_def)
qed

lemma split_words:
  "ws \<noteq> [] \<Longrightarrow> [] \<notin> set ws \<Longrightarrow> shell_split (join_with '' '' (map shell_escape_for_display ws)) = ws"
proof (induction ws)
  case (Cons w ws)
  show ?case
  proof (cases ws)
    case Nil
    then show ?thesis using Cons.prems split_word [of w "[]"]
      by (simp add: shell_split_def) (simp add: split_go.simps)
  next
    case (Cons v vs)
    let ?rest = "join_with '' '' (map shell_escape_for_display ws)"
    have "shell_split (shell_escape_for_display w @ CHR '' '' # ?rest) = w # shell_split ?rest"
    proof -
      have "w \<noteq> []" using Cons.prems by auto
      from split_word [OF this, of "CHR '' '' # ?rest"] show ?thesis
        by (simp add: shell_split_def split_go.simps)
    qed
    then show ?thesis using Cons.IH Cons.prems Cons by simp
  qed
qed simp


text \<open>The properties of the data model, of errors on the wire and of the schema migrations.\<close>

text \<open>The display of an argument vector is a faithful shell line: when no word is empty, a POSIX shell
  splits it back into exactly the program and its arguments, whatever characters they hold.\<close>

theorem command_display_roundtrip:
  assumes "program \<noteq> []" and "[] \<notin> set args"
  shows "shell_split (command_display (Argv program args)) = program # args"
  using split_words [of "program # args"] assms by simp

theorem command_display_roundtrip_witness:
  "shell_split (command_display (Argv ''sh'' [''-c'', ''a b'', squote # ''$x''])) = [''sh'', ''-c'', ''a b'', squote # ''$x'']"
  by (rule command_display_roundtrip) simp_all

text \<open>The display drops an empty argument: a shell reads the displayed line as the command without it.\<close>

theorem command_display_drops_empty:
  "shell_split (command_display (Argv ''touch'' [''a'', '''', ''b''])) = [''touch'', ''a'', ''b'']"
  by code_simp

text \<open>Two errors that reach a client as the same error have the same code and the same message: the
  client's error keeps both apart although it joins them with a colon.\<close>

theorem wire_error_faithful:
  "into_error (protocol_error_from d e) = into_error (protocol_error_from d f) \<longleftrightarrow>
     error_code e = error_code f \<and> error_display d e = error_display d f"
  using into_error_code_inj by (auto simp: into_error_def protocol_error_from_def)

section \<open>Migrations\<close>

text \<open>The tables of a version 1 database (as the migration test creates them) among any other objects.\<close>

definition legacy_v1 :: "(string \<times> string list) list \<Rightarrow> (string \<times> string) list \<Rightarrow> catalog" where
  "legacy_v1 tables indexes = \<lparr>ct_version = 1,
     ct_tables =
       (''workspaces'',
        [''id TEXT PRIMARY KEY'', ''name TEXT NOT NULL UNIQUE'', ''root TEXT NOT NULL UNIQUE'',
         ''created_at_ms INTEGER NOT NULL'']) #
       (''executions'',
        [''id TEXT PRIMARY KEY'', ''workspace_id TEXT NOT NULL REFERENCES workspaces(id)'', ''state TEXT NOT NULL'',
         ''command_json TEXT NOT NULL'', ''cwd TEXT NOT NULL'', ''env_keys_json TEXT NOT NULL'',
         ''initiator_json TEXT NOT NULL'', ''created_at_ms INTEGER NOT NULL'', ''started_at_ms INTEGER'',
         ''ended_at_ms INTEGER'', ''pid INTEGER'', ''pgid INTEGER'', ''outcome_json TEXT'',
         ''captured_bytes INTEGER NOT NULL DEFAULT 0'', ''output_truncated INTEGER NOT NULL DEFAULT 0'',
         ''last_seq INTEGER NOT NULL DEFAULT 0'']) # tables,
     ct_indexes = indexes\<rparr>"

definition new_tables :: "string set" where
  "new_tables = {''workspaces'', ''executions'', ''agent_sessions'', ''agent_turns'', ''agent_actions''}"

definition new_indexes :: "string set" where
  "new_indexes = {''agent_sessions_workspace_created'', ''agent_sessions_state_created'', ''executions_session_created'',
     ''agent_turns_provider_turn'', ''agent_turns_session_created'', ''agent_actions_turn_created''}"

definition catalog_of :: "catalog result \<Rightarrow> catalog" where
  "catalog_of r = (case r of Inr c \<Rightarrow> c | Inl e \<Rightarrow> empty_catalog)"

lemma fresh_catalog: "initialize empty_catalog = Inr (catalog_of (initialize empty_catalog))"
  by (simp add: initialize_def empty_catalog_def SCHEMA_VERSION_def create_v4_def when_version_def catalog_of_def)

lemma fresh_lookups:
  "ct_tables (catalog_of (initialize empty_catalog)) = concat (map (\<lambda>s. case s of CreateTable n cs \<Rightarrow> [(n, cs)] | _ \<Rightarrow> []) create_v4)"
  "ct_indexes (catalog_of (initialize empty_catalog)) = concat (map (\<lambda>s. case s of CreateIndex n d \<Rightarrow> [(n, d)] | _ \<Rightarrow> []) create_v4)"
  by (simp_all add: initialize_def empty_catalog_def SCHEMA_VERSION_def create_v4_def when_version_def catalog_of_def)

lemma fresh_tables:
  "map_of (ct_tables (catalog_of (initialize empty_catalog))) ''workspaces'' \<noteq> None"
  "map_of (ct_tables (catalog_of (initialize empty_catalog))) ''executions'' \<noteq> None"
  "map_of (ct_tables (catalog_of (initialize empty_catalog))) ''agent_sessions'' \<noteq> None"
  "map_of (ct_tables (catalog_of (initialize empty_catalog))) ''agent_turns'' \<noteq> None"
  "map_of (ct_tables (catalog_of (initialize empty_catalog))) ''agent_actions'' \<noteq> None"
  unfolding fresh_lookups by (simp_all add: create_v4_def)

lemma fresh_indexes:
  "map_of (ct_indexes (catalog_of (initialize empty_catalog))) ''agent_sessions_workspace_created'' \<noteq> None"
  "map_of (ct_indexes (catalog_of (initialize empty_catalog))) ''agent_sessions_state_created'' \<noteq> None"
  "map_of (ct_indexes (catalog_of (initialize empty_catalog))) ''executions_session_created'' \<noteq> None"
  "map_of (ct_indexes (catalog_of (initialize empty_catalog))) ''agent_turns_provider_turn'' \<noteq> None"
  "map_of (ct_indexes (catalog_of (initialize empty_catalog))) ''agent_turns_session_created'' \<noteq> None"
  "map_of (ct_indexes (catalog_of (initialize empty_catalog))) ''agent_actions_turn_created'' \<noteq> None"
  unfolding fresh_lookups by (simp_all add: create_v4_def)

lemma migrated_catalog:
  assumes "\<forall>t \<in> new_tables. map_of tables t = None" and "\<forall>i \<in> new_indexes. map_of indexes i = None"
  shows "initialize (legacy_v1 tables indexes) = Inr \<lparr>ct_version = 4,
     ct_tables =
       (''workspaces'', the (map_of (ct_tables (catalog_of (initialize empty_catalog))) ''workspaces'')) #
       (''executions'', the (map_of (ct_tables (catalog_of (initialize empty_catalog))) ''executions'')) # tables @
       map (\<lambda>t. (t, the (map_of (ct_tables (catalog_of (initialize empty_catalog))) t)))
         [''agent_sessions'', ''agent_turns'', ''agent_actions''],
     ct_indexes = indexes @
       map (\<lambda>i. (i, the (map_of (ct_indexes (catalog_of (initialize empty_catalog))) i)))
         [''agent_sessions_workspace_created'', ''agent_sessions_state_created'', ''executions_session_created'',
          ''agent_turns_provider_turn'', ''agent_turns_session_created'', ''agent_actions_turn_created'']\<rparr>"
proof -
  have no: "map_of tables ''workspaces'' = None" "map_of tables ''executions'' = None"
    "map_of tables ''agent_sessions'' = None" "map_of tables ''agent_turns'' = None"
    "map_of tables ''agent_actions'' = None"
    using assms(1) by (simp_all add: new_tables_def)
  have noi: "map_of indexes ''agent_sessions_workspace_created'' = None"
    "map_of indexes ''agent_sessions_state_created'' = None" "map_of indexes ''executions_session_created'' = None"
    "map_of indexes ''agent_turns_provider_turn'' = None" "map_of indexes ''agent_turns_session_created'' = None"
    "map_of indexes ''agent_actions_turn_created'' = None"
    using assms(2) by (simp_all add: new_indexes_def)
  show ?thesis
    unfolding fresh_lookups
    by (simp add: no noi initialize_def legacy_v1_def SCHEMA_VERSION_def batch_defs when_version_def map_add_def)
qed

lemma map_of_only: "map_of (map (\<lambda>x. (x, f x)) xs) y = (if y \<in> set xs then Some (f y) else None)"
  by (induction xs) auto

lemma lookup_append_new:
  "\<forall>y \<in> set ns. map_of old y = None \<Longrightarrow>
   map_of (old @ map (\<lambda>x. (x, f x)) ns) t = (if t \<in> set ns then Some (f t) else map_of old t)"
  by (auto simp: map_add_def map_of_only split: option.split)

lemma lookup_tables:
  "\<forall>y \<in> {a, b} \<union> set ns. map_of old y = None \<Longrightarrow>
   map_of ((a, f a) # (b, f b) # old @ map (\<lambda>x. (x, f x)) ns) t =
     (if t \<in> {a, b} \<union> set ns then Some (f t) else map_of old t)"
  using lookup_append_new [of ns old f t] by auto

lemma migrated_lookups:
  assumes "\<forall>t \<in> new_tables. map_of tables t = None" and "\<forall>i \<in> new_indexes. map_of indexes i = None"
  shows "\<exists>c. initialize (legacy_v1 tables indexes) = Inr c \<and> ct_version c = SCHEMA_VERSION \<and>
     (\<forall>t. map_of (ct_tables c) t =
        (if t \<in> new_tables then map_of (ct_tables (catalog_of (initialize empty_catalog))) t else map_of tables t)) \<and>
     (\<forall>i. map_of (ct_indexes c) i =
        (if i \<in> new_indexes then map_of (ct_indexes (catalog_of (initialize empty_catalog))) i else map_of indexes i))"
proof -
  let ?T = "map_of (ct_tables (catalog_of (initialize empty_catalog)))"
  let ?I = "map_of (ct_indexes (catalog_of (initialize empty_catalog)))"
  have T: "Some (the (?T t)) = ?T t" if "t \<in> new_tables" for t
    using that fresh_tables by (auto simp: new_tables_def)
  have I: "Some (the (?I i)) = ?I i" if "i \<in> new_indexes" for i
    using that fresh_indexes by (auto simp: new_indexes_def)
  define c where "c = \<lparr>ct_version = 4,
     ct_tables = (''workspaces'', the (?T ''workspaces'')) # (''executions'', the (?T ''executions'')) # tables @
       map (\<lambda>t. (t, the (?T t))) [''agent_sessions'', ''agent_turns'', ''agent_actions''],
     ct_indexes = indexes @ map (\<lambda>i. (i, the (?I i)))
         [''agent_sessions_workspace_created'', ''agent_sessions_state_created'', ''executions_session_created'',
          ''agent_turns_provider_turn'', ''agent_turns_session_created'', ''agent_actions_turn_created'']\<rparr>"
  have nt: "new_tables = {''workspaces'', ''executions''} \<union> set [''agent_sessions'', ''agent_turns'', ''agent_actions'']"
    by (simp add: new_tables_def insert_commute)
  have ni: "new_indexes = set [''agent_sessions_workspace_created'', ''agent_sessions_state_created'', ''executions_session_created'',
          ''agent_turns_provider_turn'', ''agent_turns_session_created'', ''agent_actions_turn_created'']"
    by (simp add: new_indexes_def)
  have t: "map_of (ct_tables c) t = (if t \<in> new_tables then ?T t else map_of tables t)" for t
  proof -
    have "map_of (ct_tables c) t = (if t \<in> new_tables then Some (the (?T t)) else map_of tables t)"
      unfolding c_def catalog.simps nt by (rule lookup_tables [where f = "\<lambda>x. the (?T x)"]) (rule assms(1) [unfolded nt])
    then show ?thesis using T [of t] by presburger
  qed
  have i: "map_of (ct_indexes c) i = (if i \<in> new_indexes then ?I i else map_of indexes i)" for i
  proof -
    have "map_of (ct_indexes c) i = (if i \<in> new_indexes then Some (the (?I i)) else map_of indexes i)"
      unfolding c_def catalog.simps ni by (rule lookup_append_new [where f = "\<lambda>x. the (?I x)"]) (rule assms(2) [unfolded ni])
    then show ?thesis using I [of i] by presburger
  qed
  have "initialize (legacy_v1 tables indexes) = Inr c"
    unfolding c_def by (rule migrated_catalog [OF assms])
  moreover have "ct_version c = SCHEMA_VERSION" by (simp add: c_def SCHEMA_VERSION_def)
  ultimately show ?thesis using t i by blast
qed

text \<open>Opening a version 1 database brings it to the current version with, for every table the program
  uses that version 1 had or a migration adds, exactly the columns and constraints a new database gets,
  and with the new indexes; tables and indexes the migrations do not name are kept as they are.\<close>

theorem migration_from_v1:
  assumes "\<forall>t \<in> new_tables. map_of tables t = None" and "\<forall>i \<in> new_indexes. map_of indexes i = None"
  shows "\<exists>c. initialize (legacy_v1 tables indexes) = Inr c \<and> ct_version c = SCHEMA_VERSION \<and>
     (\<forall>t \<in> new_tables. map_of (ct_tables c) t = map_of (ct_tables (catalog_of (initialize empty_catalog))) t \<and>
        map_of (ct_tables c) t \<noteq> None) \<and>
     (\<forall>i \<in> new_indexes. map_of (ct_indexes c) i = map_of (ct_indexes (catalog_of (initialize empty_catalog))) i) \<and>
     (\<forall>t. t \<notin> new_tables \<longrightarrow> map_of (ct_tables c) t = map_of tables t) \<and>
     (\<forall>i. i \<notin> new_indexes \<longrightarrow> map_of (ct_indexes c) i = map_of indexes i)"
proof -
  let ?fresh = "catalog_of (initialize empty_catalog)"
  obtain c where c: "initialize (legacy_v1 tables indexes) = Inr c" and v: "ct_version c = SCHEMA_VERSION"
    and t: "\<And>t. map_of (ct_tables c) t =
        (if t \<in> new_tables then map_of (ct_tables ?fresh) t else map_of tables t)"
    and i: "\<And>i. map_of (ct_indexes c) i =
        (if i \<in> new_indexes then map_of (ct_indexes ?fresh) i else map_of indexes i)"
    using migrated_lookups [OF assms] by blast
  have "map_of (ct_tables ?fresh) t \<noteq> None" if "t \<in> new_tables" for t
    using that fresh_tables by (auto simp: new_tables_def)
  then show ?thesis using c v t i by auto
qed

theorem migration_from_v1_witness:
  "\<exists>c. initialize (legacy_v1 [(''events'', [''seq INTEGER NOT NULL''])] []) = Inr c \<and> ct_version c = SCHEMA_VERSION \<and>
     map_of (ct_tables c) ''events'' = Some [''seq INTEGER NOT NULL'']"
  using migration_from_v1 [of "[(''events'', [''seq INTEGER NOT NULL''])]" "[]"]
  by (force simp: new_tables_def new_indexes_def)

end
