(* ===== verification/StoreProperties.thy ===== *)
theory StoreProperties
  imports StoreDemo ModelProperties
begin

text \<open>
  The properties of the store, each with an example of its hypotheses on the concrete database of
  \<open>StoreDemo\<close>.
\<close>

section \<open>The store as a whole\<close>

text \<open>C1: Whatever commands the storage actor serves, starting from an empty database, the database
  satisfies its invariant: keys and unique indexes hold, every foreign key resolves, every state column
  is a known state, and every execution's events are numbered 1 to \<open>last_seq\<close> without a gap, with the
  byte count and the truncation flag that its events add up to.\<close>

theorem store_reachable_invariant:
  "db_inv (snd (run_store_actor commands empty_db))"
  by (simp add: run_store_actor_inv empty_db_inv)



text \<open>In a consistent store the events of an execution, as clients read them, are numbered 1, 2, ...,
  \<open>last_seq\<close>; the \<open>captured_bytes\<close> column is the number of output bytes in them, and
  \<open>output_truncated\<close> says whether a truncation event is among them.\<close>

theorem event_log_numbered:
  assumes "db_inv db" and "find_execution xid db = Some x"
  shows "map ev_seq (event_log B xid db) = [1..<Suc (xr_last_seq x)] \<and>
     xr_captured_bytes x = rows_bytes (events_of db xid) \<and>
     (xr_output_truncated x \<longleftrightarrow> (\<exists>e \<in> set (event_log B xid db). \<exists>l. ev_payload e = EvCaptureTruncated l))"
proof -
  have ok: "log_ok (events_of db xid) x" by (rule log_of [OF assms])
  have "(\<exists>l. ev_payload (decode_event B xid r) = EvCaptureTruncated l) \<longleftrightarrow> er_kind r = ''capture_truncated''"
    if "r \<in> set (events_of db xid)" for r
    using ok that by (auto simp: log_ok_def event_row_ok_def decode_event_def event_from_row_def
        output_event_def Let_def)
  then have "xr_output_truncated x \<longleftrightarrow> (\<exists>e \<in> set (event_log B xid db). \<exists>l. ev_payload e = EvCaptureTruncated l)"
    using ok by (auto simp: log_ok_def event_log_def)
  then show ?thesis
    using event_log_seqs [OF assms] ok by (simp add: log_ok_def rows_bytes_def)
qed

theorem event_log_numbered_witness:
  "map ev_seq (event_log demo_b64 ''a'' demo_db) = [1, 2, 3, 4]"
  using event_log_numbered [OF demo_inv demo_lookups(1), of demo_b64] by (simp add: demo_rows upt_rec)

section \<open>Writing the log\<close>

text \<open>C3: A capture batch is all or nothing: over known executions it is accepted, the reply carries one
  event per record in order (the stored bytes encoded, or the truncation limit), and the log of every
  execution is extended by exactly the replied events that belong to it; a batch that is refused leaves
  the database as it was.\<close>

theorem append_capture_batch_refines:
  assumes "db_inv db"
  shows "case append_capture_batch B records db of
     (Inr events, db') \<Rightarrow>
        map ev_payload events = map (record_payload B) records \<and>
        map ev_execution_id events = map record_execution records \<and>
        (\<forall>xid. event_log B xid db' =
           event_log B xid db @ filter (\<lambda>e. ev_execution_id e = xid) events)
   | (Inl e, db') \<Rightarrow> db' = db \<and> (\<exists>r \<in> set records. find_execution (record_execution r) db = None)"
proof (cases "append_capture_batch B records db")
  case (Pair r db')
  show ?thesis
  proof (cases r)
    case (Inl e)
    then have "\<nexists>evs db''. append_records B records db = Inr (evs, db'')"
      using Pair by (auto simp: append_capture_batch_def transaction_Inl_iff split: if_split_asm)
    then have "\<exists>r \<in> set records. find_execution (record_execution r) db = None"
      using append_records_accepts [OF assms, of records B] by meson
    then show ?thesis using Pair Inl append_capture_batch_error by simp
  next
    case (Inr events)
    then have "append_records B records db = Inr (events, db') \<or> records = [] \<and> events = []"
      using Pair by (auto simp: append_capture_batch_def transaction_Inr_iff split: if_split_asm)
    then have "map ev_payload events = map (record_payload B) records"
      "map ev_execution_id events = map record_execution records"
      using append_records_returns [of B records db events db'] by auto
    then show ?thesis
      using Pair Inr append_capture_batch_log [OF assms, of B records events db'] by simp
  qed
qed

theorem append_capture_batch_refines_witness:
  "\<exists>events db'. append_capture_batch demo_b64 [CaptureOutput ''b'' 60 Stdout ''done''] demo_db = (Inr events, db') \<and>
     event_log demo_b64 ''b'' db' = event_log demo_b64 ''b'' demo_db @ events \<and> length events = 1"
proof -
  obtain r db' where r: "append_capture_batch demo_b64 [CaptureOutput ''b'' 60 Stdout ''done''] demo_db = (r, db')"
    by force
  note p = append_capture_batch_refines [OF demo_inv, where B = demo_b64
      and records = "[CaptureOutput ''b'' 60 Stdout ''done'']", unfolded r]
  show ?thesis
  proof (cases r)
    case (Inl e)
    then show ?thesis using p by (simp add: record_execution_def demo_lookups)
  next
    case (Inr events)
    then have p': "map ev_execution_id events = [''b'']"
      "event_log demo_b64 ''b'' db' = event_log demo_b64 ''b'' demo_db @ filter (\<lambda>e. ev_execution_id e = ''b'') events"
      using p by (simp_all add: record_execution_def)
    then have "filter (\<lambda>e. ev_execution_id e = ''b'') events = events" "length events = 1" by auto
    then show ?thesis using r Inr p'(2) by auto
  qed
qed

text \<open>\<open>finish\<close> answers on every branch: an unknown execution is reported, a terminal one is refused
  and nothing changes; otherwise the reply is the next event of the log with the outcome, the row takes
  the given state, outcome and end time, and no other row changes.\<close>

theorem finish_total:
  assumes "db_inv db"
  shows "case find_execution xid db of
     None \<Rightarrow> finish now xid st out db = (Inl (ExecutionNotFound xid), db)
   | Some x \<Rightarrow>
       if is_terminal (row_state x) then finish now xid st out db = (Inl (AlreadyTerminal xid), db)
       else \<exists>db' y. finish now xid st out db =
              (Inr (event_of xid (xr_last_seq x + 1) now (EvFinished out)), db') \<and>
            find_execution xid db' = Some y \<and> row_state y = st \<and> xr_outcome y = Some out \<and>
            xr_ended_at_ms y = Some now \<and> xr_last_seq y = xr_last_seq x + 1 \<and>
            (\<forall>yid. yid \<noteq> xid \<longrightarrow> find_execution yid db' = find_execution yid db)"
proof (cases "find_execution xid db")
  case None
  then show ?thesis by (simp add: finish_refused)
next
  case (Some x)
  obtain s where s: "xr_state x = state_str s" using execution_state_valid [OF assms Some] by auto
  show ?thesis
  proof (cases "is_terminal s")
    case True
    then show ?thesis using Some s by (simp add: finish_refused)
  next
    case False
    obtain db' where "finish now xid st out db =
        (Inr (event_of xid (xr_last_seq x + 1) now (EvFinished out)), db')"
      "\<forall>yid. find_execution yid db' = (if yid = xid then Some (set_finished now st out (xr_last_seq x + 1) x)
             else find_execution yid db)"
      using finish_live [OF assms Some, of now st out] s False by auto
    moreover have "row_state (set_finished now st out (xr_last_seq x + 1) x) = st"
      by (rule row_state_str) (simp add: set_finished_def)
    ultimately show ?thesis using Some s False by (simp add: set_finished_def)
  qed
qed

theorem finish_total_witness:
  "finish 70 ''a'' Cancelled (OutcomeCancelled None) demo_db = (Inl (AlreadyTerminal ''a''), demo_db)"
  using finish_total [OF demo_inv, where xid = "''a''" and now = 70 and st = Cancelled
      and out = "OutcomeCancelled None"]
  by (simp add: demo_lookups demo_rows row_state_str [of demo_a Finished])

text \<open>\<open>mark_running\<close> answers on every branch: only a queued execution starts, and then the reply is
  the next event of the log, the row runs with the given process and group, and no other row changes.\<close>

theorem mark_running_total:
  assumes "db_inv db"
  shows "case find_execution xid db of
     None \<Rightarrow> mark_running now xid pid pgid db = (Inl (ExecutionNotFound xid), db)
   | Some x \<Rightarrow>
       if row_state x \<noteq> Queued then mark_running now xid pid pgid db = (Inl (AlreadyTerminal xid), db)
       else \<exists>db' y. mark_running now xid pid pgid db =
              (Inr (event_of xid (xr_last_seq x + 1) now (EvStarted pid pgid)), db') \<and>
            find_execution xid db' = Some y \<and> row_state y = Running \<and> xr_started_at_ms y = Some now \<and>
            xr_pid y = Some pid \<and> xr_pgid y = Some pgid \<and>
            event_log B xid db' = event_log B xid db @ [event_of xid (xr_last_seq x + 1) now (EvStarted pid pgid)] \<and>
            (\<forall>yid. yid \<noteq> xid \<longrightarrow> find_execution yid db' = find_execution yid db)"
proof (cases "find_execution xid db")
  case None
  then show ?thesis by (simp add: mark_running_refused)
next
  case (Some x)
  obtain s where s: "xr_state x = state_str s" using execution_state_valid [OF assms Some] by auto
  show ?thesis
  proof (cases "s = Queued")
    case False
    then have "xr_state x \<noteq> ''queued''" using s by (cases s) auto
    then show ?thesis using Some s False by (simp add: mark_running_refused)
  next
    case True
    obtain db' where r: "mark_running now xid pid pgid db =
        (Inr (event_of xid (xr_last_seq x + 1) now (EvStarted pid pgid)), db')"
      "\<forall>yid. find_execution yid db' = (if yid = xid then Some (set_running now pid pgid (xr_last_seq x + 1) x)
             else find_execution yid db)"
      using mark_running_queued [OF assms Some, of now pid pgid] s True by auto
    moreover have "row_state (set_running now pid pgid (xr_last_seq x + 1) x) = Running"
      by (rule row_state_str) (simp add: set_running_def)
    ultimately show ?thesis
      using Some s True mark_running_log [OF assms r(1), of B xid] by (simp add: set_running_def)
  qed
qed

theorem mark_running_total_witness:
  "\<exists>db' y. mark_running 70 ''c'' 9 9 demo_db = (Inr (event_of ''c'' 1 70 (EvStarted 9 9)), db') \<and>
     find_execution ''c'' db' = Some y \<and> row_state y = Running"
  using mark_running_total [OF demo_inv, where xid = "''c''" and now = 70 and pid = 9 and pgid = 9
      and B = demo_b64]
  by (auto simp: demo_lookups demo_rows row_state_str [of "demo_row ''c'' 30" Queued])

section \<open>Reading the log\<close>

text \<open>C4: A page of \<open>read_output\<close> is the next contiguous piece of the log after the cursor, \<open>next_seq\<close> is
  the last number in it, \<open>has_more\<close> says exactly whether events remain, and while events remain the page
  is not empty, so a reader that follows \<open>next_seq\<close> always advances. The page carries at most 4096
  events, and at most \<open>max_bytes\<close> output bytes unless it is a single event.\<close>

theorem read_output_pages:
  assumes "db_inv db" and "find_execution xid db = Some x" and "after < 2 ^ 63" and "max_bytes < u64_max"
  shows "\<exists>ro k. read_output B now xid after max_bytes db = Inr ro \<and>
     ro_events ro = take k (drop after (event_log B xid db)) \<and> ro_next_seq ro = after + k \<and>
     (ro_has_more ro \<longleftrightarrow> after + k < xr_last_seq x) \<and> (after < xr_last_seq x \<longrightarrow> 0 < k) \<and>
     k \<le> 4096 \<and> k \<le> xr_last_seq x - after \<and>
     (k \<le> 1 \<or> rows_bytes (take k (drop after (events_of db xid))) \<le> max_bytes)"
proof -
  obtain ro k where "read_output B now xid after max_bytes db = Inr ro"
    "ro_events ro = take k (drop after (event_log B xid db))"
    "k \<le> 4096" "k \<le> xr_last_seq x - after" "after < xr_last_seq x \<Longrightarrow> 0 < k"
    "ro_next_seq ro = after + k" "ro_has_more ro \<longleftrightarrow> after + k < xr_last_seq x"
    "k \<le> 1 \<or> rows_bytes (take k (drop after (events_of db xid))) \<le> max_bytes"
    using read_output_page [OF assms, of B now] by metis
  then show ?thesis by blast
qed

theorem read_output_pages_witness:
  "\<exists>ro k. read_output demo_b64 80 ''a'' 1 100 demo_db = Inr ro \<and>
     ro_events ro = take k (drop 1 (event_log demo_b64 ''a'' demo_db)) \<and> 0 < k"
  using read_output_pages [OF demo_inv demo_lookups(1), of 1 100 demo_b64 80] by (auto simp: demo_rows)

section \<open>Creating executions and workspaces\<close>

text \<open>\<open>create_execution\<close> either fails and leaves the database as it was, or adds exactly one execution
  at the end of the table: queued, with the fresh identifier, an empty log, the request's command and
  the keys (never the values) of its environment; and then the request is valid, and the agent session
  it names, if any, is recording in the same workspace.\<close>

theorem create_execution_outcome:
  "case create_execution B now nid rq cwd db of
     (Inl e, db') \<Rightarrow> db' = db
   | (Inr ex, db') \<Rightarrow>
       db' = db\<lparr>db_executions := db_executions db @ [new_execution_row nid now rq cwd]\<rparr> \<and>
       ex_id ex = nid \<and> ex_state ex = Queued \<and> ex_last_seq ex = 0 \<and> ex_command ex = rq_command rq \<and>
       ex_env_keys ex = map fst (rq_env rq) \<and> ex_workspace_id ex = rq_workspace_id rq \<and>
       request_validate B rq = Inr () \<and>
       (\<forall>sid. in_session_id (rq_initiator rq) = Some sid \<longrightarrow>
          (\<exists>s. get_agent_session_record sid db = Inr s \<and> as_state s = Recording \<and>
               as_workspace_id s = rq_workspace_id rq))"
proof (cases "bind_res (request_validate B rq) (\<lambda>_. bind_res (check_initiator_session rq db) (\<lambda>_.
    insert_execution (new_execution_row nid now rq cwd) db))")
  case (Inl e)
  then show ?thesis by (simp add: create_execution_def)
next
  case (Inr db')
  then have v: "request_validate B rq = Inr ()" and c: "check_initiator_session rq db = Inr ()"
    and i: "insert_execution (new_execution_row nid now rq cwd) db = Inr db'"
    by (auto simp: bind_res_Inr_iff)
  have db': "db' = db\<lparr>db_executions := db_executions db @ [new_execution_row nid now rq cwd]\<rparr>"
    and new: "find_execution nid db = None"
    using insert_execution_Inr [OF i] by (simp_all add: new_execution_row_def)
  have "find_execution nid db' = Some (new_execution_row nid now rq cwd)"
    using new by (simp add: db' find_execution_def find_key_snoc new_execution_row_def)
  moreover have "parse_state 2 ''queued'' = Inr Queued" by (simp add: parse_state_def)
  moreover have "\<exists>s. get_agent_session_record sid db = Inr s \<and> as_state s = Recording \<and>
      as_workspace_id s = rq_workspace_id rq" if "in_session_id (rq_initiator rq) = Some sid" for sid
    using c that by (auto simp: check_initiator_session_def bind_res_Inr_iff split: if_split_asm)
  ultimately show ?thesis
    using Inr v db' by (simp add: create_execution_def get_execution_def execution_from_row_def new_execution_row_def)
qed

theorem create_execution_outcome_witness:
  "\<exists>ex db'. create_execution demo_b64 95 ''n'' (demo_request (Some ''s2'')) ''/w'' demo_db = (Inr ex, db') \<and>
     ex_state ex = Queued \<and> db_executions db' = db_executions demo_db @ [new_execution_row ''n'' 95 (demo_request (Some ''s2'')) ''/w'']"
proof -
  have "request_validate demo_b64 (demo_request (Some ''s2'')) = Inr ()"
    "check_initiator_session (demo_request (Some ''s2'')) demo_db = Inr ()"
    "insert_execution (new_execution_row ''n'' 95 (demo_request (Some ''s2'')) ''/w'') demo_db =
       Inr (demo_db\<lparr>db_executions := db_executions demo_db @ [new_execution_row ''n'' 95 (demo_request (Some ''s2'')) ''/w'']\<rparr>)"
    by code_simp+
  moreover have "find_execution ''n'' (demo_db\<lparr>db_executions := db_executions demo_db @ [new_execution_row ''n'' 95 (demo_request (Some ''s2'')) ''/w'']\<rparr>)
      = Some (new_execution_row ''n'' 95 (demo_request (Some ''s2'')) ''/w'')"
    by code_simp
  ultimately obtain ex db' where r: "create_execution demo_b64 95 ''n'' (demo_request (Some ''s2'')) ''/w'' demo_db = (Inr ex, db')"
    by (auto simp: create_execution_def get_execution_def execution_from_row_def new_execution_row_def parse_state_def)
  then show ?thesis
    using create_execution_outcome [where B = demo_b64 and now = 95 and nid = "''n''"
        and rq = "demo_request (Some ''s2'')" and cwd = "''/w''" and db = demo_db] by simp
qed

text \<open>A workspace that \<open>add_workspace\<close> returns is registered and active under the requested name, at
  the canonical form of the requested directory; a failed call leaves the database as it was, and a
  name or a root is never registered twice.\<close>

theorem add_workspace_outcome:
  assumes "db_inv db"
  shows "case add_workspace can dir now nid name path db of
     (Inl e, db') \<Rightarrow> db' = db
   | (Inr w, db') \<Rightarrow>
       (\<exists>row \<in> set (db_workspaces db'). wk_workspace row = w \<and> wk_active row) \<and> ws_name w = name \<and>
       (\<exists>c. can path = Inr c \<and> dir c \<and> ws_root w = from_utf8_lossy c) \<and>
       distinct (map (\<lambda>r. ws_name (wk_workspace r)) (db_workspaces db')) \<and>
       distinct (map (\<lambda>r. ws_root (wk_workspace r)) (db_workspaces db'))"
proof (cases "add_workspace can dir now nid name path db")
  case (Pair r db')
  show ?thesis
  proof (cases r)
    case (Inl e)
    then have "db' = db" using Pair
      by (auto simp: add_workspace_def Let_def split: if_split_asm sum.split_asm option.split_asm)
    then show ?thesis using Pair Inl by simp
  next
    case (Inr w)
    then have p: "add_workspace can dir now nid name path db = (Inr w, db')" using Pair by simp
    have "db_inv db'" using add_workspace_inv [OF assms, of can dir now nid name path] p by simp
    then show ?thesis using p add_workspace_active [OF assms p] by (simp add: db_inv_def key_inv_def)
  qed
qed

theorem add_workspace_outcome_witness:
  "\<exists>w db'. add_workspace Inr (\<lambda>_. True) 9 ''w1'' ''lab'' ''/lab'' demo_db = (Inr w, db') \<and> ws_name w = ''lab'' \<and>
     (\<exists>row \<in> set (db_workspaces db'). wk_workspace row = w \<and> wk_active row)"
proof -
  have "from_utf8_lossy ''/lab'' = ''/lab''" "\<not> trim_is_empty ''lab''" by code_simp+
  then obtain w db' where r: "add_workspace Inr (\<lambda>_. True) 9 ''w1'' ''lab'' ''/lab'' demo_db = (Inr w, db')"
    by (auto simp: add_workspace_def Let_def find_workspace_by_def insert_workspace_def demo_defs)
  then show ?thesis
    using add_workspace_outcome [OF demo_inv, where can = Inr and dir = "\<lambda>_. True" and now = 9
        and nid = "''w1''" and name = "''lab''" and path = "''/lab''"] by simp
qed


text \<open>
  The properties of the store's history: recovery after a restart, retention, statistics, agent
  sessions and the schema; and of the commands and paths it records.
\<close>

section \<open>Recovery and retention\<close>

text \<open>After \<open>reconcile_incomplete\<close> no execution is queued or running: every one that was is
  interrupted, every terminal one is as it was, none is gone, and the count returned is the number of
  executions that were incomplete.\<close>

theorem reconcile_completes:
  assumes "db_inv db"
  shows "\<exists>db'. reconcile_incomplete clock db =
           (Inr (length (filter (\<lambda>x. \<not> is_terminal (row_state x)) (db_executions db))), db') \<and>
         map xr_id (db_executions db') = map xr_id (db_executions db) \<and>
         (\<forall>xid x. find_execution xid db = Some x \<longrightarrow>
            (if is_terminal (row_state x) then find_execution xid db' = Some x
             else \<exists>y. find_execution xid db' = Some y \<and> row_state y = Interrupted))"
proof -
  have tm: "is_terminal (row_state x) \<longleftrightarrow> terminal_str (xr_state x)" if "x \<in> set (db_executions db)" for x
    using that assms row_state_eq [of x] by (metis db_invD(3) execution_row_ok_def state_inv_def terminal_str_state)
  have cnt: "filter (\<lambda>x. \<not> is_terminal (row_state x)) (db_executions db) =
      filter (\<lambda>x. \<not> terminal_str (xr_state x)) (db_executions db)"
    using tm by (intro filter_cong) auto
  obtain db' where r: "reconcile_incomplete clock db =
        (Inr (length (filter (\<lambda>x. \<not> terminal_str (xr_state x)) (db_executions db))), db')"
      "map xr_id (db_executions db') = map xr_id (db_executions db)"
      "\<forall>xid x. find_execution xid db = Some x \<longrightarrow>
         (if terminal_str (xr_state x) then find_execution xid db' = Some x
          else \<exists>y. find_execution xid db' = Some y \<and> xr_state y = ''interrupted'')"
    using reconcile_effect [OF assms, of clock] by blast
  have "if is_terminal (row_state x) then find_execution xid db' = Some x
      else \<exists>y. find_execution xid db' = Some y \<and> row_state y = Interrupted"
    if x: "find_execution xid db = Some x" for xid x
  proof -
    have t: "is_terminal (row_state x) \<longleftrightarrow> terminal_str (xr_state x)"
      using tm find_execution_Some [OF x] by blast
    have "row_state y = Interrupted" if "xr_state y = ''interrupted''" for y
      using that by (intro row_state_str) simp
    then show ?thesis using r(3) x unfolding t by fastforce
  qed
  then show ?thesis using r(1,2) unfolding cnt by blast
qed

theorem reconcile_completes_witness:
  "\<exists>db'. fst (reconcile_incomplete (\<lambda>i. 90 + int i) demo_db) = Inr 2 \<and>
     snd (reconcile_incomplete (\<lambda>i. 90 + int i) demo_db) = db' \<and>
     find_execution ''a'' db' = Some demo_a \<and>
     (\<exists>y. find_execution ''b'' db' = Some y \<and> row_state y = Interrupted)"
proof -
  have st: "row_state demo_a = Finished" "row_state demo_b = Running" "row_state (demo_row xid n) = Queued" for xid n
    by (rule row_state_str; simp add: demo_rows)+
  have "db_executions demo_db = [demo_a, demo_b, demo_row ''c'' 30]" by (simp add: demo_db_def)
  then have "length (filter (\<lambda>x. \<not> is_terminal (row_state x)) (db_executions demo_db)) = 2"
    by (simp add: st)
  then show ?thesis
    using reconcile_completes [OF demo_inv, of "\<lambda>i. 90 + int i"] demo_lookups(1,2) st by fastforce
qed

text \<open>Pruning removes every terminal execution that ended before the cutoff, then further terminal
  executions oldest first, until the captured bytes of what is kept are within the bound or no terminal
  execution is left; executions that are queued or running are all kept, every kept execution keeps its
  row and its events, and the count returned is the number of executions removed.\<close>

theorem prune_retains:
  fixes now :: int and days bytes :: nat
  assumes "db_inv db"
  defines "cutoff \<equiv> prune_cutoff now days"
  shows "\<exists>db'. prune now days bytes db = (Inr (length (db_executions db) - length (db_executions db')), db') \<and>
     db_inv db' \<and> length (db_executions db') \<le> length (db_executions db) \<and>
     (\<forall>x \<in> set (db_executions db'). x \<in> set (db_executions db) \<and> \<not> expired cutoff x \<and>
        events_of db' (xr_id x) = events_of db (xr_id x)) \<and>
     (\<forall>x \<in> set (db_executions db). \<not> terminal_row x \<longrightarrow> x \<in> set (db_executions db')) \<and>
     (total_captured db' \<le> bytes \<or> (\<forall>x \<in> set (db_executions db'). \<not> terminal_row x)) \<and>
     (\<forall>x \<in> set (db_executions db). \<forall>y \<in> set (db_executions db').
        x \<notin> set (db_executions db') \<and> \<not> expired cutoff x \<and> terminal_row y \<longrightarrow>
        xr_ended_at_ms x \<le> xr_ended_at_ms y)"
proof -
  obtain dbe k db' where p:
    "prune now days bytes db = (Inr (length (db_executions db) - length (db_executions db')), db')"
    "set (db_executions dbe) = {x \<in> set (db_executions db). \<not> expired (prune_cutoff now days) x}"
    "set (db_executions db') = set (db_executions dbe) - set (take k (prune_order dbe))"
    "set (prune_order dbe) = {x \<in> set (db_executions dbe). terminal_row x}"
    "sorted (map xr_ended_at_ms (prune_order dbe))"
    "total_captured db' \<le> bytes \<or> (\<forall>x \<in> set (db_executions db'). \<not> terminal_row x)"
    "keeps_rest db db'" "length (db_executions db') \<le> length (db_executions db)"
  proof (rule prune_effect [OF assms(1), of now days bytes], goal_cases)
    case (1 dbe k db')
    then show ?case by (intro that) blast+
  qed
  have inv': "db_inv db'" using prune_inv [OF assms(1), of now days bytes] p(1) by simp
  have kept: "\<forall>x \<in> set (db_executions db'). x \<in> set (db_executions db) \<and> \<not> expired cutoff x \<and>
      events_of db' (xr_id x) = events_of db (xr_id x)"
    using p(2,3,7) by (auto simp: keeps_rest_def cutoff_def)
  have live: "\<forall>x \<in> set (db_executions db). \<not> terminal_row x \<longrightarrow> x \<in> set (db_executions db')"
    using p(2,3,4) by (auto simp: expired_def terminal_row_def dest: in_set_takeD)
  have "xr_ended_at_ms x \<le> xr_ended_at_ms y"
    if "x \<in> set (db_executions db)" "y \<in> set (db_executions db')"
      "x \<notin> set (db_executions db')" "\<not> expired cutoff x" "terminal_row y" for x y
  proof -
    have "x \<in> set (take k (prune_order dbe))" using that p(2,3) by (auto simp: cutoff_def)
    moreover have "y \<in> set (prune_order dbe)" "y \<notin> set (take k (prune_order dbe))" using that p(3,4) by auto
    then have "y \<in> set (drop k (prune_order dbe))" by (metis UnE append_take_drop_id set_append)
    ultimately show ?thesis by (rule sorted_take_drop_le [OF p(5)])
  qed
  then show ?thesis using p(1,6,8) inv' kept live by blast
qed

theorem prune_retains_witness:
  "\<exists>db'. prune 100 30 4 demo_db = (Inr (3 - length (db_executions db')), db') \<and>
     (total_captured db' \<le> 4 \<or> (\<forall>x \<in> set (db_executions db'). \<not> terminal_row x)) \<and>
     demo_b \<in> set (db_executions db')"
proof -
  have "length (db_executions demo_db) = 3" "demo_b \<in> set (db_executions demo_db)" "\<not> terminal_row demo_b"
    by (simp_all add: demo_db_def terminal_row_def terminal_str_def demo_rows)
  then show ?thesis using prune_retains [OF demo_inv, of 100 30 4] by auto
qed

section \<open>Statistics\<close>

text \<open>In the statistics of a workspace every execution of the window is counted under exactly one
  status and under exactly one initiator kind, and the totals add up.\<close>

theorem stats_partition:
  assumes "db_inv db" and "execution_stats workspace since until db = Inr st"
  shows "status_total (st_status st) = st_total st \<and>
     sum_list (map is_count (st_by_initiator st)) = st_total st \<and>
     st_total st = length (window_rows (ws_id (st_workspace st)) since until db) \<and>
     since \<le> until \<and> get_workspace workspace db = Inr (st_workspace st)"
proof -
  from assms(2) obtain w where w: "get_workspace workspace db = Inr w" "since \<le> until"
      "st_workspace st = w" "st_status st = status_counts (window_rows (ws_id w) since until db)"
      "st_by_initiator st = by_initiator (window_rows (ws_id w) since until db)"
      "st_total st = length (window_rows (ws_id w) since until db)"
    by (auto simp: execution_stats_def bind_res_Inr_iff Let_def split: if_split_asm)
  have "xr_state x \<in> range state_str" if "x \<in> set (window_rows (ws_id w) since until db)" for x
    using that assms(1) by (auto simp: window_rows_def db_inv_def state_inv_def execution_row_ok_def)
  then show ?thesis using w by (simp add: status_counts_total by_initiator_total)
qed

theorem stats_partition_witness:
  "\<exists>st. execution_stats ''work'' 0 100 demo_db = Inr st \<and> status_total (st_status st) = 3"
proof -
  have "get_workspace ''work'' demo_db = Inr \<lparr>ws_id = ''w0'', ws_name = ''work'', ws_root = ''/w'', ws_created_at_ms = 1\<rparr>"
    by (simp add: get_workspace_def find_workspace_by_def named_def demo_db_def)
  then obtain st where st: "execution_stats ''work'' 0 100 demo_db = Inr st" "ws_id (st_workspace st) = ''w0''"
    by (auto simp: execution_stats_def Let_def)
  have "length (window_rows ''w0'' 0 100 demo_db) = 3"
    by (simp add: window_rows_def in_window_def demo_defs)
  then show ?thesis using stats_partition [OF demo_inv st(1)] st by auto
qed

text \<open>The percentile query (50 for the median, 95) over a non-empty sample yields one of the samples,
  the nearest-rank percentile: at least \<open>q\<close> percent of the samples are at most it, and more than
  \<open>100 - q\<close> percent are at least it.\<close>

theorem percentile_is_nearest_rank:
  assumes "durations \<noteq> []" and "0 < q" and "q \<le> 100"
  shows "\<exists>v. percentile q durations = Some v \<and> v \<in> set durations \<and>
     v = sort durations ! (nearest_rank q (length durations) - 1) \<and>
     q * length durations \<le> 100 * count_where (\<lambda>d. d \<le> v) durations \<and>
     (100 - q) * length durations < 100 * count_where (\<lambda>d. v \<le> d) durations"
  using percentile_spec [OF assms] percentile_nearest_rank [OF assms] by auto

theorem percentile_is_nearest_rank_witness:
  "percentile 95 [30, 10, 20] = Some (30 :: int)"
proof -
  have "sort [30, 10, 20 :: int] ! (nearest_rank 95 3 - 1) = 30"
    by (simp add: nearest_rank_def insort_key.simps)
  then show ?thesis using percentile_is_nearest_rank [of "[30, 10, 20]" 95] by (auto simp: nearest_rank_def)
qed

section \<open>Agent sessions\<close>

text \<open>When an agent reports a submitted prompt, the provider session has exactly one active turn
  afterwards, and it is the turn returned: every other active turn has been interrupted.\<close>

theorem prompt_leaves_one_active_turn:
  assumes "db_inv db" and "ae_event rq = PromptSubmitted prompt"
    and "record_agent_event now tid aid rq db = (Inr turn, db')"
  shows "map tr_id (active_turns rq db') = [tn_id turn] \<and> db_inv db'"
proof -
  have "prompt_submitted now tid rq prompt db = (Inr turn, db')"
    using assms(2,3) by (auto simp: record_agent_event_def split: sum.split_asm if_split_asm)
  moreover have "db_inv db'"
    using record_agent_event_inv [OF assms(1), of now tid aid rq] assms(3) by simp
  ultimately show ?thesis using prompt_submitted_single_active [OF assms(1)] by blast
qed

definition demo_prompt :: agent_event_request where
  "demo_prompt = \<lparr>ae_session_id = ''s2'', ae_provider = ''codex'', ae_provider_session_id = ''p'',
     ae_provider_turn_id = Some ''n2'', ae_event = PromptSubmitted ''test''\<rparr>"

lemma demo_prompt_valid: "event_request_validate demo_prompt = Inr ()"
  by code_simp

lemma demo_prompt_fields:
  "ae_session_id demo_prompt = ''s2''" "ae_provider demo_prompt = ''codex''"
  "ae_provider_session_id demo_prompt = ''p''" "ae_provider_turn_id demo_prompt = Some ''n2''"
  "ae_event demo_prompt = PromptSubmitted ''test''"
  by (simp_all add: demo_prompt_def)

theorem prompt_leaves_one_active_turn_witness:
  "\<exists>turn db'. record_agent_event 70 ''t2'' ''k2'' demo_prompt demo_db = (Inr turn, db') \<and>
     map tr_id (active_turns demo_prompt db') = [tn_id turn]"
proof -
  have "parse_agent_turn_state 5 ''active'' = Inr TurnActive" "parse_agent_session_state 2 ''recording'' = Inr Recording"
    by (simp_all add: parse_agent_turn_state_def parse_agent_session_state_def)
  moreover have "find_session ''s2'' demo_db = Some (demo_session ''s2'' ''recording'')"
    by (simp add: find_session_def demo_defs)
  ultimately obtain turn db' where r: "record_agent_event 70 ''t2'' ''k2'' demo_prompt demo_db = (Inr turn, db')"
    by (auto simp: record_agent_event_def demo_prompt_valid get_agent_session_record_def agent_session_from_row_def
        demo_session_def demo_prompt_fields prompt_submitted_def Let_def find_provider_turn_def update_turns_def
        update_where_def demo_db_def demo_turn_def of_provider_def interrupt_turn_def insert_agent_turn_def
        insert_turn_def find_turn_def new_turn_row_def find_session_def has_turn_id_def turn_index_def
        get_agent_turn_def agent_turn_from_row_def)
  from prompt_leaves_one_active_turn [OF demo_inv demo_prompt_fields(5) r]
  have "map tr_id (active_turns demo_prompt db') = [tn_id turn]" ..
  with r show ?thesis by (intro exI conjI)
qed

text \<open>A successful \<open>finish_agent_session\<close> returns the session in a terminal state, which is also what
  a later read returns; finishing a session that is already terminal returns it unchanged and writes
  nothing; and when the session was recording, none of its turns is active afterwards.\<close>

theorem finish_session_idempotent:
  assumes "db_inv db" and "finish_agent_session now sid fin db = (Inr session, db')"
  shows "session_is_terminal (as_state session) \<and> as_id session = sid \<and>
     get_agent_session_record sid db' = Inr session \<and>
     (\<forall>now' fin'. sf_state fin' \<noteq> Recording \<longrightarrow>
        (sf_state fin' = SessionInterrupted) = is_interrupted_outcome (sf_outcome fin') \<longrightarrow>
        finish_agent_session now' sid fin' db' = (Inr session, db')) \<and>
     (map_option sn_state (find_session sid db) = Some ''recording'' \<longrightarrow>
        (\<forall>t \<in> set (turns_of_session sid db'). tr_state t \<noteq> ''active''))"
proof -
  note eff = finish_agent_session_effect [OF assms]
  have again: "finish_agent_session now' sid fin' db' = (Inr session, db')"
    if "sf_state fin' \<noteq> Recording" "(sf_state fin' = SessionInterrupted) = is_interrupted_outcome (sf_outcome fin')"
    for now' fin'
    using that eff(2,3) by (simp add: finish_agent_session_def)
  have "tr_state t \<noteq> ''active''"
    if rec: "map_option sn_state (find_session sid db) = Some ''recording''" and t: "t \<in> set (turns_of_session sid db')" for t
  proof -
    obtain s where s: "find_session sid db = Some s" "sn_state s = ''recording''" using rec by auto
    obtain current where cur: "get_agent_session_record sid db = Inr current"
        "session_state_str (as_state current) = sn_state s"
      using session_decodes [OF assms(1) s(1)] by blast
    have "as_state current = Recording" using cur(2) s(2) by (cases "as_state current") simp_all
    then show ?thesis using eff(5) [OF cur(1)] t by (simp add: turns_of_session_def)
  qed
  then show ?thesis using eff(1-3) again by blast
qed

definition demo_end :: agent_session_finish where
  "demo_end = \<lparr>sf_state = SessionFinished, sf_outcome = Exited 0, sf_captured_bytes = 3, sf_output_truncated = False\<rparr>"

theorem finish_session_idempotent_witness:
  "\<exists>session db'. finish_agent_session 70 ''s2'' demo_end demo_db = (Inr session, db') \<and>
     finish_agent_session 99 ''s2'' demo_end db' = (Inr session, db') \<and>
     (\<forall>t \<in> set (turns_of_session ''s2'' db'). tr_state t \<noteq> ''active'')"
proof -
  have st: "parse_agent_session_state 2 ''recording'' = Inr Recording" "parse_agent_session_state 2 ''finished'' = Inr SessionFinished"
    by (simp_all add: parse_agent_session_state_def)
  then obtain session db' where r: "finish_agent_session 70 ''s2'' demo_end demo_db = (Inr session, db')"
    by (auto simp: finish_agent_session_def demo_end_def is_interrupted_outcome_def get_agent_session_record_def
        find_session_def demo_db_def demo_session_def agent_session_from_row_def session_is_terminal_def
        Let_def update_turns_def update_session_def update_where_def set_session_finished_def)
  have "map_option sn_state (find_session ''s2'' demo_db) = Some ''recording''"
    by (simp add: find_session_def demo_db_def demo_session_def)
  then show ?thesis
    using r finish_session_idempotent [OF demo_inv r] by (auto simp: demo_end_def is_interrupted_outcome_def)
qed

text \<open>Deleting a finished session removes the session and its turns, unlinks its executions without
  removing any, keeps every event of every execution, and leaves the other sessions and their turns
  alone; a session that is still recording is not deleted.\<close>

theorem delete_session_keeps_executions:
  assumes "db_inv db"
  shows "case delete_agent_session sid db of
     (Inl e, db') \<Rightarrow> db' = db
   | (Inr u, db') \<Rightarrow>
       db_inv db' \<and> find_session sid db' = None \<and> turns_of_session sid db' = [] \<and>
       db_events db' = db_events db \<and> map xr_id (db_executions db') = map xr_id (db_executions db) \<and>
       (\<forall>x \<in> set (db_executions db'). xr_session_id x \<noteq> Some sid) \<and>
       (\<forall>other. other \<noteq> sid \<longrightarrow> find_session other db' = find_session other db \<and>
          turns_of_session other db' = turns_of_session other db) \<and>
       map_option sn_state (find_session sid db) \<noteq> Some ''recording''"
proof (cases "delete_agent_session sid db")
  case (Pair r db')
  show ?thesis
  proof (cases r)
    case (Inl e)
    then show ?thesis using Pair by (auto simp: delete_agent_session_def Let_def split: sum.split_asm if_split_asm)
  next
    case (Inr u)
    then have d: "delete_agent_session sid db = (Inr (), db')" using Pair by simp
    have inv': "db_inv db'" using delete_agent_session_inv [OF assms, of sid] d by simp
    have "map_option sn_state (find_session sid db) \<noteq> Some ''recording''"
    proof
      assume "map_option sn_state (find_session sid db) = Some ''recording''"
      then obtain s where s: "find_session sid db = Some s" "sn_state s = ''recording''" by auto
      obtain current where cur: "get_agent_session_record sid db = Inr current"
          "session_state_str (as_state current) = sn_state s"
        using session_decodes [OF assms s(1)] by blast
      have "as_state current = Recording" using cur(2) s(2) by (cases "as_state current") simp_all
      then show False using d cur(1) by (simp add: delete_agent_session_def session_is_terminal_def)
    qed
    then show ?thesis using d inv' delete_agent_session_effect [OF d] by simp
  qed
qed

theorem delete_session_keeps_executions_witness:
  "\<exists>db'. delete_agent_session ''s1'' demo_db = (Inr (), db') \<and> find_session ''s1'' db' = None \<and>
     map xr_id (db_executions db') = [''a'', ''b'', ''c'']"
proof -
  have "parse_agent_session_state 2 ''finished'' = Inr SessionFinished"
    by (simp add: parse_agent_session_state_def)
  then obtain db' where r: "delete_agent_session ''s1'' demo_db = (Inr (), db')"
    by (auto simp: delete_agent_session_def get_agent_session_record_def find_session_def demo_db_def
        demo_session_def agent_session_from_row_def session_is_terminal_def Let_def)
  have "map xr_id (db_executions demo_db) = [''a'', ''b'', ''c'']" by (simp add: demo_defs)
  then show ?thesis using r delete_session_keeps_executions [OF demo_inv, of "''s1''"] by auto
qed

end
