(* ===== verification/Capture.thy ===== *)
theory Capture
  imports StoreActor
begin

text \<open>
  Capturing output (\<open>src/executor.rs\<close>): \<open>capture_output\<close> cuts an execution's output at its limit and
  reports the cut once; the capture writer collects records of all executions into batches, which it
  writes when a batch is full, when its queue is empty, or at a barrier.

  The writer relies on the store through the interface \<open>capture_store\<close>: appending a batch is appending
  its parts one after the other, all or nothing. With that contract batching is invisible.
\<close>

section \<open>The limit\<close>

text \<open>The two counters of a run; \<open>fetch_add\<close> wraps at \<open>2 ^ 64\<close>.\<close>

record capture_counters =
  cp_captured :: nat
  cp_truncated :: bool

definition capture_output ::
  "string \<Rightarrow> int \<Rightarrow> output_stream \<Rightarrow> bytes \<Rightarrow> nat \<Rightarrow> capture_counters \<Rightarrow> capture_record list \<times> capture_counters" where
  "capture_output xid now stream data limit c =
     (let previous = cp_captured c;
          remaining = limit - previous;
          persist = min remaining (length data);
          c1 = c\<lparr>cp_captured := (previous + length data) mod 2 ^ 64\<rparr>;
          out = (if persist > 0 then [CaptureOutput xid now stream (take persist data)] else [])
      in if persist < length data \<and> \<not> cp_truncated c1
         then (out @ [CaptureTruncated xid now limit], c1\<lparr>cp_truncated := True\<rparr>)
         else (out, c1))"

fun capture_all ::
  "string \<Rightarrow> nat \<Rightarrow> (int \<times> output_stream \<times> bytes) list \<Rightarrow> capture_counters \<Rightarrow>
   capture_record list \<times> capture_counters" where
  "capture_all xid limit [] c = ([], c)"
| "capture_all xid limit ((now, stream, data) # outs) c =
     (case capture_output xid now stream data limit c of (rs, c1) \<Rightarrow>
        case capture_all xid limit outs c1 of (rs', c2) \<Rightarrow> (rs @ rs', c2))"

definition record_data :: "capture_record \<Rightarrow> bytes" where
  "record_data r = (case r of CaptureOutput _ _ _ data \<Rightarrow> data | CaptureTruncated _ _ _ \<Rightarrow> [])"

definition is_truncated :: "capture_record \<Rightarrow> bool" where
  "is_truncated r = (case r of CaptureOutput _ _ _ _ \<Rightarrow> False | CaptureTruncated _ _ _ \<Rightarrow> True)"

definition output_total :: "(int \<times> output_stream \<times> bytes) list \<Rightarrow> nat" where
  "output_total outs = sum_list (map (\<lambda>(_, _, data). length data) outs)"

definition output_bytes :: "(int \<times> output_stream \<times> bytes) list \<Rightarrow> bytes" where
  "output_bytes outs = concat (map (\<lambda>(_, _, data). data) outs)"

lemma length_output_bytes: "length (output_bytes outs) = output_total outs"
  by (induction outs) (auto simp: output_bytes_def output_total_def)

text \<open>What is persisted is the first \<open>limit\<close> bytes, and the one truncation record comes right after
  them exactly when there were more.\<close>

lemma capture_all_general:
  assumes "cp_captured c + output_total outs < 2 ^ 64" and "cp_truncated c \<longleftrightarrow> limit < cp_captured c"
  shows "concat (map record_data (fst (capture_all xid limit outs c))) = take (limit - cp_captured c) (output_bytes outs) \<and>
     length (filter is_truncated (fst (capture_all xid limit outs c))) =
       (if \<not> cp_truncated c \<and> limit < cp_captured c + output_total outs then 1 else 0) \<and>
     (\<forall>r \<in> set (fst (capture_all xid limit outs c)). record_execution r = xid \<and> (\<not> is_truncated r \<longrightarrow> record_data r \<noteq> []))"
  using assms
proof (induction outs arbitrary: c)
  case Nil
  then show ?case by (auto simp: output_bytes_def output_total_def)
next
  case (Cons out outs)
  obtain now stream data where o: "out = (now, stream, data)" by (cases out)
  obtain rs c1 where step: "capture_output xid now stream data limit c = (rs, c1)" by force
  have tot: "output_total (out # outs) = length data + output_total outs" by (simp add: o output_total_def)
  have small: "cp_captured c + length data < 2 ^ 64" using Cons.prems(1) tot by simp
  have c1: "cp_captured c1 = cp_captured c + length data"
    using step small by (auto simp: capture_output_def Let_def split: if_split_asm)
  have t1: "cp_truncated c1 \<longleftrightarrow> limit < cp_captured c1"
    using step Cons.prems(2) c1 by (auto simp: capture_output_def Let_def min_def split: if_split_asm)
  have rs: "concat (map record_data rs) = take (limit - cp_captured c) data"
      "length (filter is_truncated rs) = (if \<not> cp_truncated c \<and> limit < cp_captured c + length data then 1 else 0)"
      "\<forall>r \<in> set rs. record_execution r = xid \<and> (\<not> is_truncated r \<longrightarrow> record_data r \<noteq> [])"
    using step Cons.prems(2)
    by (auto simp: capture_output_def Let_def record_data_def is_truncated_def record_execution_def min_def
        split: if_split_asm)
  have ih: "concat (map record_data (fst (capture_all xid limit outs c1))) = take (limit - cp_captured c1) (output_bytes outs)"
      "length (filter is_truncated (fst (capture_all xid limit outs c1))) =
         (if \<not> cp_truncated c1 \<and> limit < cp_captured c1 + output_total outs then 1 else 0)"
      "\<forall>r \<in> set (fst (capture_all xid limit outs c1)). record_execution r = xid \<and> (\<not> is_truncated r \<longrightarrow> record_data r \<noteq> [])"
    using Cons.IH [of c1] Cons.prems(1) c1 t1 tot by auto
  have all: "fst (capture_all xid limit (out # outs) c) = rs @ fst (capture_all xid limit outs c1)"
    by (simp add: o step split_beta)
  have "concat (map record_data (rs @ fst (capture_all xid limit outs c1))) =
      take (limit - cp_captured c) (output_bytes (out # outs))"
    using rs(1) ih(1) c1 by (simp add: o output_bytes_def)
  moreover have "length (filter is_truncated (rs @ fst (capture_all xid limit outs c1))) =
      (if \<not> cp_truncated c \<and> limit < cp_captured c + output_total (out # outs) then 1 else 0)"
    using rs(2) ih(2) c1 t1 tot Cons.prems(2) by auto
  ultimately show ?case unfolding all using rs(3) ih(3) by auto
qed

section \<open>The interface to the store\<close>

text \<open>Writing a list of batches that all succeed is writing their concatenation as one batch.\<close>

fun put_batches ::
  "(capture_record list \<Rightarrow> 's \<Rightarrow> execution_event list result \<times> 's) \<Rightarrow> capture_record list list \<Rightarrow> 's \<Rightarrow>
   (execution_event list \<times> 's) option" where
  "put_batches put [] s = Some ([], s)"
| "put_batches put (b # bs) s =
     (case put b s of
        (Inl e, s1) \<Rightarrow> None
      | (Inr evs, s1) \<Rightarrow> (case put_batches put bs s1 of None \<Rightarrow> None | Some (evs', s2) \<Rightarrow> Some (evs @ evs', s2)))"

locale capture_store =
  fixes put :: "capture_record list \<Rightarrow> 's \<Rightarrow> execution_event list result \<times> 's"
  assumes put_Nil: "put [] s = (Inr [], s)"
    and put_error: "put rs s = (Inl e, s') \<Longrightarrow> s' = s"
    and put_split: "put (rs @ rs') s = (Inr evs, s') \<longleftrightarrow>
          (\<exists>evs1 evs2 s1. put rs s = (Inr evs1, s1) \<and> put rs' s1 = (Inr evs2, s') \<and> evs = evs1 @ evs2)"
begin

lemma batches_concat: "put_batches put bs s = Some (evs, s') \<longleftrightarrow> put (concat bs) s = (Inr evs, s')"
proof (induction bs arbitrary: s evs)
  case Nil
  then show ?case by (auto simp: put_Nil)
next
  case (Cons b bs)
  obtain r s1 where b: "put b s = (r, s1)" by force
  show ?case
  proof (cases r)
    case (Inl e)
    then have "\<not> put (b @ concat bs) s = (Inr evs, s')"
      using b put_split [of b "concat bs" s evs s'] by auto
    then show ?thesis using b Inl by simp
  next
    case (Inr evs1)
    have "put_batches put (b # bs) s = Some (evs, s') \<longleftrightarrow>
        (\<exists>evs2. put_batches put bs s1 = Some (evs2, s') \<and> evs = evs1 @ evs2)"
      using b Inr by (auto split: option.splits)
    also have "\<dots> \<longleftrightarrow> (\<exists>evs2. put (concat bs) s1 = (Inr evs2, s') \<and> evs = evs1 @ evs2)"
      by (simp add: Cons.IH)
    also have "\<dots> \<longleftrightarrow> put (b @ concat bs) s = (Inr evs, s')"
      using put_split [of b "concat bs" s evs s'] b Inr by auto
    finally show ?thesis by simp
  qed
qed

end

lemma append_records_append:
  "append_records B (rs @ rs') db = Inr (evs, db') \<longleftrightarrow>
     (\<exists>evs1 evs2 db1. append_records B rs db = Inr (evs1, db1) \<and> append_records B rs' db1 = Inr (evs2, db') \<and> evs = evs1 @ evs2)"
proof (induction rs arbitrary: db evs)
  case Nil
  then show ?case by auto
next
  case (Cons r rs)
  have "append_records B ((r # rs) @ rs') db = Inr (evs, db') \<longleftrightarrow>
      (\<exists>e db0 es. append_record B r db = Inr (e, db0) \<and> append_records B (rs @ rs') db0 = Inr (es, db') \<and> evs = e # es)"
    by (auto simp: bind_res_Inr_iff)
  also have "\<dots> \<longleftrightarrow> (\<exists>evs1 evs2 db1. append_records B (r # rs) db = Inr (evs1, db1) \<and>
      append_records B rs' db1 = Inr (evs2, db') \<and> evs = evs1 @ evs2)"
    unfolding Cons.IH by (auto simp: bind_res_Inr_iff)
  finally show ?case .
qed

lemma append_capture_batch_Inr:
  "append_capture_batch B rs db = (Inr evs, db') \<longleftrightarrow> append_records B rs db = Inr (evs, db')"
  by (auto simp: append_capture_batch_def transaction_Inr_iff)

interpretation store_capture: capture_store "append_capture_batch B"
proof
  show "append_capture_batch B [] s = (Inr [], s)" for s by (simp add: append_capture_batch_def)
  show "append_capture_batch B rs s = (Inl e, s') \<Longrightarrow> s' = s" for rs s e s'
    by (rule append_capture_batch_error)
  show "append_capture_batch B (rs @ rs') s = (Inr evs, s') \<longleftrightarrow>
      (\<exists>evs1 evs2 s1. append_capture_batch B rs s = (Inr evs1, s1) \<and> append_capture_batch B rs' s1 = (Inr evs2, s') \<and>
         evs = evs1 @ evs2)" for rs rs' s evs s'
    unfolding append_capture_batch_Inr by (rule append_records_append)
qed


text \<open>
  The capture writer (\<open>capture_writer\<close>, \<open>process_capture_message\<close> and \<open>flush_capture\<close> in
  \<open>src/executor.rs\<close>), over any store. Its queue delivers records and barriers; whenever the queue is
  empty, or the sender side is gone, the records collected so far are written. Which messages arrive
  before the queue is found empty depends on the scheduler, so a run is a list of bursts.
\<close>

definition CAPTURE_BATCH_SIZE :: nat where
  "CAPTURE_BATCH_SIZE = 64"

text \<open>A barrier carries the identifier of its reply channel.\<close>

datatype capture_message =
    Record capture_record
  | Barrier nat

record 's writer =
  cw_store :: 's
  cw_records :: "capture_record list"
  cw_pending_error :: "string option"
  cw_published :: "execution_event list"
  cw_fatal :: "string option"
  cw_replies :: "(nat \<times> unit result) list"

definition new_writer :: "'s \<Rightarrow> 's writer" where
  "new_writer s = \<lparr>cw_store = s, cw_records = [], cw_pending_error = None, cw_published = [],
     cw_fatal = None, cw_replies = []\<rparr>"

type_synonym 's put_batch = "capture_record list \<Rightarrow> 's \<Rightarrow> execution_event list result \<times> 's"

definition flush_capture :: "display_env \<Rightarrow> 's put_batch \<Rightarrow> 's writer \<Rightarrow> 's writer" where
  "flush_capture d put w =
     (if cw_records w = [] then w
      else case put (cw_records w) (cw_store w) of
        (Inr written, s) \<Rightarrow>
          w\<lparr>cw_store := s, cw_records := [], cw_published := cw_published w @ written\<rparr>
      | (Inl e, s) \<Rightarrow>
          w\<lparr>cw_store := s, cw_records := [], cw_pending_error := Some (error_display d e),
            cw_fatal := Some (error_display d e)\<rparr>)"

fun process_capture_message ::
  "display_env \<Rightarrow> 's put_batch \<Rightarrow> capture_message \<Rightarrow> 's writer \<Rightarrow> 's writer" where
  "process_capture_message d put (Record r) w =
     (let w1 = w\<lparr>cw_records := cw_records w @ [r]\<rparr> in
      if length (cw_records w1) \<ge> CAPTURE_BATCH_SIZE then flush_capture d put w1 else w1)"
| "process_capture_message d put (Barrier k) w =
     (let w1 = flush_capture d put w;
          result = (case cw_pending_error w1 of Some e \<Rightarrow> Inl (StorageUnavailable e) | None \<Rightarrow> Inr ())
      in w1\<lparr>cw_pending_error := None, cw_replies := cw_replies w1 @ [(k, result)]\<rparr>)"

text \<open>One burst: the messages received until the queue is empty, then a flush.\<close>

definition capture_burst :: "display_env \<Rightarrow> 's put_batch \<Rightarrow> 's writer \<Rightarrow> capture_message list \<Rightarrow> 's writer" where
  "capture_burst d put w burst =
     flush_capture d put (fold (process_capture_message d put) burst w)"

definition capture_writer :: "display_env \<Rightarrow> 's put_batch \<Rightarrow> capture_message list list \<Rightarrow> 's writer \<Rightarrow> 's writer" where
  "capture_writer d put bursts w = flush_capture d put (run_steps (capture_burst d put) w bursts)"

definition records_of :: "capture_message list \<Rightarrow> capture_record list" where
  "records_of ms = concat (map (\<lambda>m. case m of Record r \<Rightarrow> [r] | Barrier _ \<Rightarrow> []) ms)"

lemma records_of_simps [simp]:
  "records_of [] = []" "records_of (Record r # ms) = r # records_of ms"
  "records_of (Barrier k # ms) = records_of ms" "records_of (ms @ ms') = records_of ms @ records_of ms'"
  by (simp_all add: records_of_def)

section \<open>The buffer stays below the batch size\<close>

definition buffer_ok :: "'s writer \<Rightarrow> bool" where
  "buffer_ok w \<longleftrightarrow> length (cw_records w) < CAPTURE_BATCH_SIZE"

lemma flush_empties [simp]: "cw_records (flush_capture d put w) = []"
  by (simp add: flush_capture_def split: prod.split sum.split)

lemma process_buffer_ok: "buffer_ok w \<Longrightarrow> buffer_ok (process_capture_message d put m w)"
  by (cases m) (simp_all add: buffer_ok_def Let_def CAPTURE_BATCH_SIZE_def)

interpretation writer_machine: invariant_machine "\<lambda>w m. process_capture_message d put m w" buffer_ok
  by unfold_locales (rule process_buffer_ok)

section \<open>Batching is invisible\<close>

text \<open>The writer is on its way through a successful write of all records: \<open>done\<close> is in the store.\<close>

definition on_course ::
  "'s put_batch \<Rightarrow> 's \<Rightarrow> capture_record list \<Rightarrow> 's writer \<Rightarrow> capture_record list \<Rightarrow> bool" where
  "on_course put s0 done w received \<longleftrightarrow>
     received = done @ cw_records w \<and> put done s0 = (Inr (cw_published w), cw_store w) \<and>
     cw_pending_error w = None \<and> cw_fatal w = None \<and> (\<forall>r \<in> snd ` set (cw_replies w). r = Inr ())"

text \<open>Since the state with store \<open>s0\<close> and published events \<open>p0\<close>, the records \<open>received\<close> are written or
  buffered, or an error is pending.\<close>

definition accounted ::
  "'s put_batch \<Rightarrow> 's \<Rightarrow> execution_event list \<Rightarrow> 's writer \<Rightarrow> capture_record list \<Rightarrow> bool" where
  "accounted put s0 p0 w received \<longleftrightarrow>
     cw_pending_error w \<noteq> None \<or>
     (\<exists>pre evs. put pre s0 = (Inr evs, cw_store w) \<and> cw_published w = p0 @ evs \<and> pre @ cw_records w = received)"

context capture_store
begin

lemma put_prefix_ok: "put (rs @ rs') s = (Inr evs, s') \<Longrightarrow> \<exists>evs1 s1. put rs s = (Inr evs1, s1)"
  using put_split [of rs rs' s evs s'] by blast

lemma flush_on_course:
  assumes "on_course put s0 done w received" and "put (received @ rest) s0 = (Inr evs, s')"
  shows "on_course put s0 received (flush_capture d put w) received"
proof (cases "cw_records w = []")
  case True
  then show ?thesis using assms(1) by (simp add: on_course_def flush_capture_def)
next
  case False
  obtain evs1 s1 where "put received s0 = (Inr evs1, s1)" using put_prefix_ok [OF assms(2)] by blast
  then obtain evs2 where "put (cw_records w) (cw_store w) = (Inr evs2, s1)" "evs1 = cw_published w @ evs2"
    using assms(1) put_split [of "done" "cw_records w" s0 evs1 s1] by (auto simp: on_course_def)
  then show ?thesis using assms(1) False \<open>put received s0 = (Inr evs1, s1)\<close>
    by (simp add: on_course_def flush_capture_def)
qed

lemma process_on_course:
  assumes "on_course put s0 done w received" and "put (received @ records_of [m] @ rest) s0 = (Inr evs, s')"
  shows "\<exists>done'. on_course put s0 done' (process_capture_message d put m w) (received @ records_of [m])"
proof (cases m)
  case (Record r)
  let ?w1 = "w\<lparr>cw_records := cw_records w @ [r]\<rparr>"
  have w1: "on_course put s0 done ?w1 (received @ [r])" using assms(1) by (simp add: on_course_def)
  have "put ((received @ [r]) @ rest) s0 = (Inr evs, s')" using assms(2) Record by simp
  from flush_on_course [OF w1 this] w1 show ?thesis using Record by (auto simp: Let_def)
next
  case (Barrier k)
  have "put (received @ rest) s0 = (Inr evs, s')" using assms(2) Barrier by simp
  from flush_on_course [OF assms(1) this, of d]
  have "on_course put s0 received (process_capture_message d put m w) received"
    unfolding Barrier by (auto simp: on_course_def Let_def)
  then show ?thesis using Barrier by auto
qed

lemma fold_on_course:
  "on_course put s0 done w received \<Longrightarrow> put (received @ records_of ms @ rest) s0 = (Inr evs, s') \<Longrightarrow>
   \<exists>done'. on_course put s0 done' (fold (process_capture_message d put) ms w) (received @ records_of ms)"
proof (induction ms arbitrary: "done" w received)
  case Nil
  then show ?case by auto
next
  case (Cons m ms)
  have "put (received @ records_of [m] @ records_of ms @ rest) s0 = (Inr evs, s')"
    using Cons.prems(2) by (cases m) simp_all
  from process_on_course [OF Cons.prems(1) this] obtain done1 where
    "on_course put s0 done1 (process_capture_message d put m w) (received @ records_of [m])" by blast
  from Cons.IH [OF this] Cons.prems(2) show ?case by (cases m) auto
qed

lemma bursts_on_course:
  "on_course put s0 done w received \<Longrightarrow> put (received @ records_of (concat bursts) @ rest) s0 = (Inr evs, s') \<Longrightarrow>
   \<exists>done'. on_course put s0 done' (run_steps (capture_burst d put) w bursts) (received @ records_of (concat bursts))"
proof (induction bursts arbitrary: "done" w received)
  case Nil
  then show ?case by auto
next
  case (Cons b bursts)
  have p: "put (received @ records_of b @ records_of (concat bursts) @ rest) s0 = (Inr evs, s')"
    using Cons.prems(2) by simp
  from fold_on_course [OF Cons.prems(1) p] obtain done1 where
    "on_course put s0 done1 (fold (process_capture_message d put) b w) (received @ records_of b)" by blast
  from flush_on_course [OF this] p
  have "on_course put s0 (received @ records_of b) (capture_burst d put w b) (received @ records_of b)"
    by (simp add: capture_burst_def)
  from Cons.IH [OF this] p show ?case by simp
qed

lemma writer_transparent:
  assumes "put (records_of (concat bursts)) s = (Inr evs, s')"
    and w_def: "w = capture_writer d put bursts (new_writer s)"
  shows "cw_store w = s' \<and> cw_published w = evs \<and> cw_records w = [] \<and> cw_pending_error w = None \<and>
     cw_fatal w = None \<and> (\<forall>r \<in> snd ` set (cw_replies w). r = Inr ())"
proof -
  have "on_course put s [] (new_writer s) []" by (simp add: on_course_def new_writer_def put_Nil)
  from bursts_on_course [OF this, of bursts "[]" evs s' d] assms(1) obtain done' where
    "on_course put s done' (run_steps (capture_burst d put) (new_writer s) bursts) (records_of (concat bursts))"
    by auto
  from flush_on_course [OF this, of "[]" evs s' d] assms(1) show ?thesis
    by (auto simp: w_def capture_writer_def on_course_def)
qed

text \<open>A barrier is answered with success only if everything received since the last barrier is written:
  a failed write stays pending until a barrier reports it.\<close>

lemma flush_accounted:
  assumes "accounted put s0 p0 w received"
  shows "accounted put s0 p0 (flush_capture d put w) received"
proof (cases "cw_pending_error w = None \<and> cw_records w \<noteq> []")
  case True
  then obtain pre evs where pre: "put pre s0 = (Inr evs, cw_store w)" "cw_published w = p0 @ evs"
      "pre @ cw_records w = received"
    using assms by (auto simp: accounted_def)
  obtain res s1 where p: "put (cw_records w) (cw_store w) = (res, s1)" by force
  show ?thesis
  proof (cases res)
    case (Inl e)
    then show ?thesis using True p by (simp add: accounted_def flush_capture_def)
  next
    case (Inr written)
    then have "put received s0 = (Inr (evs @ written), s1)"
      using put_split [of pre "cw_records w" s0] pre p by blast
    then show ?thesis using True p Inr pre(2) by (simp add: accounted_def flush_capture_def)
  qed
next
  case False
  then show ?thesis using assms
    by (auto simp: accounted_def flush_capture_def split: prod.split sum.split)
qed

lemma record_accounted:
  assumes "accounted put s0 p0 w received"
  shows "accounted put s0 p0 (process_capture_message d put (Record r) w) (received @ [r])"
proof -
  have "accounted put s0 p0 (w\<lparr>cw_records := cw_records w @ [r]\<rparr>) (received @ [r])"
    using assms by (auto simp: accounted_def)
  then show ?thesis using flush_accounted by (simp add: Let_def)
qed

lemma fold_accounted:
  "accounted put s0 p0 w received \<Longrightarrow>
   accounted put s0 p0 (fold (process_capture_message d put) (map Record rs) w) (received @ rs)"
proof (induction rs arbitrary: w received)
  case (Cons r rs)
  from Cons.IH [OF record_accounted [OF Cons.prems, of d r]] show ?case by simp
qed simp

lemma bursts_accounted:
  "accounted put s0 p0 w received \<Longrightarrow>
   accounted put s0 p0 (run_steps (capture_burst d put) w (map (map Record) rss)) (received @ concat rss)"
proof (induction rss arbitrary: w received)
  case (Cons rs rss)
  have "accounted put s0 p0 (capture_burst d put w (map Record rs)) (received @ rs)"
    unfolding capture_burst_def by (intro flush_accounted fold_accounted Cons.prems)
  from Cons.IH [OF this] show ?case by simp
qed simp

lemma barrier_means_written:
  assumes "cw_pending_error w = None" and "cw_records w = []"
    and w1: "w1 = process_capture_message d put (Barrier k)
                    (fold (process_capture_message d put) (map Record rs)
                       (run_steps (capture_burst d put) w (map (map Record) rss)))"
    and "last (cw_replies w1) = (k, Inr ())"
  shows "\<exists>evs. put (concat rss @ rs) (cw_store w) = (Inr evs, cw_store w1) \<and>
           cw_published w1 = cw_published w @ evs"
proof -
  let ?x = "fold (process_capture_message d put) (map Record rs)
      (run_steps (capture_burst d put) w (map (map Record) rss))"
  have start: "accounted put (cw_store w) (cw_published w) w []"
    using assms(1,2) by (simp add: accounted_def put_Nil)
  have acc: "accounted put (cw_store w) (cw_published w) (flush_capture d put ?x) (concat rss @ rs)"
    by (intro flush_accounted fold_accounted) (rule bursts_accounted [OF start, simplified])
  have "cw_pending_error (flush_capture d put ?x) = None"
    using assms(4) unfolding w1 by (simp add: Let_def split: option.split_asm)
  with acc show ?thesis unfolding w1 by (auto simp: accounted_def Let_def)
qed

end

end
