(* ===== verification/CaptureProperties.thy ===== *)
theory CaptureProperties
  imports Capture StoreDemo
begin

text \<open>
  The properties of output capture: the limit of one execution, and the capture writer on the real store.
\<close>

text \<open>C8: Of everything an execution writes, exactly the first \<open>limit\<close> bytes are captured, in order and in
  non-empty records of that execution; the truncation is recorded once if there was more and never
  otherwise.\<close>

theorem capture_limit:
  fixes xid :: string and limit :: nat
  assumes "output_total outs < 2 ^ 64"
  defines "records \<equiv> fst (capture_all xid limit outs \<lparr>cp_captured = 0, cp_truncated = False\<rparr>)"
  shows "concat (map record_data records) = take limit (output_bytes outs) \<and>
     length (filter is_truncated records) = (if limit < output_total outs then 1 else 0) \<and>
     (\<forall>r \<in> set records. record_execution r = xid \<and> (\<not> is_truncated r \<longrightarrow> record_data r \<noteq> []))"
  unfolding records_def
  using capture_all_general [of "\<lparr>cp_captured = 0, cp_truncated = False\<rparr>" outs limit xid] assms(1) by simp

theorem capture_limit_witness:
  "concat (map record_data (fst (capture_all ''a'' 3 [(1, Stdout, ''ab''), (2, Stderr, ''cde''), (3, Stdout, ''f'')]
      \<lparr>cp_captured = 0, cp_truncated = False\<rparr>))) = ''abc''"
  using capture_limit [where outs = "[(1, Stdout, ''ab''), (2, Stderr, ''cde''), (3, Stdout, ''f'')]"
      and xid = "''a''" and limit = 3]
  by (simp add: output_total_def output_bytes_def)





end
