(* ===== verification/Supervisor.thy ===== *)
theory Supervisor
  imports Model
begin

text \<open>
  The supervisor process of one execution (\<open>src/supervisor.rs\<close>): it spawns the command in its own
  process group, forwards output and control messages, escalates a cancellation from SIGTERM to SIGKILL,
  and reports the outcome. The \<open>select!\<close> loop is a state machine whose inputs are the branch that
  fires, with what the operating system answered; the tasks beside it are functions over the frames or
  chunks they read.
\<close>

section \<open>Messages\<close>

datatype supervisor_command =
    Spawn command_spec string "(string \<times> string) list" "string option" string nat
  | CancelCommand

datatype supervisor_event =
    SupStarted nat int
  | SupOutput output_stream string
  | SupFinished execution_outcome

datatype internal_event =
    InCancel
  | InDaemonGone
  | InCaptureFailed string

section \<open>The command\<close>

fun build_command :: "command_spec \<Rightarrow> string \<Rightarrow> string list" where
  "build_command (Argv program args) default_shell = program # args"
| "build_command (Shell command shell) default_shell =
     [(case shell of Some s \<Rightarrow> s | None \<Rightarrow> default_shell), ''-c'', command]"

definition decode_supervisor_stdin :: "base64 \<Rightarrow> string option \<Rightarrow> bytes option result" where
  "decode_supervisor_stdin B v =
     (case v of None \<Rightarrow> Inr None | Some s \<Rightarrow> bind_res (decode_stdin B s) (\<lambda>d. Inr (Some d)))"

text \<open>The first frame must be a spawn request; \<open>None\<close> is the end of input before it.\<close>

definition first_command :: "supervisor_command result option \<Rightarrow> supervisor_command result" where
  "first_command frame =
     (case frame of
        None \<Rightarrow> Inl (Protocol ''supervisor received no spawn request'')
      | Some (Inl e) \<Rightarrow> Inl e
      | Some (Inr CancelCommand) \<Rightarrow> Inl (Protocol ''the first supervisor command must be spawn'')
      | Some (Inr c) \<Rightarrow> Inr c)"

section \<open>The main loop\<close>

datatype signal = SIGTERM | SIGKILL

datatype exit_status = ExitCode int | ExitSignal int

definition status_code :: "exit_status \<Rightarrow> int option" where
  "status_code s = (case s of ExitCode c \<Rightarrow> Some c | ExitSignal _ \<Rightarrow> None)"

definition status_signal :: "exit_status \<Rightarrow> int option" where
  "status_signal s = (case s of ExitCode _ \<Rightarrow> None | ExitSignal n \<Rightarrow> Some n)"

record sup_loop =
  sl_cancelled :: bool
  sl_daemon_gone :: bool
  sl_interrupted_reason :: "string option"
  sl_kill_deadline :: bool
  sl_exited :: "exit_status option"
  sl_signals :: "signal list"
  sl_status :: "exit_status option"

definition sup_start :: sup_loop where
  "sup_start = \<lparr>sl_cancelled = False, sl_daemon_gone = False, sl_interrupted_reason = None,
     sl_kill_deadline = False, sl_exited = None, sl_signals = [], sl_status = None\<rparr>"

text \<open>What fires: the child's exit (its status or the failure of \<open>wait\<close>, and whether the process group
  still has a member), a message with the answer of \<open>terminate\<close> should it be called, the closed message
  channel, the kill deadline.\<close>

datatype sup_input =
    ChildExit "exit_status result" bool
  | Message internal_event "unit result"
  | ChannelClosed
  | DeadlineFired

definition request_stop :: "sup_loop \<Rightarrow> sup_loop" where
  "request_stop l =
     (if sl_cancelled l then l
      else l\<lparr>sl_cancelled := True, sl_signals := sl_signals l @ [SIGTERM], sl_kill_deadline := True\<rparr>)"

fun sup_step :: "sup_loop \<Rightarrow> sup_input \<Rightarrow> sup_loop result" where
  "sup_step l (ChildExit status alive) =
     (if sl_exited l \<noteq> None then Inr l
      else bind_res status (\<lambda>st.
        if \<not> sl_kill_deadline l \<or> \<not> alive then Inr (l\<lparr>sl_status := Some st\<rparr>)
        else Inr (l\<lparr>sl_exited := Some st\<rparr>)))"
| "sup_step l (Message InCancel answer) =
     (if sl_cancelled l then Inr l
      else bind_res answer (\<lambda>_. Inr (request_stop l)))"
| "sup_step l (Message InDaemonGone answer) = Inr (request_stop (l\<lparr>sl_daemon_gone := True\<rparr>))"
| "sup_step l (Message (InCaptureFailed reason) answer) =
     Inr (request_stop (l\<lparr>sl_interrupted_reason := Some reason\<rparr>))"
| "sup_step l ChannelClosed = Inr l"
| "sup_step l DeadlineFired =
     (if \<not> sl_kill_deadline l then Inr l
      else Inr (l\<lparr>sl_signals := sl_signals l @ [SIGKILL], sl_kill_deadline := False,
                  sl_status := sl_exited l, sl_exited := None\<rparr>))"

text \<open>The loop runs until a status breaks it or an error leaves the function.\<close>

fun sup_loop_run :: "sup_loop \<Rightarrow> sup_input list \<Rightarrow> sup_loop result" where
  "sup_loop_run l [] = Inr l"
| "sup_loop_run l (i # is) =
     (if sl_status l \<noteq> None then Inr l else bind_res (sup_step l i) (\<lambda>l'. sup_loop_run l' is))"

text \<open>The outcome reported after the loop; nobody is told when the daemon is gone.\<close>

definition sup_outcome :: "sup_loop \<Rightarrow> exit_status \<Rightarrow> execution_outcome option" where
  "sup_outcome l status =
     (if sl_daemon_gone l then None
      else Some (case sl_interrupted_reason l of
          Some reason \<Rightarrow> OutcomeInterrupted reason
        | None \<Rightarrow>
            if sl_cancelled l then OutcomeCancelled (status_signal status)
            else case status_code status of
                Some code \<Rightarrow> Exited code
              | None \<Rightarrow> Signaled (case status_signal status of Some n \<Rightarrow> n | None \<Rightarrow> 0)))"

section \<open>The tasks beside the loop\<close>

text \<open>\<open>accepted\<close> is how many messages the loop still takes before it drops its receiver.\<close>

fun read_controls :: "nat \<Rightarrow> supervisor_command result list \<Rightarrow> internal_event list" where
  "read_controls accepted [] = (if accepted = 0 then [] else [InDaemonGone])"
| "read_controls accepted (Inr CancelCommand # frames) =
     (if accepted = 0 then [] else InCancel # read_controls (accepted - 1) frames)"
| "read_controls accepted (_ # frames) =
     (if accepted = 0 then [] else [InCaptureFailed ''invalid supervisor control message''])"

definition OUTPUT_CHUNK_BYTES :: nat where
  "OUTPUT_CHUNK_BYTES = 16 * 1024"

text \<open>The reads of one pipe, up to the first empty read or error. A read fills at most the buffer.\<close>

fun capture_stream ::
  "base64 \<Rightarrow> output_stream \<Rightarrow> bytes result list \<Rightarrow> supervisor_event list \<times> string option" where
  "capture_stream B stream [] = ([], None)"
| "capture_stream B stream (Inl e # reads) = ([], Some (case e of Io m \<Rightarrow> m | _ \<Rightarrow> []))"
| "capture_stream B stream (Inr chunk # reads) =
     (if chunk = [] then ([], None)
      else case capture_stream B stream reads of
        (evs, err) \<Rightarrow> (SupOutput stream (b64_encode B chunk) # evs, err))"

datatype outgoing = OutEvent supervisor_event | OutFlush nat

text \<open>\<open>write_events\<close>: each message comes with whether the write or flush succeeded; the result is the
  events written, the flushes acknowledged, and whether the daemon was found gone.\<close>

fun write_events :: "(outgoing \<times> bool) list \<Rightarrow> supervisor_event list \<times> nat list \<times> bool" where
  "write_events [] = ([], [], False)"
| "write_events ((OutEvent ev, ok) # rest) =
     (if \<not> ok then ([], [], True)
      else case write_events rest of (evs, acks, gone) \<Rightarrow> (ev # evs, acks, gone))"
| "write_events ((OutFlush k, ok) # rest) =
     (if \<not> ok then ([], [], True)
      else case write_events rest of (evs, acks, gone) \<Rightarrow> (evs, k # acks, gone))"

section \<open>The invariant of the loop\<close>

text \<open>SIGTERM is sent once, with the cancellation; the deadline is armed between SIGTERM and SIGKILL, so
  SIGKILL is sent at most once and only after SIGTERM; while the leader is gone and its group is not,
  the deadline is armed.\<close>

definition sup_inv :: "sup_loop \<Rightarrow> bool" where
  "sup_inv l \<longleftrightarrow>
     sl_signals l = (if \<not> sl_cancelled l then [] else if sl_kill_deadline l then [SIGTERM] else [SIGTERM, SIGKILL]) \<and>
     (sl_kill_deadline l \<longrightarrow> sl_cancelled l) \<and>
     (sl_exited l \<noteq> None \<longrightarrow> sl_kill_deadline l) \<and>
     ((sl_daemon_gone l \<or> sl_interrupted_reason l \<noteq> None) \<longrightarrow> sl_cancelled l)"

lemma sup_start_inv: "sup_inv sup_start"
  by (simp add: sup_inv_def sup_start_def)

lemma request_stop_inv:
  "sup_inv l \<Longrightarrow> sup_inv (request_stop l)"
  "sup_inv l \<Longrightarrow> sup_inv (request_stop (l\<lparr>sl_daemon_gone := True\<rparr>))"
  "sup_inv l \<Longrightarrow> sup_inv (request_stop (l\<lparr>sl_interrupted_reason := Some reason\<rparr>))"
  by (auto simp: sup_inv_def request_stop_def)

lemma sup_step_inv: "sup_inv l \<Longrightarrow> sup_step l i = Inr l' \<Longrightarrow> sup_inv l'"
proof (induction l i rule: sup_step.induct)
  case (1 l status alive)
  then show ?case by (auto simp: sup_inv_def bind_res_Inr_iff split: if_split_asm)
next
  case (2 l answer)
  then show ?case by (auto simp: bind_res_Inr_iff request_stop_inv split: if_split_asm)
next
  case (6 l)
  then show ?case by (auto simp: sup_inv_def split: if_split_asm)
qed (auto simp: request_stop_inv)

definition sup_total_step :: "sup_loop \<Rightarrow> sup_input \<Rightarrow> sup_loop" where
  "sup_total_step l i =
     (if sl_status l \<noteq> None then l else case sup_step l i of Inl e \<Rightarrow> l | Inr l' \<Rightarrow> l')"

interpretation sup_machine: invariant_machine sup_total_step sup_inv
  by unfold_locales (auto simp: sup_total_step_def dest: sup_step_inv split: sum.split)

lemma sup_loop_run_steps: "sup_loop_run l is = Inr l' \<Longrightarrow> run_steps sup_total_step l is = l'"
proof (induction "is" arbitrary: l)
  case (Cons i "is")
  show ?case
  proof (cases "sl_status l = None")
    case True
    then show ?thesis using Cons by (auto simp: bind_res_Inr_iff sup_total_step_def)
  next
    case False
    have stuck: "run_steps sup_total_step l js = l" for js
      using False by (induction js) (auto simp: sup_total_step_def)
    have "l' = l" using False Cons.prems by simp
    then show ?thesis using stuck [of "i # is"] by metis
  qed
qed simp

text \<open>How the loop can have ended.\<close>

definition quiet_end :: "sup_loop \<Rightarrow> sup_input \<Rightarrow> bool" where
  "quiet_end l i \<longleftrightarrow> (\<exists>st. i = ChildExit (Inr st) False)"

lemma sup_child_exit_ends:
  assumes "sup_step l (ChildExit status alive) = Inr l1" and "sl_status l1 \<noteq> None" and "sl_status l = None"
  shows "\<exists>st. status = Inr st \<and> (\<not> sl_kill_deadline l \<or> \<not> alive) \<and> l1 = l\<lparr>sl_status := Some st\<rparr>"
proof (cases "sl_exited l")
  case None
  obtain st where st: "status = Inr st" using assms(1) None by (cases status) auto
  show ?thesis
    using assms None unfolding st by (cases "sl_kill_deadline l \<and> alive") auto
next
  case (Some a)
  then show ?thesis using assms by simp
qed

lemma sup_run_ends:
  "sup_inv l \<Longrightarrow> sl_status l = None \<Longrightarrow> sup_loop_run l is = Inr l' \<Longrightarrow> sl_status l' \<noteq> None \<Longrightarrow>
   sl_cancelled l' \<Longrightarrow> SIGKILL \<in> set (sl_signals l') \<or> (\<exists>st. ChildExit (Inr st) False \<in> set is)"
proof (induction "is" arbitrary: l)
  case (Cons i "is")
  obtain l1 where s: "sup_step l i = Inr l1" "sup_loop_run l1 is = Inr l'"
    using Cons.prems by (auto simp: bind_res_Inr_iff)
  have inv1: "sup_inv l1" using sup_step_inv [OF Cons.prems(1) s(1)] .
  show ?case
  proof (cases "sl_status l1 = None")
    case True
    then show ?thesis using Cons.IH [OF inv1 True s(2)] Cons.prems(4,5) by auto
  next
    case False
    then have l': "l' = l1" using s(2) by (cases "is") auto
    show ?thesis
    proof (cases i)
      case (ChildExit status alive)
      have "\<exists>st. status = Inr st \<and> (\<not> sl_kill_deadline l \<or> \<not> alive) \<and> l1 = l\<lparr>sl_status := Some st\<rparr>"
        by (rule sup_child_exit_ends [OF s(1) [unfolded ChildExit] False Cons.prems(2)])
      then obtain st where st: "status = Inr st" "\<not> sl_kill_deadline l \<or> \<not> alive" "l1 = l\<lparr>sl_status := Some st\<rparr>"
        by blast
      show ?thesis
      proof (cases alive)
        case True
        then show ?thesis using st inv1 Cons.prems(5) l' by (simp add: sup_inv_def)
      next
        case False
        then show ?thesis using ChildExit st(1) by auto
      qed
    next
      case (Message m answer)
      then have "sl_status l1 = sl_status l"
        using s(1) by (cases m) (auto simp: request_stop_def bind_res_Inr_iff split: if_split_asm)
      then show ?thesis using False Cons.prems(2) by simp
    next
      case ChannelClosed
      then show ?thesis using s(1) False Cons.prems(2) by simp
    next
      case DeadlineFired
      then show ?thesis using s(1) False Cons.prems(2) l' by (auto split: if_split_asm)
    qed
  qed
qed simp

section \<open>Progress of the loop\<close>

text \<open>Once a stop is requested, the deadline and one report of the leader's exit end the loop, in either
  order.\<close>

lemma sup_stop_progress:
  assumes "sup_inv l" and "sl_status l = None" and "sl_kill_deadline l" and "sl_exited l = None"
  shows "\<exists>l'. sup_loop_run l [ChildExit (Inr st) alive, DeadlineFired] = Inr l' \<and> sl_status l' = Some st"
    and "\<exists>l'. sup_loop_run l [DeadlineFired, ChildExit (Inr st) alive] = Inr l' \<and> sl_status l' = Some st"
  using assms by simp_all

section \<open>What the tasks deliver\<close>

lemma capture_stream_lossless:
  assumes "b64_ok B" and "[] \<notin> set chunks"
  shows "capture_stream B stream (map Inr chunks @ [Inr []]) =
     (map (\<lambda>c. SupOutput stream (b64_encode B c)) chunks, None)"
  using assms(2) by (induction chunks) auto

lemma read_controls_no_cancel_lost:
  assumes "length (filter (\<lambda>f. f = Inr CancelCommand) frames) < accepted" and "set frames \<subseteq> {Inr CancelCommand}"
  shows "read_controls accepted frames = replicate (length frames) InCancel @ [InDaemonGone]"
  using assms by (induction accepted frames rule: read_controls.induct) auto

section \<open>The whole run\<close>

text \<open>What the world answers during one run: the frame with the request, the spawn (its pid when it
  has one), whether the event channel still takes the start and the end message, what the pipes
  deliver and in which order the two capture tasks get to send, the events of the loop, and how the
  task that feeds standard input ends.\<close>

datatype stdin_end = StdinDone | StdinBrokenPipe | StdinIo string | StdinPanic string

record supervisor_world =
  sw_first :: "supervisor_command result option"
  sw_spawn :: "string + nat option"
  sw_takes_start :: bool
  sw_stdout :: "bytes result list"
  sw_stderr :: "bytes result list"
  sw_turns :: "bool list"
  sw_inputs :: "sup_input list"
  sw_stdin :: stdin_end
  sw_flushes_end :: bool

text \<open>Both capture tasks send into one channel; \<open>True\<close> lets the first one go.\<close>

fun interleave :: "bool list \<Rightarrow> 'a list \<Rightarrow> 'a list \<Rightarrow> 'a list" where
  "interleave _ [] ys = ys"
| "interleave _ xs [] = xs"
| "interleave [] xs ys = xs @ ys"
| "interleave (b # bs) (x # xs) (y # ys) =
     (if b then x # interleave bs xs (y # ys) else y # interleave bs (x # xs) ys)"

definition join_stdin :: "stdin_end \<Rightarrow> unit result" where
  "join_stdin s =
     (case s of
        StdinDone \<Rightarrow> Inr ()
      | StdinBrokenPipe \<Rightarrow> Inr ()
      | StdinIo m \<Rightarrow> Inl (Io m)
      | StdinPanic m \<Rightarrow> Inl (Protocol (''stdin writer task failed: '' @ m)))"

definition send_and_flush :: "bool \<Rightarrow> supervisor_event \<Rightarrow> supervisor_event list \<times> unit result" where
  "send_and_flush taken ev =
     (if taken then ([ev], Inr ()) else ([], Inl (Protocol ''supervisor event writer stopped'')))"

text \<open>\<open>pid as i32\<close>.\<close>

definition wrap_i32 :: "int \<Rightarrow> int" where
  "wrap_i32 v = (v + 2 ^ 31) mod 2 ^ 32 - 2 ^ 31"

text \<open>The events handed to the writer, and the result of \<open>run\<close>; \<open>None\<close> while the loop goes on.\<close>

definition supervise :: "base64 \<Rightarrow> supervisor_world \<Rightarrow> supervisor_event list \<times> unit result option" where
  "supervise B w =
     (let outputs = interleave (sw_turns w) (fst (capture_stream B Stdout (sw_stdout w)))
                      (fst (capture_stream B Stderr (sw_stderr w))) in
      case sup_loop_run sup_start (sw_inputs w) of
        Inl e \<Rightarrow> (outputs, Some (Inl e))
      | Inr l \<Rightarrow>
          (case sl_status l of
             None \<Rightarrow> (outputs, None)
           | Some status \<Rightarrow>
               (case join_stdin (sw_stdin w) of
                  Inl e \<Rightarrow> (outputs, Some (Inl e))
                | Inr _ \<Rightarrow>
                    (case sup_outcome l status of
                       None \<Rightarrow> (outputs, Some (Inr ()))
                     | Some outcome \<Rightarrow>
                         (case send_and_flush (sw_flushes_end w) (SupFinished outcome) of
                            (evs, r) \<Rightarrow> (outputs @ evs, Some r))))))"

definition supervisor_run :: "base64 \<Rightarrow> supervisor_world \<Rightarrow> supervisor_event list \<times> unit result option" where
  "supervisor_run B w =
     (case first_command (sw_first w) of
        Inl e \<Rightarrow> ([], Some (Inl e))
      | Inr CancelCommand \<Rightarrow> ([], Some (Inl (Protocol ''the first supervisor command must be spawn'')))
      | Inr (Spawn command cwd env stdin shell grace) \<Rightarrow>
          (case decode_supervisor_stdin B stdin of
             Inl e \<Rightarrow> ([], Some (Inl e))
           | Inr _ \<Rightarrow>
               (case sw_spawn w of
                  Inl m \<Rightarrow> (case send_and_flush (sw_flushes_end w) (SupFinished (SpawnError m)) of
                     (evs, r) \<Rightarrow> (evs, Some r))
                | Inr None \<Rightarrow> ([], Some (Inl (Protocol ''spawned command has no pid'')))
                | Inr (Some pid) \<Rightarrow>
                    if \<not> sw_takes_start w then ([], Some (Inl (Protocol ''supervisor event writer stopped'')))
                    else case supervise B w of (evs, r) \<Rightarrow> (SupStarted pid (wrap_i32 (int pid)) # evs, r))))"

subsection \<open>What it reports\<close>

fun stream_bytes :: "base64 \<Rightarrow> output_stream \<Rightarrow> supervisor_event list \<Rightarrow> bytes" where
  "stream_bytes B s [] = []"
| "stream_bytes B s (SupOutput t d # evs) =
     (if t = s then (case b64_decode B d of Inr bs \<Rightarrow> bs | Inl _ \<Rightarrow> []) else []) @ stream_bytes B s evs"
| "stream_bytes B s (_ # evs) = stream_bytes B s evs"

lemma stream_bytes_append: "stream_bytes B s (xs @ ys) = stream_bytes B s xs @ stream_bytes B s ys"
  by (induction xs rule: stream_bytes.induct) auto

text \<open>The output events of one stream; interleaving two of them keeps the bytes of each.\<close>

definition of_stream :: "output_stream \<Rightarrow> supervisor_event list \<Rightarrow> bool" where
  "of_stream s evs \<longleftrightarrow> (\<forall>e \<in> set evs. \<exists>d. e = SupOutput s d)"

lemma of_stream_simps [simp]:
  "of_stream s []" "of_stream s (e # evs) \<longleftrightarrow> (\<exists>d. e = SupOutput s d) \<and> of_stream s evs"
  by (simp_all add: of_stream_def)

lemma stream_bytes_other: "of_stream t evs \<Longrightarrow> t \<noteq> s \<Longrightarrow> stream_bytes B s evs = []"
  by (induction evs) auto

lemma stream_bytes_interleave:
  "of_stream Stdout xs \<Longrightarrow> of_stream Stderr ys \<Longrightarrow>
   stream_bytes B s (interleave bs xs ys) = (if s = Stdout then stream_bytes B s xs else stream_bytes B s ys)"
proof (induction bs xs ys rule: interleave.induct)
  case (1 bs ys)
  then show ?case using stream_bytes_other [of Stderr ys s B] by (cases s) simp_all
next
  case (2 bs x xs)
  then show ?case using stream_bytes_other [of Stdout "x # xs" s B] by (cases s) auto
next
  case (3 x xs y ys)
  then show ?case
    using stream_bytes_other [of Stdout "x # xs" s B] stream_bytes_other [of Stderr "y # ys" s B]
    by (cases s) (auto simp: stream_bytes_append)
next
  case (4 b bs x xs y ys)
  then obtain d e where "x = SupOutput Stdout d" "y = SupOutput Stderr e" by auto
  then show ?case using 4 by (cases b; cases s) auto
qed

lemma capture_stream_of_stream: "of_stream s (fst (capture_stream B s reads))"
  by (induction B s reads rule: capture_stream.induct) (auto split: prod.split)

lemma stream_bytes_chunks:
  "b64_ok B \<Longrightarrow> stream_bytes B s (map (\<lambda>c. SupOutput s (b64_encode B c)) chunks) = concat chunks"
  by (induction chunks) (auto simp: b64_ok_def)

end
