(* ===== verification/SupervisorProperties.thy ===== *)
theory SupervisorProperties
  imports Supervisor
begin

text \<open>
  The properties of the supervisor: what it reports of a command, how it escalates a cancellation, and
  that a requested stop ends its loop.
\<close>





text \<open>C7: However messages, exits and timers arrive, the process group is sent SIGTERM at most once and
  SIGKILL at most once and only after it, both only after a stop was asked for; and when the loop ends
  after a stop, either SIGKILL was sent or the leader was seen to exit with no member of its group left.\<close>

theorem supervisor_escalates:
  assumes "sup_loop_run sup_start inputs = Inr l"
  shows "sl_signals l \<in> {[], [SIGTERM], [SIGTERM, SIGKILL]} \<and>
     (sl_signals l \<noteq> [] \<longleftrightarrow> sl_cancelled l) \<and>
     ((sl_daemon_gone l \<or> sl_interrupted_reason l \<noteq> None) \<longrightarrow> sl_cancelled l) \<and>
     (sl_cancelled l \<and> sl_status l \<noteq> None \<longrightarrow>
        SIGKILL \<in> set (sl_signals l) \<or> (\<exists>st. ChildExit (Inr st) False \<in> set inputs))"
proof -
  have inv: "sup_inv l"
    using sup_machine.run_inv [OF sup_start_inv] sup_loop_run_steps [OF assms] by metis
  have "SIGKILL \<in> set (sl_signals l) \<or> (\<exists>st. ChildExit (Inr st) False \<in> set inputs)"
    if "sl_cancelled l" "sl_status l \<noteq> None"
    by (rule sup_run_ends [OF sup_start_inv _ assms that(2,1)]) (simp add: sup_start_def)
  then show ?thesis using inv by (auto simp: sup_inv_def split: if_split_asm)
qed

theorem supervisor_escalates_witness:
  "\<exists>l. sup_loop_run sup_start [Message InCancel (Inr ()), ChildExit (Inr (ExitSignal 15)) True, DeadlineFired] = Inr l \<and>
     sl_signals l = [SIGTERM, SIGKILL] \<and> sl_status l = Some (ExitSignal 15) \<and>
     (SIGKILL \<in> set (sl_signals l) \<or>
      (\<exists>st. ChildExit (Inr st) False \<in> set [Message InCancel (Inr ()), ChildExit (Inr (ExitSignal 15)) True, DeadlineFired]))"
proof -
  obtain l where l: "sup_loop_run sup_start
      [Message InCancel (Inr ()), ChildExit (Inr (ExitSignal 15)) True, DeadlineFired] = Inr l"
    "sl_signals l = [SIGTERM, SIGKILL]" "sl_status l = Some (ExitSignal 15)" "sl_cancelled l"
    by (simp add: sup_start_def request_stop_def)
  then show ?thesis using supervisor_escalates [OF l(1)] by blast
qed

text \<open>A requested stop ends the loop: whatever has happened before, the grace timer and the exit of
  the leader, in either order, give a final status.\<close>

theorem supervisor_stops:
  assumes "sup_loop_run sup_start inputs = Inr l" and "sl_cancelled l"
  shows "\<exists>l1 l2. sup_loop_run l [ChildExit (Inr st) alive, DeadlineFired] = Inr l1 \<and> sl_status l1 \<noteq> None \<and>
     sup_loop_run l [DeadlineFired, ChildExit (Inr st) alive] = Inr l2 \<and> sl_status l2 \<noteq> None"
proof -
  have inv: "sup_inv l"
    using sup_machine.run_inv [OF sup_start_inv] sup_loop_run_steps [OF assms(1)] by metis
  show ?thesis
    by (cases "sl_status l"; cases "sl_exited l"; cases "sl_kill_deadline l")
      (use inv assms(2) in \<open>auto simp: sup_inv_def\<close>)
qed

theorem supervisor_stops_witness:
  "\<exists>l1 l2. sup_loop_run (request_stop sup_start) [ChildExit (Inr (ExitCode 0)) True, DeadlineFired] = Inr l1 \<and>
     sl_status l1 \<noteq> None \<and>
     sup_loop_run (request_stop sup_start) [DeadlineFired, ChildExit (Inr (ExitCode 0)) True] = Inr l2 \<and>
     sl_status l2 \<noteq> None"
  by (rule supervisor_stops [where inputs = "[Message InCancel (Inr ())]"])
    (simp_all add: sup_start_def request_stop_def)

end
