(* ===== verification/Settings.thy ===== *)
theory Settings
  imports Errors
begin

text \<open>
  Paths and settings of the daemon (\<open>src/config.rs\<close>). The environment, the platform directories, the
  configuration file and its TOML reading are arguments.
\<close>

record app_paths =
  ap_state_dir :: string
  ap_runtime_dir :: string
  ap_config_file :: string
  ap_database :: string
  ap_socket :: string
  ap_lock_file :: string
  ap_sessions_dir :: string

record project_dirs =
  pd_data_local_dir :: string
  pd_config_dir :: string

definition discover ::
  "(string \<Rightarrow> string option) \<Rightarrow> project_dirs option \<Rightarrow> string \<Rightarrow> nat \<Rightarrow> app_paths result" where
  "discover var_os project temp_dir uid =
     bind_res (ok_or (error.Config ''could not determine platform directories'') project) (\<lambda>p.
       let state_dir = (case var_os ''LOOMTERM_STATE_DIR'' of Some d \<Rightarrow> d | None \<Rightarrow> pd_data_local_dir p);
           runtime_dir = (case var_os ''LOOMTERM_RUNTIME_DIR'' of
               Some d \<Rightarrow> d
             | None \<Rightarrow> (case var_os ''XDG_RUNTIME_DIR'' of
                   Some x \<Rightarrow> path_join x ''loomterm''
                 | None \<Rightarrow> path_join temp_dir (''loomterm-'' @ show_nat uid)));
           config_file = (case var_os ''LOOMTERM_CONFIG'' of
               Some f \<Rightarrow> f | None \<Rightarrow> path_join (pd_config_dir p) ''config.toml'')
       in Inr \<lparr>ap_state_dir = state_dir, ap_runtime_dir = runtime_dir, ap_config_file = config_file,
               ap_database = path_join state_dir ''loom.db'', ap_socket = path_join runtime_dir ''loomd.sock'',
               ap_lock_file = path_join runtime_dir ''loomd.lock'',
               ap_sessions_dir = path_join state_dir ''sessions''\<rparr>)"

record settings =
  se_max_concurrent_executions :: nat
  se_capture_limit_bytes :: nat
  se_retention_days :: nat
  se_retention_bytes :: nat
  se_cancel_grace_ms :: nat
  se_shell :: string
  se_supervisor_path :: "string option"

definition default_settings :: settings where
  "default_settings = \<lparr>se_max_concurrent_executions = 8, se_capture_limit_bytes = 256 * 1024 * 1024,
     se_retention_days = 7, se_retention_bytes = 1024 * 1024 * 1024, se_cancel_grace_ms = 2000,
     se_shell = ''/bin/sh'', se_supervisor_path = None\<rparr>"

text \<open>\<open>content\<close> is \<open>None\<close> when the file does not exist; \<open>toml\<close> fills absent fields with the defaults.\<close>

definition load_settings ::
  "string result option \<Rightarrow> (string \<Rightarrow> string + settings) \<Rightarrow> app_paths \<Rightarrow> settings result" where
  "load_settings content toml paths =
     (case content of
        None \<Rightarrow> Inr default_settings
      | Some source \<Rightarrow>
          bind_res source (\<lambda>text.
            case toml text of
              Inl e \<Rightarrow> Inl (error.Config (ap_config_file paths @ '': '' @ e))
            | Inr s \<Rightarrow>
                if se_max_concurrent_executions s = 0
                then Inl (error.Config ''max_concurrent_executions must be greater than zero'')
                else Inr s))"

text \<open>Whatever the file says, settings that load let at least one execution run.\<close>

lemma load_settings_runs:
  assumes "load_settings content toml paths = Inr s"
  shows "0 < se_max_concurrent_executions s"
proof (cases content)
  case None
  then show ?thesis using assms by (auto simp: load_settings_def default_settings_def)
next
  case (Some source)
  then obtain body where "(case toml body of Inl e \<Rightarrow> Inl (error.Config (ap_config_file paths @ '': '' @ e))
      | Inr s \<Rightarrow> if se_max_concurrent_executions s = 0
          then Inl (error.Config ''max_concurrent_executions must be greater than zero'') else Inr s) = Inr s"
    using assms by (auto simp: load_settings_def bind_res_Inr_iff)
  then show ?thesis by (cases "toml body") (auto split: if_split_asm)
qed

end
