(* ===== verification/Engine.thy ===== *)
theory Engine
  imports Capture Supervisor Settings StoreReconcile
begin

text \<open>
  The execution engine (\<open>ExecutionEngine\<close> in \<open>src/executor.rs\<close>): the tasks that run executions, the
  capture writer, the control channels to the supervisors, cancelling and draining. The engine is a
  state machine. A task is a program counter over \<open>run_execution\<close> with one phase per point where it
  awaits, so steps of tasks, of the writer and of clients interleave at those points; a step that holds
  the \<open>transitions\<close> lock is one step.
\<close>

section \<open>State\<close>

datatype phase =
    AcquireSlot
  | CheckStart
  | SpawnSupervisor
  | ReportSpawnError string
  | Register
  | Reading
  | AwaitFlush bool nat execution_outcome
  | CheckTerminal bool execution_outcome
  | WriteTerminal bool execution_outcome
  | JoinControl
  | AwaitExit
  | PruneStore
  | RunFailed error
  | MarkInterrupted error
  | Cleanup

record run_task =
  rt_request :: execution_request
  rt_cwd :: string
  rt_phase :: phase
  rt_permit :: bool
  rt_control :: "supervisor_command list"
  rt_control_open :: bool
  rt_counters :: capture_counters
  rt_received_finished :: bool

datatype lifecycle = Accepting | Draining | Stopped

text \<open>\<open>en_writer\<close> holds the store, the records the capture writer has taken from its queue, and the
  events sent to the subscribers. \<open>en_handles\<close> lists the tasks with an abort handle. \<open>en_processes\<close> is the map of registered control senders: the sender of
  an identifier is the control channel of its task.\<close>

record engine =
  en_writer :: "database writer"
  en_queue :: "capture_message list"
  en_free :: nat
  en_closed :: bool
  en_processes :: "string list"
  en_tasks :: "string \<rightharpoonup> run_task"
  en_handles :: "string list"
  en_lifecycle :: lifecycle
  en_active :: nat
  en_barriers :: nat

definition new_engine :: "settings \<Rightarrow> database \<Rightarrow> engine" where
  "new_engine S db = \<lparr>en_writer = new_writer db, en_queue = [], en_free = se_max_concurrent_executions S,
     en_closed = False, en_processes = [], en_tasks = Map.empty, en_handles = [], en_lifecycle = Accepting, en_active = 0,
     en_barriers = 0\<rparr>"

definition en_db :: "engine \<Rightarrow> database" where
  "en_db e = cw_store (en_writer e)"

definition set_db :: "database \<Rightarrow> engine \<Rightarrow> engine" where
  "set_db db e = e\<lparr>en_writer := (en_writer e)\<lparr>cw_store := db\<rparr>\<rparr>"

definition notify :: "execution_event \<Rightarrow> engine \<Rightarrow> engine" where
  "notify ev e = e\<lparr>en_writer := (en_writer e)\<lparr>cw_published := cw_published (en_writer e) @ [ev]\<rparr>\<rparr>"

definition report_fatal :: "string \<Rightarrow> engine \<Rightarrow> engine" where
  "report_fatal m e = e\<lparr>en_writer := (en_writer e)\<lparr>cw_fatal := Some m\<rparr>\<rparr>"

definition set_task :: "string \<Rightarrow> run_task \<Rightarrow> engine \<Rightarrow> engine" where
  "set_task xid t e = e\<lparr>en_tasks := (en_tasks e)(xid \<mapsto> t)\<rparr>"

definition goto :: "string \<Rightarrow> run_task \<Rightarrow> phase \<Rightarrow> engine \<Rightarrow> engine" where
  "goto xid t p e = set_task xid (t\<lparr>rt_phase := p\<rparr>) e"

text \<open>Leaving \<open>run_execution\<close> drops the permit.\<close>

definition leave_run :: "string \<Rightarrow> run_task \<Rightarrow> phase \<Rightarrow> engine \<Rightarrow> engine" where
  "leave_run xid t p e =
     set_task xid (t\<lparr>rt_phase := p, rt_permit := False\<rparr>)
       (if rt_permit t then e\<lparr>en_free := en_free e + 1\<rparr> else e)"

text \<open>A send fails once the task that writes to the supervisor's pipe is gone.\<close>

definition control_send :: "supervisor_command \<Rightarrow> run_task \<Rightarrow> unit result \<times> run_task" where
  "control_send c t =
     (if rt_control_open t then (Inr (), t\<lparr>rt_control := rt_control t @ [c]\<rparr>)
      else (Inl (Protocol ''supervisor control writer stopped''), t))"

definition send_to :: "string \<Rightarrow> supervisor_command \<Rightarrow> engine \<Rightarrow> unit result \<times> engine" where
  "send_to xid c e =
     (case en_tasks e xid of
        None \<Rightarrow> (Inl (Protocol ''supervisor control writer stopped''), e)
      | Some t \<Rightarrow> (case control_send c t of (r, t') \<Rightarrow> (r, set_task xid t' e)))"

section \<open>Accepting an execution\<close>

definition new_task :: "execution_request \<Rightarrow> string \<Rightarrow> run_task" where
  "new_task rq cwd = \<lparr>rt_request = rq, rt_cwd = cwd, rt_phase = AcquireSlot, rt_permit = False,
     rt_control = [], rt_control_open = False, rt_counters = \<lparr>cp_captured = 0, cp_truncated = False\<rparr>,
     rt_received_finished = False\<rparr>"

definition engine_execute ::
  "base64 \<Rightarrow> (string \<Rightarrow> string result) \<Rightarrow> int \<Rightarrow> string \<Rightarrow> execution_request \<Rightarrow> engine \<Rightarrow> execution result \<times> engine" where
  "engine_execute B canonicalize now new_id rq e =
     (case bind_res (request_validate B rq) (\<lambda>_.
           if en_lifecycle e \<noteq> Accepting then Inl DaemonDraining
           else bind_res (get_workspace (rq_workspace_id rq) (en_db e)) (\<lambda>workspace.
             bind_res (resolve_cwd canonicalize workspace (rq_cwd rq)) (\<lambda>cwd.
               Inr (rq\<lparr>rq_workspace_id := ws_id workspace\<rparr>, cwd)))) of
        Inl err \<Rightarrow> (Inl err, e)
      | Inr (rq', cwd) \<Rightarrow>
          (case create_execution B now new_id rq' cwd (en_db e) of
             (Inl err, db) \<Rightarrow> (Inl err, set_db db e)
           | (Inr execution, db) \<Rightarrow>
               (Inr execution,
                set_task (ex_id execution) (new_task rq' cwd)
                  (set_db db (e\<lparr>en_active := en_active e + 1, en_handles := en_handles e @ [ex_id execution]\<rparr>)))))"

section \<open>One task\<close>

text \<open>What the world answers when a task goes on: the time; the spawn of the supervisor process; a frame
  of the supervisor (\<open>None\<close> is the end of its output); how the task writing to the supervisor ended; the
  supervisor's exit.\<close>

datatype answer =
    Go int
  | SupervisorSpawned "string + unit"
  | Frame int "supervisor_event result option"
  | ControlEnded "unit result"
  | ControlPanicked string
  | SupervisorExited "string + string"

definition finish_state :: "execution_outcome \<Rightarrow> execution_state" where
  "finish_state out =
     (case out of OutcomeCancelled _ \<Rightarrow> Cancelled | OutcomeInterrupted _ \<Rightarrow> Interrupted | _ \<Rightarrow> Finished)"

definition decode_output :: "base64 \<Rightarrow> string \<Rightarrow> bytes result" where
  "decode_output B s =
     (case b64_decode B s of
        Inl m \<Rightarrow> Inl (Protocol (''invalid supervisor output: '' @ m)) | Inr d \<Rightarrow> Inr d)"

definition run_capture_limit :: "settings \<Rightarrow> run_task \<Rightarrow> nat" where
  "run_capture_limit S t =
     (case rq_capture_limit_bytes (rt_request t) of Some l \<Rightarrow> l | None \<Rightarrow> se_capture_limit_bytes S)"

definition spawn_request :: "settings \<Rightarrow> run_task \<Rightarrow> supervisor_command" where
  "spawn_request S t = Spawn (rq_command (rt_request t)) (rt_cwd t) (rq_env (rt_request t))
     (rq_stdin_base64 (rt_request t)) (se_shell S) (se_cancel_grace_ms S)"

text \<open>Sending a barrier to the capture writer, then waiting for its answer.\<close>

definition send_barrier :: "string \<Rightarrow> run_task \<Rightarrow> bool \<Rightarrow> execution_outcome \<Rightarrow> engine \<Rightarrow> engine" where
  "send_barrier xid t from_event out e =
     goto xid t (AwaitFlush from_event (en_barriers e) out)
       (e\<lparr>en_queue := en_queue e @ [Barrier (en_barriers e)], en_barriers := en_barriers e + 1\<rparr>)"

text \<open>After the loop over the supervisor's frames the control sender is unregistered.\<close>

definition leave_reading :: "string \<Rightarrow> run_task \<Rightarrow> engine \<Rightarrow> engine" where
  "leave_reading xid t e = goto xid t JoinControl (e\<lparr>en_processes := removeAll xid (en_processes e)\<rparr>)"

definition finished_event :: "string \<Rightarrow> run_task \<Rightarrow> bool \<Rightarrow> engine \<Rightarrow> engine" where
  "finished_event xid t from_event e =
     (if from_event then leave_reading xid (t\<lparr>rt_received_finished := True\<rparr>) e else goto xid t PruneStore e)"

fun on_frame :: "settings \<Rightarrow> base64 \<Rightarrow> int \<Rightarrow> string \<Rightarrow> run_task \<Rightarrow> supervisor_event \<Rightarrow> engine \<Rightarrow> engine" where
  "on_frame S B now xid t (SupStarted pid pgid) e =
     (case get_execution now xid (en_db e) of
        Inl err \<Rightarrow> leave_run xid t (RunFailed err) e
      | Inr current \<Rightarrow>
          if is_terminal (ex_state current) then set_task xid (snd (control_send CancelCommand t)) e
          else (case mark_running now xid pid pgid (en_db e) of
              (Inl err, db) \<Rightarrow> leave_run xid t (RunFailed err) (set_db db e)
            | (Inr ev, db) \<Rightarrow> notify ev (set_db db e)))"
| "on_frame S B now xid t (SupOutput stream text) e =
     (case decode_output B text of
        Inl err \<Rightarrow> leave_run xid t (RunFailed err) e
      | Inr bs \<Rightarrow>
          (case capture_output xid now stream bs (run_capture_limit S t) (rt_counters t) of
             (records, counters) \<Rightarrow>
               set_task xid (t\<lparr>rt_counters := counters\<rparr>) (e\<lparr>en_queue := en_queue e @ map Record records\<rparr>)))"
| "on_frame S B now xid t (SupFinished out) e = send_barrier xid t True out e"

definition task_step ::
  "settings \<Rightarrow> base64 \<Rightarrow> display_env \<Rightarrow> string \<Rightarrow> run_task \<Rightarrow> answer \<Rightarrow> engine \<Rightarrow> engine" where
  "task_step S B d xid t a e =
     (case (rt_phase t, a) of
        (AcquireSlot, Go now) \<Rightarrow>
          if en_closed e then leave_run xid t Cleanup e
          else if en_free e = 0 then e
          else goto xid (t\<lparr>rt_permit := True\<rparr>) CheckStart (e\<lparr>en_free := en_free e - 1\<rparr>)
      | (CheckStart, Go now) \<Rightarrow>
          (case get_execution now xid (en_db e) of
             Inl err \<Rightarrow> leave_run xid t (RunFailed err) e
           | Inr current \<Rightarrow>
               if is_terminal (ex_state current) then leave_run xid t Cleanup e
               else goto xid t SpawnSupervisor e)
      | (SpawnSupervisor, SupervisorSpawned (Inl m)) \<Rightarrow> goto xid t (ReportSpawnError m) e
      | (SpawnSupervisor, SupervisorSpawned (Inr _)) \<Rightarrow>
          goto xid (t\<lparr>rt_control := [spawn_request S t], rt_control_open := True\<rparr>) Register e
      | (ReportSpawnError m, Go now) \<Rightarrow>
          (case finish now xid Finished (SpawnError (''could not start loom-supervisor: '' @ m)) (en_db e) of
             (Inl err, db) \<Rightarrow> leave_run xid t (RunFailed err) (set_db db e)
           | (Inr ev, db) \<Rightarrow> leave_run xid t Cleanup (notify ev (set_db db e)))
      | (Register, Go now) \<Rightarrow>
          (case get_execution now xid (en_db e) of
             Inl err \<Rightarrow> leave_run xid t (RunFailed err) e
           | Inr current \<Rightarrow>
               if is_terminal (ex_state current) then goto xid (snd (control_send CancelCommand t)) Reading e
               else goto xid t Reading (e\<lparr>en_processes := List.insert xid (en_processes e)\<rparr>))
      | (Reading, Frame now None) \<Rightarrow> leave_reading xid t e
      | (Reading, Frame now (Some (Inl err))) \<Rightarrow> leave_run xid t (RunFailed err) e
      | (Reading, Frame now (Some (Inr ev))) \<Rightarrow> on_frame S B now xid t ev e
      | (AwaitFlush from_event k out, Go now) \<Rightarrow>
          (case map_of (cw_replies (en_writer e)) k of
             None \<Rightarrow> e
           | Some (Inl err) \<Rightarrow> leave_run xid t (RunFailed err) e
           | Some (Inr _) \<Rightarrow> goto xid t (CheckTerminal from_event out) e)
      | (CheckTerminal from_event out, Go now) \<Rightarrow>
          (case get_execution now xid (en_db e) of
             Inl err \<Rightarrow> leave_run xid t (RunFailed err) e
           | Inr current \<Rightarrow>
               if is_terminal (ex_state current) then finished_event xid t from_event e
               else goto xid t (WriteTerminal from_event out) e)
      | (WriteTerminal from_event out, Go now) \<Rightarrow>
          (case finish now xid (finish_state out) out (en_db e) of
             (Inl err, db) \<Rightarrow> leave_run xid t (RunFailed err) (set_db db e)
           | (Inr ev, db) \<Rightarrow> finished_event xid t from_event (notify ev (set_db db e)))
      | (JoinControl, ControlEnded r) \<Rightarrow>
          (let t' = t\<lparr>rt_control_open := False\<rparr> in
           case r of
             Inr _ \<Rightarrow> goto xid t' AwaitExit e
           | Inl err \<Rightarrow> if rt_received_finished t then goto xid t' AwaitExit e
                        else leave_run xid t' (RunFailed err) e)
      | (JoinControl, ControlPanicked m) \<Rightarrow>
          leave_run xid (t\<lparr>rt_control_open := False\<rparr>)
            (RunFailed (Protocol (''supervisor control task failed: '' @ m))) e
      | (AwaitExit, SupervisorExited (Inl m)) \<Rightarrow> leave_run xid t (RunFailed (Io m)) e
      | (AwaitExit, SupervisorExited (Inr status)) \<Rightarrow>
          if rt_received_finished t then goto xid t PruneStore e
          else send_barrier xid t False
            (OutcomeInterrupted (''loom-supervisor exited without a terminal event: '' @ status)) e
      | (PruneStore, Go now) \<Rightarrow>
          leave_run xid t Cleanup
            (set_db (snd (prune now (se_retention_days S) (se_retention_bytes S) (en_db e))) e)
      | (RunFailed err, Go now) \<Rightarrow>
          (let e' = (case err of StorageUnavailable _ \<Rightarrow> report_fatal (error_display d err) e | _ \<Rightarrow> e) in
           case get_execution now xid (en_db e') of
             Inr current \<Rightarrow>
               if \<not> is_terminal (ex_state current) then goto xid t (MarkInterrupted err) e' else goto xid t Cleanup e'
           | Inl _ \<Rightarrow> goto xid t Cleanup e')
      | (MarkInterrupted err, Go now) \<Rightarrow>
          (case finish now xid Interrupted (OutcomeInterrupted (error_display d err)) (en_db e) of
             (Inr ev, db) \<Rightarrow> goto xid t Cleanup (notify ev (set_db db e))
           | (Inl _, db) \<Rightarrow> goto xid t Cleanup (set_db db e))
      | (Cleanup, Go now) \<Rightarrow>
          e\<lparr>en_processes := removeAll xid (en_processes e), en_tasks := (en_tasks e)(xid := None),
            en_handles := removeAll xid (en_handles e), en_active := en_active e - 1\<rparr>
      | _ \<Rightarrow> e)"

section \<open>Cancelling and draining\<close>

definition engine_cancel :: "int \<Rightarrow> string \<Rightarrow> engine \<Rightarrow> unit result \<times> engine" where
  "engine_cancel now xid e =
     (case get_execution now xid (en_db e) of
        Inl err \<Rightarrow> (Inl err, e)
      | Inr execution \<Rightarrow>
          (case ex_state execution of
             Queued \<Rightarrow>
               (case finish now xid Cancelled (OutcomeCancelled None) (en_db e) of
                  (Inl err, db) \<Rightarrow> (Inl err, set_db db e)
                | (Inr ev, db) \<Rightarrow>
                    (let e1 = notify ev (set_db db e) in
                     (Inr (), if xid \<in> set (en_processes e) then snd (send_to xid CancelCommand e1) else e1)))
           | Running \<Rightarrow>
               if xid \<notin> set (en_processes e)
               then (Inl (Protocol (''execution '' @ xid @ '' is running but has no supervisor handle'')), e)
               else send_to xid CancelCommand e
           | _ \<Rightarrow> (Inl (AlreadyTerminal xid), e)))"

text \<open>The wait that follows, one look at the store per wake-up; \<open>None\<close> when it goes on waiting.\<close>

definition cancel_poll :: "int \<Rightarrow> string \<Rightarrow> engine \<Rightarrow> execution result option" where
  "cancel_poll now xid e =
     (case get_execution now xid (en_db e) of
        Inl err \<Rightarrow> Some (Inl err)
      | Inr execution \<Rightarrow> if is_terminal (ex_state execution) then Some (Inr execution) else None)"

definition send_all :: "supervisor_command \<Rightarrow> string list \<Rightarrow> engine \<Rightarrow> engine" where
  "send_all c xids e = fold (\<lambda>xid e. snd (send_to xid c e)) xids e"

definition drain_begin :: "(nat \<Rightarrow> int) \<Rightarrow> engine \<Rightarrow> unit result \<times> engine" where
  "drain_begin clock e =
     (if en_lifecycle e = Stopped then (Inr (), e)
      else
        let e1 = e\<lparr>en_lifecycle := Draining, en_closed := True\<rparr> in
        case cancel_queued clock (en_db e1) of
          (Inl err, db) \<Rightarrow> (Inl err, set_db db e1)
        | (Inr evs, db) \<Rightarrow> (Inr (), send_all CancelCommand (en_processes e1) (fold notify evs (set_db db e1))))"

text \<open>The end of draining: the tasks still there after the timeout are aborted, which drops their permits
  and control channels. (The map keeps the handles of the aborted tasks; they are not used again.)\<close>

definition holds_permit :: "engine \<Rightarrow> string \<Rightarrow> bool" where
  "holds_permit e xid = (case en_tasks e xid of None \<Rightarrow> False | Some t \<Rightarrow> rt_permit t)"

definition drain_end :: "engine \<Rightarrow> engine" where
  "drain_end e =
     (if en_active e = 0 then e\<lparr>en_lifecycle := Stopped\<rparr>
      else e\<lparr>en_processes := [],
             en_tasks := (\<lambda>xid. if xid \<in> set (en_handles e) then None else en_tasks e xid),
             en_handles := [],
             en_active := en_active e - length (en_handles e),
             en_free := en_free e + length (filter (holds_permit e) (en_handles e)),
             en_lifecycle := Stopped\<rparr>)"

section \<open>Waiting for output\<close>

datatype recv = Recv execution_event | RecvLagged | RecvClosed

text \<open>The receives up to the timeout; \<open>False\<close> when the timeout comes first.\<close>

fun wait_notified :: "string \<Rightarrow> nat \<Rightarrow> recv list \<Rightarrow> bool" where
  "wait_notified xid after_seq [] = False"
| "wait_notified xid after_seq (Recv ev # rs) =
     (if ev_execution_id ev = xid \<and> ev_seq ev > after_seq then True else wait_notified xid after_seq rs)"
| "wait_notified xid after_seq (RecvLagged # rs) = wait_notified xid after_seq rs"
| "wait_notified xid after_seq (RecvClosed # rs) = True"

definition wait_response_of :: "read_output_response \<Rightarrow> bool \<Rightarrow> wait_response" where
  "wait_response_of ro timed_out =
     \<lparr>wr_execution = ro_execution ro, wr_events = ro_events ro, wr_next_seq = ro_next_seq ro,
      wr_has_more = ro_has_more ro, wr_timed_out = timed_out\<rparr>"

definition DEFAULT_READ_BYTES :: nat where
  "DEFAULT_READ_BYTES = 1024 * 1024"

text \<open>\<open>db\<close> and \<open>db'\<close> are the store at the first and at the second reading.\<close>

definition engine_wait ::
  "base64 \<Rightarrow> int \<Rightarrow> string \<Rightarrow> nat \<Rightarrow> nat option \<Rightarrow> database \<Rightarrow> recv list \<Rightarrow> database \<Rightarrow> wait_response result" where
  "engine_wait B now xid after_seq max_bytes db received db' =
     (let limit = (case max_bytes of Some m \<Rightarrow> m | None \<Rightarrow> DEFAULT_READ_BYTES) in
      bind_res (read_output B now xid after_seq limit db) (\<lambda>first.
        if is_terminal (ex_state (ro_execution first)) \<or> ro_events first \<noteq> []
        then Inr (wait_response_of first False)
        else bind_res (read_output B now xid after_seq limit db') (\<lambda>output.
               Inr (wait_response_of output (\<not> wait_notified xid after_seq received)))))"

section \<open>The engine as a machine\<close>

datatype engine_input =
    EnExecute "string \<Rightarrow> string result" int string execution_request
  | EnTask string answer
  | EnControlGone string
  | EnWriterTake
  | EnWriterIdle
  | EnCancel int string
  | EnDrainBegin "nat \<Rightarrow> int"
  | EnDrainEnd

definition writer_take :: "display_env \<Rightarrow> base64 \<Rightarrow> engine \<Rightarrow> engine" where
  "writer_take d B e =
     (case en_queue e of
        [] \<Rightarrow> e
      | m # ms \<Rightarrow> e\<lparr>en_queue := ms,
          en_writer := process_capture_message d (append_capture_batch B) m (en_writer e)\<rparr>)"

definition writer_idle :: "display_env \<Rightarrow> base64 \<Rightarrow> engine \<Rightarrow> engine" where
  "writer_idle d B e =
     (if en_queue e = [] then e\<lparr>en_writer := flush_capture d (append_capture_batch B) (en_writer e)\<rparr> else e)"

text \<open>A drawn identifier is never that of a live task.\<close>

fun engine_step :: "settings \<Rightarrow> base64 \<Rightarrow> display_env \<Rightarrow> engine \<Rightarrow> engine_input \<Rightarrow> engine" where
  "engine_step S B d e (EnExecute canonicalize now new_id rq) =
     (if en_tasks e new_id \<noteq> None then e else snd (engine_execute B canonicalize now new_id rq e))"
| "engine_step S B d e (EnTask xid a) =
     (case en_tasks e xid of None \<Rightarrow> e | Some t \<Rightarrow> task_step S B d xid t a e)"
| "engine_step S B d e (EnControlGone xid) =
     (case en_tasks e xid of None \<Rightarrow> e | Some t \<Rightarrow> set_task xid (t\<lparr>rt_control_open := False\<rparr>) e)"
| "engine_step S B d e EnWriterTake = writer_take d B e"
| "engine_step S B d e EnWriterIdle = writer_idle d B e"
| "engine_step S B d e (EnCancel now xid) = snd (engine_cancel now xid e)"
| "engine_step S B d e (EnDrainBegin clock) = snd (drain_begin clock e)"
| "engine_step S B d e EnDrainEnd = (if en_lifecycle e = Draining then drain_end e else e)"

end
