(* ===== verification/EngineSlots.thy ===== *)
theory EngineSlots
  imports Engine
begin

text \<open>
  The permits of the engine: at most \<open>max_concurrent_executions\<close> tasks are between taking a permit and
  leaving \<open>run_execution\<close>, and \<open>active\<close> counts the tasks.
\<close>

definition in_run :: "phase \<Rightarrow> bool" where
  "in_run p = (case p of AcquireSlot \<Rightarrow> False | RunFailed _ \<Rightarrow> False | MarkInterrupted _ \<Rightarrow> False | Cleanup \<Rightarrow> False
     | _ \<Rightarrow> True)"

lemma in_run_simps [simp]:
  "\<not> in_run AcquireSlot" "\<not> in_run (RunFailed e)" "\<not> in_run (MarkInterrupted e)" "\<not> in_run Cleanup"
  "in_run CheckStart" "in_run SpawnSupervisor" "in_run (ReportSpawnError m)" "in_run Register" "in_run Reading"
  "in_run (AwaitFlush f k out)" "in_run (CheckTerminal f out)" "in_run (WriteTerminal f out)" "in_run JoinControl"
  "in_run AwaitExit" "in_run PruneStore"
  by (simp_all add: in_run_def)

definition permits :: "(string \<rightharpoonup> run_task) \<Rightarrow> string set" where
  "permits tasks = {xid. \<exists>t. tasks xid = Some t \<and> rt_permit t}"

definition slots_inv :: "settings \<Rightarrow> engine \<Rightarrow> bool" where
  "slots_inv S e \<longleftrightarrow>
     distinct (en_handles e) \<and> set (en_handles e) = dom (en_tasks e) \<and>
     en_free e + card (permits (en_tasks e)) = se_max_concurrent_executions S \<and>
     en_active e = length (en_handles e) \<and>
     (\<forall>xid t. en_tasks e xid = Some t \<longrightarrow> rt_permit t = in_run (rt_phase t))"

lemma permits_update:
  "permits (T(xid \<mapsto> t)) = (if rt_permit t then insert xid (permits T) else permits T - {xid})"
  by (auto simp: permits_def)

lemma permits_remove: "permits (T(xid := None)) = permits T - {xid}"
  by (auto simp: permits_def)

lemma permits_sub: "permits T \<subseteq> dom T"
  by (auto simp: permits_def)

lemma finite_permits: "finite (dom T) \<Longrightarrow> finite (permits T)"
  by (rule finite_subset [OF permits_sub])

lemma finite_dom: "slots_inv S e \<Longrightarrow> finite (dom (en_tasks e))"
  by (metis List.finite_set slots_inv_def)

lemma permits_mem: "T xid = Some t \<Longrightarrow> xid \<in> permits T \<longleftrightarrow> rt_permit t"
  by (auto simp: permits_def)

lemma slots_phase: "slots_inv S e \<Longrightarrow> en_tasks e xid = Some t \<Longrightarrow> in_run (rt_phase t) = rt_permit t"
  by (simp add: slots_inv_def)

section \<open>What the invariant does not look at\<close>

lemma slots_frame [simp]:
  "slots_inv S (e\<lparr>en_writer := w\<rparr>) = slots_inv S e"
  "slots_inv S (e\<lparr>en_queue := qu\<rparr>) = slots_inv S e"
  "slots_inv S (e\<lparr>en_closed := c\<rparr>) = slots_inv S e"
  "slots_inv S (e\<lparr>en_processes := ps\<rparr>) = slots_inv S e"
  "slots_inv S (e\<lparr>en_lifecycle := l\<rparr>) = slots_inv S e"
  "slots_inv S (e\<lparr>en_barriers := n\<rparr>) = slots_inv S e"
  "slots_inv S (set_db db e) = slots_inv S e"
  "slots_inv S (notify ev e) = slots_inv S e"
  "slots_inv S (report_fatal m e) = slots_inv S e"
  by (simp_all add: slots_inv_def set_db_def notify_def report_fatal_def)

lemma tasks_frame [simp]:
  "en_tasks (set_db db e) = en_tasks e" "en_tasks (notify ev e) = en_tasks e" "en_tasks (report_fatal m e) = en_tasks e"
  "en_free (set_db db e) = en_free e" "en_free (notify ev e) = en_free e" "en_free (report_fatal m e) = en_free e"
  "en_tasks (set_task xid t e) = (en_tasks e)(xid \<mapsto> t)" "en_free (set_task xid t e) = en_free e"
  by (simp_all add: set_db_def notify_def report_fatal_def set_task_def)

section \<open>The moves of a task\<close>

lemma slots_set_task:
  assumes "slots_inv S e" and "en_tasks e xid = Some t" and "rt_permit t' = rt_permit t"
    and "in_run (rt_phase t') = rt_permit t"
  shows "slots_inv S (set_task xid t' e)"
proof -
  have "permits ((en_tasks e)(xid \<mapsto> t')) = permits (en_tasks e)"
    using assms(2,3) by (auto simp: permits_def)
  moreover have "dom ((en_tasks e)(xid \<mapsto> t')) = dom (en_tasks e)" using assms(2) by auto
  ultimately show ?thesis using assms by (auto simp: slots_inv_def set_task_def)
qed

lemma slots_goto:
  assumes "slots_inv S e" and "en_tasks e xid = Some t" and "rt_permit t' = rt_permit t" and "in_run p = rt_permit t"
  shows "slots_inv S (goto xid t' p e)"
  unfolding goto_def using assms by (intro slots_set_task) simp_all

lemma slots_acquire:
  assumes "slots_inv S e" and "en_tasks e xid = Some t" and "\<not> rt_permit t" and "0 < en_free e" and "in_run p"
  shows "slots_inv S (goto xid (t\<lparr>rt_permit := True\<rparr>) p (e\<lparr>en_free := en_free e - 1\<rparr>))"
proof -
  have "finite (permits (en_tasks e))" by (rule finite_permits [OF finite_dom [OF assms(1)]])
  moreover have "xid \<notin> permits (en_tasks e)" using assms(2,3) by (simp add: permits_mem)
  moreover have "dom ((en_tasks e)(xid \<mapsto> u)) = dom (en_tasks e)" for u using assms(2) by auto
  ultimately show ?thesis
    using assms(1,4,5) by (auto simp: slots_inv_def goto_def set_task_def permits_update)
qed

lemma slots_leave:
  assumes "slots_inv S e" and "en_tasks e xid = Some t" and "rt_permit t' = rt_permit t" and "\<not> in_run p"
  shows "slots_inv S (leave_run xid t' p e)"
proof -
  have fin: "finite (permits (en_tasks e))" by (rule finite_permits [OF finite_dom [OF assms(1)]])
  have d: "dom ((en_tasks e)(xid \<mapsto> u)) = dom (en_tasks e)" for u using assms(2) by auto
  show ?thesis
  proof (cases "rt_permit t")
    case True
    then have "xid \<in> permits (en_tasks e)" using assms(2) by (simp add: permits_mem)
    then have "Suc (card (permits (en_tasks e) - {xid})) = card (permits (en_tasks e))"
      by (rule card_Suc_Diff1 [OF fin])
    then show ?thesis using True assms d
      by (auto simp: slots_inv_def leave_run_def set_task_def permits_update)
  next
    case False
    then have "permits (en_tasks e) - {xid} = permits (en_tasks e)" using assms(2) by (auto simp: permits_def)
    then show ?thesis using False assms d
      by (auto simp: slots_inv_def leave_run_def set_task_def permits_update)
  qed
qed

lemma slots_cleanup:
  assumes "slots_inv S e" and "en_tasks e xid = Some t" and "\<not> rt_permit t"
  shows "slots_inv S (e\<lparr>en_processes := ps, en_tasks := (en_tasks e)(xid := None),
     en_handles := removeAll xid (en_handles e), en_active := en_active e - 1\<rparr>)"
proof -
  have "permits ((en_tasks e)(xid := None)) = permits (en_tasks e)"
    using assms(2,3) by (auto simp: permits_def)
  moreover have "xid \<in> set (en_handles e)" using assms(1,2) by (auto simp: slots_inv_def)
  then have "length (removeAll xid (en_handles e)) = length (en_handles e) - 1"
    using assms(1) by (simp add: slots_inv_def distinct_remove1_removeAll [symmetric] length_remove1)
  ultimately show ?thesis using assms(1) by (auto simp: slots_inv_def distinct_removeAll)
qed

lemma slots_barrier:
  assumes "slots_inv S e" and "en_tasks e xid = Some t" and "rt_permit t"
  shows "slots_inv S (send_barrier xid t f out e)"
  unfolding send_barrier_def using assms by (intro slots_goto [where t = t]) simp_all

lemma slots_leave_reading:
  assumes "slots_inv S e" and "en_tasks e xid = Some t" and "rt_permit t"
  shows "slots_inv S (leave_reading xid t e)"
  unfolding leave_reading_def using assms by (auto intro!: slots_goto [where t = t])

lemma slots_finished:
  assumes "slots_inv S e" and "en_tasks e xid = Some t" and "rt_permit t"
  shows "slots_inv S (finished_event xid t f e)"
  unfolding finished_event_def leave_reading_def using assms by (auto intro!: slots_goto [where t = t])

lemma control_send_simps [simp]:
  "rt_phase (snd (control_send c t)) = rt_phase t" "rt_permit (snd (control_send c t)) = rt_permit t"
  "rt_control_open (snd (control_send c t)) = rt_control_open t"
  "rt_received_finished (snd (control_send c t)) = rt_received_finished t"
  by (simp_all add: control_send_def)

lemma slots_on_frame:
  assumes "slots_inv S e" and "en_tasks e xid = Some t" and "rt_permit t" and "rt_phase t = Reading"
  shows "slots_inv S (on_frame S B now xid t ev e)"
  using assms
  by (cases ev)
    (auto intro!: slots_leave [where t = t] slots_set_task [where t = t] slots_barrier split: sum.split prod.split)

lemma slots_task_step:
  assumes inv: "slots_inv S e" and t: "en_tasks e xid = Some t"
  shows "slots_inv S (task_step S B d xid t a e)"
proof -
  have p: "rt_permit t = in_run (rt_phase t)" using inv t by (simp add: slots_inv_def)
  note rules = slots_leave [where t = t] slots_goto [where t = t] slots_barrier slots_finished slots_leave_reading slots_on_frame
  show ?thesis
  proof (cases "rt_phase t = AcquireSlot \<or> rt_phase t = Cleanup")
    case True
    then show ?thesis
      using inv t p slots_acquire [OF inv t, of CheckStart] slots_cleanup [OF inv t]
      by (cases a) (auto simp: task_step_def intro!: slots_leave [where t = t])
  next
    case False
    then show ?thesis
      using inv t p
      by (cases "rt_phase t"; cases a)
        (auto simp: task_step_def Let_def split: sum.split prod.split option.split error.split intro!: rules)
  qed
qed

section \<open>The other steps\<close>

lemma slots_new_task:
  assumes "slots_inv S e" and "en_tasks e xid = None" and "\<not> rt_permit t" and "\<not> in_run (rt_phase t)"
  shows "slots_inv S (set_task xid t (e\<lparr>en_active := en_active e + 1, en_handles := en_handles e @ [xid]\<rparr>))"
proof -
  have "permits ((en_tasks e)(xid \<mapsto> t)) = permits (en_tasks e)"
    using assms(2,3) by (auto simp: permits_def)
  moreover have "xid \<notin> dom (en_tasks e)" using assms(2) by auto
  ultimately show ?thesis using assms by (auto simp: slots_inv_def set_task_def)
qed

lemma slots_send_to:
  assumes "slots_inv S e"
  shows "slots_inv S (snd (send_to xid c e))"
proof (cases "en_tasks e xid")
  case None
  then show ?thesis using assms by (simp add: send_to_def)
next
  case (Some t)
  then have "in_run (rt_phase t) = rt_permit t" using assms by (simp add: slots_inv_def)
  then show ?thesis using Some assms by (auto simp: send_to_def split_beta intro: slots_set_task)
qed

lemma slots_send_all: "slots_inv S e \<Longrightarrow> slots_inv S (send_all c xids e)"
  unfolding send_all_def by (induction xids arbitrary: e) (simp_all add: slots_send_to)

lemma slots_notify_all: "slots_inv S (fold notify evs e) = slots_inv S e"
  by (induction evs arbitrary: e) simp_all

lemma slots_execute:
  assumes "slots_inv S e" and "en_tasks e nid = None"
  shows "slots_inv S (snd (engine_execute B can now nid rq e))"
proof -
  have "slots_inv S (set_task nid (new_task rq' cwd) (set_db db (e\<lparr>en_active := en_active e + 1, en_handles := en_handles e @ [nid]\<rparr>)))" for rq' cwd db
  proof -
    have "set_task nid (new_task rq' cwd) (set_db db (e\<lparr>en_active := en_active e + 1, en_handles := en_handles e @ [nid]\<rparr>)) =
        set_db db (set_task nid (new_task rq' cwd) (e\<lparr>en_active := en_active e + 1, en_handles := en_handles e @ [nid]\<rparr>))"
      by (simp add: set_db_def set_task_def)
    then show ?thesis using slots_new_task [OF assms, of "new_task rq' cwd"] by (simp add: new_task_def)
  qed
  moreover have "ex_id ex = nid" if "create_execution B now nid rq' cwd db = (Inr ex, db')" for ex rq' cwd db db'
    using that by (auto simp: create_execution_def get_execution_def execution_from_row_def bind_res_Inr_iff
        split: sum.split_asm option.split_asm dest!: find_execution_Some)
  ultimately show ?thesis
    using assms by (auto simp: engine_execute_def split: sum.split prod.split)
qed

lemma slots_drain_end:
  assumes "slots_inv S e"
  shows "slots_inv S (drain_end e)"
proof -
  have p: "permits (en_tasks e) = set (filter (holds_permit e) (en_handles e))"
    using assms by (auto simp: slots_inv_def permits_def holds_permit_def split: option.splits)
  have "distinct (filter (holds_permit e) (en_handles e))" using assms by (simp add: slots_inv_def)
  then have "card (permits (en_tasks e)) = length (filter (holds_permit e) (en_handles e))"
    unfolding p by (rule distinct_card)
  moreover have "(\<lambda>xid. if xid \<in> set (en_handles e) then None else en_tasks e xid) = Map.empty"
    using assms by (auto simp: slots_inv_def fun_eq_iff)
  ultimately show ?thesis using assms by (auto simp: slots_inv_def drain_end_def permits_def)
qed

lemma slots_step: "slots_inv S e \<Longrightarrow> slots_inv S (engine_step S B d e i)"
proof (induction S B d e i rule: engine_step.induct)
  case (3 S B d e xid)
  then show ?case by (auto simp: slots_phase intro!: slots_set_task split: option.split)
next
  case (6 S B d e now xid)
  then show ?case
    by (auto simp: engine_cancel_def Let_def slots_send_to split: sum.split execution_state.split prod.split)
next
  case (7 S B d e clock)
  then show ?case
    by (auto simp: drain_begin_def Let_def slots_send_all slots_notify_all split: sum.split prod.split)
qed (auto simp: slots_execute slots_task_step writer_take_def writer_idle_def slots_drain_end
    split: option.split list.split)

lemma slots_new: "slots_inv S (new_engine S db)"
  by (simp add: slots_inv_def new_engine_def permits_def)

interpretation slots_machine: invariant_machine "engine_step S B d" "slots_inv S"
  by unfold_locales (rule slots_step)

end
