(* ===== verification/StoreLive.thy ===== *)
theory StoreLive
  imports StoreReconcile StorePrune
begin

text \<open>
  What the writers of the store leave of the other executions: which rows they keep, which states they
  change. An execution is \<open>live\<close> while its row exists and is not terminal. These are the laws the
  engine needs of its store.
\<close>

definition live :: "string \<Rightarrow> database \<Rightarrow> bool" where
  "live xid db \<longleftrightarrow> (case find_execution xid db of None \<Rightarrow> False | Some x \<Rightarrow> \<not> terminal_str (xr_state x))"

lemma live_iff: "live xid db \<longleftrightarrow> (\<exists>x. find_execution xid db = Some x \<and> \<not> terminal_str (xr_state x))"
  by (simp add: live_def split: option.split)

lemma get_execution_live:
  assumes "db_inv db" and "get_execution now xid db = Inr ex"
  shows "live xid db \<longleftrightarrow> \<not> is_terminal (ex_state ex)"
proof -
  obtain x where x: "find_execution xid db = Some x" "execution_from_row now x = Inr ex"
    using assms(2) by (auto simp: get_execution_def split: option.split_asm)
  obtain s where "xr_state x = state_str s" using execution_state_valid [OF assms(1) x(1)] by auto
  then show ?thesis using x by (auto simp: live_def execution_from_row_def)
qed

lemma get_execution_some:
  assumes "db_inv db" and "find_execution xid db = Some x"
  shows "\<exists>ex. get_execution now xid db = Inr ex \<and> ex_state ex = row_state x \<and> ex_last_seq ex = xr_last_seq x"
proof -
  obtain s where "xr_state x = state_str s" using execution_state_valid [OF assms] by auto
  then show ?thesis using assms(2) by (simp add: get_execution_def execution_from_row_def)
qed

section \<open>One law per writer\<close>

lemma keeps_inv:
  "finish now xid st out db = (r, db') \<Longrightarrow> db_inv db \<Longrightarrow> db_inv db'"
  "mark_running now xid pid pgid db = (r, db') \<Longrightarrow> db_inv db \<Longrightarrow> db_inv db'"
  "append_capture_batch B rs db = (evs, db') \<Longrightarrow> db_inv db \<Longrightarrow> db_inv db'"
  "create_execution B now nid rq cwd db = (ex, db') \<Longrightarrow> db_inv db \<Longrightarrow> db_inv db'"
  "prune now days bytes db = (n, db') \<Longrightarrow> db_inv db \<Longrightarrow> db_inv db'"
  using finish_inv [of db now xid st out] mark_running_inv [of db now xid pid pgid]
    append_capture_batch_inv [of db B rs] create_execution_inv [of db B now nid rq cwd] prune_inv [of db now days bytes]
  by simp_all

lemma finish_others:
  assumes "db_inv db" and "finish now xid st out db = (r, db')" and "yid \<noteq> xid"
  shows "find_execution yid db' = find_execution yid db"
proof (cases "live xid db")
  case True
  then obtain x where x: "find_execution xid db = Some x" "\<not> terminal_str (xr_state x)" by (auto simp: live_iff)
  then show ?thesis using finish_live [OF assms(1) x, of now st out] assms(2,3) by auto
next
  case False
  then show ?thesis using finish_refused [of xid db] assms(2)
    by (cases "find_execution xid db") (auto simp: live_def)
qed

lemma finish_live_others: "db_inv db \<Longrightarrow> finish now xid st out db = (r, db') \<Longrightarrow> yid \<noteq> xid \<Longrightarrow> live yid db' = live yid db"
  by (simp add: live_def finish_others)

lemma finish_not_live: "db_inv db \<Longrightarrow> \<not> live xid db \<Longrightarrow> \<exists>e. finish now xid st out db = (Inl e, db)"
  using finish_refused [of xid db] by (cases "find_execution xid db") (auto simp: live_def)

lemma mark_running_live:
  assumes "db_inv db" and "mark_running now xid pid pgid db = (r, db')"
  shows "live yid db' = live yid db"
proof (cases "find_execution xid db")
  case None
  then show ?thesis using mark_running_refused(1) assms(2) by auto
next
  case (Some x)
  show ?thesis
  proof (cases "xr_state x = ''queued''")
    case True
    have nt: "\<not> terminal_str ''running''" "\<not> terminal_str ''queued''" by (simp_all add: terminal_str_def)
    then show ?thesis using mark_running_queued [OF assms(1) Some True, of now pid pgid] assms(2) Some True
      by (auto simp: live_def set_running_def)
  next
    case False
    then show ?thesis using mark_running_refused(2) [OF Some False] assms(2) by auto
  qed
qed

lemma mark_running_not_live: "\<not> live xid db \<Longrightarrow> \<exists>e. mark_running now xid pid pgid db = (Inl e, db)"
  using mark_running_refused [of xid db] by (cases "find_execution xid db") (auto simp: live_def terminal_str_def)

lemma append_event_state:
  assumes "db_inv db" and "legal_append xid E F" and "append_event xid E F db = Inr (seq, db')"
    and "\<And>n x. xr_state (F n x) = xr_state x"
  shows "map_option xr_state (find_execution yid db') = map_option xr_state (find_execution yid db)"
proof (rule append_event_effect [OF assms(1-3)])
  fix x
  assume "find_execution xid db = Some x"
    and "\<And>yid. find_execution yid db' = (if yid = xid then Some (F seq x) else find_execution yid db)"
  then show ?thesis by (cases "yid = xid") (simp_all add: assms(4))
qed

lemma append_record_state:
  assumes "db_inv db" and "append_record B r db = Inr (ev, db')"
  shows "map_option xr_state (find_execution yid db') = map_option xr_state (find_execution yid db)"
  using assms
  by (cases r) (auto simp: bind_res_Inr_iff intro: append_event_state [OF _ legal_output] append_event_state [OF _ legal_truncated])

lemma append_records_state:
  "db_inv db \<Longrightarrow> append_records B rs db = Inr (evs, db') \<Longrightarrow>
   map_option xr_state (find_execution yid db') = map_option xr_state (find_execution yid db)"
proof (induction rs arbitrary: db evs)
  case (Cons r rs)
  then obtain e db1 es where r: "append_record B r db = Inr (e, db1)" "append_records B rs db1 = Inr (es, db')"
    by (auto simp: bind_res_Inr_iff)
  show ?case
    using Cons.IH [OF append_record_inv [OF Cons.prems(1) r(1)] r(2)] append_record_state [OF Cons.prems(1) r(1), of yid]
    by simp
qed simp

lemma live_state: "live xid db \<longleftrightarrow> (case map_option xr_state (find_execution xid db) of None \<Rightarrow> False | Some s \<Rightarrow> \<not> terminal_str s)"
  by (simp add: live_def split: option.split)

lemma append_capture_batch_state:
  assumes "db_inv db" and "append_capture_batch B rs db = (r, db')"
  shows "map_option xr_state (find_execution yid db') = map_option xr_state (find_execution yid db)"
proof (cases r)
  case (Inl e)
  then show ?thesis using assms(2) append_capture_batch_error by metis
next
  case (Inr evs)
  then show ?thesis using assms append_records_state [OF assms(1), of B rs evs db']
    by (auto simp: append_capture_batch_def transaction_Inr_iff split: if_split_asm)
qed

lemma append_capture_batch_live:
  "db_inv db \<Longrightarrow> append_capture_batch B rs db = (r, db') \<Longrightarrow> live yid db' = live yid db"
  by (simp add: live_state append_capture_batch_state)

lemma prune_rows:
  assumes inv: "db_inv db" and r: "prune now days bytes db = (r, db')"
  shows "find_execution yid db' = find_execution yid db \<and> event_log B yid db' = event_log B yid db \<or>
     find_execution yid db' = None \<and> \<not> live yid db"
proof (rule prune_effect [OF inv, of now days bytes])
  fix dbe k db1
  assume "prune now days bytes db = (Inr (length (db_executions db) - length (db_executions db1)), db1)"
    and e: "set (db_executions dbe) = {x \<in> set (db_executions db). \<not> expired (prune_cutoff now days) x}"
    and s: "set (db_executions db1) = set (db_executions dbe) - set (take k (prune_order dbe))"
    and o: "set (prune_order dbe) = {x \<in> set (db_executions dbe). terminal_row x}"
    and k: "keeps_rest db db1"
  then have db1: "db1 = db'" and inv': "db_inv db'" using r prune_inv [OF inv, of now days bytes] by auto
  have gone: "terminal_str (xr_state x)" if "x \<in> set (db_executions db)" "x \<notin> set (db_executions db')" for x
    using that e s o db1 by (auto simp: expired_def terminal_row_def dest: in_set_takeD)
  show ?thesis
  proof (cases "find_execution yid db'")
    case (Some y)
    then have y: "y \<in> set (db_executions db')" "xr_id y = yid" by (auto dest: find_execution_Some)
    then have "find_execution yid db = Some y" "events_of db' yid = events_of db yid"
      using k db1 find_execution_iff [OF inv] by (auto simp: keeps_rest_def)
    then show ?thesis using Some by (simp add: event_log_def)
  next
    case None
    have "\<not> live yid db"
    proof
      assume "live yid db"
      then obtain x where x: "find_execution yid db = Some x" "\<not> terminal_str (xr_state x)" by (auto simp: live_iff)
      then have "x \<in> set (db_executions db')" "xr_id x = yid" using gone by (auto dest: find_execution_Some)
      then show False using None by (auto simp: find_execution_None_iff)
    qed
    then show ?thesis using None by simp
  qed
qed

lemma prune_live: "db_inv db \<Longrightarrow> prune now days bytes db = (r, db') \<Longrightarrow> live yid db' = live yid db"
  using prune_rows [of db now days bytes r db' yid undefined] by (auto simp: live_def)

lemma create_execution_rows:
  assumes "create_execution B now nid rq cwd db = (r, db')"
  shows "(\<exists>e. r = Inl e) \<and> db' = db \<or> find_execution nid db = None \<and>
     (\<forall>yid. find_execution yid db' = (if yid = nid then Some (new_execution_row nid now rq cwd) else find_execution yid db)) \<and>
     events_of db' = events_of db \<and> (\<exists>ex. r = Inr ex \<and> ex_id ex = nid)"
proof (cases "bind_res (request_validate B rq) (\<lambda>_. bind_res (check_initiator_session rq db) (\<lambda>_.
    insert_execution (new_execution_row nid now rq cwd) db))")
  case (Inl e)
  then show ?thesis using assms by (auto simp: create_execution_def)
next
  case (Inr db1)
  then have i: "insert_execution (new_execution_row nid now rq cwd) db = Inr db1"
    by (auto simp: bind_res_Inr_iff)
  have d: "db' = db1" using assms Inr by (simp add: create_execution_def)
  have nf: "find_execution nid db = None"
    and d1: "db1 = db\<lparr>db_executions := db_executions db @ [new_execution_row nid now rq cwd]\<rparr>"
    using insert_execution_Inr [OF i] by (simp_all add: new_execution_row_def)
  have f: "find_execution yid db1 = (if yid = nid then Some (new_execution_row nid now rq cwd) else find_execution yid db)" for yid
    using nf by (auto simp: d1 find_execution_def find_key_snoc new_execution_row_def split: option.split)
  have "\<exists>ex. get_execution now nid db1 = Inr ex \<and> ex_id ex = nid"
    by (simp add: get_execution_def f execution_from_row_def new_execution_row_def parse_state_def)
  then show ?thesis using assms Inr nf f by (auto simp: create_execution_def d1 events_of_def)
qed

lemma finish_all_log:
  "db_inv db \<Longrightarrow> yid \<notin> set ids \<Longrightarrow> event_log B yid (snd (finish_all clock st out ids db)) = event_log B yid db"
proof (induction ids arbitrary: clock db)
  case (Cons xid ids)
  obtain r db1 where f: "finish (clock 0) xid st out db = (r, db1)" by force
  show ?case
  proof (cases r)
    case (Inl e)
    then have "db1 = db" using f by (auto simp: finish_def transaction_Inl_iff)
    then show ?thesis using f Inl by simp
  next
    case (Inr ev)
    have "db_inv db1" using finish_inv [OF Cons.prems(1), of "clock 0" xid st out] f by simp
    then have "event_log B yid (snd (finish_all (\<lambda>i. clock (Suc i)) st out ids db1)) = event_log B yid db1"
      using Cons by simp
    moreover have "event_log B yid db1 = event_log B yid db"
      using finish_log [OF Cons.prems(1), of "clock 0" xid st out ev db1] f Inr Cons.prems(2) by auto
    moreover obtain r2 db2 where "finish_all (\<lambda>i. clock (Suc i)) st out ids db1 = (r2, db2)" by force
    ultimately show ?thesis using f Inr by (simp split: sum.split)
  qed
qed simp

lemma cancel_queued_rows:
  assumes inv: "db_inv db"
  shows "\<exists>evs db'. cancel_queued clock db = (Inr evs, db') \<and> db_inv db' \<and>
     (\<forall>yid. live yid db' \<longrightarrow> live yid db) \<and>
     (\<forall>yid x. find_execution yid db' = Some x \<longrightarrow> xr_state x \<noteq> ''queued'') \<and>
     (\<forall>yid. find_execution yid db' = None \<longleftrightarrow> find_execution yid db = None) \<and>
     (\<forall>yid B. \<not> live yid db \<longrightarrow> event_log B yid db' = event_log B yid db)"
proof -
  let ?ids = "ids_in_states [''queued''] db"
  have st: "\<forall>s \<in> set [''queued'']. \<not> terminal_str s" by (simp add: terminal_str_def)
  note ids = ids_in_states_live [OF inv st]
  obtain evs db' where r: "finish_all clock Cancelled (OutcomeCancelled None) ?ids db = (Inr evs, db')"
      "all_finished ?ids Cancelled (OutcomeCancelled None) db evs db'"
    using finish_all_effect [OF inv ids] by blast
  have t: "terminal_str ''cancelled''" by (simp add: terminal_str_def)
  have mem: "live yid db" if "yid \<in> set ?ids" for yid using ids(2) that by (auto simp: live_iff)
  have f: "yid \<in> set ?ids \<and> (\<exists>y. find_execution yid db' = Some y \<and> xr_state y = ''cancelled'') \<or>
      yid \<notin> set ?ids \<and> find_execution yid db' = find_execution yid db" for yid
    using all_finishedD [OF r(2), of yid] by (cases "yid \<in> set ?ids") auto
  have "live yid db" if "live yid db'" for yid
    using f [of yid] mem that t by (auto simp: live_def)
  moreover have "xr_state x \<noteq> ''queued''" if "find_execution yid db' = Some x" for yid x
    using f [of yid] ids_in_states_mem [OF inv, of yid x "[''queued'']"] that by auto
  moreover have "find_execution yid db' = None \<longleftrightarrow> find_execution yid db = None" for yid
    using f [of yid] mem [of yid] by (auto simp: live_def)
  moreover have "event_log B yid db' = event_log B yid db" if "\<not> live yid db" for yid B
    using finish_all_log [OF inv, of yid ?ids B clock Cancelled "OutcomeCancelled None"] mem that r(1) by auto
  moreover have "db_inv db'" using finish_all_inv [OF inv] r(1) by (metis prod.sel(2))
  moreover have "cancel_queued clock db = (Inr evs, db')" using r(1) by (simp add: cancel_queued_def)
  ultimately show ?thesis by blast
qed

end
