(* ===== verification/EngineCancel.thy ===== *)
theory EngineCancel
  imports EngineSlots StoreLive
begin

text \<open>
  No cancellation is lost: whatever the interleaving, a supervisor whose execution is over in the store
  (cancelled while it was queued, or pruned since) has been sent the cancel command. The \<open>transitions\<close>
  lock makes registering a supervisor and cancelling its execution exclude each other; the invariant
  says what that buys.
\<close>

section \<open>Projections\<close>

lemma db_frame [simp]:
  "en_db (set_db db e) = db" "en_db (notify ev e) = en_db e" "en_db (report_fatal m e) = en_db e"
  "en_db (set_task xid t e) = en_db e" "en_db (goto xid t p e) = en_db e" "en_db (leave_run xid t p e) = en_db e"
  "en_db (leave_reading xid t e) = en_db e"
  "en_db (send_barrier xid t f out e) = en_db e" "en_db (finished_event xid t f e) = en_db e"
  "en_db (e\<lparr>en_queue := qu\<rparr>) = en_db e" "en_db (e\<lparr>en_free := n\<rparr>) = en_db e"
  "en_db (e\<lparr>en_processes := ps\<rparr>) = en_db e" "en_db (e\<lparr>en_tasks := T\<rparr>) = en_db e"
  "en_db (e\<lparr>en_handles := hs\<rparr>) = en_db e" "en_db (e\<lparr>en_active := n\<rparr>) = en_db e" "en_db (e\<lparr>en_closed := c\<rparr>) = en_db e"
  "en_db (e\<lparr>en_lifecycle := l\<rparr>) = en_db e" "en_db (e\<lparr>en_barriers := n\<rparr>) = en_db e"
  by (simp_all add: en_db_def set_db_def notify_def report_fatal_def set_task_def goto_def leave_run_def
      send_barrier_def finished_event_def leave_reading_def)

lemma processes_frame [simp]:
  "en_processes (set_db db e) = en_processes e" "en_processes (notify ev e) = en_processes e"
  "en_processes (report_fatal m e) = en_processes e" "en_processes (set_task xid t e) = en_processes e"
  "en_processes (goto xid t p e) = en_processes e" "en_processes (leave_run xid t p e) = en_processes e"
  "en_processes (send_barrier xid t f out e) = en_processes e"
  "en_processes (finished_event xid t f e) = (if f then removeAll xid (en_processes e) else en_processes e)"
  "en_processes (leave_reading xid t e) = removeAll xid (en_processes e)"
  by (simp_all add: set_db_def notify_def report_fatal_def set_task_def goto_def leave_run_def send_barrier_def
      finished_event_def leave_reading_def)

lemma tasks_moves [simp]:
  "en_tasks (goto xid t p e) = (en_tasks e)(xid \<mapsto> t\<lparr>rt_phase := p\<rparr>)"
  "en_tasks (leave_run xid t p e) = (en_tasks e)(xid \<mapsto> t\<lparr>rt_phase := p, rt_permit := False\<rparr>)"
  "en_tasks (send_barrier xid t f out e) = (en_tasks e)(xid \<mapsto> t\<lparr>rt_phase := AwaitFlush f (en_barriers e) out\<rparr>)"
  "en_tasks (leave_reading xid t e) = (en_tasks e)(xid \<mapsto> t\<lparr>rt_phase := JoinControl\<rparr>)"
  "en_tasks (finished_event xid t f e) = (en_tasks e)(xid \<mapsto>
     (if f then t\<lparr>rt_received_finished := True, rt_phase := JoinControl\<rparr> else t\<lparr>rt_phase := PruneStore\<rparr>))"
  by (simp_all add: goto_def leave_run_def send_barrier_def finished_event_def leave_reading_def)

section \<open>The database stays consistent\<close>

lemma writer_db:
  assumes "db_inv (cw_store w)"
  shows "db_inv (cw_store (flush_capture d (append_capture_batch B) w))"
    and "live xid (cw_store (flush_capture d (append_capture_batch B) w)) = live xid (cw_store w)"
  using assms append_capture_batch_live [OF assms, of B "cw_records w" _ _ xid]
  by (auto simp: flush_capture_def split: prod.split sum.split dest: keeps_inv)

lemma process_message_db:
  assumes "db_inv (cw_store w)"
  shows "db_inv (cw_store (process_capture_message d (append_capture_batch B) m w))"
    and "live xid (cw_store (process_capture_message d (append_capture_batch B) m w)) = live xid (cw_store w)"
  using assms writer_db [of "w\<lparr>cw_records := cw_records w @ [r]\<rparr>" for r] writer_db [OF assms]
  by (cases m; simp add: Let_def)+

lemma on_frame_db: "db_inv (en_db e) \<Longrightarrow> db_inv (en_db (on_frame S B now xid t ev e))"
  by (cases ev) (auto split: sum.split prod.split dest: keeps_inv)

lemma task_step_db: "db_inv (en_db e) \<Longrightarrow> db_inv (en_db (task_step S B d xid t a e))"
  by (cases "rt_phase t"; cases a)
    (auto simp: task_step_def Let_def on_frame_db prune_inv split: sum.split prod.split option.split error.split
      dest: keeps_inv)

section \<open>The invariant\<close>

definition told :: "string \<Rightarrow> run_task \<Rightarrow> engine \<Rightarrow> bool" where
  "told xid t e \<longleftrightarrow>
     CancelCommand \<in> set (rt_control t) \<or> (xid \<in> set (en_processes e) \<and> live xid (en_db e))"

definition cancel_inv :: "engine \<Rightarrow> bool" where
  "cancel_inv e \<longleftrightarrow> db_inv (en_db e) \<and>
     (\<forall>xid t. en_tasks e xid = Some t \<and> rt_phase t = Reading \<and> rt_control_open t \<longrightarrow> told xid t e)"

lemma cancel_invD:
  "cancel_inv e \<Longrightarrow> en_tasks e yid = Some t \<Longrightarrow> rt_phase t = Reading \<Longrightarrow> rt_control_open t \<Longrightarrow>
     CancelCommand \<in> set (rt_control t) \<or> (yid \<in> set (en_processes e) \<and> live yid (en_db e))"
  by (simp add: cancel_inv_def told_def)

text \<open>A step of one task leaves the others as they were.\<close>

definition same_for :: "string \<Rightarrow> engine \<Rightarrow> engine \<Rightarrow> bool" where
  "same_for yid e e' \<longleftrightarrow>
     en_tasks e' yid = en_tasks e yid \<and> (yid \<in> set (en_processes e') \<longleftrightarrow> yid \<in> set (en_processes e)) \<and>
     live yid (en_db e') = live yid (en_db e)"

lemma on_frame_others:
  "db_inv (en_db e) \<Longrightarrow> yid \<noteq> xid \<Longrightarrow> same_for yid e (on_frame S B now xid t ev e)"
  by (cases ev) (auto simp: same_for_def mark_running_live split: sum.split prod.split)

lemma prune_snd_live: "db_inv db \<Longrightarrow> live yid (snd (prune now days bytes db)) = live yid db"
  using prune_live [of db now days bytes "fst (prune now days bytes db)"] by simp

lemma task_step_others:
  assumes "db_inv (en_db e)" and "yid \<noteq> xid"
  shows "same_for yid e (task_step S B d xid t a e)"
  using assms on_frame_others [OF assms]
  by (cases "rt_phase t"; cases a)
    (auto simp: task_step_def Let_def same_for_def prune_snd_live finish_live_others
      split: sum.split prod.split option.split error.split)

text \<open>The acting task is told when it registers, and stays told while it reads.\<close>

lemma control_send_cancel: "rt_control_open t \<Longrightarrow> CancelCommand \<in> set (rt_control (snd (control_send CancelCommand t)))"
  by (simp add: control_send_def)

lemma control_send_keeps: "c \<in> set (rt_control t) \<Longrightarrow> c \<in> set (rt_control (snd (control_send c' t)))"
  by (simp add: control_send_def)

lemma on_frame_own:
  assumes "db_inv (en_db e)" and "en_tasks e xid = Some t" and "rt_phase t = Reading"
    and "rt_control_open t \<longrightarrow> told xid t e"
    and "en_tasks (on_frame S B now xid t ev e) xid = Some t'" and "rt_phase t' = Reading" and "rt_control_open t'"
  shows "told xid t' (on_frame S B now xid t ev e)"
proof (cases ev)
  case (SupStarted pid pgid)
  then show ?thesis using assms
    by (auto simp: told_def control_send_cancel mark_running_live split: sum.split_asm prod.split_asm if_split_asm)
next
  case (SupOutput stream b64)
  then show ?thesis using assms by (auto simp: told_def split: sum.split_asm prod.split_asm)
next
  case (SupFinished out)
  then show ?thesis using assms by auto
qed

lemma task_step_own:
  assumes "db_inv (en_db e)" and "en_tasks e xid = Some t"
    and "rt_phase t = Reading \<Longrightarrow> rt_control_open t \<Longrightarrow> told xid t e"
    and "en_tasks (task_step S B d xid t a e) xid = Some t'" and "rt_phase t' = Reading" and "rt_control_open t'"
  shows "told xid t' (task_step S B d xid t a e)"
proof (cases "rt_phase t")
  case Register
  then show ?thesis using assms get_execution_live [OF assms(1)]
    by (cases a) (auto simp: task_step_def told_def control_send_cancel split: sum.split_asm if_split_asm)
next
  case Reading
  then show ?thesis
    using assms on_frame_own [OF assms(1,2), of S B _ _ t']
    by (cases a) (auto simp: task_step_def split: option.split_asm sum.split_asm if_split_asm)
qed (use assms in \<open>cases a; auto simp: task_step_def Let_def split: sum.split_asm prod.split_asm option.split_asm
    error.split_asm if_split_asm\<close>)+

lemma cancel_task_step:
  assumes inv: "cancel_inv e" and t: "en_tasks e xid = Some t"
  shows "cancel_inv (task_step S B d xid t a e)"
proof -
  have db: "db_inv (en_db e)" using inv by (simp add: cancel_inv_def)
  have "told yid u (task_step S B d xid t a e)"
    if u: "en_tasks (task_step S B d xid t a e) yid = Some u" "rt_phase u = Reading" "rt_control_open u" for yid u
  proof (cases "yid = xid")
    case True
    then show ?thesis using task_step_own [OF db t] u inv t by (auto simp: cancel_inv_def)
  next
    case False
    then show ?thesis using task_step_others [OF db False, of S B d t a] u inv
      by (auto simp: cancel_inv_def same_for_def told_def)
  qed
  then show ?thesis using task_step_db [OF db] by (auto simp: cancel_inv_def)
qed

section \<open>The other steps\<close>

lemma send_to_frame [simp]:
  "en_db (snd (send_to xid c e)) = en_db e" "en_processes (snd (send_to xid c e)) = en_processes e"
  by (simp_all add: send_to_def split_beta split: option.split)

lemma send_to_tasks:
  "en_tasks (snd (send_to xid c e)) yid =
     (if yid = xid then map_option (\<lambda>t. snd (control_send c t)) (en_tasks e yid) else en_tasks e yid)"
  by (auto simp: send_to_def split_beta split: option.split)

text \<open>What sending to some supervisors does to one task.\<close>

definition sent :: "supervisor_command \<Rightarrow> bool \<Rightarrow> run_task \<Rightarrow> run_task \<Rightarrow> bool" where
  "sent c addressed t u \<longleftrightarrow> rt_phase u = rt_phase t \<and> rt_control_open u = rt_control_open t \<and>
     rt_received_finished u = rt_received_finished t \<and>
     set (rt_control t) \<subseteq> set (rt_control u) \<and> (addressed \<and> rt_control_open t \<longrightarrow> c \<in> set (rt_control u))"

lemma send_all_tasks:
  "en_tasks (send_all c xids e) yid = Some u \<Longrightarrow> \<exists>t. en_tasks e yid = Some t \<and> sent c (yid \<in> set xids) t u"
proof (induction xids arbitrary: e)
  case Nil
  then show ?case by (simp add: send_all_def sent_def)
next
  case (Cons xid xids)
  then obtain t1 where t1: "en_tasks (snd (send_to xid c e)) yid = Some t1" "sent c (yid \<in> set xids) t1 u"
    by (auto simp: send_all_def)
  then obtain t where "en_tasks e yid = Some t" "t1 = (if yid = xid then snd (control_send c t) else t)"
    by (auto simp: send_to_tasks split: if_split_asm)
  then show ?case using t1(2) by (auto simp: sent_def control_send_def split: if_split_asm)
qed

lemma send_all_frame [simp]:
  "en_db (send_all c xids e) = en_db e" "en_processes (send_all c xids e) = en_processes e"
  unfolding send_all_def by (induction xids arbitrary: e) simp_all

lemma notify_all_frame [simp]:
  "en_db (fold notify evs e) = en_db e" "en_processes (fold notify evs e) = en_processes e"
  "en_tasks (fold notify evs e) = en_tasks e"
  by (induction evs arbitrary: e) simp_all

lemma cancel_writer:
  assumes "cancel_inv e"
  shows "cancel_inv (writer_take d B e)" "cancel_inv (writer_idle d B e)"
  using assms process_message_db [of "en_writer e"] writer_db [of "en_writer e"]
  by (auto simp: cancel_inv_def writer_take_def writer_idle_def told_def en_db_def split: list.split)

lemma cancel_execute:
  assumes inv: "cancel_inv e" and new: "en_tasks e nid = None"
  shows "cancel_inv (snd (engine_execute B can now nid rq e))"
proof -
  have db: "db_inv (en_db e)" using inv by (simp add: cancel_inv_def)
  have "cancel_inv (set_task (ex_id ex) (new_task rq' cwd) (set_db db' (e\<lparr>en_active := n, en_handles := hs\<rparr>)))"
    if r: "create_execution B now nid rq' cwd (en_db e) = (Inr ex, db')" for rq' cwd ex db' n hs
  proof -
    have rows: "ex_id ex = nid" "\<And>yid. yid \<noteq> nid \<Longrightarrow> live yid db' = live yid (en_db e)"
      using create_execution_rows [OF r] by (auto simp: live_def)
    then show ?thesis using inv keeps_inv(4) [OF r db] by (auto simp: cancel_inv_def told_def new_task_def)
  qed
  moreover have "cancel_inv (set_db db' e)"
    if r: "create_execution B now nid rq' cwd (en_db e) = (Inl err, db')" for rq' cwd err db'
    using create_execution_rows [OF r] inv by (auto simp: cancel_inv_def told_def)
  ultimately show ?thesis using inv by (auto simp: engine_execute_def split: sum.split prod.split)
qed

lemma cancel_cancel:
  assumes inv: "cancel_inv e"
  shows "cancel_inv (snd (engine_cancel now xid e))"
proof -
  have db: "db_inv (en_db e)" using inv by (simp add: cancel_inv_def)
  have queued: "cancel_inv (if xid \<in> set (en_processes e)
      then snd (send_to xid CancelCommand (notify ev (set_db db' e))) else notify ev (set_db db' e))"
    if r: "finish now xid Cancelled (OutcomeCancelled None) (en_db e) = (Inr ev, db')" for ev db'
  proof -
    have others: "live yid db' = live yid (en_db e)" if "yid \<noteq> xid" for yid
      using finish_live_others [OF db r that] .
    have "CancelCommand \<in> set (rt_control u) \<or> (yid \<in> set (en_processes e) \<and> live yid db')"
      if u: "(if yid = xid \<and> xid \<in> set (en_processes e)
              then map_option (\<lambda>t. snd (control_send CancelCommand t)) (en_tasks e yid)
              else en_tasks e yid) = Some u" "rt_phase u = Reading" "rt_control_open u" for yid u
    proof (cases "yid = xid \<and> xid \<in> set (en_processes e)")
      case True
      then show ?thesis using u by (auto simp: control_send_cancel)
    next
      case False
      then show ?thesis using u cancel_invD [OF inv, of yid u] others [of yid] by (cases "yid = xid") auto
    qed
    then show ?thesis using keeps_inv(1) [OF r db]
      by (auto simp: cancel_inv_def told_def send_to_tasks control_send_cancel split: if_split_asm)
  qed
  have refused: "cancel_inv (set_db db' e)"
    if r: "finish now xid Cancelled (OutcomeCancelled None) (en_db e) = (Inl err, db')" for err db'
    using r inv by (auto simp: finish_def transaction_Inl_iff cancel_inv_def told_def)
  have "cancel_inv (snd (send_to xid CancelCommand e))"
    using inv cancel_invD [OF inv]
    by (auto simp: cancel_inv_def told_def send_to_tasks control_send_cancel split: if_split_asm)
  then show ?thesis using inv queued refused
    by (auto simp: engine_cancel_def Let_def split: sum.split execution_state.split prod.split)
qed

lemma cancel_drain_begin:
  assumes inv: "cancel_inv e"
  shows "cancel_inv (snd (drain_begin clock e))"
proof -
  have db: "db_inv (en_db e)" using inv by (simp add: cancel_inv_def)
  obtain evs db' where r: "cancel_queued clock (en_db e) = (Inr evs, db')" "db_inv db'"
    using cancel_queued_rows [OF db] by metis
  let ?e1 = "e\<lparr>en_lifecycle := Draining, en_closed := True\<rparr>"
  let ?e2 = "send_all CancelCommand (en_processes e) (fold notify evs (set_db db' ?e1))"
  have "CancelCommand \<in> set (rt_control u)"
    if u: "en_tasks ?e2 yid = Some u" "rt_phase u = Reading" "rt_control_open u" for yid u
  proof -
    obtain t where "en_tasks e yid = Some t" "sent CancelCommand (yid \<in> set (en_processes e)) t u"
      using send_all_tasks [OF u(1)] by auto
    moreover from this have "CancelCommand \<in> set (rt_control t) \<or> yid \<in> set (en_processes e)"
      using cancel_invD [OF inv, of yid t] u(2,3) by (auto simp: sent_def)
    ultimately show ?thesis using u(3) by (auto simp: sent_def)
  qed
  then have "cancel_inv ?e2" using r(2) by (auto simp: cancel_inv_def told_def)
  then show ?thesis using inv r(1) by (simp add: drain_begin_def Let_def)
qed

lemma cancel_drain_end:
  assumes "slots_inv S e" and "cancel_inv e"
  shows "cancel_inv (drain_end e)"
proof -
  have "(\<lambda>xid. if xid \<in> set (en_handles e) then None else en_tasks e xid) = Map.empty"
    using assms(1) by (auto simp: slots_inv_def fun_eq_iff)
  then show ?thesis using assms(2) by (auto simp: drain_end_def cancel_inv_def told_def)
qed

lemma cancel_step: "slots_inv S e \<Longrightarrow> cancel_inv e \<Longrightarrow> cancel_inv (engine_step S B d e i)"
proof (induction S B d e i rule: engine_step.induct)
  case (3 S B d e xid)
  then show ?case by (auto simp: cancel_inv_def told_def split: option.split)
qed (simp_all add: cancel_execute cancel_task_step cancel_writer cancel_cancel cancel_drain_begin cancel_drain_end
    split: option.split)

lemma cancel_new: "db_inv db \<Longrightarrow> cancel_inv (new_engine S db)"
  by (simp add: cancel_inv_def new_engine_def en_db_def new_writer_def)

end
