(* ===== verification/EngineFlush.thy ===== *)
theory EngineFlush
  imports EngineCancel
begin

text \<open>
  The flush before the end: between the answer to its barrier and the terminal event no captured record
  of an execution is waiting, neither in the queue of the capture writer nor in its buffer. This is what
  the barrier is for; the invariant follows it through the queue.
\<close>

definition records_for :: "string \<Rightarrow> capture_record list \<Rightarrow> capture_record list" where
  "records_for xid rs = filter (\<lambda>r. record_execution r = xid) rs"

lemma records_for_simps [simp]:
  "records_for xid [] = []" "records_for xid (rs @ rs') = records_for xid rs @ records_for xid rs'"
  "records_for xid (r # rs) = (if record_execution r = xid then r # records_for xid rs else records_for xid rs)"
  by (simp_all add: records_for_def)

definition outstanding :: "string \<Rightarrow> engine \<Rightarrow> capture_record list" where
  "outstanding xid e = records_for xid (cw_records (en_writer e) @ records_of (en_queue e))"

fun barriers_of :: "capture_message list \<Rightarrow> nat list" where
  "barriers_of [] = []"
| "barriers_of (Barrier k # ms) = k # barriers_of ms"
| "barriers_of (Record r # ms) = barriers_of ms"

lemma barriers_of_append [simp]: "barriers_of (ms @ ms') = barriers_of ms @ barriers_of ms'"
  by (induction ms rule: barriers_of.induct) auto

lemma barriers_of_records [simp]: "barriers_of (map Record rs) = []"
  by (induction rs) auto

lemma records_of_records [simp]: "records_of (map Record rs) = rs"
  by (induction rs) auto

lemma barrier_mem: "Barrier k \<in> set ms \<Longrightarrow> k \<in> set (barriers_of ms)"
  by (induction ms rule: barriers_of.induct) auto

definition answered :: "engine \<Rightarrow> nat list" where
  "answered e = map fst (cw_replies (en_writer e))"

definition awaiting :: "string \<Rightarrow> nat \<Rightarrow> engine \<Rightarrow> bool" where
  "awaiting xid k e \<longleftrightarrow>
     k \<in> set (answered e) \<and> outstanding xid e = [] \<or>
     (\<exists>pre post. en_queue e = pre @ Barrier k # post \<and> records_for xid (records_of post) = [])"

definition barriers_fresh :: "engine \<Rightarrow> bool" where
  "barriers_fresh e \<longleftrightarrow>
     (\<forall>k \<in> set (answered e @ barriers_of (en_queue e)). k < en_barriers e) \<and>
     distinct (answered e @ barriers_of (en_queue e))"

fun flushed_phase :: "phase \<Rightarrow> bool" where
  "flushed_phase (CheckTerminal f out) = True"
| "flushed_phase (WriteTerminal f out) = True"
| "flushed_phase PruneStore = True"
| "flushed_phase _ = False"

fun late_phase :: "phase \<Rightarrow> bool" where
  "late_phase JoinControl = True"
| "late_phase AwaitExit = True"
| "late_phase PruneStore = True"
| "late_phase (RunFailed err) = True"
| "late_phase (MarkInterrupted err) = True"
| "late_phase Cleanup = True"
| "late_phase _ = False"

definition task_flushed :: "engine \<Rightarrow> string \<Rightarrow> run_task \<Rightarrow> bool" where
  "task_flushed e xid t \<longleftrightarrow>
     (\<forall>f k out. rt_phase t = AwaitFlush f k out \<longrightarrow> awaiting xid k e) \<and>
     (flushed_phase (rt_phase t) \<or> rt_received_finished t \<longrightarrow> outstanding xid e = []) \<and>
     (rt_received_finished t \<longrightarrow> late_phase (rt_phase t))"

definition flush_inv :: "engine \<Rightarrow> bool" where
  "flush_inv e \<longleftrightarrow> barriers_fresh e \<and> (\<forall>xid t. en_tasks e xid = Some t \<longrightarrow> task_flushed e xid t)"

section \<open>What the invariant looks at\<close>

definition capture_view :: "engine \<Rightarrow> capture_message list \<times> capture_record list \<times> nat list \<times> nat" where
  "capture_view e = (en_queue e, cw_records (en_writer e), answered e, en_barriers e)"

lemma view_frame [simp]:
  "capture_view (set_db db e) = capture_view e" "capture_view (notify ev e) = capture_view e"
  "capture_view (report_fatal m e) = capture_view e" "capture_view (set_task xid t e) = capture_view e"
  "capture_view (goto xid t p e) = capture_view e" "capture_view (leave_run xid t p e) = capture_view e"
  "capture_view (finished_event xid t f e) = capture_view e"
  "capture_view (leave_reading xid t e) = capture_view e"
  "capture_view (e\<lparr>en_free := n\<rparr>) = capture_view e" "capture_view (e\<lparr>en_processes := ps\<rparr>) = capture_view e"
  "capture_view (e\<lparr>en_tasks := T\<rparr>) = capture_view e" "capture_view (e\<lparr>en_active := n\<rparr>) = capture_view e"
  "capture_view (e\<lparr>en_handles := hs\<rparr>) = capture_view e"
  "capture_view (e\<lparr>en_closed := cl\<rparr>) = capture_view e" "capture_view (e\<lparr>en_lifecycle := l\<rparr>) = capture_view e"
  "capture_view (snd (send_to xid c e)) = capture_view e"
  by (simp_all add: capture_view_def answered_def set_db_def notify_def report_fatal_def set_task_def goto_def
      leave_run_def finished_event_def leave_reading_def send_to_def split_beta split: option.split)

lemma same_view:
  assumes "capture_view e' = capture_view e"
  shows "outstanding xid e' = outstanding xid e" "awaiting xid k e' = awaiting xid k e"
    "barriers_fresh e' = barriers_fresh e" "task_flushed e' xid t = task_flushed e xid t"
  using assms by (simp_all add: capture_view_def outstanding_def awaiting_def barriers_fresh_def task_flushed_def)

text \<open>Messages appended to the queue that hold no record of an execution.\<close>

definition queued_after :: "string \<Rightarrow> capture_message list \<Rightarrow> engine \<Rightarrow> engine \<Rightarrow> bool" where
  "queued_after yid ms e e' \<longleftrightarrow>
     en_queue e' = en_queue e @ ms \<and> cw_records (en_writer e') = cw_records (en_writer e) \<and> answered e' = answered e \<and>
     records_for yid (records_of ms) = []"

lemma queued_after_flushed:
  assumes "queued_after yid ms e e'"
  shows "outstanding yid e' = outstanding yid e" "awaiting yid k e \<Longrightarrow> awaiting yid k e'"
    "task_flushed e yid t \<Longrightarrow> task_flushed e' yid t"
proof -
  show o: "outstanding yid e' = outstanding yid e" using assms by (simp add: queued_after_def outstanding_def)
  show a: "awaiting yid k e \<Longrightarrow> awaiting yid k e'" for k
  proof (unfold awaiting_def, elim disjE)
    assume "k \<in> set (answered e) \<and> outstanding yid e = []"
    then show "k \<in> set (answered e') \<and> outstanding yid e' = [] \<or>
        (\<exists>pre post. en_queue e' = pre @ Barrier k # post \<and> records_for yid (records_of post) = [])"
      using assms o by (simp add: queued_after_def)
  next
    assume "\<exists>pre post. en_queue e = pre @ Barrier k # post \<and> records_for yid (records_of post) = []"
    then obtain pre post where "en_queue e' = pre @ Barrier k # post @ ms" "records_for yid (records_of (post @ ms)) = []"
      using assms by (auto simp: queued_after_def)
    then show "k \<in> set (answered e') \<and> outstanding yid e' = [] \<or>
        (\<exists>pre post. en_queue e' = pre @ Barrier k # post \<and> records_for yid (records_of post) = [])"
      by blast
  qed
  show "task_flushed e yid t \<Longrightarrow> task_flushed e' yid t" using o a by (simp add: task_flushed_def)
qed

section \<open>A task steps\<close>

lemma capture_output_records:
  "capture_output xid now stream bs limit c = (rs, c') \<Longrightarrow> r \<in> set rs \<Longrightarrow> record_execution r = xid"
  by (auto simp: capture_output_def Let_def record_execution_def split: if_split_asm)

lemma records_for_other: "(\<And>r. r \<in> set rs \<Longrightarrow> record_execution r = xid) \<Longrightarrow> yid \<noteq> xid \<Longrightarrow> records_for yid rs = []"
  by (induction rs) auto

text \<open>Every step of a task is one of three: it leaves the view of the capture writer alone, sends its own
  records while it reads, or sends a fresh barrier it then awaits.\<close>

definition sends_records :: "string \<Rightarrow> run_task \<Rightarrow> engine \<Rightarrow> engine \<Rightarrow> bool" where
  "sends_records xid t e e' \<longleftrightarrow> rt_phase t = Reading \<and>
     (\<exists>rs c. (\<forall>r \<in> set rs. record_execution r = xid) \<and>
        e' = set_task xid (t\<lparr>rt_counters := c\<rparr>) (e\<lparr>en_queue := en_queue e @ map Record rs\<rparr>))"

definition sends_barrier :: "string \<Rightarrow> run_task \<Rightarrow> engine \<Rightarrow> engine \<Rightarrow> bool" where
  "sends_barrier xid t e e' \<longleftrightarrow>
     (rt_phase t = Reading \<or> rt_phase t = AwaitExit \<and> \<not> rt_received_finished t) \<and>
     (\<exists>f out. e' = send_barrier xid t f out e)"

lemma task_step_shape:
  "capture_view (task_step S B d xid t a e) = capture_view e \<or> sends_records xid t e (task_step S B d xid t a e) \<or>
   sends_barrier xid t e (task_step S B d xid t a e)"
proof (cases "rt_phase t = Reading")
  case True
  show ?thesis
  proof (cases "\<exists>now ev. a = Frame now (Some (Inr ev))")
    case True
    then obtain now ev where a: "a = Frame now (Some (Inr ev))" by blast
    then have s: "task_step S B d xid t a e = on_frame S B now xid t ev e"
      using \<open>rt_phase t = Reading\<close> by (simp add: task_step_def)
    show ?thesis
    proof (cases ev)
      case (SupOutput stream b64)
      show ?thesis
      proof (cases "decode_output B b64")
        case (Inl err)
        then show ?thesis unfolding s SupOutput by simp
      next
        case (Inr bs)
        obtain rs c where c: "capture_output xid now stream bs (run_capture_limit S t) (rt_counters t) = (rs, c)"
          by force
        then have "\<forall>r \<in> set rs. record_execution r = xid" using capture_output_records by blast
        then show ?thesis unfolding s SupOutput sends_records_def using \<open>rt_phase t = Reading\<close> Inr c by auto
      qed
    next
      case (SupFinished out)
      then show ?thesis unfolding s using \<open>rt_phase t = Reading\<close> by (auto simp: sends_barrier_def)
    qed (auto simp: s split: sum.split prod.split)
  next
    case False
    then show ?thesis using True
      by (cases a) (auto simp: task_step_def split: option.split sum.split)
  qed
next
  case False
  then show ?thesis
    by (cases "rt_phase t"; cases a)
      (auto simp: task_step_def Let_def sends_barrier_def split: sum.split prod.split option.split error.split)
qed

text \<open>How a step that leaves the view alone can change its own task.\<close>

lemma map_of_answered: "map_of (cw_replies (en_writer e)) k = Some r \<Longrightarrow> k \<in> set (answered e)"
  by (force simp: answered_def dest: map_of_SomeD)

definition moves_ok :: "engine \<Rightarrow> run_task \<Rightarrow> run_task \<Rightarrow> bool" where
  "moves_ok e t t' \<longleftrightarrow>
     (\<forall>f k out. rt_phase t' = AwaitFlush f k out \<longrightarrow> rt_phase t = AwaitFlush f k out) \<and>
     (flushed_phase (rt_phase t') \<or> rt_received_finished t' \<longrightarrow>
        flushed_phase (rt_phase t) \<or> rt_received_finished t \<or>
        (\<exists>f k out. rt_phase t = AwaitFlush f k out \<and> k \<in> set (answered e))) \<and>
     ((rt_received_finished t \<longrightarrow> late_phase (rt_phase t)) \<longrightarrow> rt_received_finished t' \<longrightarrow> late_phase (rt_phase t'))"

lemma moves_ok_refl [simp]: "moves_ok e t t"
  by (auto simp: moves_ok_def)

lemma send_barrier_view: "capture_view (send_barrier xid t f out e) \<noteq> capture_view e"
  by (simp add: send_barrier_def capture_view_def goto_def set_task_def)

lemma on_frame_moves:
  assumes "rt_phase t = Reading" and "en_tasks e xid = Some t"
    and "capture_view (on_frame S B now xid t ev e) = capture_view e"
    and "en_tasks (on_frame S B now xid t ev e) xid = Some t'"
  shows "moves_ok e t t'"
  using assms
  by (cases ev) (auto simp: send_barrier_view moves_ok_def split: sum.split_asm prod.split_asm if_split_asm)

lemma task_step_moves:
  assumes "en_tasks e xid = Some t" and "capture_view (task_step S B d xid t a e) = capture_view e"
    and "en_tasks (task_step S B d xid t a e) xid = Some t'"
  shows "moves_ok e t t'"
proof (cases "rt_phase t = Reading")
  case True
  show ?thesis
  proof (cases "\<exists>now ev. a = Frame now (Some (Inr ev))")
    case True
    then show ?thesis using assms on_frame_moves [OF \<open>rt_phase t = Reading\<close> assms(1)] \<open>rt_phase t = Reading\<close>
      by (auto simp: task_step_def)
  next
    case False
    then show ?thesis using assms True
      by (cases a) (auto simp: task_step_def moves_ok_def split: option.split_asm sum.split_asm)
  qed
next
  case False
  then show ?thesis using assms
    by (cases "rt_phase t"; cases a)
      (auto simp: task_step_def Let_def moves_ok_def send_barrier_view map_of_answered
        split: sum.split_asm prod.split_asm option.split_asm error.split_asm if_split_asm)
qed

lemma moves_flushed:
  assumes "barriers_fresh e" and "task_flushed e xid t" and "moves_ok e t t'"
  shows "task_flushed e xid t'"
proof -
  have "outstanding xid e = []" if "rt_phase t = AwaitFlush f k out" "k \<in> set (answered e)" for f k out
  proof -
    have "k \<notin> set (barriers_of (en_queue e))" using assms(1) that(2) by (auto simp: barriers_fresh_def)
    then show ?thesis using assms(2) that by (auto simp: task_flushed_def awaiting_def dest: barrier_mem)
  qed
  then show ?thesis using assms(2,3) by (auto simp: task_flushed_def moves_ok_def)
qed

lemma flush_task_step:
  assumes inv: "flush_inv e" and t: "en_tasks e xid = Some t" and db: "db_inv (en_db e)"
  shows "flush_inv (task_step S B d xid t a e)"
proof -
  let ?e = "task_step S B d xid t a e"
  have fresh: "barriers_fresh e" and own: "task_flushed e xid t" using inv t by (auto simp: flush_inv_def)
  have other: "task_flushed e yid u" if "yid \<noteq> xid" "en_tasks ?e yid = Some u" for yid u
    using that task_step_others [OF db that(1), of S B d t a] inv by (auto simp: flush_inv_def same_for_def)
  consider (same) "capture_view ?e = capture_view e" | (records) "sends_records xid t e ?e"
    | (barrier) "sends_barrier xid t e ?e" using task_step_shape by blast
  then show ?thesis
  proof cases
    case same
    have "task_flushed ?e yid u" if u: "en_tasks ?e yid = Some u" for yid u
    proof (cases "yid = xid")
      case True
      then have "moves_ok e t u" using task_step_moves [OF t same] u by simp
      then show ?thesis using moves_flushed [OF fresh own] True same_view(4) [OF same] by simp
    next
      case False
      then show ?thesis using other u same_view(4) [OF same] by simp
    qed
    then show ?thesis using fresh same_view(3) [OF same] by (simp add: flush_inv_def)
  next
    case records
    then obtain rs c where r: "rt_phase t = Reading" "\<forall>r \<in> set rs. record_execution r = xid"
      and e': "?e = set_task xid (t\<lparr>rt_counters := c\<rparr>) (e\<lparr>en_queue := en_queue e @ map Record rs\<rparr>)"
      by (auto simp: sends_records_def)
    have q: "queued_after yid (map Record rs) e ?e" if "yid \<noteq> xid" for yid
      using records_for_other [of rs xid yid] r(2) that
      by (simp add: queued_after_def e' set_task_def answered_def)
    have "task_flushed ?e yid u" if u: "en_tasks ?e yid = Some u" for yid u
    proof (cases "yid = xid")
      case True
      then have "u = t\<lparr>rt_counters := c\<rparr>" using u by (simp add: e')
      moreover have "\<not> rt_received_finished t" using own r(1) by (auto simp: task_flushed_def)
      ultimately show ?thesis using r(1) by (simp add: task_flushed_def)
    next
      case False
      then show ?thesis using queued_after_flushed(3) [OF q [OF False]] other u by simp
    qed
    moreover have "barriers_fresh ?e" using fresh by (simp add: e' barriers_fresh_def set_task_def answered_def)
    ultimately show ?thesis by (simp add: flush_inv_def)
  next
    case barrier
    then obtain f out where b: "rt_phase t = Reading \<or> rt_phase t = AwaitExit \<and> \<not> rt_received_finished t"
      and e': "?e = send_barrier xid t f out e" by (auto simp: sends_barrier_def)
    have qu: "en_queue ?e = en_queue e @ [Barrier (en_barriers e)]" "answered ?e = answered e"
      "cw_records (en_writer ?e) = cw_records (en_writer e)" "en_barriers ?e = en_barriers e + 1"
      by (simp_all add: e' send_barrier_def goto_def set_task_def answered_def)
    have q: "queued_after yid [Barrier (en_barriers e)] e ?e" for yid by (simp add: queued_after_def qu)
    have "task_flushed ?e yid u" if u: "en_tasks ?e yid = Some u" for yid u
    proof (cases "yid = xid")
      case True
      have "en_queue ?e = en_queue e @ Barrier (en_barriers e) # []" "records_for xid (records_of []) = []"
        by (simp_all add: qu)
      then have "awaiting xid (en_barriers e) ?e" unfolding awaiting_def by blast
      moreover have "\<not> rt_received_finished t" using own b by (auto simp: task_flushed_def)
      moreover have "u = t\<lparr>rt_phase := AwaitFlush f (en_barriers e) out\<rparr>" using u True by (simp add: e')
      ultimately show ?thesis using True by (simp add: task_flushed_def)
    next
      case False
      then show ?thesis using queued_after_flushed(3) [OF q] other u by simp
    qed
    moreover have "barriers_fresh ?e" using fresh by (auto simp: barriers_fresh_def qu less_Suc_eq)
    ultimately show ?thesis by (simp add: flush_inv_def)
  qed
qed

section \<open>The writer steps\<close>

lemma flush_answered [simp]:
  "answered (e\<lparr>en_writer := flush_capture d put w\<rparr>) = map fst (cw_replies w)"
  by (simp add: answered_def flush_capture_def split: prod.split sum.split)

lemma flush_replies [simp]: "cw_replies (flush_capture d put w) = cw_replies w"
  by (simp add: flush_capture_def split: prod.split sum.split)

lemma flush_idle: "flush_inv e \<Longrightarrow> flush_inv (writer_idle d B e)"
  by (auto simp: writer_idle_def flush_inv_def task_flushed_def awaiting_def outstanding_def barriers_fresh_def answered_def)

lemma flush_take:
  assumes inv: "flush_inv e"
  shows "flush_inv (writer_take d B e)"
proof (cases "en_queue e")
  case Nil
  then show ?thesis using inv by (simp add: writer_take_def)
next
  case (Cons m ms)
  let ?e = "writer_take d B e"
  have qu: "en_queue ?e = ms" "en_tasks ?e = en_tasks e" "en_barriers ?e = en_barriers e"
    "en_writer ?e = process_capture_message d (append_capture_batch B) m (en_writer e)"
    by (simp_all add: writer_take_def Cons)
  have o: "outstanding xid ?e = []" if "outstanding xid e = []" for xid
    using that by (cases m) (auto simp: outstanding_def qu Cons Let_def split: if_split_asm)
  have ans: "answered ?e = answered e @ barriers_of [m]"
    by (cases m) (simp_all add: answered_def qu Let_def)
  have a: "awaiting xid k ?e" if w: "awaiting xid k e" for xid k
  proof (cases "k \<in> set (answered e) \<and> outstanding xid e = []")
    case True
    then show ?thesis using o by (simp add: awaiting_def ans)
  next
    case False
    then obtain pre post where p: "m # ms = pre @ Barrier k # post" "records_for xid (records_of post) = []"
      using w Cons by (auto simp: awaiting_def)
    show ?thesis
    proof (cases pre)
      case Nil
      then have "m = Barrier k" "ms = post" using p(1) by simp_all
      then show ?thesis using p(2) by (simp add: awaiting_def ans outstanding_def qu Let_def)
    next
      case (Cons m' pre')
      then show ?thesis using p by (auto simp: awaiting_def qu)
    qed
  qed
  have "barriers_fresh ?e"
    using inv by (cases m) (auto simp: flush_inv_def barriers_fresh_def ans qu Cons)
  then show ?thesis using inv o a by (auto simp: flush_inv_def task_flushed_def qu)
qed

section \<open>The other steps\<close>

lemma flush_by_view:
  assumes "flush_inv e" and v: "capture_view e' = capture_view e"
    and "\<And>xid u. en_tasks e' xid = Some u \<Longrightarrow> \<exists>t. en_tasks e xid = Some t \<and> rt_phase u = rt_phase t \<and>
            rt_received_finished u = rt_received_finished t"
  shows "flush_inv e'"
proof -
  have "task_flushed e' xid u" if u: "en_tasks e' xid = Some u" for xid u
  proof -
    obtain t where "en_tasks e xid = Some t" "rt_phase u = rt_phase t" "rt_received_finished u = rt_received_finished t"
      using assms(3) [OF u] by blast
    moreover from this have "task_flushed e xid t" using assms(1) by (simp add: flush_inv_def)
    ultimately have "task_flushed e xid u" by (simp add: task_flushed_def)
    then show ?thesis by (simp add: same_view(4) [OF v])
  qed
  then show ?thesis using assms(1) same_view(3) [OF v] by (simp add: flush_inv_def)
qed

lemma view_notify_all [simp]: "capture_view (fold notify evs e) = capture_view e"
  by (induction evs arbitrary: e) simp_all

lemma view_send_all [simp]: "capture_view (send_all c xids e) = capture_view e"
  unfolding send_all_def by (induction xids arbitrary: e) simp_all

lemma flush_cancel: "flush_inv e \<Longrightarrow> flush_inv (snd (engine_cancel now xid e))"
  by (rule flush_by_view [where e = e])
    (auto simp: engine_cancel_def Let_def send_to_tasks split: sum.splits execution_state.splits prod.splits if_splits)

lemma flush_drain_begin: "flush_inv e \<Longrightarrow> flush_inv (snd (drain_begin clock e))"
  by (rule flush_by_view [where e = e])
    (auto simp: drain_begin_def Let_def sent_def split: sum.splits prod.splits if_splits dest!: send_all_tasks)

lemma flush_execute:
  assumes inv: "flush_inv e" and new: "en_tasks e nid = None"
  shows "flush_inv (snd (engine_execute B can now nid rq e))"
proof -
  have "flush_inv (set_task xid (new_task rq' cwd) (set_db db (e\<lparr>en_active := n, en_handles := hs\<rparr>)))" for xid rq' cwd db n hs
  proof -
    have v: "capture_view (set_task xid (new_task rq' cwd) (set_db db (e\<lparr>en_active := n, en_handles := hs\<rparr>))) = capture_view e" by simp
    show ?thesis using inv same_view [OF v]
      by (auto simp: flush_inv_def new_task_def task_flushed_def)
  qed
  moreover have "flush_inv (set_db db e)" for db by (rule flush_by_view [OF inv]) auto
  ultimately show ?thesis using inv by (auto simp: engine_execute_def split: sum.split prod.split)
qed

section \<open>The invariant of the engine\<close>

definition engine_inv :: "settings \<Rightarrow> engine \<Rightarrow> bool" where
  "engine_inv S e \<longleftrightarrow> slots_inv S e \<and> cancel_inv e \<and> flush_inv e"

lemma flush_step: "engine_inv S e \<Longrightarrow> flush_inv (engine_step S B d e i)"
proof (induction S B d e i rule: engine_step.induct)
  case (3 S B d e xid)
  then have "flush_inv e" by (simp add: engine_inv_def)
  then show ?case by (rule flush_by_view) (auto split: option.splits if_splits)
next
  case (8 S B d e)
  then have "flush_inv e" by (simp add: engine_inv_def)
  then show ?case by (rule flush_by_view) (auto simp: drain_end_def split: if_splits)
qed (simp_all add: engine_inv_def cancel_inv_def flush_execute flush_task_step flush_take flush_idle flush_cancel
    flush_drain_begin split: option.split)

lemma engine_step_inv: "engine_inv S e \<Longrightarrow> engine_inv S (engine_step S B d e i)"
  using slots_step [of S e B d i] cancel_step [of S e B d i] flush_step [of S e B d i] by (simp add: engine_inv_def)

lemma flush_new: "flush_inv (new_engine S db)"
  by (simp add: flush_inv_def barriers_fresh_def new_engine_def answered_def new_writer_def)

lemma engine_inv_new: "db_inv db \<Longrightarrow> engine_inv S (new_engine S db)"
  by (simp add: engine_inv_def cancel_new slots_new flush_new)

interpretation engine_machine: invariant_machine "engine_step S B d" "engine_inv S"
  by unfold_locales (rule engine_step_inv)

end
