(* ===== verification/EngineSealed.thy ===== *)
theory EngineSealed
  imports EngineFlush
begin

text \<open>
  When a log is closed. An execution is sealed when its row is terminal, no captured record of it is
  waiting, and its task, if there still is one, no longer reads its supervisor. No step changes the log
  of a sealed execution, except that pruning may delete it; and the terminal event a run writes on its
  supervisor's word seals it.
\<close>

section \<open>What the store does to a finished execution\<close>

definition frozen :: "string \<Rightarrow> database \<Rightarrow> database \<Rightarrow> bool" where
  "frozen xid db db' \<longleftrightarrow> find_execution xid db' = None \<or>
     \<not> live xid db' \<and> (\<forall>B. event_log B xid db' = event_log B xid db)"

definition over :: "string \<Rightarrow> database \<Rightarrow> bool" where
  "over xid db \<longleftrightarrow> find_execution xid db \<noteq> None \<and> \<not> live xid db"

lemma frozen_refl: "over xid db \<Longrightarrow> frozen xid db db"
  by (simp add: frozen_def over_def)

lemma frozen_finish:
  assumes "finish now yid st out db = (r, db')" and "db_inv db" and "over xid db"
  shows "frozen xid db db'"
proof (cases "yid = xid")
  case True
  then have "db' = db" using finish_not_live [OF assms(2), of xid now st out] assms(1,3) by (auto simp: over_def)
  then show ?thesis using assms(3) by (simp add: frozen_refl)
next
  case False
  have "event_log B xid db' = event_log B xid db" for B
  proof (cases r)
    case (Inl e)
    then show ?thesis using assms(1) by (auto simp: finish_def transaction_Inl_iff)
  next
    case (Inr ev)
    then show ?thesis using finish_log [OF assms(2), of now yid st out ev db'] assms(1) False by auto
  qed
  then show ?thesis using finish_live_others [OF assms(2,1), of xid] False assms(3) by (simp add: frozen_def over_def)
qed

lemma frozen_mark_running:
  assumes "mark_running now yid pid pgid db = (r, db')" and "db_inv db" and "over xid db"
  shows "frozen xid db db'"
proof (cases r)
  case (Inl e)
  then have "db' = db" using assms(1) by (auto simp: mark_running_def transaction_Inl_iff)
  then show ?thesis using assms(3) by (simp add: frozen_refl)
next
  case (Inr ev)
  then have "yid \<noteq> xid" using mark_running_not_live [of xid db now pid pgid] assms(1,3) by (auto simp: over_def)
  then show ?thesis
    using mark_running_log [OF assms(2), of now yid pid pgid ev db'] mark_running_live [OF assms(2,1)] assms Inr
    by (simp add: frozen_def over_def)
qed

lemma frozen_prune:
  assumes "prune now days bytes db = (r, db')" and "db_inv db" and "over xid db"
  shows "frozen xid db db'"
  using prune_rows [OF assms(2,1), of xid] prune_live [OF assms(2,1), of xid] assms(3)
  by (auto simp: frozen_def over_def)

lemma frozen_create:
  assumes "create_execution B now nid rq cwd db = (r, db')" and "over xid db"
  shows "frozen xid db db'"
proof (cases "nid = xid")
  case True
  then have "db' = db" using create_execution_rows [OF assms(1)] assms(2) by (auto simp: over_def)
  then show ?thesis using assms(2) by (simp add: frozen_refl)
next
  case False
  then have "find_execution xid db' = find_execution xid db" "events_of db' = events_of db"
    using create_execution_rows [OF assms(1)] by auto
  then show ?thesis using assms(2) by (simp add: frozen_def over_def live_def event_log_def)
qed

lemma frozen_batch:
  assumes r: "append_capture_batch B rs db = (r, db')" and "db_inv db" and "over xid db"
    and none: "records_for xid rs = []"
  shows "frozen xid db db'"
proof (cases r)
  case (Inl e)
  then have "db' = db" using r append_capture_batch_error by metis
  then show ?thesis using assms(3) by (simp add: frozen_refl)
next
  case (Inr evs)
  have "append_records B rs db = Inr (evs, db')" using r Inr by (simp add: append_capture_batch_Inr)
  then have ids: "map ev_execution_id evs = map record_execution rs" using append_records_returns by blast
  have "xid \<notin> set (map ev_execution_id evs)"
    unfolding ids using none by (auto simp: records_for_def filter_empty_conv)
  then have f: "filter (\<lambda>e. ev_execution_id e = xid) evs = []" by (auto simp: filter_empty_conv)
  have "event_log B' xid db' = event_log B' xid db" for B'
  proof -
    have "event_log B xid db' = event_log B xid db"
      using append_capture_batch_log [OF assms(2), of B rs evs db' xid] r Inr f by simp
    then have "length (events_of db' xid) = length (events_of db xid)" by (metis event_log_def length_map)
    moreover have "prefix (events_of db xid) (events_of db' xid)"
      using append_capture_batch_advances [OF assms(2), of B rs] r assms(3)
      by (auto simp: db_advances_def over_def)
    ultimately have "events_of db' xid = events_of db xid"
      by (auto simp: prefix_def)
    then show ?thesis by (simp add: event_log_def)
  qed
  then show ?thesis using append_capture_batch_live [OF assms(2) r, of xid] assms(3) by (simp add: frozen_def over_def)
qed

lemma frozen_cancel_queued:
  assumes "cancel_queued clock db = (r, db')" and "db_inv db" and "over xid db"
  shows "frozen xid db db'"
  using cancel_queued_rows [OF assms(2), of clock] assms(1,3) by (auto simp: frozen_def over_def)

lemmas frozen_store = frozen_finish frozen_mark_running frozen_prune frozen_create frozen_cancel_queued frozen_refl

section \<open>Sealed executions\<close>

fun past_reading :: "phase \<Rightarrow> bool" where
  "past_reading AcquireSlot = False"
| "past_reading CheckStart = False"
| "past_reading SpawnSupervisor = False"
| "past_reading Register = False"
| "past_reading Reading = False"
| "past_reading _ = True"

definition sealed :: "string \<Rightarrow> engine \<Rightarrow> bool" where
  "sealed xid e \<longleftrightarrow> over xid (en_db e) \<and> outstanding xid e = [] \<and>
     (\<forall>t. en_tasks e xid = Some t \<longrightarrow> past_reading (rt_phase t))"

text \<open>What a step may do to a sealed execution.\<close>

definition stays_sealed :: "string \<Rightarrow> engine \<Rightarrow> engine \<Rightarrow> bool" where
  "stays_sealed xid e e' \<longleftrightarrow>
     find_execution xid (en_db e') = None \<or>
     sealed xid e' \<and> (\<forall>B. event_log B xid (en_db e') = event_log B xid (en_db e))"

lemma stays_sealedI:
  assumes "frozen xid (en_db e) (en_db e')" and "outstanding xid e' = []"
    and "\<And>t. en_tasks e' xid = Some t \<Longrightarrow> past_reading (rt_phase t)"
  shows "stays_sealed xid e e'"
  using assms by (auto simp: stays_sealed_def sealed_def frozen_def over_def)

lemma on_frame_frozen:
  "db_inv (en_db e) \<Longrightarrow> over xid (en_db e) \<Longrightarrow> frozen xid (en_db e) (en_db (on_frame S B now yid t ev e))"
  by (cases ev) (auto split: sum.split prod.split intro: frozen_refl frozen_mark_running)

lemma prune_snd_frozen: "db_inv db \<Longrightarrow> over xid db \<Longrightarrow> frozen xid db (snd (prune now days bytes db))"
  using frozen_prune [of now days bytes db "fst (prune now days bytes db)"] by simp

lemma task_step_frozen:
  "db_inv (en_db e) \<Longrightarrow> over xid (en_db e) \<Longrightarrow> frozen xid (en_db e) (en_db (task_step S B d yid t a e))"
  by (cases "rt_phase t"; cases a)
    (auto simp: task_step_def Let_def on_frame_frozen prune_snd_frozen
      split: sum.split prod.split option.split error.split intro: frozen_refl frozen_finish)

lemma task_step_past:
  assumes "past_reading (rt_phase t)" and "en_tasks e xid = Some t"
    and "en_tasks (task_step S B d xid t a e) xid = Some t'"
  shows "past_reading (rt_phase t')"
  using assms
  by (cases "rt_phase t"; cases a)
    (auto simp: task_step_def Let_def split: sum.split_asm prod.split_asm option.split_asm error.split_asm if_split_asm)

lemma task_step_outstanding:
  assumes "outstanding xid e = []" and "yid \<noteq> xid \<or> past_reading (rt_phase t)"
  shows "outstanding xid (task_step S B d yid t a e) = []"
proof -
  let ?e = "task_step S B d yid t a e"
  consider (same) "capture_view ?e = capture_view e" | (records) "sends_records yid t e ?e"
    | (barrier) "sends_barrier yid t e ?e" using task_step_shape by blast
  then show ?thesis
  proof cases
    case same
    then show ?thesis using assms(1) same_view(1) [OF same] by simp
  next
    case records
    then obtain rs c where r: "rt_phase t = Reading" "\<forall>r \<in> set rs. record_execution r = yid"
      and e': "?e = set_task yid (t\<lparr>rt_counters := c\<rparr>) (e\<lparr>en_queue := en_queue e @ map Record rs\<rparr>)"
      by (auto simp: sends_records_def)
    then have "records_for xid rs = []" using assms(2) records_for_other [of rs yid xid] by auto
    then show ?thesis using assms(1) by (simp add: e' outstanding_def set_task_def)
  next
    case barrier
    then obtain f out where "?e = send_barrier yid t f out e" by (auto simp: sends_barrier_def)
    then show ?thesis using assms(1) by (simp add: send_barrier_def goto_def set_task_def outstanding_def)
  qed
qed

lemma sealed_task_step:
  assumes "db_inv (en_db e)" and "sealed xid e" and t: "en_tasks e yid = Some t"
  shows "stays_sealed xid e (task_step S B d yid t a e)"
proof (rule stays_sealedI)
  have s: "over xid (en_db e)" "outstanding xid e = []" using assms(2) by (auto simp: sealed_def)
  show "frozen xid (en_db e) (en_db (task_step S B d yid t a e))" by (rule task_step_frozen [OF assms(1) s(1)])
  show "outstanding xid (task_step S B d yid t a e) = []"
    using task_step_outstanding [OF s(2)] assms(2) t by (cases "yid = xid") (auto simp: sealed_def)
  show "past_reading (rt_phase u)" if "en_tasks (task_step S B d yid t a e) xid = Some u" for u
  proof (cases "yid = xid")
    case True
    then show ?thesis using task_step_past [OF _ t, of S B d a u] that assms(2) t by (auto simp: sealed_def)
  next
    case False
    then show ?thesis using task_step_others [OF assms(1), of xid yid] that assms(2) by (auto simp: sealed_def same_for_def)
  qed
qed

lemma flush_frozen:
  assumes "db_inv (cw_store w)" and "over xid (cw_store w)" and "records_for xid (cw_records w) = []"
  shows "frozen xid (cw_store w) (cw_store (flush_capture d (append_capture_batch B) w))"
  using assms frozen_batch [of B "cw_records w" "cw_store w" _ _ xid]
  by (auto simp: flush_capture_def frozen_refl split: prod.split sum.split)

lemma sealed_writer:
  assumes "db_inv (en_db e)" and s: "sealed xid e"
  shows "stays_sealed xid e (writer_take d B e)" and "stays_sealed xid e (writer_idle d B e)"
proof -
  have o: "over xid (en_db e)" "records_for xid (cw_records (en_writer e)) = []"
    and q: "records_for xid (records_of (en_queue e)) = []"
    and p: "\<And>t. en_tasks e xid = Some t \<Longrightarrow> past_reading (rt_phase t)"
    using s by (auto simp: sealed_def outstanding_def)
  show "stays_sealed xid e (writer_idle d B e)"
  proof (cases "en_queue e = []")
    case True
    then show ?thesis using flush_frozen [of "en_writer e" xid d B] assms(1) o p
      by (intro stays_sealedI) (auto simp: writer_idle_def en_db_def outstanding_def)
  next
    case False
    then show ?thesis using s by (simp add: writer_idle_def stays_sealed_def)
  qed
  show "stays_sealed xid e (writer_take d B e)"
  proof (cases "en_queue e")
    case Nil
    then show ?thesis using s by (simp add: writer_take_def stays_sealed_def)
  next
    case (Cons m ms)
    show ?thesis
    proof (cases m)
      case (Record r)
      then show ?thesis
        using flush_frozen [of "(en_writer e)\<lparr>cw_records := cw_records (en_writer e) @ [r]\<rparr>" xid d B]
          assms(1) o p q Cons
        by (intro stays_sealedI)
          (auto simp: writer_take_def en_db_def outstanding_def Let_def frozen_refl split: if_splits)
    next
      case (Barrier k)
      then show ?thesis using flush_frozen [of "en_writer e" xid d B] assms(1) o p q Cons
        by (intro stays_sealedI) (auto simp: writer_take_def en_db_def outstanding_def Let_def)
    qed
  qed
qed

lemma sealed_by_tasks:
  assumes "sealed xid e" and "frozen xid (en_db e) (en_db e')" and "capture_view e' = capture_view e"
    and "\<And>u. en_tasks e' xid = Some u \<Longrightarrow> \<exists>t. en_tasks e xid = Some t \<and> rt_phase u = rt_phase t"
  shows "stays_sealed xid e e'"
proof (rule stays_sealedI [OF assms(2)])
  show "outstanding xid e' = []" using assms(1) same_view(1) [OF assms(3)] by (simp add: sealed_def)
  show "past_reading (rt_phase u)" if "en_tasks e' xid = Some u" for u
    using assms(4) [OF that] assms(1) by (auto simp: sealed_def)
qed

lemma sealed_cancel:
  assumes "db_inv (en_db e)" and "sealed xid e"
  shows "stays_sealed xid e (snd (engine_cancel now yid e))"
proof (rule sealed_by_tasks [OF assms(2)])
  have o: "over xid (en_db e)" using assms(2) by (simp add: sealed_def)
  show "frozen xid (en_db e) (en_db (snd (engine_cancel now yid e)))"
    using assms(1) o
    by (auto simp: engine_cancel_def Let_def frozen_refl split: sum.split execution_state.split prod.split
        intro: frozen_finish)
qed (auto simp: engine_cancel_def Let_def send_to_tasks split: sum.splits execution_state.splits prod.splits if_splits)

lemma sealed_drain_begin:
  assumes "db_inv (en_db e)" and "sealed xid e"
  shows "stays_sealed xid e (snd (drain_begin clock e))"
proof (rule sealed_by_tasks [OF assms(2)])
  have o: "over xid (en_db e)" using assms(2) by (simp add: sealed_def)
  show "frozen xid (en_db e) (en_db (snd (drain_begin clock e)))"
    using assms(1) o
    by (auto simp: drain_begin_def Let_def frozen_refl split: sum.split prod.split intro: frozen_cancel_queued)
qed (auto simp: drain_begin_def Let_def sent_def split: sum.splits prod.splits if_splits dest!: send_all_tasks)

lemma sealed_execute:
  assumes "db_inv (en_db e)" and s: "sealed xid e"
  shows "stays_sealed xid e (snd (engine_execute B can now nid rq e))"
proof -
  have o: "over xid (en_db e)" using s by (simp add: sealed_def)
  have "stays_sealed xid e (set_db db' e)"
    if r: "create_execution B now nid rq' cwd (en_db e) = (r, db')" for r rq' cwd db'
    using frozen_create [OF r o] by (intro sealed_by_tasks [OF s]) auto
  moreover have "stays_sealed xid e (set_task (ex_id ex) (new_task rq' cwd) (set_db db' (e\<lparr>en_active := n, en_handles := hs\<rparr>)))"
    if r: "create_execution B now nid rq' cwd (en_db e) = (Inr ex, db')" for ex rq' cwd db' n hs
  proof -
    have "ex_id ex \<noteq> xid" using create_execution_rows [OF r] o by (auto simp: over_def)
    then show ?thesis using frozen_create [OF r o] by (intro sealed_by_tasks [OF s]) auto
  qed
  moreover have "stays_sealed xid e e" using s by (simp add: stays_sealed_def)
  ultimately show ?thesis by (auto simp: engine_execute_def split: sum.split prod.split)
qed

lemma sealed_step:
  assumes "engine_inv S e" and s: "sealed xid e"
  shows "stays_sealed xid e (engine_step S B d e i)"
proof -
  have db: "db_inv (en_db e)" using assms(1) by (simp add: engine_inv_def cancel_inv_def)
  have refl: "stays_sealed xid e e" using s by (simp add: stays_sealed_def)
  have o: "over xid (en_db e)" using s by (simp add: sealed_def)
  show ?thesis
  proof (cases i)
    case (EnControlGone yid)
    show ?thesis
    proof (cases "en_tasks e yid")
      case None
      then show ?thesis using EnControlGone refl by simp
    next
      case (Some t)
      have "stays_sealed xid e (set_task yid (t\<lparr>rt_control_open := False\<rparr>) e)"
        by (rule sealed_by_tasks [OF s]) (use o Some in \<open>auto intro: frozen_refl split: if_split_asm\<close>)
      then show ?thesis using EnControlGone Some by simp
    qed
  next
    case EnDrainEnd
    then show ?thesis using refl o
      by (auto simp: drain_end_def intro!: sealed_by_tasks [OF s] frozen_refl split: if_split_asm)
  qed (use refl db s in \<open>auto simp: sealed_execute sealed_task_step sealed_writer sealed_cancel sealed_drain_begin
      split: option.split\<close>)
qed

section \<open>Runs\<close>

lemma sealed_run:
  assumes "engine_inv S e" and "sealed xid e"
    and "\<And>n. n \<le> length is \<Longrightarrow> find_execution xid (en_db (run_steps (engine_step S B d) e (take n is))) \<noteq> None"
  shows "sealed xid (run_steps (engine_step S B d) e is) \<and>
     event_log B' xid (en_db (run_steps (engine_step S B d) e is)) = event_log B' xid (en_db e)"
  using assms
proof (induction "is" arbitrary: e)
  case Nil
  then show ?case by simp
next
  case (Cons i "is")
  let ?e = "engine_step S B d e i"
  have "find_execution xid (en_db ?e) \<noteq> None" using Cons.prems(3) [of 1] by simp
  then have s: "sealed xid ?e" "event_log B' xid (en_db ?e) = event_log B' xid (en_db e)"
    using sealed_step [OF Cons.prems(1,2), of B d i] by (auto simp: stays_sealed_def)
  have "find_execution xid (en_db (run_steps (engine_step S B d) ?e (take n is))) \<noteq> None" if "n \<le> length is" for n
    using Cons.prems(3) [of "Suc n"] that by simp
  then show ?case using Cons.IH [OF engine_machine.step_inv [OF Cons.prems(1)] s(1)] s(2) by simp
qed

text \<open>The terminal event of a run seals its execution.\<close>

lemma write_terminal_seals:
  assumes inv: "engine_inv S e" and t: "en_tasks e xid = Some t" "rt_phase t = WriteTerminal f out"
    and fin: "finish now xid (finish_state out) out (en_db e) = (Inr ev, db)"
  shows "sealed xid (task_step S B d xid t (Go now) e) \<and>
     event_log B' xid (en_db (task_step S B d xid t (Go now) e)) = event_log B' xid (en_db e) @ [ev]"
proof -
  have db: "db_inv (en_db e)" using inv by (simp add: engine_inv_def cancel_inv_def)
  have o: "outstanding xid e = []" using inv t by (auto simp: engine_inv_def flush_inv_def task_flushed_def)
  have step: "task_step S B d xid t (Go now) e = finished_event xid t f (notify ev (set_db db e))"
    using t(2) fin by (simp add: task_step_def)
  have "live xid (en_db e)" using finish_not_live [OF db, of xid now "finish_state out" out] fin by auto
  then obtain x where x: "find_execution xid (en_db e) = Some x" "\<not> terminal_str (xr_state x)" by (auto simp: live_iff)
  then have "find_execution xid db = Some (set_finished now (finish_state out) out (xr_last_seq x + 1) x)"
    using finish_live [OF db x, of now "finish_state out" out] fin by auto
  moreover have "is_terminal (finish_state out)" by (cases out) (simp_all add: finish_state_def)
  ultimately have "over xid db" by (auto simp: over_def live_def set_finished_def)
  moreover have "outstanding xid (finished_event xid t f (notify ev (set_db db e))) = []"
    using o same_view(1) [of "finished_event xid t f (notify ev (set_db db e))" e] by simp
  moreover have "event_log B' xid db = event_log B' xid (en_db e) @ [ev]"
    using finish_log [OF db fin] by simp
  ultimately show ?thesis unfolding step by (auto simp: sealed_def)
qed

end
