(* ===== verification/EngineDemo.thy ===== *)
theory EngineDemo
  imports EngineSealed StoreDemo
begin

text \<open>
  Concrete runs of the engine for the examples: an execution is accepted in the store of \<open>StoreDemo\<close>,
  gets its supervisor, and is cancelled before the supervisor has reported the start.
\<close>

definition demo_settings :: settings where
  "demo_settings = default_settings\<lparr>se_max_concurrent_executions := 2\<rparr>"

definition demo_engine :: "engine_input list \<Rightarrow> engine" where
  "demo_engine inputs = run_steps (engine_step demo_settings demo_b64 demo_display) (new_engine demo_settings demo_db) inputs"

definition demo_accept :: "engine_input list" where
  "demo_accept = [EnExecute Inr 100 ''n'' (demo_request None), EnTask ''n'' (Go 101), EnTask ''n'' (Go 102),
     EnTask ''n'' (SupervisorSpawned (Inr ())), EnTask ''n'' (Go 103)]"

definition demo_cancelled :: "engine_input list" where
  "demo_cancelled = demo_accept @ [EnCancel 104 ''n'']"

definition demo_late_output :: "engine_input list" where
  "demo_late_output = demo_cancelled @
     [EnTask ''n'' (Frame 105 (Some (Inr (SupOutput Stdout ''late'')))), EnWriterTake, EnWriterIdle]"

definition demo_done :: "engine_input list" where
  "demo_done = demo_accept @ [EnTask ''n'' (Frame 104 (Some (Inr (SupFinished (Exited 0))))), EnWriterTake,
     EnTask ''n'' (Go 105), EnTask ''n'' (Go 106)]"

lemma demo_engine_inv: "engine_inv demo_settings (demo_engine inputs)"
  unfolding demo_engine_def by (intro engine_machine.run_inv engine_inv_new demo_inv)

lemma demo_engine_append:
  "demo_engine (xs @ ys) = run_steps (engine_step demo_settings demo_b64 demo_display) (demo_engine xs) ys"
  by (simp add: demo_engine_def run_steps_append)

section \<open>The accepted execution\<close>

definition demo_new :: database where
  "demo_new = demo_db\<lparr>db_executions := db_executions demo_db @ [new_execution_row ''n'' 100 (demo_request None) ''/w'']\<rparr>"

lemma demo_new_created:
  "\<exists>ex. create_execution demo_b64 100 ''n'' (demo_request None) ''/w'' demo_db = (Inr ex, demo_new) \<and> ex_id ex = ''n''"
proof -
  have "request_validate demo_b64 (demo_request None) = Inr ()"
    "check_initiator_session (demo_request None) demo_db = Inr ()"
    "insert_execution (new_execution_row ''n'' 100 (demo_request None) ''/w'') demo_db = Inr demo_new"
    "find_execution ''n'' demo_new = Some (new_execution_row ''n'' 100 (demo_request None) ''/w'')"
    by code_simp+
  then show ?thesis
    by (simp add: create_execution_def get_execution_def execution_from_row_def new_execution_row_def parse_state_def)
qed

lemma demo_new_facts:
  "db_inv demo_new" "find_execution ''n'' demo_new = Some (new_execution_row ''n'' 100 (demo_request None) ''/w'')"
  "event_log demo_b64 ''n'' demo_new = []" "live ''n'' demo_new"
proof -
  show "db_inv demo_new" using demo_new_created keeps_inv(4) [OF _ demo_inv] by blast
  show f: "find_execution ''n'' demo_new = Some (new_execution_row ''n'' 100 (demo_request None) ''/w'')" by code_simp
  show "event_log demo_b64 ''n'' demo_new = []"
    by (simp add: event_log_def events_of_def demo_new_def demo_defs started_row_def output_row_def
        truncated_row_def finished_row_def)
  show "live ''n'' demo_new" by (simp add: live_def f new_execution_row_def terminal_str_def)
qed

lemma demo_new_queued: "\<exists>ex. get_execution now ''n'' demo_new = Inr ex \<and> ex_state ex = Queued"
  by (simp add: get_execution_def demo_new_facts(2) execution_from_row_def new_execution_row_def parse_state_def)

definition demo_task :: run_task where
  "demo_task = (new_task (demo_request None) ''/w'')\<lparr>rt_phase := Reading, rt_permit := True,
     rt_control := [spawn_request demo_settings (new_task (demo_request None) ''/w'')], rt_control_open := True\<rparr>"

definition demo_running :: engine where
  "demo_running = \<lparr>en_writer = new_writer demo_new, en_queue = [], en_free = 1, en_closed = False,
     en_processes = [''n''], en_tasks = [''n'' \<mapsto> demo_task], en_handles = [''n''], en_lifecycle = Accepting,
     en_active = 1, en_barriers = 0\<rparr>"

lemma demo_execute:
  "snd (engine_execute demo_b64 Inr 100 ''n'' (demo_request None) (new_engine demo_settings demo_db)) =
     \<lparr>en_writer = new_writer demo_new, en_queue = [], en_free = 2, en_closed = False, en_processes = [],
      en_tasks = [''n'' \<mapsto> new_task (demo_request None) ''/w''], en_handles = [''n''], en_lifecycle = Accepting,
      en_active = 1, en_barriers = 0\<rparr>"
proof -
  have "request_validate demo_b64 (demo_request None) = Inr ()"
    "get_workspace (rq_workspace_id (demo_request None)) demo_db =
       Inr \<lparr>ws_id = ''w0'', ws_name = ''work'', ws_root = ''/w'', ws_created_at_ms = 1\<rparr>"
    "resolve_cwd Inr \<lparr>ws_id = ''w0'', ws_name = ''work'', ws_root = ''/w'', ws_created_at_ms = 1\<rparr> None = Inr ''/w''"
    by code_simp+
  moreover have "(demo_request None)\<lparr>rq_workspace_id := ''w0''\<rparr> = demo_request None" "rq_cwd (demo_request None) = None"
    by (simp_all add: demo_request_def)
  ultimately show ?thesis
    using demo_new_created
    by (auto simp: engine_execute_def new_engine_def en_db_def new_writer_def set_task_def set_db_def
        demo_settings_def)
qed

lemmas demo_step = task_step_def en_db_def set_db_def notify_def goto_def leave_run_def set_task_def new_task_def
  Let_def

lemma demo_accept_run: "demo_engine demo_accept = demo_running"
proof -
  have "engine_step demo_settings demo_b64 demo_display (new_engine demo_settings demo_db)
      (EnExecute Inr 100 ''n'' (demo_request None)) =
      snd (engine_execute demo_b64 Inr 100 ''n'' (demo_request None) (new_engine demo_settings demo_db))"
    by (simp add: new_engine_def)
  moreover obtain ex1 ex2 where "get_execution 102 ''n'' demo_new = Inr ex1" "ex_state ex1 = Queued"
    "get_execution 103 ''n'' demo_new = Inr ex2" "ex_state ex2 = Queued"
    using demo_new_queued by metis
  ultimately show ?thesis
    unfolding demo_engine_def demo_accept_def
    by (simp add: demo_execute demo_step demo_running_def demo_task_def new_writer_def spawn_request_def)
qed

text \<open>Cancelled while it is queued, with its supervisor registered.\<close>

lemma demo_cancel_run:
  "\<exists>ev db. demo_engine demo_cancelled = demo_running\<lparr>
       en_writer := (new_writer db)\<lparr>cw_published := [ev]\<rparr>,
       en_tasks := [''n'' \<mapsto> demo_task\<lparr>rt_control := rt_control demo_task @ [CancelCommand]\<rparr>]\<rparr> \<and>
     ev_payload ev = EvFinished (OutcomeCancelled None) \<and> event_log demo_b64 ''n'' db = [ev] \<and>
     db_inv db \<and> over ''n'' db"
proof -
  obtain x where x: "find_execution ''n'' demo_new = Some x" "\<not> terminal_str (xr_state x)"
    using demo_new_facts(4) by (auto simp: live_iff)
  obtain db where f: "finish 104 ''n'' Cancelled (OutcomeCancelled None) demo_new =
      (Inr (event_of ''n'' (xr_last_seq x + 1) 104 (EvFinished (OutcomeCancelled None))), db)"
    "find_execution ''n'' db = Some (set_finished 104 Cancelled (OutcomeCancelled None) (xr_last_seq x + 1) x)"
    using finish_live [OF demo_new_facts(1) x, of 104 Cancelled "OutcomeCancelled None"] by auto
  have "over ''n'' db" by (simp add: over_def live_def f(2) set_finished_def terminal_str_def)
  moreover have "event_log demo_b64 ''n'' db = [event_of ''n'' (xr_last_seq x + 1) 104 (EvFinished (OutcomeCancelled None))]"
    using finish_log [OF demo_new_facts(1) f(1)] demo_new_facts(3) by simp
  moreover have "db_inv db" using keeps_inv(1) [OF f(1) demo_new_facts(1)] .
  moreover obtain ex where "get_execution 104 ''n'' demo_new = Inr ex" "ex_state ex = Queued"
    using demo_new_queued by blast
  then have "snd (engine_cancel 104 ''n'' demo_running) = demo_running\<lparr>
      en_writer := (new_writer db)\<lparr>cw_published := [event_of ''n'' (xr_last_seq x + 1) 104 (EvFinished (OutcomeCancelled None))]\<rparr>,
      en_tasks := [''n'' \<mapsto> demo_task\<lparr>rt_control := rt_control demo_task @ [CancelCommand]\<rparr>]\<rparr>"
    by (simp add: engine_cancel_def demo_running_def demo_step f(1) send_to_def control_send_def demo_task_def new_writer_def)
  ultimately show ?thesis
    unfolding demo_cancelled_def demo_engine_append demo_accept_run
    by (intro exI [of _ "event_of ''n'' (xr_last_seq x + 1) 104 (EvFinished (OutcomeCancelled None))"] exI [of _ db])
      (simp add: event_of_def)
qed

text \<open>What the supervisor still sends is captured after the terminal event.\<close>

lemma demo_late_run:
  "\<exists>ev1 ev2. event_log demo_b64 ''n'' (en_db (demo_engine demo_late_output)) = [ev1, ev2] \<and>
     ev_payload ev1 = EvFinished (OutcomeCancelled None) \<and> ev_payload ev2 = EvOutput Stdout ''late''"
proof -
  obtain ev db where r: "demo_engine demo_cancelled = demo_running\<lparr>
       en_writer := (new_writer db)\<lparr>cw_published := [ev]\<rparr>,
       en_tasks := [''n'' \<mapsto> demo_task\<lparr>rt_control := rt_control demo_task @ [CancelCommand]\<rparr>]\<rparr>"
    "ev_payload ev = EvFinished (OutcomeCancelled None)" "event_log demo_b64 ''n'' db = [ev]" "db_inv db" "over ''n'' db"
    using demo_cancel_run by blast
  let ?r = "CaptureOutput ''n'' 105 Stdout ''late''"
  obtain evs db' where a: "append_records demo_b64 [?r] db = Inr (evs, db')"
    using append_records_accepts [OF r(4), of "[?r]" demo_b64] r(5)
    by (auto simp: record_execution_def over_def)
  have b: "append_capture_batch demo_b64 [?r] db = (Inr evs, db')" using a by (simp only: append_capture_batch_Inr)
  have p: "map ev_payload evs = [EvOutput Stdout ''late'']" "map ev_execution_id evs = [''n'']"
    using append_records_returns [OF a] by (simp_all add: record_payload_def record_execution_def demo_b64_def)
  then obtain ev2 where ev2: "evs = [ev2]" "ev_payload ev2 = EvOutput Stdout ''late''" "ev_execution_id ev2 = ''n''"
    by auto
  have o: "decode_output demo_b64 ''late'' = Inr ''late''" by (simp add: decode_output_def demo_b64_def)
  have l: "run_capture_limit demo_settings demo_task = 256 * 1024 * 1024"
    by (simp add: run_capture_limit_def demo_task_def new_task_def demo_request_def demo_settings_def default_settings_def)
  have "en_db (demo_engine demo_late_output) = db'"
    unfolding demo_late_output_def demo_engine_append r(1)
    by (simp add: demo_running_def demo_step demo_task_def o run_capture_limit_def demo_request_def
        demo_settings_def default_settings_def capture_output_def writer_take_def writer_idle_def new_writer_def
        CAPTURE_BATCH_SIZE_def flush_capture_def b)
  moreover have "event_log demo_b64 ''n'' db' = [ev, ev2]"
    using append_records_log [OF r(4) a, of "''n''"] r(3) ev2 by simp
  ultimately show ?thesis using r(2) ev2(2) by auto
qed

text \<open>A run whose supervisor reports the end: it flushes and is about to write the terminal event.\<close>

lemma demo_done_run:
  "demo_engine demo_done = demo_running\<lparr>en_writer := (new_writer demo_new)\<lparr>cw_replies := [(0, Inr ())]\<rparr>,
     en_tasks := [''n'' \<mapsto> demo_task\<lparr>rt_phase := WriteTerminal True (Exited 0)\<rparr>], en_barriers := 1\<rparr>"
proof -
  obtain ex where "get_execution 106 ''n'' demo_new = Inr ex" "ex_state ex = Queued"
    using demo_new_queued by blast
  then show ?thesis
    unfolding demo_done_def demo_engine_append demo_accept_run
    by (simp add: demo_running_def demo_step demo_task_def send_barrier_def writer_take_def new_writer_def flush_capture_def)
qed

end
