(* ===== verification/EngineDrain.thy ===== *)
theory EngineDrain
  imports EngineSealed
begin

text \<open>
  Draining is final: once it has begun, no execution is queued in the store any more and none is
  accepted, whatever the clients, the tasks and the writer still do.
\<close>

definition no_queued :: "database \<Rightarrow> bool" where
  "no_queued db \<longleftrightarrow> (\<forall>xid x. find_execution xid db = Some x \<longrightarrow> xr_state x \<noteq> ''queued'')"

definition drained_inv :: "engine \<Rightarrow> bool" where
  "drained_inv e \<longleftrightarrow> db_inv (en_db e) \<and> en_lifecycle e \<noteq> Accepting \<and> en_closed e \<and> no_queued (en_db e)"

lemma no_queued_same:
  "no_queued db \<Longrightarrow> (\<And>xid. map_option xr_state (find_execution xid db') = map_option xr_state (find_execution xid db)) \<Longrightarrow>
   no_queued db'"
  unfolding no_queued_def by (metis option.map_disc_iff option.map_sel option.sel option.exhaust)

lemma finish_rows:
  assumes "finish now xid st out db = (r, db')" and "db_inv db" and "find_execution yid db' = Some y"
  shows "find_execution yid db = Some y \<or> xr_state y = state_str st"
proof (cases "yid = xid")
  case False
  then show ?thesis using finish_others [OF assms(2,1) False] assms(3) by simp
next
  case True
  show ?thesis
  proof (cases "live xid db")
    case False
    then have "db' = db" using finish_not_live [OF assms(2) False, of now st out] assms(1) by auto
    then show ?thesis using assms(3) by simp
  next
    case live: True
    then obtain x where x: "find_execution xid db = Some x" "\<not> terminal_str (xr_state x)" by (auto simp: live_iff)
    then have "find_execution xid db' = Some (set_finished now st out (xr_last_seq x + 1) x)"
      using finish_live [OF assms(2) x, of now st out] assms(1) by auto
    then show ?thesis using assms(3) True by (auto simp: set_finished_def)
  qed
qed

lemma no_queued_finish:
  assumes "finish now xid st out db = (r, db')" and "db_inv db" and "no_queued db" and "st \<noteq> Queued"
  shows "no_queued db'"
proof -
  have "state_str st \<noteq> ''queued''" using assms(4) by (cases st) auto
  then show ?thesis using finish_rows [OF assms(1,2)] assms(3) unfolding no_queued_def by metis
qed

lemma no_queued_mark_running:
  assumes "mark_running now xid pid pgid db = (r, db')" and "no_queued db"
  shows "no_queued db'"
proof -
  have "\<exists>e. mark_running now xid pid pgid db = (Inl e, db)"
    using mark_running_refused(1) [of xid db now pid pgid] mark_running_refused(2) [of xid db _ now pid pgid] assms(2)
    by (cases "find_execution xid db") (auto simp: no_queued_def)
  then show ?thesis using assms by auto
qed

lemma no_queued_prune: "prune now days bytes db = (r, db') \<Longrightarrow> db_inv db \<Longrightarrow> no_queued db \<Longrightarrow> no_queued db'"
  using prune_rows [of db now days bytes r db'] unfolding no_queued_def by (metis option.distinct(1))

lemma no_queued_prune_snd: "db_inv db \<Longrightarrow> no_queued db \<Longrightarrow> no_queued (snd (prune now days bytes db))"
  by (rule no_queued_prune [where r = "fst (prune now days bytes db)"]) simp_all

lemma no_queued_flush:
  assumes "db_inv (cw_store w)" and "no_queued (cw_store w)"
  shows "no_queued (cw_store (flush_capture d (append_capture_batch B) w))"
  using assms no_queued_same append_capture_batch_state [OF assms(1), of B "cw_records w"]
  by (auto simp: flush_capture_def split: prod.split sum.split)

lemma no_queued_process:
  assumes "db_inv (cw_store w)" and "no_queued (cw_store w)"
  shows "no_queued (cw_store (process_capture_message d (append_capture_batch B) m w))"
  using assms no_queued_flush [of "w\<lparr>cw_records := cw_records w @ [r]\<rparr>" for r] no_queued_flush [OF assms]
  by (cases m) (simp_all add: Let_def)

section \<open>What no step of a task looks at\<close>

definition mode :: "engine \<Rightarrow> lifecycle \<times> bool" where
  "mode e = (en_lifecycle e, en_closed e)"

lemma mode_frame [simp]:
  "mode (set_db db e) = mode e" "mode (notify ev e) = mode e" "mode (report_fatal m e) = mode e"
  "mode (set_task xid t e) = mode e" "mode (goto xid t p e) = mode e" "mode (leave_run xid t p e) = mode e"
  "mode (leave_reading xid t e) = mode e"
  "mode (send_barrier xid t f out e) = mode e" "mode (finished_event xid t f e) = mode e"
  "mode (e\<lparr>en_queue := qu\<rparr>) = mode e" "mode (e\<lparr>en_free := n\<rparr>) = mode e" "mode (e\<lparr>en_processes := ps\<rparr>) = mode e"
  "mode (e\<lparr>en_tasks := T\<rparr>) = mode e" "mode (e\<lparr>en_active := n\<rparr>) = mode e" "mode (e\<lparr>en_handles := hs\<rparr>) = mode e"
  "mode (e\<lparr>en_writer := w\<rparr>) = mode e" "mode (snd (send_to xid c e)) = mode e"
  by (simp_all add: mode_def set_db_def notify_def report_fatal_def set_task_def goto_def leave_run_def
      send_barrier_def finished_event_def leave_reading_def send_to_def split_beta split: option.split)

lemma drained_mode: "drained_inv e \<longleftrightarrow> db_inv (en_db e) \<and> fst (mode e) \<noteq> Accepting \<and> snd (mode e) \<and> no_queued (en_db e)"
  by (simp add: drained_inv_def mode_def)

lemma on_frame_drained: "drained_inv e \<Longrightarrow> drained_inv (on_frame S B now xid t ev e)"
  by (cases ev) (auto simp: drained_mode split: sum.split prod.split intro: keeps_inv no_queued_mark_running)

lemma finish_state_not_queued [simp]: "finish_state out \<noteq> Queued"
  by (cases out) (simp_all add: finish_state_def)

lemma task_step_drained: "drained_inv e \<Longrightarrow> drained_inv (task_step S B d xid t a e)"
  using on_frame_drained [unfolded drained_mode, of e]
  by (cases "rt_phase t"; cases a)
    (auto simp: task_step_def Let_def drained_mode no_queued_prune_snd prune_inv
      split: sum.split prod.split option.split error.split
      intro: keeps_inv no_queued_finish [where st = Finished] no_queued_finish [where st = Interrupted]
        no_queued_finish [where st = "finish_state out" for out])

section \<open>The other steps\<close>

lemma mode_all [simp]: "mode (fold notify evs e) = mode e" "mode (send_all c xids e) = mode e"
proof -
  show "mode (fold notify evs e) = mode e" by (induction evs arbitrary: e) simp_all
  show "mode (send_all c xids e) = mode e"
    unfolding send_all_def by (induction xids arbitrary: e) simp_all
qed

lemma drained_writer:
  assumes "drained_inv e"
  shows "drained_inv (writer_take d B e)" "drained_inv (writer_idle d B e)"
  using assms process_message_db [of "en_writer e"] writer_db [of "en_writer e"]
    no_queued_process [of "en_writer e"] no_queued_flush [of "en_writer e"]
  by (auto simp: drained_inv_def writer_take_def writer_idle_def en_db_def split: list.split)

lemma drained_cancel: "drained_inv e \<Longrightarrow> drained_inv (snd (engine_cancel now xid e))"
  by (auto simp: drained_mode engine_cancel_def Let_def split: sum.split execution_state.split prod.split
      intro: keeps_inv no_queued_finish [where st = Cancelled])

lemma drained_execute:
  assumes "drained_inv e"
  shows "\<exists>err. engine_execute B can now nid rq e = (Inl err, e)"
  using assms by (cases "request_validate B rq") (auto simp: drained_inv_def engine_execute_def)

lemma drain_begin_drained:
  assumes "db_inv (en_db e)" and "en_lifecycle e \<noteq> Stopped \<or> drained_inv e"
  shows "drained_inv (snd (drain_begin clock e)) \<and> fst (drain_begin clock e) = Inr ()"
proof (cases "en_lifecycle e = Stopped")
  case True
  then show ?thesis using assms(2) by (simp add: drain_begin_def)
next
  case False
  obtain evs db' where r: "cancel_queued clock (en_db e) = (Inr evs, db')" "db_inv db'" "no_queued db'"
    using cancel_queued_rows [OF assms(1), of clock] unfolding no_queued_def by blast
  then show ?thesis using False by (auto simp: drain_begin_def Let_def drained_mode) (auto simp: mode_def)
qed

lemma drained_step: "drained_inv e \<Longrightarrow> drained_inv (engine_step S B d e i)"
proof (induction S B d e i rule: engine_step.induct)
  case (1 S B d e can now nid rq)
  then show ?case using drained_execute [OF 1, of B can now nid rq] by auto
next
  case (3 S B d e xid)
  then show ?case by (auto simp: drained_mode split: option.split)
next
  case (7 S B d e clock)
  then have "db_inv (en_db e)" by (simp add: drained_inv_def)
  then show ?case using drain_begin_drained 7 by simp
next
  case (8 S B d e)
  then show ?case by (auto simp: drain_end_def drained_inv_def)
qed (simp_all add: task_step_drained drained_writer drained_cancel split: option.split)

interpretation drained_machine: invariant_machine "engine_step S B d" drained_inv
  by unfold_locales (rule drained_step)

end
