(* ===== verification/EngineProperties.thy ===== *)
theory EngineProperties
  imports EngineDemo EngineDrain
begin

text \<open>
  The properties of the execution engine. A reachable state is what any list of inputs (steps of tasks,
  of the capture writer, of clients, in any order) makes of a new engine over a consistent store.
\<close>

text \<open>Never more than the configured number of executions are past the semaphore, each task in
  \<open>run_execution\<close> beyond it holds exactly one permit, and the number of active executions reported is the
  number of live tasks.\<close>

theorem engine_slots:
  fixes S :: settings and B :: base64 and d :: display_env and db :: database and inputs :: "engine_input list"
  defines "e \<equiv> run_steps (engine_step S B d) (new_engine S db) inputs"
  shows "card {xid. \<exists>t. en_tasks e xid = Some t \<and> in_run (rt_phase t)} + en_free e = se_max_concurrent_executions S \<and>
     en_active e = card (dom (en_tasks e))"
proof -
  have inv: "slots_inv S e" unfolding e_def by (intro slots_machine.run_inv slots_new)
  then have "{xid. \<exists>t. en_tasks e xid = Some t \<and> in_run (rt_phase t)} = permits (en_tasks e)"
    by (auto simp: slots_inv_def permits_def)
  then show ?thesis using inv by (simp add: slots_inv_def) (metis distinct_card)
qed

text \<open>C9: No cancellation is lost, whatever the interleaving: a supervisor that is still being read, whose
  control pipe works and whose execution is no longer queued or running in the store, has been sent the
  cancel command.\<close>

theorem cancel_never_lost:
  fixes S :: settings and B :: base64 and d :: display_env and db :: database and inputs :: "engine_input list"
  assumes "db_inv db"
  defines "e \<equiv> run_steps (engine_step S B d) (new_engine S db) inputs"
  assumes "en_tasks e xid = Some t" and "rt_phase t = Reading" and "rt_control_open t" and "\<not> live xid (en_db e)"
  shows "CancelCommand \<in> set (rt_control t)"
proof -
  have "engine_inv S e" unfolding e_def by (intro engine_machine.run_inv engine_inv_new assms(1))
  then show ?thesis using cancel_invD [of e xid t] assms(3-6) by (auto simp: engine_inv_def)
qed

theorem cancel_never_lost_witness:
  "\<exists>t. en_tasks (demo_engine demo_cancelled) ''n'' = Some t \<and> CancelCommand \<in> set (rt_control t)"
proof -
  obtain ev db where r: "demo_engine demo_cancelled = demo_running\<lparr>
       en_writer := (new_writer db)\<lparr>cw_published := [ev]\<rparr>,
       en_tasks := [''n'' \<mapsto> demo_task\<lparr>rt_control := rt_control demo_task @ [CancelCommand]\<rparr>]\<rparr>" "over ''n'' db"
    using demo_cancel_run by blast
  let ?t = "demo_task\<lparr>rt_control := rt_control demo_task @ [CancelCommand]\<rparr>"
  have "en_tasks (demo_engine demo_cancelled) ''n'' = Some ?t" "en_db (demo_engine demo_cancelled) = db"
    by (simp_all add: r(1) en_db_def new_writer_def)
  then show ?thesis
    using cancel_never_lost [OF demo_inv, where S = demo_settings and B = demo_b64 and d = demo_display
        and inputs = demo_cancelled and xid = "''n''" and t = ?t] r(2)
    by (simp add: demo_engine_def demo_task_def over_def)
qed

text \<open>C10: When a run writes the terminal event its supervisor reported, that event is the last of the log:
  everything captured before is already in the log, and as long as pruning does not delete the
  execution no later step of anything adds to it.\<close>

theorem terminal_event_is_last:
  fixes S :: settings and B :: base64 and d :: display_env and db :: database and inputs :: "engine_input list"
    and later :: "engine_input list" and xid :: string and now :: int
  assumes "db_inv db"
  defines "e \<equiv> run_steps (engine_step S B d) (new_engine S db) inputs"
  assumes "en_tasks e xid = Some t" and "rt_phase t = WriteTerminal from_event out"
    and "finish now xid (finish_state out) out (en_db e) = (Inr ev, db1)"
  defines "e1 \<equiv> engine_step S B d e (EnTask xid (Go now))"
  assumes "\<forall>n \<le> length later. find_execution xid (en_db (run_steps (engine_step S B d) e1 (take n later))) \<noteq> None"
  shows "event_log B xid (en_db (run_steps (engine_step S B d) e1 later)) = event_log B xid (en_db e) @ [ev] \<and>
     ev_payload ev = EvFinished out"
proof -
  have inv: "engine_inv S e" unfolding e_def by (intro engine_machine.run_inv engine_inv_new assms(1))
  then have inv1: "engine_inv S e1" unfolding e1_def by (rule engine_step_inv)
  have step: "e1 = task_step S B d xid t (Go now) e" using assms(3) by (simp add: e1_def)
  have seal: "sealed xid e1" "event_log B xid (en_db e1) = event_log B xid (en_db e) @ [ev]"
    using write_terminal_seals [OF inv assms(3-5)] unfolding step by auto
  have "event_log B xid (en_db (run_steps (engine_step S B d) e1 later)) = event_log B xid (en_db e1)"
    using sealed_run [OF inv1 seal(1), of later B d B] assms(7) by blast
  moreover have "ev_payload ev = EvFinished out"
    using assms(5) by (auto simp: finish_def transaction_Inr_iff bind_res_Inr_iff event_of_def split: if_split_asm)
  ultimately show ?thesis using seal(2) by simp
qed

theorem terminal_event_is_last_witness:
  "\<exists>ev. event_log demo_b64 ''n'' (en_db (demo_engine (demo_done @ [EnTask ''n'' (Go 107)]))) = [ev] \<and>
     ev_payload ev = EvFinished (Exited 0)"
proof -
  let ?e = "demo_engine demo_done" and ?t = "demo_task\<lparr>rt_phase := WriteTerminal True (Exited 0)\<rparr>"
  have t: "en_tasks ?e ''n'' = Some ?t" "en_db ?e = demo_new" by (simp_all add: demo_done_run en_db_def new_writer_def)
  obtain x where x: "find_execution ''n'' demo_new = Some x" "\<not> terminal_str (xr_state x)"
    using demo_new_facts(4) by (auto simp: live_iff)
  obtain ev db1 where f: "finish 107 ''n'' (finish_state (Exited 0)) (Exited 0) demo_new = (Inr ev, db1)"
      "find_execution ''n'' db1 \<noteq> None"
    using finish_live [OF demo_new_facts(1) x, of 107 "finish_state (Exited 0)" "Exited 0"] by auto
  have e1: "en_db (engine_step demo_settings demo_b64 demo_display ?e (EnTask ''n'' (Go 107))) = db1"
    using t f(1) by (simp add: task_step_def)
  have "event_log demo_b64 ''n'' (en_db (engine_step demo_settings demo_b64 demo_display ?e (EnTask ''n'' (Go 107)))) =
      event_log demo_b64 ''n'' demo_new @ [ev] \<and> ev_payload ev = EvFinished (Exited 0)"
    using terminal_event_is_last [OF demo_inv, where S = demo_settings and B = demo_b64 and d = demo_display
        and inputs = demo_done and xid = "''n''" and t = ?t and from_event = True and out = "Exited 0" and now = 107
        and ev = ev and ?db1.0 = db1 and later = "[]"]
      t f e1 by (simp add: demo_engine_def)
  then show ?thesis unfolding demo_engine_append by (simp add: demo_new_facts(3))
qed


text \<open>C11: Draining is final: it never fails, and from then on no execution in the store is queued and every
  request to execute is refused without a trace, whatever else happens.\<close>

theorem drain_is_final:
  fixes S :: settings and B :: base64 and d :: display_env and db :: database and inputs :: "engine_input list"
    and later :: "engine_input list" and clock :: "nat \<Rightarrow> int"
  assumes "db_inv db"
  defines "e \<equiv> run_steps (engine_step S B d) (new_engine S db) inputs"
  assumes "en_lifecycle e \<noteq> Stopped"
  defines "e1 \<equiv> run_steps (engine_step S B d) (snd (drain_begin clock e)) later"
  shows "fst (drain_begin clock e) = Inr () \<and>
     (\<forall>xid x. find_execution xid (en_db e1) = Some x \<longrightarrow> xr_state x \<noteq> ''queued'') \<and>
     (\<exists>err. engine_execute B can now nid rq e1 = (Inl err, e1))"
proof -
  have "engine_inv S e" unfolding e_def by (intro engine_machine.run_inv engine_inv_new assms(1))
  then have d: "drained_inv (snd (drain_begin clock e)) \<and> fst (drain_begin clock e) = Inr ()"
    using assms(3) by (intro drain_begin_drained) (auto simp: engine_inv_def cancel_inv_def)
  then have "drained_inv e1" unfolding e1_def by (intro drained_machine.run_inv) simp
  then show ?thesis using d drained_execute [of e1] by (auto simp: drained_inv_def no_queued_def)
qed

theorem drain_is_final_witness:
  "\<exists>err. engine_execute demo_b64 Inr 200 ''m'' (demo_request None)
       (run_steps (engine_step demo_settings demo_b64 demo_display) (snd (drain_begin (\<lambda>_. 150) (demo_engine demo_accept)))
          [EnTask ''n'' (Go 160)]) =
     (Inl err, run_steps (engine_step demo_settings demo_b64 demo_display)
        (snd (drain_begin (\<lambda>_. 150) (demo_engine demo_accept))) [EnTask ''n'' (Go 160)])"
  using drain_is_final [OF demo_inv, where S = demo_settings and B = demo_b64 and d = demo_display and inputs = demo_accept
      and clock = "\<lambda>_. 150" and later = "[EnTask ''n'' (Go 160)]" and can = Inr and now = 200 and nid = "''m''"
      and rq = "demo_request None"]
  by (simp add: demo_engine_def [symmetric] demo_accept_run) (simp add: demo_running_def)

section \<open>Waiting\<close>




end
