(* ===== verification/Wire.thy ===== *)
theory Wire
  imports Model
begin

text \<open>
  The messages between clients and the daemon (\<open>src/protocol.rs\<close>): requests with their operation,
  responses, events of a subscription, the limits and the defaults of absent fields. A message is the
  value serde encodes; the encoding itself is serde's.
\<close>

definition MAX_FRAME_BYTES :: nat where
  "MAX_FRAME_BYTES = 16 * 1024 * 1024"

definition CAPABILITY_EXECUTION_STATS :: string where
  "CAPABILITY_EXECUTION_STATS = ''execution_stats_v1''"

definition CAPABILITY_AGENT_SESSIONS :: string where
  "CAPABILITY_AGENT_SESSIONS = ''agent_sessions_v1''"

definition CAPABILITY_AGENT_TURNS :: string where
  "CAPABILITY_AGENT_TURNS = ''agent_turns_v1''"

datatype operation =
    OpHealth
  | OpWorkspaceAdd string string
  | OpWorkspaceRemove string
  | OpWorkspaceList
  | OpExecute execution_request
  | OpGet string
  | OpList "string option" nat
  | OpStats string int
  | OpSessionCreate agent_session_request
  | OpSessionFinish string agent_session_finish
  | OpSessionGet string
  | OpSessionList "string option" nat
  | OpSessionDelete string
  | OpAgentEvent agent_event_request
  | OpReadOutput string nat nat
  | OpWait string nat nat nat
  | OpSubscribe string nat
  | OpCancel string
  | OpShutdown bool

definition default_list_limit :: nat where
  "default_list_limit = 100"

definition default_read_bytes :: nat where
  "default_read_bytes = 1024 * 1024"

definition default_wait_ms :: nat where
  "default_wait_ms = 30000"

record subscription_response =
  su_execution :: execution
  su_next_seq :: nat

datatype protocol_result =
    PEmpty
  | PHealth health
  | PWorkspace workspace
  | PWorkspaces "workspace list"
  | PExecution execution
  | PExecutions "execution list"
  | PStats execution_stats
  | PAgentSession agent_session
  | PAgentSessions "agent_session list"
  | PAgentSessionDetail agent_session_detail
  | PAgentTurn agent_turn
  | POutput read_output_response
  | PWait wait_response
  | PSubscription subscription_response

datatype response_body =
    BodyOk protocol_result
  | BodyError protocol_error

datatype wire_message =
    Request nat string operation
  | Response nat string response_body
  | Event nat string execution_event

definition wire_request :: "string \<Rightarrow> operation \<Rightarrow> wire_message" where
  "wire_request new_id op = Request PROTOCOL_VERSION new_id op"

definition wire_ok :: "string \<Rightarrow> protocol_result \<Rightarrow> wire_message" where
  "wire_ok rid result = Response PROTOCOL_VERSION rid (BodyOk result)"

definition wire_error :: "display_env \<Rightarrow> string \<Rightarrow> error \<Rightarrow> wire_message" where
  "wire_error d rid e = Response PROTOCOL_VERSION rid (BodyError (protocol_error_from d e))"

definition wire_event :: "string \<Rightarrow> execution_event \<Rightarrow> wire_message" where
  "wire_event sid ev = Event PROTOCOL_VERSION sid ev"

end
