(* ===== verification/Subscription.thy ===== *)
theory Subscription
  imports Engine Wire StoreRead
begin

text \<open>
  Subscriptions to an execution's events (\<open>handle_subscription\<close>, \<open>replay_subscription\<close> and
  \<open>send_subscription_event\<close> in \<open>src/daemon.rs\<close>). A subscriber gets the stored events from its cursor on,
  page by page, then the events as they are published; when it has missed some it reads the store again.
  The store changes between the pages, so a replay takes the list of the states it reads.

  What a subscription needs of the store is the interface \<open>paged_log\<close>: a log numbered from 1, and pages
  that are the next contiguous piece of it.
\<close>

section \<open>The definitions\<close>

definition is_finished :: "execution_event \<Rightarrow> bool" where
  "is_finished ev = (case ev_payload ev of EvFinished _ \<Rightarrow> True | _ \<Rightarrow> False)"

text \<open>The loop over one page: the events sent, the cursor, and whether the terminal event was among them.\<close>

fun send_page :: "execution_event list \<Rightarrow> nat \<Rightarrow> execution_event list \<times> nat \<times> bool" where
  "send_page [] cursor = ([], cursor, False)"
| "send_page (ev # evs) cursor =
     (if ev_seq ev \<le> cursor then send_page evs cursor
      else if is_finished ev then ([ev], ev_seq ev, True)
      else case send_page evs (ev_seq ev) of (sent, c, terminal) \<Rightarrow> (ev # sent, c, terminal))"

text \<open>\<open>None\<close> when the listed states are used up before the replay returns.\<close>

fun replay ::
  "('s \<Rightarrow> nat \<Rightarrow> read_output_response result) \<Rightarrow> 's list \<Rightarrow> nat \<Rightarrow>
   execution_event list \<times> nat \<times> bool result option" where
  "replay page [] cursor = ([], cursor, None)"
| "replay page (s # ss) cursor =
     (case page s cursor of
        Inl e \<Rightarrow> ([], cursor, Some (Inl e))
      | Inr ro \<Rightarrow>
          (case send_page (ro_events ro) cursor of
             (sent, c, terminal) \<Rightarrow>
               if terminal then (sent, c, Some (Inr True))
               else if ro_has_more ro then
                 (case replay page ss c of (sent', c', r) \<Rightarrow> (sent @ sent', c', r))
               else (sent, c, Some (Inr (is_terminal (ex_state (ro_execution ro)) \<and>
                       ex_last_seq (ro_execution ro) \<le> c)))))"

datatype 's sub_input =
    PeerClosed
  | PeerMessage
  | Received recv "'s list"

datatype sub_status =
    Subscribed nat
  | SubReturned
  | SubFailed error
  | SubReplaying

definition after_replay :: "execution_event list \<times> nat \<times> bool result option \<Rightarrow> execution_event list \<times> sub_status" where
  "after_replay rr =
     (case rr of (sent, c, r) \<Rightarrow>
        (sent, case r of
           None \<Rightarrow> SubReplaying
         | Some (Inl e) \<Rightarrow> SubFailed e
         | Some (Inr done) \<Rightarrow> if done then SubReturned else Subscribed c))"

fun sub_step ::
  "('s \<Rightarrow> nat \<Rightarrow> read_output_response result) \<Rightarrow> string \<Rightarrow> nat \<Rightarrow> 's sub_input \<Rightarrow> execution_event list \<times> sub_status" where
  "sub_step page xid cursor PeerClosed = ([], SubReturned)"
| "sub_step page xid cursor PeerMessage =
     ([], SubFailed (Protocol ''subscription connections do not accept additional requests''))"
| "sub_step page xid cursor (Received (Recv ev) ss) =
     (if ev_execution_id ev \<noteq> xid \<or> ev_seq ev \<le> cursor then ([], Subscribed cursor)
      else if ev_seq ev = cursor + 1 then
        ([ev], if is_finished ev then SubReturned else Subscribed (cursor + 1))
      else after_replay (replay page ss cursor))"
| "sub_step page xid cursor (Received RecvLagged ss) = after_replay (replay page ss cursor)"
| "sub_step page xid cursor (Received RecvClosed ss) =
     (case after_replay (replay page ss cursor) of
        (sent, Subscribed c) \<Rightarrow> (sent, SubReturned) | (sent, st) \<Rightarrow> (sent, st))"

fun sub_loop ::
  "('s \<Rightarrow> nat \<Rightarrow> read_output_response result) \<Rightarrow> string \<Rightarrow> nat \<Rightarrow> 's sub_input list \<Rightarrow>
   execution_event list \<times> sub_status" where
  "sub_loop page xid cursor [] = ([], Subscribed cursor)"
| "sub_loop page xid cursor (i # is) =
     (case sub_step page xid cursor i of
        (sent, Subscribed c) \<Rightarrow> (case sub_loop page xid c is of (sent', st) \<Rightarrow> (sent @ sent', st))
      | (sent, st) \<Rightarrow> (sent, st))"

text \<open>What follows the acceptance: the first replay, then the loop.\<close>

definition subscription_events ::
  "('s \<Rightarrow> nat \<Rightarrow> read_output_response result) \<Rightarrow> string \<Rightarrow> nat \<Rightarrow> 's list \<Rightarrow> 's sub_input list \<Rightarrow>
   execution_event list \<times> sub_status" where
  "subscription_events page xid after_seq ss inputs =
     (case after_replay (replay page ss after_seq) of
        (sent, Subscribed c) \<Rightarrow> (case sub_loop page xid c inputs of (sent', st) \<Rightarrow> (sent @ sent', st))
      | (sent, st) \<Rightarrow> (sent, st))"

definition handle_subscription ::
  "display_env \<Rightarrow> ('s \<Rightarrow> nat \<Rightarrow> read_output_response result) \<Rightarrow> execution result \<Rightarrow> string \<Rightarrow> string \<Rightarrow> nat \<Rightarrow>
   's list \<Rightarrow> 's sub_input list \<Rightarrow> wire_message list \<times> sub_status" where
  "handle_subscription d page execution sub_id xid after_seq ss inputs =
     (case execution of
        Inl e \<Rightarrow> ([wire_error d sub_id e], SubReturned)
      | Inr ex \<Rightarrow>
          if after_seq > ex_last_seq ex then
            ([wire_error d sub_id (InvalidRequest (''after_seq '' @ show_nat after_seq @
                '' exceeds execution cursor '' @ show_nat (ex_last_seq ex)))], SubReturned)
          else
            (case subscription_events page xid after_seq ss inputs of
               (events, st) \<Rightarrow>
                 (wire_ok sub_id (PSubscription \<lparr>su_execution = ex, su_next_seq = after_seq\<rparr>) #
                    map (wire_event sub_id) events, st)))"

definition replay_page :: "base64 \<Rightarrow> int \<Rightarrow> string \<Rightarrow> database \<Rightarrow> nat \<Rightarrow> read_output_response result" where
  "replay_page B now xid db cursor = read_output B now xid cursor (1024 * 1024) db"

section \<open>The interface to the store\<close>

text \<open>A list of events up to its first terminal event.\<close>

fun upto_finished :: "execution_event list \<Rightarrow> execution_event list" where
  "upto_finished [] = []"
| "upto_finished (ev # evs) = (if is_finished ev then [ev] else ev # upto_finished evs)"

lemma upto_finished_all: "\<not> list_ex is_finished evs \<Longrightarrow> upto_finished evs = evs"
  by (induction evs) auto

lemma upto_finished_prefix: "prefix (upto_finished evs) evs"
  by (induction evs) auto

lemma upto_finished_append:
  "upto_finished (xs @ ys) = (if list_ex is_finished xs then upto_finished xs else xs @ upto_finished ys)"
  by (induction xs) auto

lemma send_page_slice:
  assumes "map ev_seq evs = [Suc c..<Suc c + length evs]"
  shows "send_page evs c = (upto_finished evs, c + length (upto_finished evs), list_ex is_finished evs)"
  using assms
proof (induction evs arbitrary: c)
  case (Cons ev evs)
  have "[Suc c..<Suc c + length (ev # evs)] = Suc c # [Suc (Suc c)..<Suc (Suc c) + length evs]"
    by (simp add: upt_rec)
  then have e: "ev_seq ev = Suc c" "map ev_seq evs = [Suc (Suc c)..<Suc (Suc c) + length evs]"
    using Cons.prems by simp_all
  show ?case using Cons.IH [OF e(2)] e(1) by simp
qed simp

lemma take_upt_all: "take k (drop c [1..<Suc n]) = [Suc c..<Suc c + length (take k (drop c [1..<Suc n]))]"
  by (cases "c \<le> n"; cases "k \<le> n - c") (simp_all add: drop_upt take_upt del: upt_Suc)

lemma numbered_slice:
  assumes "map ev_seq L = [1..<Suc (length L)]"
  shows "map ev_seq (take k (drop c L)) = [Suc c..<Suc c + length (take k (drop c L))]"
proof -
  have "map ev_seq (take k (drop c L)) = take k (drop c [1..<Suc (length L)])"
    by (simp only: assms take_map [symmetric] drop_map [symmetric])
  also have "\<dots> = [Suc c..<Suc c + length (take k (drop c [1..<Suc (length L)]))]" by (rule take_upt_all)
  finally show ?thesis by simp
qed

locale paged_log =
  fixes ok :: "'s \<Rightarrow> bool" and log :: "'s \<Rightarrow> execution_event list"
    and over :: "'s \<Rightarrow> bool" and page :: "'s \<Rightarrow> nat \<Rightarrow> read_output_response result" and bound :: nat
  assumes numbered: "ok s \<Longrightarrow> map ev_seq (log s) = [1..<Suc (length (log s))]"
    and bounded: "ok s \<Longrightarrow> length (log s) < bound"
    and page_slice: "ok s \<Longrightarrow> c < bound \<Longrightarrow>
          \<exists>ro k. page s c = Inr ro \<and> ro_events ro = take k (drop c (log s)) \<and> k \<le> length (log s) - c \<and>
            (c < length (log s) \<longrightarrow> 0 < k) \<and> (ro_has_more ro \<longleftrightarrow> c + k < length (log s)) \<and>
            is_terminal (ex_state (ro_execution ro)) = over s \<and> ex_last_seq (ro_execution ro) = length (log s)"
begin

lemma page_sent:
  assumes "ok s" and "c < bound"
  shows "\<exists>ro k. page s c = Inr ro \<and> k \<le> length (log s) - c \<and> (c < length (log s) \<longrightarrow> 0 < k) \<and>
     (ro_has_more ro \<longleftrightarrow> c + k < length (log s)) \<and>
     is_terminal (ex_state (ro_execution ro)) = over s \<and> ex_last_seq (ro_execution ro) = length (log s) \<and>
     send_page (ro_events ro) c = (upto_finished (take k (drop c (log s))),
        c + length (upto_finished (take k (drop c (log s)))), list_ex is_finished (take k (drop c (log s))))"
proof -
  obtain ro k where r: "page s c = Inr ro" "ro_events ro = take k (drop c (log s))" "k \<le> length (log s) - c"
      "c < length (log s) \<longrightarrow> 0 < k" "ro_has_more ro \<longleftrightarrow> c + k < length (log s)"
      "is_terminal (ex_state (ro_execution ro)) = over s" "ex_last_seq (ro_execution ro) = length (log s)"
    using page_slice [OF assms] by blast
  show ?thesis
    using r send_page_slice [OF numbered_slice [OF numbered [OF assms(1)]]] by auto
qed

text \<open>A replay sends a contiguous piece of the log after the cursor, and only its last event can be
  terminal.\<close>

definition delivers :: "execution_event list \<Rightarrow> nat \<Rightarrow> execution_event list \<Rightarrow> nat \<Rightarrow> bool" where
  "delivers final c sent c' \<longleftrightarrow>
     prefix sent (drop c final) \<and> c' = c + length sent \<and> upto_finished sent = sent"

lemma delivers_append:
  assumes "delivers final c sent c1" and "delivers final c1 sent' c2" and "\<not> list_ex is_finished sent"
  shows "delivers final c (sent @ sent') c2"
proof -
  obtain rest where "drop c final = sent @ rest" using assms(1) by (auto simp: delivers_def prefix_def)
  moreover from this have "drop c1 final = rest"
    using assms(1) by (simp add: delivers_def) (metis add.commute append_eq_conv_conj drop_drop)
  ultimately show ?thesis using assms by (auto simp: delivers_def upto_finished_append)
qed

lemma slice_prefix:
  assumes "prefix L final"
  shows "prefix (upto_finished (take k (drop c L))) (drop c final)"
proof -
  obtain z where "final = L @ z" using assms by (auto simp: prefix_def)
  then have "prefix (drop c L) (drop c final)" by simp
  then show ?thesis
    using upto_finished_prefix take_is_prefix prefix_order.trans by metis
qed

lemma upto_finished_idem [simp]: "upto_finished (upto_finished evs) = upto_finished evs"
  by (induction evs) auto

lemma replay_delivers:
  assumes "\<forall>s \<in> set ss. ok s \<and> prefix (log s) final" and "c < bound" and "length final < bound"
    and "replay page ss c = (sent, c', r)"
  shows "delivers final c sent c' \<and> (list_ex is_finished sent \<longrightarrow> r = Some (Inr True)) \<and> (\<forall>e. r \<noteq> Some (Inl e))"
  using assms
proof (induction ss arbitrary: c sent c' r)
  case Nil
  then show ?case by (simp add: delivers_def)
next
  case (Cons s ss)
  obtain ro k where p: "page s c = Inr ro" "k \<le> length (log s) - c" "ro_has_more ro \<longleftrightarrow> c + k < length (log s)"
    and sp: "send_page (ro_events ro) c = (upto_finished (take k (drop c (log s))),
        c + length (upto_finished (take k (drop c (log s)))), list_ex is_finished (take k (drop c (log s))))"
    using page_sent [of s c] Cons.prems(1,2) by auto
  let ?p = "take k (drop c (log s))"
  have d: "delivers final c (upto_finished ?p) (c + length (upto_finished ?p))"
    using slice_prefix [of "log s" final k c] Cons.prems(1) by (simp add: delivers_def)
  show ?case
  proof (cases "list_ex is_finished ?p")
    case True
    then show ?thesis using Cons.prems(4) p(1) sp d by auto
  next
    case False
    then have u: "upto_finished ?p = ?p" by (rule upto_finished_all)
    show ?thesis
    proof (cases "ro_has_more ro")
      case True
      obtain sent1 c1 r1 where rec: "replay page ss (c + length ?p) = (sent1, c1, r1)" by (cases "replay page ss (c + length ?p)")
      have "c + length ?p < bound"
        using True p(3) Cons.prems(1) bounded [of s] by auto
      then have ih: "delivers final (c + length ?p) sent1 c1 \<and> (list_ex is_finished sent1 \<longrightarrow> r1 = Some (Inr True)) \<and>
          (\<forall>e. r1 \<noteq> Some (Inl e))"
        using Cons.IH [OF _ _ Cons.prems(3) rec] Cons.prems(1) by auto
      have "sent = ?p @ sent1" "c' = c1" "r = r1"
        using Cons.prems(4) p(1) sp False True rec unfolding u by auto
      then show ?thesis using ih delivers_append [of final c ?p "c + length ?p" sent1 c1] d False unfolding u by auto
    next
      case False2: False
      then show ?thesis using Cons.prems(4) p(1) sp d False unfolding u by auto
    qed
  qed
qed

text \<open>On a store that does not change, a replay that may read often enough returns, having sent all of
  the log after the cursor up to its first terminal event.\<close>

lemma replay_returns:
  assumes "ok s" and "c < bound" and "length (log s) - c < n" and "c \<le> length (log s)"
  shows "replay page (replicate n s) c =
     (upto_finished (drop c (log s)), c + length (upto_finished (drop c (log s))),
      Some (Inr (list_ex is_finished (drop c (log s)) \<or> over s)))"
  using assms
proof (induction n arbitrary: c)
  case (Suc n)
  obtain ro k where p: "page s c = Inr ro" "k \<le> length (log s) - c" "c < length (log s) \<longrightarrow> 0 < k"
      "ro_has_more ro \<longleftrightarrow> c + k < length (log s)"
      "is_terminal (ex_state (ro_execution ro)) = over s" "ex_last_seq (ro_execution ro) = length (log s)"
    and sp: "send_page (ro_events ro) c = (upto_finished (take k (drop c (log s))),
        c + length (upto_finished (take k (drop c (log s)))), list_ex is_finished (take k (drop c (log s))))"
    using page_sent [OF Suc.prems(1,2)] by blast
  let ?p = "take k (drop c (log s))"
  have split: "drop c (log s) = ?p @ drop (c + k) (log s)" by (metis add.commute append_take_drop_id drop_drop)
  show ?case
  proof (cases "list_ex is_finished ?p")
    case True
    then have "upto_finished (drop c (log s)) = upto_finished ?p" "list_ex is_finished (drop c (log s))"
      by (subst split, simp add: upto_finished_append)+
    then show ?thesis using p(1) sp True by simp
  next
    case False
    then have u: "upto_finished ?p = ?p" by (rule upto_finished_all)
    have all: "upto_finished (drop c (log s)) = ?p @ upto_finished (drop (c + k) (log s))"
      using False by (subst split) (simp add: upto_finished_append)
    have fin: "list_ex is_finished (drop c (log s)) \<longleftrightarrow> list_ex is_finished (drop (c + k) (log s))"
      using False by (subst split) simp
    have len: "length ?p = k" using p(2) by simp
    show ?thesis
    proof (cases "c + k < length (log s)")
      case True
      then have "c + k < bound" "length (log s) - (c + k) < n" "c + k \<le> length (log s)"
        using bounded [OF Suc.prems(1)] Suc.prems(3) p(2,3) by auto
      from Suc.IH [OF Suc.prems(1) this] show ?thesis
        using p(1,4) sp False True u all len fin by simp
    next
      case False2: False
      then have "c + k = length (log s)" using p(2) Suc.prems(4) by simp
      then show ?thesis using p(1,4,5,6) sp False u all len fin by simp
    qed
  qed
qed simp

text \<open>The loop over what is published. A received event of the execution is one of the log.\<close>

definition input_ok :: "string \<Rightarrow> execution_event list \<Rightarrow> 's sub_input \<Rightarrow> bool" where
  "input_ok xid final i \<longleftrightarrow>
     (case i of
        Received r ss \<Rightarrow> (\<forall>s \<in> set ss. ok s \<and> prefix (log s) final) \<and>
          (case r of Recv ev \<Rightarrow> ev_execution_id ev = xid \<longrightarrow> ev \<in> set final | _ \<Rightarrow> True)
      | _ \<Rightarrow> True)"

text \<open>What one step, or many, do for a subscriber at cursor \<open>c\<close>.\<close>

definition serves :: "execution_event list \<Rightarrow> nat \<Rightarrow> bool \<Rightarrow> execution_event list \<times> sub_status \<Rightarrow> bool" where
  "serves final c asked r \<longleftrightarrow>
     (case r of (sent, st) \<Rightarrow>
        delivers final c sent (c + length sent) \<and>
        (\<forall>c'. st = Subscribed c' \<longrightarrow> c' = c + length sent \<and> \<not> list_ex is_finished sent) \<and>
        (\<forall>e. st = SubFailed e \<longrightarrow> asked))"

lemma replay_serves:
  assumes "\<forall>s \<in> set ss. ok s \<and> prefix (log s) final" and "c < bound" and "length final < bound"
  shows "serves final c False (after_replay (replay page ss c))"
proof -
  obtain sent c' r where rr: "replay page ss c = (sent, c', r)" by (cases "replay page ss c")
  show ?thesis using replay_delivers [OF assms rr] rr
    by (auto simp: serves_def after_replay_def delivers_def split: option.splits sum.splits)
qed

lemma next_event:
  assumes "map ev_seq final = [1..<Suc (length final)]" and "ev \<in> set final" and "ev_seq ev = Suc c"
  shows "prefix [ev] (drop c final)"
proof -
  obtain i where i: "i < length final" "final ! i = ev" using assms(2) by (auto simp: in_set_conv_nth)
  then have "ev_seq ev = [1..<Suc (length final)] ! i" using assms(1) by (metis nth_map)
  then have "i = c" using i(1) assms(3) by (simp del: upt_Suc)
  then show ?thesis using i by (simp add: Cons_nth_drop_Suc [symmetric])
qed

lemma sub_step_serves:
  assumes "map ev_seq final = [1..<Suc (length final)]" and "length final < bound" and "c < bound"
    and "input_ok xid final i"
  shows "serves final c (i = PeerMessage) (sub_step page xid c i)"
proof -
  have rep: "serves final c False (after_replay (replay page ss c))" if "i = Received r ss" for r ss
    using that assms(4) replay_serves [OF _ assms(3,2), of ss] by (auto simp: input_ok_def)
  show ?thesis
  proof (cases i)
    case (Received r ss)
    show ?thesis
    proof (cases r)
      case (Recv ev)
      then show ?thesis
        using rep [OF Received] next_event [OF assms(1), of ev c] assms(4) Received
        by (auto simp: input_ok_def serves_def delivers_def)
    next
      case RecvClosed
      then show ?thesis using rep [OF Received] Received
        by (auto simp: serves_def split: prod.splits sub_status.splits)
    qed (use rep Received in \<open>auto simp: serves_def split: prod.splits\<close>)
  qed (auto simp: serves_def delivers_def)
qed

lemma delivers_bound: "delivers final c sent c' \<Longrightarrow> c < bound \<Longrightarrow> length final < bound \<Longrightarrow> c' < bound"
  by (auto simp: delivers_def dest!: prefix_length_le)

lemma serves_append:
  assumes "serves final c a1 (sent, Subscribed c1)" and "serves final c1 a2 (sent', st)"
  shows "serves final c (a1 \<or> a2) (sent @ sent', st)"
  using assms delivers_append [of final c sent c1 sent' "c1 + length sent'"]
  by (auto simp: serves_def add.assoc)

lemma sub_loop_serves:
  assumes "map ev_seq final = [1..<Suc (length final)]" and "length final < bound" and "c < bound"
    and "\<forall>i \<in> set is. input_ok xid final i"
  shows "serves final c (PeerMessage \<in> set is) (sub_loop page xid c is)"
  using assms(3,4)
proof (induction "is" arbitrary: c)
  case Nil
  then show ?case by (simp add: serves_def delivers_def)
next
  case (Cons i "is")
  obtain sent st where s: "sub_step page xid c i = (sent, st)" by (cases "sub_step page xid c i")
  have one: "serves final c (i = PeerMessage) (sent, st)"
    using sub_step_serves [OF assms(1,2) Cons.prems(1)] Cons.prems(2) s by force
  show ?case
  proof (cases st)
    case (Subscribed c1)
    obtain sent' st' where r: "sub_loop page xid c1 is = (sent', st')" by (cases "sub_loop page xid c1 is")
    have "c1 < bound" using one Subscribed delivers_bound [of final c sent c1] Cons.prems(1) assms(2)
      by (auto simp: serves_def)
    then have "serves final c1 (PeerMessage \<in> set is) (sent', st')" using Cons.IH [of c1] Cons.prems(2) r by simp
    then have "serves final c (i = PeerMessage \<or> PeerMessage \<in> set is) (sent @ sent', st')"
      using serves_append one Subscribed by blast
    then show ?thesis by (simp add: s r Subscribed eq_commute [of PeerMessage i])
  qed (use one s in \<open>auto simp: serves_def\<close>)
qed

lemma events_serve:
  assumes "map ev_seq final = [1..<Suc (length final)]" and "length final < bound" and "c < bound"
    and "\<forall>s \<in> set ss. ok s \<and> prefix (log s) final" and "\<forall>i \<in> set is. input_ok xid final i"
  shows "serves final c (PeerMessage \<in> set is) (subscription_events page xid c ss is)"
proof -
  obtain sent st where s: "after_replay (replay page ss c) = (sent, st)" by (cases "after_replay (replay page ss c)")
  have one: "serves final c False (sent, st)" using replay_serves [OF assms(4,3,2)] s by simp
  show ?thesis
  proof (cases st)
    case (Subscribed c1)
    obtain sent' st' where r: "sub_loop page xid c1 is = (sent', st')" by (cases "sub_loop page xid c1 is")
    have "c1 < bound" using one Subscribed delivers_bound [of final c sent c1] assms(2,3) by (auto simp: serves_def)
    then have "serves final c1 (PeerMessage \<in> set is) (sent', st')"
      using sub_loop_serves [OF assms(1,2) _ assms(5), of c1] r by simp
    then show ?thesis using serves_append [of final c False sent c1] one Subscribed s r
      by (simp add: subscription_events_def)
  qed (use one s in \<open>auto simp: serves_def subscription_events_def\<close>)
qed

end

end
