(* ===== verification/SubscriptionProperties.thy ===== *)
theory SubscriptionProperties
  imports Subscription StoreLifecycle StoreDemo StoreLive
begin

text \<open>
  The store provides the paged log a subscription needs, so its lemmas hold for the daemon's
  subscriptions: what they deliver, and that they return.
\<close>

definition logged :: "string \<Rightarrow> database \<Rightarrow> bool" where
  "logged xid db \<longleftrightarrow> db_inv db \<and> (\<exists>x. find_execution xid db = Some x \<and> xr_last_seq x < 2 ^ 63)"

definition over_in :: "string \<Rightarrow> database \<Rightarrow> bool" where
  "over_in xid db = (case find_execution xid db of Some x \<Rightarrow> is_terminal (row_state x) | None \<Rightarrow> True)"

lemma replay_page_slice:
  assumes "logged xid db" and "c < 2 ^ 63"
  shows "\<exists>ro k. replay_page B now xid db c = Inr ro \<and> ro_events ro = take k (drop c (event_log B xid db)) \<and>
     k \<le> length (event_log B xid db) - c \<and> (c < length (event_log B xid db) \<longrightarrow> 0 < k) \<and>
     (ro_has_more ro \<longleftrightarrow> c + k < length (event_log B xid db)) \<and>
     is_terminal (ex_state (ro_execution ro)) = over_in xid db \<and>
     ex_last_seq (ro_execution ro) = length (event_log B xid db)"
proof -
  obtain x where x: "db_inv db" "find_execution xid db = Some x" using assms(1) by (auto simp: logged_def)
  have len: "length (event_log B xid db) = xr_last_seq x" using length_event_log [OF x] by blast
  obtain ex where ex: "get_execution now xid db = Inr ex" "ex_state ex = row_state x" "ex_last_seq ex = xr_last_seq x"
    using get_execution_some [OF x] by blast
  have "(1024 * 1024 :: nat) < u64_max" by simp
  from read_output_page [OF x assms(2) this, of B now] obtain ro k where
    "read_output B now xid c (1024 * 1024) db = Inr ro"
    "ro_events ro = take k (drop c (event_log B xid db))" "k \<le> xr_last_seq x - c" "c < xr_last_seq x \<Longrightarrow> 0 < k"
    "ro_has_more ro \<longleftrightarrow> c + k < xr_last_seq x" "get_execution now xid db = Inr (ro_execution ro)"
    by metis
  then show ?thesis using ex len x(2) by (auto simp: replay_page_def over_in_def)
qed

interpretation store_pages: paged_log "logged xid" "event_log B xid" "over_in xid" "replay_page B now xid" "2 ^ 63"
proof
  show "map ev_seq (event_log B xid s) = [1..<Suc (length (event_log B xid s))]" if l: "logged xid s" for s
  proof -
    obtain x where "db_inv s" "find_execution xid s = Some x" using l by (auto simp: logged_def)
    then show ?thesis by (simp only: event_log_seqs length_event_log)
  qed
  show "length (event_log B xid s) < 2 ^ 63" if "logged xid s" for s
    using that length_event_log by (auto simp: logged_def)
qed (rule replay_page_slice)

lemma advances_logged:
  assumes "db_inv db" and "find_execution xid db \<noteq> None" and "db_advances db final" and "logged xid final"
  shows "logged xid db \<and> prefix (event_log B xid db) (event_log B xid final)"
proof -
  obtain x where x: "find_execution xid db = Some x" using assms(2) by blast
  obtain y where y: "db_inv final" "find_execution xid final = Some y" "xr_last_seq y < 2 ^ 63"
    using assms(4) by (auto simp: logged_def)
  have p: "prefix (event_log B xid db) (event_log B xid final)"
    using assms(3) x by (auto simp: db_advances_def event_log_def intro: map_mono_prefix)
  then have "xr_last_seq x \<le> xr_last_seq y"
    using prefix_length_le [OF p] length_event_log [OF assms(1) x] length_event_log [OF y(1,2)] by simp
  then show ?thesis using p x y(3) assms(1) by (auto simp: logged_def)
qed

section \<open>What a subscriber gets\<close>

text \<open>The states of the store a subscription reads.\<close>

fun states_read :: "'s sub_input \<Rightarrow> 's set" where
  "states_read (Received r ss) = set ss"
| "states_read _ = {}"

text \<open>Whatever is published, lagged or stored in between, a subscriber that does not speak gets
  consecutive events of the log from its cursor on, none lost, none twice, none after a terminal event;
  the connection does not fail.\<close>

lemma subscription_served:
  fixes inputs :: "database sub_input list" and final :: database
  assumes "db_inv final" and "find_execution xid final = Some x" and "xr_last_seq x < 2 ^ 63"
    and "\<forall>db \<in> set ss \<union> \<Union> (states_read ` set inputs).
           db_inv db \<and> find_execution xid db \<noteq> None \<and> db_advances db final"
    and "\<forall>ev ss. Received (Recv ev) ss \<in> set inputs \<longrightarrow> ev_execution_id ev = xid \<longrightarrow> ev \<in> set (event_log B xid final)"
    and "PeerMessage \<notin> set inputs" and "after_seq \<le> ex_last_seq ex" and "ex_last_seq ex \<le> xr_last_seq x"
  shows "\<exists>events st.
     handle_subscription d (replay_page B now xid) (Inr ex) sub_id xid after_seq ss inputs =
       (wire_ok sub_id (PSubscription \<lparr>su_execution = ex, su_next_seq = after_seq\<rparr>) # map (wire_event sub_id) events, st) \<and>
     prefix events (drop after_seq (event_log B xid final)) \<and> upto_finished events = events \<and> (\<forall>e. st \<noteq> SubFailed e)"
proof -
  let ?L = "event_log B xid final" and ?r = "subscription_events (replay_page B now xid) xid after_seq ss inputs"
  have fin: "logged xid final" using assms(1-3) by (auto simp: logged_def)
  have states: "logged xid db \<and> prefix (event_log B xid db) ?L" if "db \<in> set ss \<union> \<Union> (states_read ` set inputs)" for db
    using that assms(4) advances_logged [OF _ _ _ fin] by blast
  then have ins: "store_pages.input_ok xid B xid ?L i" if "i \<in> set inputs" for i
    using that assms(5) by (force simp: store_pages.input_ok_def split: sub_input.split recv.split)
  have ss: "\<forall>db \<in> set ss. logged xid db \<and> prefix (event_log B xid db) ?L" using states by blast
  obtain events st where r: "?r = (events, st)" by (cases ?r)
  have "store_pages.serves ?L after_seq (PeerMessage \<in> set inputs) ?r"
    using store_pages.events_serve [OF store_pages.numbered [OF fin] store_pages.bounded [OF fin] _ ss, of after_seq inputs xid now]
      ins assms(3,7,8) by simp
  then have "prefix events (drop after_seq ?L) \<and> upto_finished events = events \<and> (\<forall>e. st \<noteq> SubFailed e)"
    using assms(6) r by (auto simp: store_pages.serves_def store_pages.delivers_def)
  then show ?thesis using r assms(7) by (intro exI [of _ events] exI [of _ st]) (simp add: handle_subscription_def)
qed

text \<open>A subscription to a finished execution returns, after reading the store at most once per event and
  once more, with every event from the cursor on up to the first terminal one.\<close>

theorem subscription_completes:
  assumes "db_inv db" and "find_execution xid db = Some x" and "is_terminal (row_state x)" and "xr_last_seq x < 2 ^ 63"
    and "get_execution now xid db = Inr ex" and "after_seq \<le> xr_last_seq x" and "xr_last_seq x < n"
  shows "handle_subscription d (replay_page B now xid) (get_execution now xid db) sub_id xid after_seq (replicate n db) inputs =
     (wire_ok sub_id (PSubscription \<lparr>su_execution = ex, su_next_seq = after_seq\<rparr>) #
        map (wire_event sub_id) (upto_finished (drop after_seq (event_log B xid db))), SubReturned)"
proof -
  have l: "logged xid db" using assms(1,2,4) by (auto simp: logged_def)
  have len: "length (event_log B xid db) = xr_last_seq x" using length_event_log [OF assms(1,2)] by blast
  have o: "over_in xid db" using assms(2,3) by (simp add: over_in_def)
  have "ex_last_seq ex = xr_last_seq x" using get_execution_some [OF assms(1,2), of now] assms(5) by auto
  then show ?thesis
    using store_pages.replay_returns [OF l, of after_seq B n now] len o assms(4-7)
    by (simp add: handle_subscription_def subscription_events_def after_replay_def)
qed

theorem subscription_completes_witness:
  "\<exists>ex. get_execution 80 ''a'' demo_db = Inr ex \<and>
     handle_subscription demo_display (replay_page demo_b64 80 ''a'') (get_execution 80 ''a'' demo_db) ''q'' ''a'' 1
       (replicate 5 demo_db) [] =
     (wire_ok ''q'' (PSubscription \<lparr>su_execution = ex, su_next_seq = 1\<rparr>) #
        map (wire_event ''q'') (upto_finished (drop 1 (event_log demo_b64 ''a'' demo_db))), SubReturned)"
proof -
  obtain ex where ex: "get_execution 80 ''a'' demo_db = Inr ex" using get_execution_some [OF demo_inv demo_lookups(1)] by blast
  have "row_state demo_a = Finished" by (rule row_state_str) (simp add: demo_rows)
  then have t: "is_terminal (row_state demo_a)" by simp
  show ?thesis
    using subscription_completes [OF demo_inv demo_lookups(1) t _ ex, where after_seq = 1 and n = 5 and d = demo_display
        and B = demo_b64 and sub_id = "''q''" and inputs = "[]"] ex
    by (simp add: demo_rows)
qed

end
