(* ===== verification/Json.thy ===== *)
theory Json
  imports Prelude
begin

text \<open>
  JSON values as \<open>serde_json::Value\<close> has them, with the accessors the code uses. Reading and printing text
  is serde's and an argument of the definitions that need it. An object lists its members; a key occurs
  once.
\<close>

datatype json =
    JNull
  | JBool bool
  | JNumber int
  | JFloat string
  | JString string
  | JArray "json list"
  | JObject "(string \<times> json) list"

fun as_str :: "json \<Rightarrow> string option" where
  "as_str (JString s) = Some s"
| "as_str _ = None"

fun as_array :: "json \<Rightarrow> json list option" where
  "as_array (JArray vs) = Some vs"
| "as_array _ = None"

fun as_object :: "json \<Rightarrow> (string \<times> json) list option" where
  "as_object (JObject ms) = Some ms"
| "as_object _ = None"

fun as_bool :: "json \<Rightarrow> bool option" where
  "as_bool (JBool b) = Some b"
| "as_bool _ = None"

definition nth_value :: "json list \<Rightarrow> nat \<Rightarrow> json option" where
  "nth_value vs i = (if i < length vs then Some (vs ! i) else None)"

text \<open>\<open>Value::get\<close> with a key, and \<open>Map::insert\<close>.\<close>

fun get_member :: "string \<Rightarrow> json \<Rightarrow> json option" where
  "get_member k (JObject ms) = map_of ms k"
| "get_member k _ = None"

fun put_member :: "string \<Rightarrow> json \<Rightarrow> (string \<times> json) list \<Rightarrow> (string \<times> json) list" where
  "put_member k v [] = [(k, v)]"
| "put_member k v ((k', v') # ms) = (if k' = k then (k, v) # ms else (k', v') # put_member k v ms)"

lemma map_of_put_member [simp]: "map_of (put_member k v ms) = (map_of ms)(k \<mapsto> v)"
  by (induction ms) (auto simp: fun_eq_iff)

lemma put_member_domain: "fst ` set (put_member k v ms) = insert k (fst ` set ms)"
  by (induction k v ms rule: put_member.induct) auto

lemma put_member_keys: "distinct (map fst ms) \<Longrightarrow> distinct (map fst (put_member k v ms))"
proof (induction k v ms rule: put_member.induct)
  case (2 k v k' v' ms)
  then show ?case using put_member_domain [of k v ms] by (cases "k' = k") simp_all
qed simp

end
