(* ===== verification/SessionFiles.thy ===== *)
theory SessionFiles
  imports Json Settings StoreTurns
begin

text \<open>
  The files of recorded agent sessions, as the daemon sees them (\<open>src/daemon.rs\<close>): where they may lie
  (\<open>validate_session_paths\<close>), whether the recorder still holds the session's lock
  (\<open>claim_released_session_lock\<close>), how much output a recording holds (\<open>cast_output_bytes\<close>), and finishing
  the sessions whose recorder is gone (\<open>reconcile_agent_sessions\<close>). The file system is an argument.
\<close>

section \<open>Where the files may lie\<close>

definition validate_session_paths :: "app_paths \<Rightarrow> string \<Rightarrow> string \<Rightarrow> string \<Rightarrow> unit result" where
  "validate_session_paths paths session_id cast_path html_path =
     (case path_parent cast_path of
        None \<Rightarrow> Inl (InvalidRequest ''cast_path has no parent'')
      | Some directory \<Rightarrow>
          let sessions = components (ap_sessions_dir paths) in
          if directory = sessions \<or> \<not> prefix sessions directory \<or> path_parent html_path \<noteq> Some directory \<or>
             last_opt directory \<noteq> Some (Normal session_id)
          then Inl (InvalidRequest ''session artifacts must share a private directory under the Loomterm state directory'')
          else Inr ())"

lemma validate_session_paths_Inr_iff:
  "validate_session_paths paths sid cast html = Inr () \<longleftrightarrow>
     (\<exists>dir. path_parent cast = Some dir \<and> path_parent html = Some dir \<and> last_opt dir = Some (Normal sid) \<and>
        strict_prefix (components (ap_sessions_dir paths)) dir)"
  by (auto simp: validate_session_paths_def Let_def strict_prefix_def split: option.split)

section \<open>The recorder's lock\<close>

text \<open>What opening and locking the lock file gives at an attempt.\<close>

datatype lock_attempt = OpenFailed string | Acquired | WouldBlock | LockFailed string

definition RECORDER_LOCK_ATTEMPTS :: nat where
  "RECORDER_LOCK_ATTEMPTS = 3"

fun claim_attempts :: "(nat \<Rightarrow> lock_attempt) \<Rightarrow> nat list \<Rightarrow> bool result" where
  "claim_attempts try [] = Inr False"
| "claim_attempts try (attempt # rest) =
     (case try attempt of
        OpenFailed m \<Rightarrow> Inl (Io m)
      | Acquired \<Rightarrow> Inr True
      | WouldBlock \<Rightarrow> claim_attempts try rest
      | LockFailed m \<Rightarrow> Inl (Io m))"

definition claim_released_session_lock :: "(nat \<Rightarrow> lock_attempt) \<Rightarrow> bool result" where
  "claim_released_session_lock try = claim_attempts try [1..<Suc RECORDER_LOCK_ATTEMPTS]"

section \<open>The size of a recording\<close>

fun cast_lines :: "(string \<Rightarrow> json option) \<Rightarrow> (string + string) list \<Rightarrow> nat \<Rightarrow> nat option" where
  "cast_lines parse [] bytes = Some bytes"
| "cast_lines parse (Inl e # lines) bytes = None"
| "cast_lines parse (Inr line # lines) bytes =
     (case Option.bind (parse line) as_array of
        None \<Rightarrow> None
      | Some event \<Rightarrow>
          cast_lines parse lines
            (if Option.bind (nth_value event 1) as_str = Some ''o''
             then sat_add bytes (case Option.bind (nth_value event 2) as_str of None \<Rightarrow> 0 | Some text \<Rightarrow> length text)
             else bytes))"

text \<open>\<open>None\<close> for the lines when the file cannot be opened.\<close>

definition cast_output_bytes :: "(string \<Rightarrow> json option) \<Rightarrow> (string + string) list option \<Rightarrow> nat option" where
  "cast_output_bytes parse lines =
     (case lines of None \<Rightarrow> None | Some ls \<Rightarrow> cast_lines parse (drop 1 ls) 0)"

section \<open>Finishing sessions whose recorder is gone\<close>

record files =
  fs_try_lock :: "component list \<Rightarrow> nat \<Rightarrow> lock_attempt"
  fs_lines :: "string \<Rightarrow> (string + string) list option"
  fs_parse_json :: "string \<Rightarrow> json option"
  fs_exists :: "component list \<Rightarrow> bool"
  fs_remove_dir_all :: "component list \<Rightarrow> unit result"

definition recorder_gone :: "files \<Rightarrow> agent_session \<Rightarrow> bool result" where
  "recorder_gone F session =
     (case path_parent (as_cast_path session) of
        None \<Rightarrow> Inr False
      | Some directory \<Rightarrow> claim_released_session_lock (fs_try_lock F (directory @ [Normal ''active.lock''])))"

definition interrupted_finish :: "files \<Rightarrow> agent_session \<Rightarrow> agent_session_finish" where
  "interrupted_finish F session =
     \<lparr>sf_state = SessionInterrupted,
      sf_outcome = OutcomeInterrupted ''session recorder exited before finalization'',
      sf_captured_bytes = (case cast_output_bytes (fs_parse_json F) (fs_lines F (as_cast_path session)) of
          Some n \<Rightarrow> n | None \<Rightarrow> as_captured_bytes session),
      sf_output_truncated = as_output_truncated session\<rparr>"

fun reconcile_sessions :: "files \<Rightarrow> (nat \<Rightarrow> int) \<Rightarrow> agent_session list \<Rightarrow> nat \<Rightarrow> database \<Rightarrow> nat db_result" where
  "reconcile_sessions F clock [] interrupted db = (Inr interrupted, db)"
| "reconcile_sessions F clock (session # sessions) interrupted db =
     (case recorder_gone F session of
        Inl e \<Rightarrow> (Inl e, db)
      | Inr False \<Rightarrow> reconcile_sessions F clock sessions interrupted db
      | Inr True \<Rightarrow>
          (case finish_agent_session (clock interrupted) (as_id session) (interrupted_finish F session) db of
             (Inl e, db') \<Rightarrow> (Inl e, db')
           | (Inr _, db') \<Rightarrow> reconcile_sessions F clock sessions (interrupted + 1) db'))"

definition reconcile_agent_sessions :: "files \<Rightarrow> (nat \<Rightarrow> int) \<Rightarrow> database \<Rightarrow> nat db_result" where
  "reconcile_agent_sessions F clock db =
     (case active_agent_sessions db of
        Inl e \<Rightarrow> (Inl e, db)
      | Inr sessions \<Rightarrow> reconcile_sessions F clock sessions 0 db)"

section \<open>What reconciling achieves\<close>

definition sstate :: "string \<Rightarrow> database \<Rightarrow> string option" where
  "sstate sid db = map_option sn_state (find_session sid db)"

lemma find_session_finished:
  assumes "db_inv db" and "find_session sid db = Some s" and "sn_state s = ''recording''"
  shows "\<exists>session db'. finish_agent_session now sid (interrupted_finish F rec) db = (Inr session, db') \<and> db_inv db' \<and>
     (\<forall>other. sstate other db' =
        (if other = sid then Some ''interrupted'' else sstate other db)) \<and>
     map sn_id (db_sessions db') = map sn_id (db_sessions db)"
proof -
  let ?fin = "interrupted_finish F rec"
  let ?db1 = "update_session sid (set_session_finished now ?fin) db"
  let ?db2 = "update_turns (\<lambda>t. tr_session_id t = sid \<and> tr_state t = ''active'') (interrupt_turn now) ?db1"
  obtain current where c: "get_agent_session_record sid db = Inr current"
      "session_state_str (as_state current) = ''recording''"
    using session_decodes [OF assms(1,2)] assms(3) by metis
  then have "as_state current = Recording" by (cases "as_state current") simp_all
  then have f: "finish_agent_session now sid ?fin db = (get_agent_session_record sid ?db2, ?db2)"
    using c(1) by (simp add: finish_agent_session_def interrupted_finish_def is_interrupted_outcome_def
        session_is_terminal_def Let_def)
  have inv: "db_inv ?db2" using finish_agent_session_inv [OF assms(1), of now sid ?fin] f by simp
  have upd: "find_session other ?db2 = map_option (\<lambda>r. if sn_id r = sid then set_session_finished now ?fin r else r)
      (find_session other db)" for other
    unfolding find_session_def update_turns_def update_session_def
    by (simp, rule find_update_where) (simp add: set_session_finished_def)
  have st: "sstate other ?db2 =
      (if other = sid then Some ''interrupted'' else sstate other db)" for other
    unfolding sstate_def upd using assms(2)
    by (cases "find_session other db") (auto dest: find_session_Some simp: set_session_finished_def interrupted_finish_def)
  obtain s2 where "find_session sid ?db2 = Some s2" using upd [of sid] assms(2) by simp
  then obtain session where "get_agent_session_record sid ?db2 = Inr session" by (rule session_decodes [OF inv])
  moreover have "map sn_id (db_sessions ?db2) = map sn_id (db_sessions db)"
    by (simp add: update_turns_def update_session_def map_update_where set_session_finished_def)
  ultimately show ?thesis using f inv st by (intro exI [of _ session] exI [of _ ?db2]) simp
qed

text \<open>The sessions of the list whose recorder is gone.\<close>

definition gone_ids :: "files \<Rightarrow> agent_session list \<Rightarrow> string set" where
  "gone_ids F sessions = {as_id s |s. s \<in> set sessions \<and> recorder_gone F s = Inr True}"

lemma gone_ids_simps [simp]:
  "gone_ids F [] = {}"
  "gone_ids F (s # ss) = (if recorder_gone F s = Inr True then insert (as_id s) (gone_ids F ss) else gone_ids F ss)"
  by (auto simp: gone_ids_def)

lemma reconcile_sessions_effect:
  assumes "db_inv db" and "distinct (map as_id sessions)"
    and "\<forall>s \<in> set sessions. sstate (as_id s) db = Some ''recording''"
    and "reconcile_sessions F clock sessions k db = (r, db')"
  shows "db_inv db' \<and>
     (case r of
        Inl e \<Rightarrow> \<exists>s \<in> set sessions. recorder_gone F s = Inl e
      | Inr n \<Rightarrow> (\<forall>s \<in> set sessions. \<exists>b. recorder_gone F s = Inr b) \<and> n = k + card (gone_ids F sessions) \<and>
          (\<forall>sid. sstate sid db' =
             (if sid \<in> gone_ids F sessions then Some ''interrupted'' else sstate sid db)))"
  using assms
proof (induction sessions arbitrary: k db)
  case Nil
  then show ?case by auto
next
  case (Cons s ss)
  show ?case
  proof (cases "recorder_gone F s")
    case (Inl e)
    then show ?thesis using Cons.prems by auto
  next
    case (Inr gone)
    show ?thesis
    proof (cases gone)
      case False
      then have "reconcile_sessions F clock ss k db = (r, db')" using Cons.prems(4) Inr by simp
      from Cons.IH [OF Cons.prems(1) _ _ this] Cons.prems(2,3) Inr False show ?thesis
        by (auto split: sum.splits)
    next
      case True
      obtain row where row: "find_session (as_id s) db = Some row" "sn_state row = ''recording''"
        using Cons.prems(3) by (auto simp: sstate_def)
      obtain session db1 where f: "finish_agent_session (clock k) (as_id s) (interrupted_finish F s) db = (Inr session, db1)"
          "db_inv db1" "\<And>other. sstate other db1 =
             (if other = as_id s then Some ''interrupted'' else sstate other db)"
        using find_session_finished [OF Cons.prems(1) row] by metis
      have rec: "reconcile_sessions F clock ss (k + 1) db1 = (r, db')" using Cons.prems(4) Inr True f(1) by simp
      have "as_id u \<noteq> as_id s" if "u \<in> set ss" for u using Cons.prems(2) that by (auto simp: image_iff)
      then have other: "\<forall>u \<in> set ss. sstate (as_id u) db1 = Some ''recording''"
        using Cons.prems(3) by (simp add: f(3))
      have "finite (gone_ids F ss)" "as_id s \<notin> gone_ids F ss"
        using Cons.prems(2) by (auto simp: gone_ids_def)
      then show ?thesis using Cons.IH [OF f(2) _ other rec] Cons.prems(2) Inr True f(3)
        by (auto split: sum.splits)
    qed
  qed
qed

lemma active_sessions:
  assumes "db_inv db"
  obtains sessions where "active_agent_sessions db = Inr sessions" and "distinct (map as_id sessions)"
    and "as_id ` set sessions = {sid. sstate sid db = Some ''recording''}"
proof -
  let ?rows = "order_by sn_created_at_ms (filter (\<lambda>s. sn_state s = ''recording'') (db_sessions db))"
  have key: "distinct (map sn_id (db_sessions db))" using assms by (simp add: db_inv_def key_inv_def)
  have rows: "find_session (sn_id s) db = Some s" if "s \<in> set (db_sessions db)" for s
    unfolding find_session_def using find_distinct [OF key that] by simp
  have dec: "\<exists>v. agent_session_from_row s = Inr v" if s: "s \<in> set (db_sessions db)" for s
  proof -
    obtain v where "get_agent_session_record (sn_id s) db = Inr v" using session_decodes [OF assms rows [OF s]] by metis
    then show ?thesis using rows [OF s] by (auto simp: get_agent_session_record_def)
  qed
  let ?g = "\<lambda>s. projr (agent_session_from_row s)"
  have g: "agent_session_from_row s = Inr (?g s)" "as_id (?g s) = sn_id s" if "s \<in> set ?rows" for s
    using dec [of s] that agent_session_from_row_Inr [of s] by auto
  have all: "active_agent_sessions db = Inr (map ?g ?rows)"
    unfolding active_agent_sessions_def read_sessions_def by (rule collect_res_map_Inr) (use g(1) in blast)
  have ids: "map as_id (map ?g ?rows) = map sn_id ?rows" using g(2) by simp
  have "distinct (map sn_id (filter (\<lambda>s. sn_state s = ''recording'') (db_sessions db)))"
    using key by (simp add: distinct_map_filter)
  then have d: "distinct (map as_id (map ?g ?rows))"
    unfolding ids by (simp add: order_by_def distinct_map)
  have "as_id ` set (map ?g ?rows) = sn_id ` set ?rows" using arg_cong [OF ids, of set] by (simp only: set_map)
  also have "\<dots> = {sid. sstate sid db = Some ''recording''}"
    using rows find_session_Some [of _ db] by (fastforce simp: sstate_def)
  finally show thesis using that all d by blast
qed

lemma reconcile_agent_sessions_inv: "db_inv db \<Longrightarrow> db_inv (snd (reconcile_agent_sessions F clock db))"
proof -
  assume inv: "db_inv db"
  obtain sessions where s: "active_agent_sessions db = Inr sessions" "distinct (map as_id sessions)"
    "as_id ` set sessions = {sid. sstate sid db = Some ''recording''}"
    using active_sessions [OF inv] .
  obtain r db' where r: "reconcile_sessions F clock sessions 0 db = (r, db')"
    by (cases "reconcile_sessions F clock sessions 0 db")
  have "db_inv db'" using reconcile_sessions_effect [OF inv s(2) _ r] s(3) by blast
  then show ?thesis using s(1) r by (simp add: reconcile_agent_sessions_def)
qed

end
