(* ===== verification/Daemon.thy ===== *)
theory Daemon
  imports SessionFiles Subscription StoreActor
begin

text \<open>
  The daemon (\<open>src/daemon.rs\<close>): \<open>dispatch\<close> serves one request, \<open>handle_connection\<close> the frames of one
  client, \<open>run\<close> starts, accepts clients and shuts down. A request that waits (\<open>Cancel\<close>, \<open>Wait\<close>) sees the
  engine change under it; what the others do meanwhile is an argument. The other requests are served in
  one piece.
\<close>

section \<open>State and surroundings\<close>

record daemon_config =
  dc_paths :: app_paths
  dc_pid :: nat
  dc_version :: string
  dc_display :: display_env

text \<open>\<open>dm_removed\<close> lists the directories the daemon has removed.\<close>

record daemon =
  dm_engine :: engine
  dm_shutdown :: bool
  dm_removed :: "component list list"

text \<open>What a waiting request is woken by.\<close>

datatype wake = Woken "engine \<Rightarrow> engine" | ChannelClosed

record daemon_env =
  de_store :: store_env
  de_clock :: "nat \<Rightarrow> int"
  de_files :: files
  de_wakes :: "wake list"
  de_received :: "recv list"
  de_meanwhile :: "engine \<Rightarrow> engine"
  de_states :: "database list"
  de_inputs :: "database sub_input list"
  de_send :: "unit result"

definition on_engine :: "(engine \<Rightarrow> 'a result \<times> engine) \<Rightarrow> ('a \<Rightarrow> protocol_result) \<Rightarrow> daemon \<Rightarrow> protocol_result result \<times> daemon" where
  "on_engine f k dm = (case f (dm_engine dm) of (r, e) \<Rightarrow> (map_sum id k r, dm\<lparr>dm_engine := e\<rparr>))"

definition on_store :: "(database \<Rightarrow> 'a db_result) \<Rightarrow> engine \<Rightarrow> 'a result \<times> engine" where
  "on_store f e = (case f (en_db e) of (r, db) \<Rightarrow> (r, set_db db e))"

definition read_store :: "(database \<Rightarrow> 'a result) \<Rightarrow> engine \<Rightarrow> 'a result \<times> engine" where
  "read_store f e = (f (en_db e), e)"

text \<open>Finish the sessions whose recorder is gone, then go on.\<close>

definition reconciled :: "daemon_env \<Rightarrow> (daemon \<Rightarrow> 'a result \<times> daemon) \<Rightarrow> daemon \<Rightarrow> 'a result \<times> daemon" where
  "reconciled V k dm =
     (case on_store (reconcile_agent_sessions (de_files V) (de_clock V)) (dm_engine dm) of
        (Inl err, e) \<Rightarrow> (Inl err, dm\<lparr>dm_engine := e\<rparr>)
      | (Inr _, e) \<Rightarrow> k (dm\<lparr>dm_engine := e\<rparr>))"

section \<open>Requests that wait\<close>

text \<open>The wait of \<open>ExecutionEngine::cancel\<close>: the timeout comes when the wake-ups end.\<close>

fun cancel_wait :: "int \<Rightarrow> string \<Rightarrow> wake list \<Rightarrow> engine \<Rightarrow> execution result \<times> engine" where
  "cancel_wait now xid [] e = (case cancel_poll now xid e of Some r \<Rightarrow> (r, e) | None \<Rightarrow> (Inl Timeout, e))"
| "cancel_wait now xid (w # ws) e =
     (case cancel_poll now xid e of
        Some r \<Rightarrow> (r, e)
      | None \<Rightarrow>
          (case w of
             Woken f \<Rightarrow> cancel_wait now xid ws (f e)
           | ChannelClosed \<Rightarrow> (Inl (Protocol ''execution event channel closed''), e)))"

definition cancel_execution :: "int \<Rightarrow> wake list \<Rightarrow> string \<Rightarrow> engine \<Rightarrow> execution result \<times> engine" where
  "cancel_execution now wakes xid e =
     (case engine_cancel now xid e of
        (Inl err, e1) \<Rightarrow> (Inl err, e1)
      | (Inr _, e1) \<Rightarrow> cancel_wait now xid wakes e1)"

definition wait_execution ::
  "store_env \<Rightarrow> recv list \<Rightarrow> (engine \<Rightarrow> engine) \<Rightarrow> string \<Rightarrow> nat \<Rightarrow> nat option \<Rightarrow> engine \<Rightarrow> wait_response result \<times> engine" where
  "wait_execution E received meanwhile xid after_seq max_bytes e =
     (let e1 = meanwhile e in
      (engine_wait (e_base64 E) (e_clock E 0) xid after_seq max_bytes (en_db e) received (en_db e1), e1))"

section \<open>One request\<close>

definition health_of :: "daemon_config \<Rightarrow> nat \<Rightarrow> engine \<Rightarrow> health" where
  "health_of K active_sessions e =
     \<lparr>he_protocol_version = PROTOCOL_VERSION, he_daemon_pid = dc_pid K,
      he_database_path = from_utf8_lossy (ap_database (dc_paths K)),
      he_socket_path = from_utf8_lossy (ap_socket (dc_paths K)), he_server_version = Some (dc_version K),
      he_capabilities = [CAPABILITY_EXECUTION_STATS, CAPABILITY_AGENT_SESSIONS, CAPABILITY_AGENT_TURNS],
      he_active_executions = Some (en_active e), he_active_sessions = Some active_sessions\<rparr>"

text \<open>\<open>SessionDelete\<close>: the directory of the recording goes first, then the rows.\<close>

definition session_directory :: "daemon_config \<Rightarrow> daemon_env \<Rightarrow> agent_session \<Rightarrow> component list option" where
  "session_directory K V session =
     (case path_parent (as_cast_path session) of
        None \<Rightarrow> None
      | Some directory \<Rightarrow>
          if prefix (components (ap_sessions_dir (dc_paths K))) directory \<and> fs_exists (de_files V) directory
          then Some directory else None)"

definition delete_session :: "daemon_config \<Rightarrow> daemon_env \<Rightarrow> string \<Rightarrow> daemon \<Rightarrow> protocol_result result \<times> daemon" where
  "delete_session K V sid dm =
     (case get_agent_session (e_clock (de_store V)) sid (en_db (dm_engine dm)) of
        Inl err \<Rightarrow> (Inl err, dm)
      | Inr detail \<Rightarrow>
          if \<not> session_is_terminal (as_state (sd_session detail))
          then (Inl (InvalidRequest (''agent session '' @ sid @ '' is still recording'')), dm)
          else
            (case session_directory K V (sd_session detail) of
               None \<Rightarrow> on_engine (on_store (delete_agent_session sid)) (\<lambda>_. PEmpty) dm
             | Some directory \<Rightarrow>
                 (case fs_remove_dir_all (de_files V) directory of
                    Inl err \<Rightarrow> (Inl err, dm)
                  | Inr _ \<Rightarrow> on_engine (on_store (delete_agent_session sid)) (\<lambda>_. PEmpty)
                      (dm\<lparr>dm_removed := dm_removed dm @ [directory]\<rparr>))))"

definition shutdown_request :: "bool \<Rightarrow> daemon \<Rightarrow> protocol_result result \<times> daemon" where
  "shutdown_request force dm =
     (case active_agent_sessions (en_db (dm_engine dm)) of
        Inl err \<Rightarrow> (Inl err, dm)
      | Inr sessions \<Rightarrow>
          if \<not> force \<and> sessions \<noteq> []
          then (Inl (InvalidRequest (''daemon has '' @ show_nat (length sessions) @
                  '' active agent session(s); wait for them or use --force'')), dm)
          else (Inr PEmpty, dm\<lparr>dm_shutdown := True\<rparr>))"

definition MAX_REQUEST_BYTES :: nat where
  "MAX_REQUEST_BYTES = 8 * 1024 * 1024"

fun dispatch :: "daemon_config \<Rightarrow> daemon_env \<Rightarrow> operation \<Rightarrow> daemon \<Rightarrow> protocol_result result \<times> daemon" where
  "dispatch K V OpHealth dm =
     reconciled V (\<lambda>dm. on_engine (\<lambda>e. (bind_res (active_agent_sessions (en_db e))
         (\<lambda>sessions. Inr (health_of K (length sessions) e)), e)) PHealth dm) dm"
| "dispatch K V (OpWorkspaceAdd name root) dm =
     (let E = de_store V in
      on_engine (on_store (add_workspace (e_canonicalize E) (e_is_dir E) (e_clock E 0) (e_new_id E 0) name root)) PWorkspace dm)"
| "dispatch K V (OpWorkspaceRemove workspace) dm = on_engine (on_store (remove_workspace workspace)) (\<lambda>_. PEmpty) dm"
| "dispatch K V OpWorkspaceList dm = on_engine (read_store (\<lambda>db. Inr (list_workspaces db))) PWorkspaces dm"
| "dispatch K V (OpExecute request) dm =
     (let E = de_store V in
      on_engine (engine_execute (e_base64 E) (e_canonicalize E) (e_clock E 0) (e_new_id E 0) request) PExecution dm)"
| "dispatch K V (OpGet xid) dm = on_engine (read_store (get_execution (e_clock (de_store V) 0) xid)) PExecution dm"
| "dispatch K V (OpList workspace limit) dm =
     on_engine (read_store (list_executions (e_clock (de_store V)) workspace (clamp 1 1000 limit))) PExecutions dm"
| "dispatch K V (OpStats workspace since) dm =
     (let now = e_clock (de_store V) 0 in
      on_engine (read_store (\<lambda>db. if since > now
         then Inl (InvalidRequest ''statistics window start must not exceed its end'')
         else execution_stats workspace since now db)) PStats dm)"
| "dispatch K V (OpSessionCreate request) dm =
     (let E = de_store V in
      case validate_session_paths (dc_paths K) (sr_id request) (sr_cast_path request) (sr_html_path request) of
        Inl err \<Rightarrow> (Inl err, dm)
      | Inr _ \<Rightarrow> on_engine (on_store (create_agent_session (e_canonicalize E) (e_clock E 0) request)) PAgentSession dm)"
| "dispatch K V (OpSessionFinish sid fin) dm =
     on_engine (on_store (finish_agent_session (e_clock (de_store V) 0) sid fin)) PAgentSession dm"
| "dispatch K V (OpSessionGet sid) dm =
     reconciled V (on_engine (read_store (get_agent_session (e_clock (de_store V)) sid)) PAgentSessionDetail) dm"
| "dispatch K V (OpSessionList workspace limit) dm =
     reconciled V (on_engine (read_store (list_agent_sessions workspace (clamp 1 1000 limit))) PAgentSessions) dm"
| "dispatch K V (OpSessionDelete sid) dm = delete_session K V sid dm"
| "dispatch K V (OpAgentEvent request) dm =
     (let E = de_store V in
      on_engine (on_store (record_agent_event (e_clock E 0) (e_new_id E 0) (e_new_id E 1) request)) PAgentTurn dm)"
| "dispatch K V (OpReadOutput xid after_seq max_bytes) dm =
     (let E = de_store V in
      on_engine (read_store (read_output (e_base64 E) (e_clock E 0) xid after_seq (clamp 1 MAX_REQUEST_BYTES max_bytes))) POutput dm)"
| "dispatch K V (OpWait xid after_seq timeout_ms max_bytes) dm =
     on_engine (wait_execution (de_store V) (de_received V) (de_meanwhile V) xid after_seq
        (Some (clamp 1 MAX_REQUEST_BYTES max_bytes))) PWait dm"
| "dispatch K V (OpSubscribe xid after_seq) dm = (Inl (Protocol ''subscribe must use a dedicated connection''), dm)"
| "dispatch K V (OpCancel xid) dm =
     on_engine (cancel_execution (e_clock (de_store V) 0) (de_wakes V) xid) PExecution dm"
| "dispatch K V (OpShutdown force) dm = reconciled V (shutdown_request force) dm"

section \<open>One connection\<close>

datatype frame = NotJson string | Message wire_message

definition result_message :: "display_env \<Rightarrow> string \<Rightarrow> protocol_result result \<Rightarrow> wire_message" where
  "result_message d rid r = (case r of Inr result \<Rightarrow> wire_ok rid result | Inl err \<Rightarrow> wire_error d rid err)"

text \<open>What a frame that is no subscription is answered with.\<close>

fun serve_frame :: "daemon_config \<Rightarrow> daemon_env \<Rightarrow> frame \<Rightarrow> daemon \<Rightarrow> wire_message \<times> daemon" where
  "serve_frame K V (NotJson m) dm =
     (wire_error (dc_display K) ''invalid'' (InvalidRequest (''invalid protocol request: '' @ m)), dm)"
| "serve_frame K V (Message (Request version rid op)) dm =
     (if version \<noteq> PROTOCOL_VERSION
      then (wire_error (dc_display K) rid (Protocol (''unsupported protocol version '' @ show_nat version)), dm)
      else (case dispatch K V op dm of (r, dm') \<Rightarrow> (result_message (dc_display K) rid r, dm')))"
| "serve_frame K V (Message m) dm =
     (wire_error (dc_display K) ''invalid'' (InvalidRequest ''client message must be a request''), dm)"

fun subscription_of :: "frame \<Rightarrow> (string \<times> string \<times> nat) option" where
  "subscription_of (Message (Request version rid (OpSubscribe xid after_seq))) =
     (if version = PROTOCOL_VERSION then Some (rid, xid, after_seq) else None)"
| "subscription_of _ = None"

definition sub_result :: "sub_status \<Rightarrow> unit result option" where
  "sub_result st = (case st of SubReturned \<Rightarrow> Some (Inr ()) | SubFailed e \<Rightarrow> Some (Inl e) | _ \<Rightarrow> None)"

definition serve_subscription ::
  "daemon_config \<Rightarrow> daemon_env \<Rightarrow> string \<Rightarrow> string \<Rightarrow> nat \<Rightarrow> daemon \<Rightarrow> wire_message list \<times> sub_status" where
  "serve_subscription K V rid xid after_seq dm =
     (let E = de_store V in
      handle_subscription (dc_display K) (replay_page (e_base64 E) (e_clock E 0) xid)
        (get_execution (e_clock E 0) xid (en_db (dm_engine dm))) rid xid after_seq (de_states V) (de_inputs V))"

text \<open>A frame is an error of the codec or its content. The messages sent and the result, which is \<open>None\<close>
  while a subscription goes on.\<close>

fun handle_connection ::
  "daemon_config \<Rightarrow> (daemon_env \<times> (string + frame)) list \<Rightarrow> daemon \<Rightarrow>
   wire_message list \<times> daemon \<times> unit result option" where
  "handle_connection K [] dm = ([], dm, Some (Inr ()))"
| "handle_connection K ((V, Inl m) # frames) dm = ([], dm, Some (Inl (Io m)))"
| "handle_connection K ((V, Inr frame) # frames) dm =
     (case subscription_of frame of
        Some (rid, xid, after_seq) \<Rightarrow>
          (case serve_subscription K V rid xid after_seq dm of (messages, st) \<Rightarrow> (messages, dm, sub_result st))
      | None \<Rightarrow>
          (case serve_frame K V frame dm of
             (message, dm1) \<Rightarrow>
               (case de_send V of
                  Inl err \<Rightarrow> ([], dm1, Some (Inl err))
                | Inr _ \<Rightarrow>
                    (case handle_connection K frames dm1 of (messages, dm2, r) \<Rightarrow> (message # messages, dm2, r)))))"

section \<open>The daemon's life\<close>

definition verify_peer :: "nat \<Rightarrow> string + nat \<Rightarrow> unit result" where
  "verify_peer own credentials =
     (case credentials of
        Inl m \<Rightarrow> Inl (Io m)
      | Inr uid \<Rightarrow>
          if uid \<noteq> own
          then Inl (PermissionDenied (''peer uid '' @ show_nat uid @ '' does not match daemon uid '' @ show_nat own))
          else Inr ())"

datatype main_event =
    Connected "string + nat"
  | AcceptFailed string
  | ShutdownChanged bool
  | Interrupted_by_signal "unit result"
  | FatalChanged "string option option"

datatype loop_end = LoopBreak | LoopFailed error

text \<open>The peers whose connections are handled, and how the loop ended.\<close>

fun accept_loop :: "nat \<Rightarrow> main_event list \<Rightarrow> (string + nat) list \<times> loop_end option" where
  "accept_loop own [] = ([], None)"
| "accept_loop own (Connected credentials # evs) =
     (case verify_peer own credentials of
        Inl _ \<Rightarrow> accept_loop own evs
      | Inr _ \<Rightarrow> (case accept_loop own evs of (peers, r) \<Rightarrow> (credentials # peers, r)))"
| "accept_loop own (AcceptFailed m # evs) = ([], Some (LoopFailed (Io m)))"
| "accept_loop own (ShutdownChanged b # evs) = (if b then ([], Some LoopBreak) else accept_loop own evs)"
| "accept_loop own (Interrupted_by_signal r # evs) =
     (case r of Inl e \<Rightarrow> ([], Some (LoopFailed e)) | Inr _ \<Rightarrow> ([], Some LoopBreak))"
| "accept_loop own (FatalChanged None # evs) = ([], Some LoopBreak)"
| "accept_loop own (FatalChanged (Some None) # evs) = accept_loop own evs"
| "accept_loop own (FatalChanged (Some (Some m)) # evs) = ([], Some LoopBreak)"

text \<open>Whether the path exists, whether a connection to it succeeds, and what removing it gives.\<close>

definition prepare_socket :: "string \<Rightarrow> bool \<Rightarrow> bool \<Rightarrow> unit result \<Rightarrow> unit result" where
  "prepare_socket path exists_path connects removed =
     (if \<not> exists_path then Inr ()
      else if connects then Inl (error.Config (''another loomd is already listening at '' @ path))
      else removed)"

text \<open>The steps of \<open>run\<close> that fail or not, and what it has done, in order.\<close>

record startup =
  st_ensure :: "unit result"
  st_lock :: "unit result"
  st_socket :: "unit result"
  st_bind :: "unit result"
  st_permissions :: "unit result"
  st_open :: "database result"
  st_drain :: "unit result"
  st_store_shutdown :: "unit result"

datatype effect =
    LockHeld
  | SocketBound
  | StoreOpened
  | ExecutionsReconciled
  | SessionsReconciled
  | ServingClients
  | EngineDrained
  | StoreStopped
  | SocketRemoved
  | LockReleased

definition shut_down :: "startup \<Rightarrow> effect list \<times> unit result" where
  "shut_down U = ([EngineDrained, StoreStopped, SocketRemoved],
     bind_res (st_drain U) (\<lambda>_. st_store_shutdown U))"

definition serve :: "startup \<Rightarrow> nat \<Rightarrow> main_event list \<Rightarrow> effect list \<times> unit result option" where
  "serve U own events =
     (case accept_loop own events of
        (peers, None) \<Rightarrow> ([ServingClients], None)
      | (peers, Some (LoopFailed e)) \<Rightarrow> ([ServingClients], Some (Inl e))
      | (peers, Some LoopBreak) \<Rightarrow> (case shut_down U of (effs, r) \<Rightarrow> (ServingClients # effs, Some r)))"

definition with_store ::
  "startup \<Rightarrow> files \<Rightarrow> (nat \<Rightarrow> int) \<Rightarrow> (nat \<Rightarrow> int) \<Rightarrow> nat \<Rightarrow> main_event list \<Rightarrow> database \<Rightarrow>
   effect list \<times> unit result option" where
  "with_store U F clock clock' own events db =
     (case reconcile_incomplete clock db of
        (Inl e, db1) \<Rightarrow> ([], Some (Inl e))
      | (Inr _, db1) \<Rightarrow>
          (case reconcile_agent_sessions F clock' db1 of
             (Inl e, db2) \<Rightarrow> ([ExecutionsReconciled], Some (Inl e))
           | (Inr _, db2) \<Rightarrow>
               (case serve U own events of
                  (effs, r) \<Rightarrow> ([ExecutionsReconciled, SessionsReconciled] @ effs, r))))"

definition locked_run ::
  "startup \<Rightarrow> files \<Rightarrow> (nat \<Rightarrow> int) \<Rightarrow> (nat \<Rightarrow> int) \<Rightarrow> nat \<Rightarrow> main_event list \<Rightarrow> effect list \<times> unit result option" where
  "locked_run U F clock clock' own events =
     (case st_socket U of
        Inl e \<Rightarrow> ([], Some (Inl e))
      | Inr _ \<Rightarrow>
          (case st_bind U of
             Inl e \<Rightarrow> ([], Some (Inl e))
           | Inr _ \<Rightarrow>
               (case bind_res (st_permissions U) (\<lambda>_. st_open U) of
                  Inl e \<Rightarrow> ([SocketBound], Some (Inl e))
                | Inr db \<Rightarrow>
                    (case with_store U F clock clock' own events db of
                       (effs, r) \<Rightarrow> ([SocketBound, StoreOpened] @ effs, r)))))"

definition run_daemon ::
  "startup \<Rightarrow> files \<Rightarrow> (nat \<Rightarrow> int) \<Rightarrow> (nat \<Rightarrow> int) \<Rightarrow> nat \<Rightarrow> main_event list \<Rightarrow> effect list \<times> unit result option" where
  "run_daemon U F clock clock' own events =
     (case bind_res (st_ensure U) (\<lambda>_. st_lock U) of
        Inl e \<Rightarrow> ([], Some (Inl e))
      | Inr _ \<Rightarrow>
          (case locked_run U F clock clock' own events of
             (effs, r) \<Rightarrow> (LockHeld # effs @ (if r = None then [] else [LockReleased]), r)))"

end
