(* ===== verification/DaemonInv.thy ===== *)
theory DaemonInv
  imports Daemon EngineDrain
begin

text \<open>
  Where the recordings lie. The rows of the sessions name the files of their recordings; only
  \<open>SessionCreate\<close> makes such a row, and it has checked the path, so a directory the daemon removes is
  the one of a session, below the directory of the sessions.
\<close>

section \<open>Which recordings there are\<close>

definition recordings :: "database \<Rightarrow> (string \<times> string) list" where
  "recordings db = map (\<lambda>s. (sn_id s, sn_cast_path s)) (db_sessions db)"

definition same_recordings :: "database \<Rightarrow> database \<Rightarrow> bool" where
  "same_recordings db db' \<longleftrightarrow> recordings db' = recordings db"

lemma recordings_refl [simp]: "same_recordings db db"
  by (simp add: same_recordings_def)

lemma recordings_trans: "same_recordings db db1 \<Longrightarrow> same_recordings db1 db2 \<Longrightarrow> same_recordings db db2"
  by (simp add: same_recordings_def)

lemma same_sessions: "db_sessions db' = db_sessions db \<Longrightarrow> same_recordings db db'"
  by (simp add: same_recordings_def recordings_def)

lemma recordings_update:
  "(\<And>s. sn_id (f s) = sn_id s \<and> sn_cast_path (f s) = sn_cast_path s) \<Longrightarrow>
     same_recordings db (update_turns p g (update_session sid f db))"
  by (auto simp: same_recordings_def recordings_def update_turns_def update_session_def update_where_def)

lemma append_event_sessions: "append_event xid E F db = Inr (seq, db') \<Longrightarrow> db_sessions db' = db_sessions db"
  by (auto simp: append_event_def insert_event_def update_execution_def bind_res_Inr_iff split: if_split_asm)

lemma finish_sessions: "db_sessions (snd (finish now xid st out db)) = db_sessions db"
  unfolding finish_def
  by (rule transaction_inv [where P = "\<lambda>d. db_sessions d = db_sessions db"])
    (auto simp: bind_res_Inr_iff split: if_split_asm dest: append_event_sessions)

lemma create_execution_sessions: "db_sessions (snd (create_execution B now nid rq cwd db)) = db_sessions db"
  by (auto simp: create_execution_def insert_execution_def bind_res_Inr_iff split: sum.split if_split_asm)

lemma add_workspace_sessions: "db_sessions (snd (add_workspace can isd now nid name root db)) = db_sessions db"
  by (auto simp: add_workspace_def insert_workspace_def set_active_def Let_def split: sum.split option.split if_split_asm)

lemma remove_workspace_sessions: "db_sessions (snd (remove_workspace w db)) = db_sessions db"
  by (auto simp: remove_workspace_def split: option.split)

lemma finish_session_recordings: "same_recordings db (snd (finish_agent_session now sid fin db))"
  by (auto simp: finish_agent_session_def Let_def set_session_finished_def split: sum.split intro: recordings_update)

lemma insert_agent_turn_sessions: "db_sessions (snd (insert_agent_turn rq tid p now db)) = db_sessions db"
  by (auto simp: insert_agent_turn_def insert_turn_def split: sum.split if_split_asm)

lemma find_or_create_sessions: "find_or_create_agent_turn rq tid now db = (r, db') \<Longrightarrow> db_sessions db' = db_sessions db"
  using insert_agent_turn_sessions [of rq tid "''''" now db]
  by (auto simp: find_or_create_agent_turn_def split: sum.split_asm option.split_asm)

lemma upsert_action_sessions: "upsert_action a f db = Inr db' \<Longrightarrow> db_sessions db' = db_sessions db"
  by (auto simp: upsert_action_def Let_def split: if_split_asm)

lemma update_turns_sessions [simp]: "db_sessions (update_turns p f db) = db_sessions db"
  by (simp add: update_turns_def)

lemma record_event_sessions: "db_sessions (snd (record_agent_event now tid aid rq db)) = db_sessions db"
proof -
  have "db_sessions (snd (prompt_submitted now tid rq prompt db)) = db_sessions db" for prompt
    using insert_agent_turn_sessions [of rq tid prompt now]
    by (auto simp: prompt_submitted_def Let_def split: sum.split option.split)
  moreover have "db_sessions (snd (tool_started now tid aid rq action name db)) = db_sessions db" for action name
    by (auto simp: tool_started_def split: sum.split prod.split dest!: find_or_create_sessions upsert_action_sessions)
  moreover have "db_sessions (snd (tool_finished now tid aid w rq action name failed xid db)) = db_sessions db"
    for w action name failed xid
    by (auto simp: tool_finished_def Let_def split: sum.split prod.split dest!: find_or_create_sessions upsert_action_sessions)
  moreover have "db_sessions (snd (turn_finished now tid rq failed m db)) = db_sessions db" for failed m
    by (auto simp: turn_finished_def Let_def split: sum.split prod.split dest!: find_or_create_sessions)
  ultimately show ?thesis
    by (auto simp: record_agent_event_def split: sum.split agent_event.split)
qed

lemma reconcile_sessions_recordings: "same_recordings db (snd (reconcile_sessions F clock sessions k db))"
proof (induction sessions arbitrary: k db)
  case (Cons s ss)
  let ?r = "finish_agent_session (clock k) (as_id s) (interrupted_finish F s) db"
  have one: "same_recordings db (snd ?r)" by (rule finish_session_recordings)
  have "same_recordings db (snd (reconcile_sessions F clock ss (k + 1) (snd ?r)))"
    using recordings_trans [OF one Cons.IH] .
  then show ?case using one Cons.IH [of db k] by (auto simp: split_beta split: sum.split bool.split)
qed simp

lemma reconcile_agent_sessions_recordings: "same_recordings db (snd (reconcile_agent_sessions F clock db))"
  using reconcile_sessions_recordings by (auto simp: reconcile_agent_sessions_def split: sum.split)

section \<open>Where they lie\<close>

definition placed :: "daemon_config \<Rightarrow> string \<times> string \<Rightarrow> bool" where
  "placed K r \<longleftrightarrow>
     (\<exists>dir. path_parent (snd r) = Some dir \<and> last_opt dir = Some (Normal (fst r)) \<and>
        strict_prefix (components (ap_sessions_dir (dc_paths K))) dir)"

definition store_ok :: "daemon_config \<Rightarrow> database \<Rightarrow> bool" where
  "store_ok K db \<longleftrightarrow> db_inv db \<and> (\<forall>r \<in> set (recordings db). placed K r)"

lemma store_okI: "db_inv db' \<Longrightarrow> same_recordings db db' \<Longrightarrow> store_ok K db \<Longrightarrow> store_ok K db'"
  by (simp add: store_ok_def same_recordings_def)

lemma store_ok_inv: "store_ok K db \<Longrightarrow> db_inv db"
  by (simp add: store_ok_def)

lemma create_session_ok:
  assumes "store_ok K db" and "placed K (sr_id rq, sr_cast_path rq)"
  shows "store_ok K (snd (create_agent_session can now rq db))"
proof -
  have "set (recordings (snd (create_agent_session can now rq db))) \<subseteq>
      insert (sr_id rq, sr_cast_path rq) (set (recordings db))"
    by (auto simp: create_agent_session_def insert_session_def recordings_def new_session_row_def bind_res_Inr_iff
        split: sum.split if_split_asm)
  then show ?thesis using assms create_agent_session_inv [of db can now rq] by (auto simp: store_ok_def)
qed

lemma delete_session_ok:
  assumes "store_ok K db"
  shows "store_ok K (snd (delete_agent_session sid db))"
proof -
  have "set (recordings (snd (delete_agent_session sid db))) \<subseteq> set (recordings db)"
    by (auto simp: delete_agent_session_def Let_def recordings_def delete_where_def split: sum.split)
  then show ?thesis using assms delete_agent_session_inv [of db sid] by (auto simp: store_ok_def)
qed

lemmas keeps_recordings = same_sessions [OF create_execution_sessions] same_sessions [OF finish_sessions]
  same_sessions [OF add_workspace_sessions] same_sessions [OF remove_workspace_sessions]
  same_sessions [OF record_event_sessions] finish_session_recordings reconcile_agent_sessions_recordings

lemma store_ops_ok:
  assumes "store_ok K db"
  shows "store_ok K (snd (create_execution B now nid rq cwd db))"
    and "store_ok K (snd (finish now xid st out db))"
    and "store_ok K (snd (add_workspace can isd now nid name root db))"
    and "store_ok K (snd (remove_workspace w db))"
    and "store_ok K (snd (record_agent_event now tid aid er db))"
    and "store_ok K (snd (finish_agent_session now sid fin db))"
    and "store_ok K (snd (reconcile_agent_sessions F clock db))"
  using assms store_ok_inv [OF assms]
  by (auto intro: store_okI keeps_recordings create_execution_inv finish_inv add_workspace_inv remove_workspace_inv
      record_agent_event_inv finish_agent_session_inv reconcile_agent_sessions_inv)

section \<open>Requests keep the recordings in their place\<close>

abbreviation engine_ok :: "daemon_config \<Rightarrow> engine \<Rightarrow> bool" where
  "engine_ok K e \<equiv> store_ok K (en_db e)"

text \<open>What the others do while a request waits.\<close>

definition env_ok :: "daemon_config \<Rightarrow> daemon_env \<Rightarrow> bool" where
  "env_ok K V \<longleftrightarrow> (\<forall>e. engine_ok K e \<longrightarrow> engine_ok K (de_meanwhile V e)) \<and>
     (\<forall>f e. Woken f \<in> set (de_wakes V) \<longrightarrow> engine_ok K e \<longrightarrow> engine_ok K (f e))"

lemma execute_ok: "engine_ok K e \<Longrightarrow> engine_ok K (snd (engine_execute B can now nid rq e))"
  using store_ops_ok(1) [of K "en_db e" B now nid]
  by (auto simp: engine_execute_def split_beta split: sum.split)

lemma cancel_ok: "engine_ok K e \<Longrightarrow> engine_ok K (snd (engine_cancel now xid e))"
  using store_ops_ok(2) [of K "en_db e" now xid Cancelled "OutcomeCancelled None"]
  by (auto simp: engine_cancel_def split_beta Let_def split: sum.split execution_state.split)

lemma cancel_wait_ok:
  "engine_ok K e \<Longrightarrow> \<forall>f e. Woken f \<in> set ws \<longrightarrow> engine_ok K e \<longrightarrow> engine_ok K (f e) \<Longrightarrow>
     engine_ok K (snd (cancel_wait now xid ws e))"
proof (induction ws arbitrary: e)
  case Nil
  then show ?case by (auto split: option.split)
next
  case (Cons w ws)
  then show ?case by (cases w) (auto split: option.split)
qed

lemma cancel_execution_ok:
  assumes "engine_ok K e" and "\<forall>f e. Woken f \<in> set ws \<longrightarrow> engine_ok K e \<longrightarrow> engine_ok K (f e)"
  shows "engine_ok K (snd (cancel_execution now ws xid e))"
  using cancel_ok [OF assms(1), of now xid] cancel_wait_ok [OF _ assms(2)]
  by (auto simp: cancel_execution_def split_beta split: sum.split)

definition daemon_ok :: "daemon_config \<Rightarrow> daemon \<Rightarrow> bool" where
  "daemon_ok K dm \<longleftrightarrow> engine_ok K (dm_engine dm)"

text \<open>A request that removes nothing.\<close>

definition keeps_files :: "daemon_config \<Rightarrow> daemon \<Rightarrow> 'a \<times> daemon \<Rightarrow> bool" where
  "keeps_files K dm r \<longleftrightarrow> daemon_ok K (snd r) \<and> dm_removed (snd r) = dm_removed dm"

lemma on_engine_keeps:
  "engine_ok K (snd (f (dm_engine dm))) \<Longrightarrow> keeps_files K dm (on_engine f k dm)"
  by (auto simp: on_engine_def keeps_files_def daemon_ok_def split_beta)

lemma on_store_snd [simp]: "en_db (snd (on_store f e)) = snd (f (en_db e))" "snd (read_store g e) = e"
  by (simp_all add: on_store_def read_store_def split_beta)

lemma on_store_keeps: "store_ok K (snd (f (en_db (dm_engine dm)))) \<Longrightarrow> keeps_files K dm (on_engine (on_store f) k dm)"
  by (intro on_engine_keeps) simp

lemma read_store_keeps: "daemon_ok K dm \<Longrightarrow> keeps_files K dm (on_engine (read_store f) k dm)"
  by (intro on_engine_keeps) (simp add: daemon_ok_def)

lemma reconciled_keeps:
  assumes ok: "daemon_ok K dm"
    and "\<And>dm1. daemon_ok K dm1 \<Longrightarrow> dm_removed dm1 = dm_removed dm \<Longrightarrow> keeps_files K dm1 (k dm1)"
  shows "keeps_files K dm (reconciled V k dm)"
proof -
  obtain r e where r: "on_store (reconcile_agent_sessions (de_files V) (de_clock V)) (dm_engine dm) = (r, e)"
    by (cases "on_store (reconcile_agent_sessions (de_files V) (de_clock V)) (dm_engine dm)")
  have "engine_ok K e"
    using on_store_snd(1) [of "reconcile_agent_sessions (de_files V) (de_clock V)" "dm_engine dm"] r ok store_ops_ok(7)
    by (simp add: daemon_ok_def)
  then have ok1: "daemon_ok K (dm\<lparr>dm_engine := e\<rparr>)" by (simp add: daemon_ok_def)
  then show ?thesis using r assms(2) [OF ok1] by (auto simp: reconciled_def keeps_files_def split: sum.split)
qed

lemma shutdown_keeps: "daemon_ok K dm \<Longrightarrow> keeps_files K dm (shutdown_request force dm)"
  by (auto simp: shutdown_request_def keeps_files_def daemon_ok_def split: sum.split)

lemma dispatch_keeps:
  assumes ok: "daemon_ok K dm" and env: "env_ok K V" and op: "\<And>sid. op \<noteq> OpSessionDelete sid"
  shows "keeps_files K dm (dispatch K V op dm)"
proof -
  have st: "store_ok K (en_db (dm_engine dm))" using ok by (simp add: daemon_ok_def)
  show ?thesis
  proof (cases op)
    case (OpSessionCreate rq)
    then show ?thesis
      using create_session_ok [OF st] ok
      by (auto simp: Let_def keeps_files_def validate_session_paths_Inr_iff placed_def split: sum.split
          intro!: on_store_keeps [unfolded keeps_files_def, THEN conjunct1] on_store_keeps [unfolded keeps_files_def, THEN conjunct2])
  next
    case (OpWait xid after_seq timeout_ms max_bytes)
    then show ?thesis using env st by (auto simp: wait_execution_def Let_def env_ok_def intro!: on_engine_keeps)
  next
    case (OpCancel xid)
    then show ?thesis using env st by (auto simp: env_ok_def intro!: on_engine_keeps cancel_execution_ok)
  next
    case OpHealth
    then show ?thesis by (auto simp: daemon_ok_def intro!: reconciled_keeps [OF ok] on_engine_keeps)
  next
    case (OpSubscribe xid n)
    then show ?thesis using ok by (simp add: keeps_files_def)
  qed (use ok st op in \<open>auto simp: Let_def daemon_ok_def intro!: reconciled_keeps on_engine_keeps shutdown_keeps
      store_ops_ok execute_ok\<close>)
qed

section \<open>Deleting a session\<close>

lemma session_from_row_cast: "agent_session_from_row s = Inr session \<Longrightarrow> as_cast_path session = sn_cast_path s"
  by (auto simp: agent_session_from_row_def bind_res_Inr_iff)

lemma session_placed:
  assumes "store_ok K db" and "get_agent_session clock sid db = Inr detail"
  shows "placed K (sid, as_cast_path (sd_session detail))"
    and "sstate sid db = Some (session_state_str (as_state (sd_session detail)))"
proof -
  have g: "get_agent_session_record sid db = Inr (sd_session detail)"
    using assms(2) by (auto simp: get_agent_session_def bind_res_Inr_iff)
  then obtain s where s: "find_session sid db = Some s" "agent_session_from_row s = Inr (sd_session detail)"
    by (auto simp: get_agent_session_record_def split: option.split_asm)
  have "as_cast_path (sd_session detail) = sn_cast_path s" by (rule session_from_row_cast [OF s(2)])
  moreover have "(sid, sn_cast_path s) \<in> set (recordings db)"
    using find_session_Some [OF s(1)] by (auto simp: recordings_def)
  ultimately show "placed K (sid, as_cast_path (sd_session detail))" using assms(1) by (auto simp: store_ok_def)
  show "sstate sid db = Some (session_state_str (as_state (sd_session detail)))"
    using s(1) agent_session_from_row_Inr [OF s(2)] by (simp add: sstate_def)
qed

text \<open>The directory of one session.\<close>

definition directory_of :: "daemon_config \<Rightarrow> string \<Rightarrow> component list \<Rightarrow> bool" where
  "directory_of K sid dir \<longleftrightarrow>
     strict_prefix (components (ap_sessions_dir (dc_paths K))) dir \<and> last_opt dir = Some (Normal sid)"

lemma delete_session_effect:
  assumes ok: "daemon_ok K dm" and r: "delete_session K V sid dm = (r, dm')"
  shows "daemon_ok K dm' \<and>
     (dm_removed dm' = dm_removed dm \<or>
      (\<exists>dir st. dm_removed dm' = dm_removed dm @ [dir] \<and> directory_of K sid dir \<and>
         sstate sid (en_db (dm_engine dm)) = Some st \<and> st \<noteq> ''recording''))"
proof -
  let ?db = "en_db (dm_engine dm)"
  have st: "store_ok K ?db" using ok by (simp add: daemon_ok_def)
  have del: "keeps_files K dm1 (on_engine (on_store (delete_agent_session sid)) (\<lambda>_. PEmpty) dm1)"
    if "daemon_ok K dm1" for dm1
    using that by (intro on_store_keeps delete_session_ok) (simp add: daemon_ok_def)
  show ?thesis
  proof (cases "get_agent_session (e_clock (de_store V)) sid ?db")
    case (Inl err)
    then show ?thesis using r ok by (simp add: delete_session_def)
  next
    case (Inr detail)
    note pl = session_placed [OF st Inr]
    show ?thesis
    proof (cases "session_is_terminal (as_state (sd_session detail))")
      case False
      then show ?thesis using r ok Inr by (simp add: delete_session_def)
    next
      case True
      then have state: "sstate sid ?db = Some (session_state_str (as_state (sd_session detail))) \<and>
          session_state_str (as_state (sd_session detail)) \<noteq> ''recording''"
        using pl(2) by (cases "as_state (sd_session detail)") (simp_all add: session_is_terminal_def)
      show ?thesis
      proof (cases "session_directory K V (sd_session detail)")
        case None
        then show ?thesis using r Inr True del [OF ok] by (simp add: delete_session_def keeps_files_def)
      next
        case (Some dir)
        then have d: "directory_of K sid dir"
          using pl(1) by (auto simp: session_directory_def placed_def directory_of_def split: option.split_asm if_split_asm)
        have ok1: "daemon_ok K (dm\<lparr>dm_removed := dm_removed dm @ [dir]\<rparr>)" using ok by (simp add: daemon_ok_def)
        show ?thesis using r Inr True Some d state ok del [OF ok1]
          by (cases "fs_remove_dir_all (de_files V) dir") (auto simp: delete_session_def keeps_files_def)
      qed
    qed
  qed
qed

end
