(* ===== verification/DaemonLock.thy ===== *)
theory DaemonLock
  imports Errors
begin

text \<open>
  The daemon's lock file (\<open>DaemonLock\<close> and \<open>lock_owner_alive\<close> in \<open>src/daemon.rs\<close>): a file created
  exclusively that holds the owner's process id, and is removed when its owner is not alive. Processes
  run \<open>acquire\<close> at the same time, one system call at a step; a file keeps its content when its name is
  removed, for the process that has it open.
\<close>

section \<open>The owner in the file\<close>

text \<open>\<open>source.trim().parse::<i32>()\<close>.\<close>

definition trim_chars :: "nat list \<Rightarrow> nat list" where
  "trim_chars cs = rev (dropWhile is_whitespace (rev (dropWhile is_whitespace cs)))"

fun parse_digits :: "nat list \<Rightarrow> nat \<Rightarrow> nat option" where
  "parse_digits [] n = Some n"
| "parse_digits (c # cs) n = (if 48 \<le> c \<and> c < 58 then parse_digits cs (10 * n + (c - 48)) else None)"

definition in_i32 :: "int \<Rightarrow> int option" where
  "in_i32 i = (if - (2 ^ 31) \<le> i \<and> i < 2 ^ 31 then Some i else None)"

fun parse_i32 :: "nat list \<Rightarrow> int option" where
  "parse_i32 [] = None"
| "parse_i32 (c # cs) =
     (if (c = 43 \<or> c = 45) \<and> cs = [] then None
      else if c = 45 then Option.bind (parse_digits cs 0) (\<lambda>n. in_i32 (- int n))
      else if c = 43 then Option.bind (parse_digits cs 0) (\<lambda>n. in_i32 (int n))
      else Option.bind (parse_digits (c # cs) 0) (\<lambda>n. in_i32 (int n)))"

datatype kill_result = KillOk | KillEPERM | KillESRCH | KillError string

definition lock_owner_alive :: "(int \<Rightarrow> kill_result) \<Rightarrow> string result \<Rightarrow> bool result" where
  "lock_owner_alive kill content =
     bind_res content (\<lambda>source.
       case parse_i32 (trim_chars (chars_of source)) of
         None \<Rightarrow> Inr False
       | Some pid \<Rightarrow>
           (case kill pid of
              KillOk \<Rightarrow> Inr True | KillEPERM \<Rightarrow> Inr True | KillESRCH \<Rightarrow> Inr False
            | KillError m \<Rightarrow> Inl (Io m)))"

section \<open>Processes at the lock file\<close>

text \<open>The program counter of a process in \<open>acquire\<close>: the attempt it makes, and for a file it has created
  the file.\<close>

datatype lock_pc =
    NotStarted
  | Creating nat
  | Writing nat
  | Checking nat
  | RemovingStale nat
  | Holding nat
  | Refused error
  | Exited_process

record lock_state =
  lk_entry :: "nat option"
  lk_content :: "nat \<Rightarrow> string"
  lk_next :: nat
  lk_pc :: "nat \<Rightarrow> lock_pc"

definition newline :: string where
  "newline = [char_of (10 :: nat)]"

definition lock_line :: "nat \<Rightarrow> string" where
  "lock_line p = show_nat p @ newline"

definition set_pc :: "nat \<Rightarrow> lock_pc \<Rightarrow> lock_state \<Rightarrow> lock_state" where
  "set_pc p pc st = st\<lparr>lk_pc := (lk_pc st)(p := pc)\<rparr>"

definition running_process :: "lock_state \<Rightarrow> nat \<Rightarrow> bool" where
  "running_process st p \<longleftrightarrow> lk_pc st p \<noteq> NotStarted \<and> lk_pc st p \<noteq> Exited_process"

text \<open>\<open>others\<close> answers for the processes that are no daemon.\<close>

definition probe :: "(int \<Rightarrow> kill_result) \<Rightarrow> lock_state \<Rightarrow> int \<Rightarrow> kill_result" where
  "probe others st pid = (if 0 < pid \<and> running_process st (nat pid) then KillOk else others pid)"

definition acquire_step :: "(int \<Rightarrow> kill_result) \<Rightarrow> nat \<Rightarrow> lock_state \<Rightarrow> lock_state" where
  "acquire_step others p st =
     (case lk_pc st p of
        NotStarted \<Rightarrow> set_pc p (Creating 0) st
      | Creating n \<Rightarrow>
          (case lk_entry st of
             None \<Rightarrow> set_pc p (Writing (lk_next st))
               (st\<lparr>lk_entry := Some (lk_next st), lk_content := (lk_content st)(lk_next st := []),
                   lk_next := lk_next st + 1\<rparr>)
           | Some i \<Rightarrow> set_pc p (Checking n) st)
      | Writing i \<Rightarrow> set_pc p (Holding i) (st\<lparr>lk_content := (lk_content st)(i := lock_line p)\<rparr>)
      | Checking n \<Rightarrow>
          (case lock_owner_alive (probe others st)
                  (case lk_entry st of None \<Rightarrow> Inl (Io ''No such file or directory'') | Some i \<Rightarrow> Inr (lk_content st i)) of
             Inl e \<Rightarrow> set_pc p (Refused e) st
           | Inr True \<Rightarrow> set_pc p (Refused (error.Config ''another loomd process is running'')) st
           | Inr False \<Rightarrow> set_pc p (RemovingStale n) st)
      | RemovingStale n \<Rightarrow>
          (case lk_entry st of
             None \<Rightarrow> set_pc p (Refused (Io ''No such file or directory'')) st
           | Some i \<Rightarrow>
               set_pc p (if n + 1 < 2 then Creating (n + 1) else Refused (error.Config ''could not acquire daemon lock''))
                 (st\<lparr>lk_entry := None\<rparr>))
      | _ \<Rightarrow> st)"

text \<open>\<open>Drop\<close> removes the file by its name; a killed process leaves it.\<close>

datatype lock_input =
    AcquireStep nat
  | Release nat
  | Kill nat

fun lock_step :: "(int \<Rightarrow> kill_result) \<Rightarrow> lock_state \<Rightarrow> lock_input \<Rightarrow> lock_state" where
  "lock_step others st (AcquireStep p) = acquire_step others p st"
| "lock_step others st (Release p) =
     (case lk_pc st p of Holding i \<Rightarrow> set_pc p Exited_process (st\<lparr>lk_entry := None\<rparr>) | _ \<Rightarrow> st)"
| "lock_step others st (Kill p) =
     (if running_process st p then set_pc p Exited_process st else st)"

text \<open>\<open>acquire\<close> without interference: at most eight system calls.\<close>

definition acquire :: "(int \<Rightarrow> kill_result) \<Rightarrow> nat \<Rightarrow> lock_state \<Rightarrow> lock_state" where
  "acquire others p st = run_steps (lock_step others) st (replicate 8 (AcquireStep p))"

section \<open>The process id survives the file\<close>

lemma chars_of_ascii: "\<forall>c \<in> set s. bv c < 128 \<Longrightarrow> chars_of s = map bv s"
proof (induction s)
  case (Cons c s)
  then have "utf8_next (c # s) = Utf8_Char 1 (bv c)" by (simp add: utf8_next.simps(2))
  then show ?case using Cons by (subst chars_of.simps) simp
qed simp

definition digit :: "nat \<Rightarrow> bool" where
  "digit c \<longleftrightarrow> 48 \<le> c \<and> c < 58"

lemma bv_char_of: "n < 256 \<Longrightarrow> bv (char_of n) = n"
  by simp

lemma show_nat_digits: "\<forall>c \<in> set (show_nat n). digit (bv c)"
proof (induction n rule: show_nat.induct)
  case (1 n)
  then show ?case
    by (subst show_nat.simps) (auto simp: digit_def bv_char_of split: if_splits)
qed

lemma parse_digits_append:
  "parse_digits (cs @ ds) n = Option.bind (parse_digits cs n) (\<lambda>m. parse_digits ds m)"
  by (induction cs arbitrary: n) auto

lemma parse_show_nat: "parse_digits (map bv (show_nat n)) 0 = Some n"
proof (induction n rule: show_nat.induct)
  case (1 n)
  then show ?case
    by (subst show_nat.simps) (auto simp: parse_digits_append bv_char_of split: if_splits)
qed

lemma trim_digits: "\<forall>c \<in> set cs. digit c \<Longrightarrow> is_whitespace w \<Longrightarrow> trim_chars (cs @ [w]) = cs"
proof -
  assume d: "\<forall>c \<in> set cs. digit c" and w: "is_whitespace w"
  have n: "\<not> is_whitespace c" if "digit c" for c using that by (auto simp: digit_def is_whitespace_def)
  have keep: "dropWhile is_whitespace ds = ds" if "\<forall>c \<in> set ds. digit c" for ds
    using that n by (cases ds) auto
  have "dropWhile is_whitespace (cs @ [w]) = (if cs = [] then [] else cs @ [w])"
    using d w n by (cases cs) auto
  moreover have "dropWhile is_whitespace (rev cs) = rev cs" using d by (intro keep) simp
  ultimately show "trim_chars (cs @ [w]) = cs" using w by (simp add: trim_chars_def)
qed

lemma lock_line_parses:
  assumes "p < 2 ^ 31"
  shows "parse_i32 (trim_chars (chars_of (lock_line p))) = Some (int p)"
proof -
  have d: "\<forall>c \<in> set (map bv (show_nat p)). digit c" using show_nat_digits [of p] by simp
  have "\<forall>c \<in> set (lock_line p). bv c < 128"
    using show_nat_digits [of p] by (auto simp: lock_line_def newline_def digit_def bv_char_of)
  then have c: "chars_of (lock_line p) = map bv (show_nat p) @ [10]"
    by (simp add: chars_of_ascii lock_line_def newline_def bv_char_of)
  have t: "trim_chars (chars_of (lock_line p)) = map bv (show_nat p)"
    unfolding c by (rule trim_digits [OF d]) (simp add: is_whitespace_def)
  obtain x xs where x: "map bv (show_nat p) = x # xs" using show_nat_nonempty [of p] by (cases "show_nat p") auto
  then have "digit x" using d by simp
  then have "parse_i32 (x # xs) = Option.bind (parse_digits (x # xs) 0) (\<lambda>n. in_i32 (int n))"
    by (auto simp: digit_def)
  then show ?thesis using assms parse_show_nat [of p] unfolding t x by (simp add: in_i32_def)
qed

section \<open>Acquiring without interference\<close>

lemma pc_set [simp]: "lk_pc (set_pc p pc st) = (lk_pc st)(p := pc)" "lk_entry (set_pc p pc st) = lk_entry st"
  "lk_content (set_pc p pc st) = lk_content st" "lk_next (set_pc p pc st) = lk_next st"
  "set_pc p pc (set_pc p pc' st) = set_pc p pc st"
  by (simp_all add: set_pc_def)

text \<open>No process is between two system calls of \<open>acquire\<close>, and the file is the holder's.\<close>

definition settled :: "lock_pc \<Rightarrow> bool" where
  "settled pc = (case pc of Creating _ \<Rightarrow> False | Writing _ \<Rightarrow> False | Checking _ \<Rightarrow> False | RemovingStale _ \<Rightarrow> False
     | _ \<Rightarrow> True)"

definition lock_inv :: "lock_state \<Rightarrow> bool" where
  "lock_inv st \<longleftrightarrow> (\<forall>p. settled (lk_pc st p) \<and> (lk_pc st p \<noteq> NotStarted \<longrightarrow> p < 2 ^ 31)) \<and>
     (\<forall>p i. lk_pc st p = Holding i \<longrightarrow> p \<noteq> 0 \<and> lk_entry st = Some i \<and> lk_content st i = lock_line p)"

lemma run_settled:
  "settled (lk_pc st p) \<Longrightarrow> lk_pc st p \<noteq> NotStarted \<Longrightarrow> run_steps (lock_step others) st (replicate n (AcquireStep p)) = st"
  by (induction n) (auto simp: acquire_step_def settled_def split: lock_pc.splits)

lemma run_one:
  "0 < n \<Longrightarrow> run_steps (lock_step others) st (replicate n (AcquireStep p)) =
     run_steps (lock_step others) (acquire_step others p st) (replicate (n - 1) (AcquireStep p))"
  by (cases n) simp_all

lemma holderD:
  "lock_inv st \<Longrightarrow> lk_pc st q = Holding i \<Longrightarrow>
     q \<noteq> 0 \<and> q < 2 ^ 31 \<and> lk_entry st = Some i \<and> lk_content st i = lock_line q"
  by (force simp: lock_inv_def)

lemma lock_line_inj: "lock_line p = lock_line q \<Longrightarrow> p < 2 ^ 31 \<Longrightarrow> q < 2 ^ 31 \<Longrightarrow> p = q"
  by (metis lock_line_parses option.inject of_nat_eq_iff)

lemma holder_unique:
  "lock_inv st \<Longrightarrow> lk_pc st p = Holding i \<Longrightarrow> lk_pc st q = Holding j \<Longrightarrow> p = q"
  by (metis holderD lock_line_inj option.inject)

text \<open>The file a new holder has created.\<close>

definition holds_new :: "nat \<Rightarrow> lock_state \<Rightarrow> lock_state \<Rightarrow> bool" where
  "holds_new p st st' \<longleftrightarrow> (\<exists>i. lk_pc st' = (lk_pc st)(p := Holding i) \<and> lk_entry st' = Some i \<and> lk_content st' i = lock_line p)"

lemma create_and_write:
  assumes "lk_pc st p = Creating n" and "lk_entry st = None" and "2 \<le> k"
  shows "holds_new p st (run_steps (lock_step others) st (replicate k (AcquireStep p)))"
proof -
  obtain m where k: "k = Suc (Suc m)" using assms(3) by (intro that [of "k - 2"]) simp
  let ?st2 = "acquire_step others p (acquire_step others p st)"
  have "holds_new p st ?st2 \<and> settled (lk_pc ?st2 p) \<and> lk_pc ?st2 p \<noteq> NotStarted"
    using assms(1,2) by (simp add: acquire_step_def holds_new_def settled_def)
  moreover from this have "run_steps (lock_step others) ?st2 (replicate m (AcquireStep p)) = ?st2"
    by (intro run_settled) auto
  ultimately show ?thesis unfolding k by simp
qed

definition owner_of :: "(int \<Rightarrow> kill_result) \<Rightarrow> lock_state \<Rightarrow> nat \<Rightarrow> bool result" where
  "owner_of others st i = lock_owner_alive (probe others st) (Inr (lk_content st i))"

lemma acquire_result:
  assumes "lk_pc st p = NotStarted"
  shows "case lk_entry st of
     None \<Rightarrow> holds_new p st (acquire others p st)
   | Some i \<Rightarrow>
       (case owner_of others (set_pc p (Checking 0) st) i of
          Inr False \<Rightarrow> holds_new p st (acquire others p st)
        | Inr True \<Rightarrow> acquire others p st = set_pc p (Refused (error.Config ''another loomd process is running'')) st
        | Inl e \<Rightarrow> acquire others p st = set_pc p (Refused e) st)"
proof -
  let ?st1 = "set_pc p (Creating 0) st"
  have "acquire_step others p st = ?st1" using assms by (simp add: acquire_step_def)
  then have s1: "acquire others p st = run_steps (lock_step others) ?st1 (replicate 7 (AcquireStep p))"
    unfolding acquire_def by (subst run_one) simp_all
  show ?thesis
  proof (cases "lk_entry st")
    case None
    then have "holds_new p ?st1 (acquire others p st)" unfolding s1 by (intro create_and_write [where n = 0]) simp_all
    then show ?thesis using None by (simp add: holds_new_def)
  next
    case (Some i)
    let ?st2 = "set_pc p (Checking 0) st"
    have "acquire_step others p ?st1 = ?st2" using Some by (simp add: acquire_step_def set_pc_def)
    then have s2: "acquire others p st = run_steps (lock_step others) (acquire_step others p ?st2) (replicate 5 (AcquireStep p))"
      unfolding s1 by (subst run_one, simp, subst run_one) simp_all
    have step: "acquire_step others p ?st2 = (case owner_of others ?st2 i of
        Inl e \<Rightarrow> set_pc p (Refused e) st
      | Inr True \<Rightarrow> set_pc p (Refused (error.Config ''another loomd process is running'')) st
      | Inr False \<Rightarrow> set_pc p (RemovingStale 0) st)"
      using Some by (simp add: acquire_step_def owner_of_def split: sum.split bool.split)
    have refused: "run_steps (lock_step others) (set_pc p (Refused e) st) (replicate 5 (AcquireStep p)) = set_pc p (Refused e) st" for e
      by (rule run_settled) (simp_all add: settled_def)
    let ?st4 = "set_pc p (Creating 1) (st\<lparr>lk_entry := None\<rparr>)"
    have "acquire_step others p (set_pc p (RemovingStale 0) st) = ?st4"
      using Some by (simp add: acquire_step_def set_pc_def)
    then have "run_steps (lock_step others) (set_pc p (RemovingStale 0) st) (replicate 5 (AcquireStep p)) =
        run_steps (lock_step others) ?st4 (replicate 4 (AcquireStep p))"
      by (subst run_one) simp_all
    moreover have "holds_new p ?st4 (run_steps (lock_step others) ?st4 (replicate 4 (AcquireStep p)))"
      by (rule create_and_write [where n = 1]) simp_all
    ultimately have stale: "holds_new p st (run_steps (lock_step others) (set_pc p (RemovingStale 0) st) (replicate 5 (AcquireStep p)))"
      by (simp add: holds_new_def)
    show ?thesis using Some s2 step refused stale by (auto split: sum.split bool.split)
  qed
qed

text \<open>A holder is seen alive by the others.\<close>

lemma holder_alive:
  assumes "lock_inv st" and "lk_pc st q = Holding i" and "lk_pc st p = NotStarted"
  shows "lk_entry st = Some i" and "owner_of others (set_pc p (Checking 0) st) i = Inr True"
proof -
  have q: "lk_entry st = Some i" "lk_content st i = lock_line q" "q < 2 ^ 31" "q \<noteq> 0" "q \<noteq> p"
    using holderD [OF assms(1,2)] assms(2,3) by auto
  show "lk_entry st = Some i" by (rule q(1))
  show "owner_of others (set_pc p (Checking 0) st) i = Inr True"
    using q assms(2) by (simp add: owner_of_def lock_owner_alive_def lock_line_parses probe_def running_process_def)
qed

lemma acquire_inv:
  assumes inv: "lock_inv st" and new: "lk_pc st p = NotStarted" and p: "0 < p" "p < 2 ^ 31"
  shows "lock_inv (acquire others p st)"
proof -
  have no_holder: "lk_pc st q \<noteq> Holding i"
    if "lk_entry st = None \<or> (\<exists>i. lk_entry st = Some i \<and> owner_of others (set_pc p (Checking 0) st) i = Inr False)" for q i
    using that holder_alive [OF inv _ new] by fastforce
  have held: "lock_inv st'" if "holds_new p st st'" "\<And>q i. lk_pc st q \<noteq> Holding i" for st'
    using that inv p by (auto simp: holds_new_def lock_inv_def settled_def split: if_split_asm)
  have refused: "lock_inv (set_pc p (Refused e) st)" for e
    using inv p by (auto simp: lock_inv_def settled_def)
  show ?thesis
  proof (cases "lk_entry st")
    case None
    then show ?thesis using acquire_result [OF new, of others] held no_holder by simp
  next
    case (Some i)
    show ?thesis
    proof (cases "owner_of others (set_pc p (Checking 0) st) i")
      case (Inl e)
      then show ?thesis using acquire_result [OF new, of others] Some refused by simp
    next
      case (Inr alive)
      then show ?thesis using acquire_result [OF new, of others] Some refused held no_holder by (cases alive) auto
    qed
  qed
qed

text \<open>The machine whose processes acquire the lock one after another.\<close>

datatype serial_input = Acquire nat | SRelease nat | SKill nat

fun serial_step :: "(int \<Rightarrow> kill_result) \<Rightarrow> lock_state \<Rightarrow> serial_input \<Rightarrow> lock_state" where
  "serial_step others st (Acquire p) =
     (if lk_pc st p = NotStarted \<and> 0 < p \<and> p < 2 ^ 31 then acquire others p st else st)"
| "serial_step others st (SRelease p) = lock_step others st (Release p)"
| "serial_step others st (SKill p) = lock_step others st (Kill p)"

lemma serial_inv: "lock_inv st \<Longrightarrow> lock_inv (serial_step others st i)"
proof (induction others st i rule: serial_step.induct)
  case (1 others st p)
  then show ?case by (simp add: acquire_inv)
next
  case (2 others st p)
  show ?case
  proof (cases "\<exists>i. lk_pc st p = Holding i")
    case True
    then obtain i where i: "lk_pc st p = Holding i" by blast
    have other: "lk_pc st q \<noteq> Holding j" if "q \<noteq> p" for q j using holder_unique [OF 2 _ i, of q j] that by blast
    have "settled (lk_pc st q) \<and> (lk_pc st q \<noteq> NotStarted \<longrightarrow> q < 2 ^ 31)" for q using 2 by (simp add: lock_inv_def)
    moreover have "p < 2 ^ 31" using holderD [OF 2 i] by simp
    ultimately show ?thesis using other by (simp add: i lock_inv_def) (simp add: settled_def)
  next
    case False
    then show ?thesis using 2 by (auto split: lock_pc.split)
  qed
next
  case (3 others st p)
  then show ?case by (auto simp: lock_inv_def settled_def running_process_def)
qed

interpretation serial_lock: invariant_machine "serial_step others" lock_inv
  by unfold_locales (rule serial_inv)

definition no_daemon :: "string option \<Rightarrow> lock_state" where
  "no_daemon left = \<lparr>lk_entry = map_option (\<lambda>_. 0) left, lk_content = (\<lambda>_. case left of Some c \<Rightarrow> c | None \<Rightarrow> []),
     lk_next = 1, lk_pc = (\<lambda>_. NotStarted)\<rparr>"

lemma no_daemon_inv: "lock_inv (no_daemon left)"
  by (simp add: lock_inv_def no_daemon_def settled_def)

end
