(* ===== verification/DaemonDemo.thy ===== *)
theory DaemonDemo
  imports DaemonInv StoreDemo
begin

text \<open>
  A daemon over the demonstration store, with two recordings under the sessions directory; the witnesses of the
  daemon's, the client's and the MCP server's properties evaluate it.
\<close>

definition demo_config :: daemon_config where
  "demo_config = \<lparr>dc_paths = \<lparr>ap_state_dir = ''/d'', ap_runtime_dir = ''/r'', ap_config_file = ''/c'',
     ap_database = ''/d/loom.db'', ap_socket = ''/r/loomd.sock'', ap_lock_file = ''/r/loomd.lock'',
     ap_sessions_dir = ''/s''\<rparr>, dc_pid = 100, dc_version = ''1'', dc_display = demo_display\<rparr>"

definition demo_files :: "(nat \<Rightarrow> lock_attempt) \<Rightarrow> files" where
  "demo_files try = \<lparr>fs_try_lock = (\<lambda>_. try), fs_lines = (\<lambda>_. None), fs_parse_json = (\<lambda>_. None),
     fs_exists = (\<lambda>_. True), fs_remove_dir_all = (\<lambda>_. Inr ())\<rparr>"

definition demo_daemon_env :: daemon_env where
  "demo_daemon_env = \<lparr>de_store = demo_env, de_clock = (\<lambda>_. 95), de_files = demo_files (\<lambda>_. WouldBlock), de_wakes = [],
     de_received = [], de_meanwhile = (\<lambda>e. e), de_states = [], de_inputs = [], de_send = Inr ()\<rparr>"

definition demo_daemon :: daemon where
  "demo_daemon = \<lparr>dm_engine = new_engine default_settings demo_db, dm_shutdown = False, dm_removed = []\<rparr>"

lemma demo_env_ok: "env_ok demo_config demo_daemon_env"
  by (simp add: env_ok_def demo_daemon_env_def)

lemma demo_db_daemon [simp]: "en_db (dm_engine demo_daemon) = demo_db"
  by (simp add: demo_daemon_def new_engine_def en_db_def new_writer_def)

lemma demo_daemon_ok: "daemon_ok demo_config demo_daemon"
proof -
  have "recordings demo_db = [(''s1'', ''/s/s1/a.cast''), (''s2'', ''/s/s2/a.cast'')]"
    by (simp add: recordings_def demo_db_def demo_session_def)
  then show ?thesis using demo_inv
    by (simp add: daemon_ok_def store_ok_def placed_def path_parent_def
      components_def is_absolute_def named_components_def last_opt_def demo_config_def strict_prefix_def)
qed

end
