(* ===== verification/DaemonProperties.thy ===== *)
theory DaemonProperties
  imports DaemonInv DaemonLock DaemonDemo
begin

text \<open>
  The properties of the daemon: what requests do to the recordings' directories, how sessions without a
  recorder are finished, when a shutdown is refused, how a connection is answered, and the lock that
  keeps a second daemon out.
\<close>

lemma demo_session_states:
  "parse_agent_session_state 2 ''recording'' = Inr Recording" "parse_agent_session_state 2 ''finished'' = Inr SessionFinished"
  by (simp_all add: parse_agent_session_state_def)

lemma demo_detail:
  "\<exists>detail. get_agent_session clock ''s1'' demo_db = Inr detail \<and> as_state (sd_session detail) = SessionFinished \<and>
     as_cast_path (sd_session detail) = ''/s/s1/a.cast''"
  by (simp add: get_agent_session_def get_agent_session_record_def find_session_def demo_defs agent_session_from_row_def
      demo_session_states read_executions_def order_by_def actions_of_session_def turns_of_session_def)

lemma demo_active:
  "\<exists>s. active_agent_sessions demo_db = Inr [s] \<and> as_id s = ''s2'' \<and> as_cast_path s = ''/s/s2/a.cast''"
  by (simp add: active_agent_sessions_def read_sessions_def demo_defs agent_session_from_row_def demo_session_states
      order_by_def)

section \<open>Directories the daemon removes\<close>



text \<open>C30: A directory is removed only to serve the deletion of a session that is not recording, and it is
  that session's own directory.\<close>

theorem delete_confined:
  assumes "daemon_ok K dm" and "env_ok K V" and "dispatch K V op dm = (r, dm')" and "dm_removed dm' \<noteq> dm_removed dm"
  shows "\<exists>sid dir st. op = OpSessionDelete sid \<and> dm_removed dm' = dm_removed dm @ [dir] \<and> directory_of K sid dir \<and>
     sstate sid (en_db (dm_engine dm)) = Some st \<and> st \<noteq> ''recording''"
proof (cases "\<exists>sid. op = OpSessionDelete sid")
  case True
  then obtain sid where op: "op = OpSessionDelete sid" by blast
  then have "delete_session K V sid dm = (r, dm')" using assms(3) by simp
  from delete_session_effect [OF assms(1) this] show ?thesis using assms(4) op by auto
next
  case False
  then have "keeps_files K dm (r, dm')" using dispatch_keeps [OF assms(1,2), of op] assms(3) by simp
  then show ?thesis using assms(4) by (simp add: keeps_files_def)
qed

theorem delete_confined_witness:
  "\<exists>r dm' dir. dispatch demo_config demo_daemon_env (OpSessionDelete ''s1'') demo_daemon = (r, dm') \<and>
     dm_removed dm' = [dir] \<and> directory_of demo_config ''s1'' dir"
proof -
  obtain detail where g: "get_agent_session (e_clock demo_env) ''s1'' demo_db = Inr detail"
      "as_state (sd_session detail) = SessionFinished" "as_cast_path (sd_session detail) = ''/s/s1/a.cast''"
    using demo_detail by blast
  obtain r dm' where d: "dispatch demo_config demo_daemon_env (OpSessionDelete ''s1'') demo_daemon = (r, dm')"
    by (cases "dispatch demo_config demo_daemon_env (OpSessionDelete ''s1'') demo_daemon")
  let ?dir = "[RootDir, Normal ''s'', Normal ''s1'']"
  have "session_directory demo_config demo_daemon_env (sd_session detail) = Some ?dir"
    using g(3) by (simp add: session_directory_def path_parent_def components_def is_absolute_def named_components_def
        demo_config_def demo_files_def demo_daemon_env_def)
  moreover have "dm_removed demo_daemon = []" "de_store demo_daemon_env = demo_env" "fs_remove_dir_all (de_files demo_daemon_env) ?dir = Inr ()"
    by (simp_all add: demo_daemon_env_def demo_files_def demo_daemon_def)
  ultimately have "dm_removed dm' = [?dir]"
    using d g(1,2) by (auto simp: delete_session_def session_is_terminal_def on_engine_def split_beta)
  then show ?thesis
    using delete_confined [OF demo_daemon_ok demo_env_ok d] d by (auto simp: demo_daemon_def)
qed

text \<open>The check of a recording's path compares components without resolving them: it accepts a
  directory that the file system resolves to one outside the directory of the sessions, and a request to
  delete that session then removes it.\<close>

fun resolve_dots :: "component list \<Rightarrow> component list \<Rightarrow> component list" where
  "resolve_dots done [] = rev done"
| "resolve_dots done (ParentDir # cs) = resolve_dots (case done of Normal x # ds \<Rightarrow> ds | _ \<Rightarrow> done) cs"
| "resolve_dots done (CurDir # cs) = resolve_dots done cs"
| "resolve_dots done (c # cs) = resolve_dots (c # done) cs"

theorem session_paths_escape:
  "validate_session_paths (dc_paths demo_config) ''id'' ''/s/../home/id/a.cast'' ''/s/../home/id/a.html'' = Inr () \<and>
   (\<exists>dir. path_parent ''/s/../home/id/a.cast'' = Some dir \<and>
      resolve_dots [] dir = [RootDir, Normal ''home'', Normal ''id''] \<and>
      \<not> prefix (components (ap_sessions_dir (dc_paths demo_config))) (resolve_dots [] dir))"
  by (simp add: validate_session_paths_def path_parent_def components_def is_absolute_def named_components_def
      last_opt_def demo_config_def)

section \<open>Sessions whose recorder is gone\<close>

text \<open>C31: After a successful reconciliation exactly the sessions whose lock could be taken, of those that were
  recording, are interrupted; every other session keeps its state, and the result is their number. It
  fails only when some recorder's lock cannot be examined.\<close>

theorem reconcile_interrupts_gone:
  assumes "db_inv db" and "reconcile_agent_sessions F clock db = (r, db')" and "active_agent_sessions db = Inr sessions"
  shows "case r of
     Inl e \<Rightarrow> \<exists>s \<in> set sessions. recorder_gone F s = Inl e
   | Inr n \<Rightarrow> n = card (gone_ids F sessions) \<and>
       (\<forall>sid. sstate sid db' = (if sid \<in> gone_ids F sessions then Some ''interrupted'' else sstate sid db)) \<and>
       (\<forall>sid. sstate sid db = Some ''recording'' \<longleftrightarrow> sid \<in> as_id ` set sessions)"
proof -
  obtain ss where ss: "active_agent_sessions db = Inr ss" "distinct (map as_id ss)"
      "as_id ` set ss = {sid. sstate sid db = Some ''recording''}"
    using active_sessions [OF assms(1)] .
  have s: "sessions = ss" using ss(1) assms(3) by simp
  have rec: "reconcile_sessions F clock sessions 0 db = (r, db')"
    using assms(2,3) by (simp add: reconcile_agent_sessions_def)
  have "\<forall>u \<in> set sessions. sstate (as_id u) db = Some ''recording''" using ss(3) s by blast
  from reconcile_sessions_effect [OF assms(1) _ this rec] show ?thesis
    using ss s by (auto split: sum.splits)
qed

theorem reconcile_interrupts_gone_witness:
  "\<exists>n db'. reconcile_agent_sessions (demo_files (\<lambda>_. Acquired)) (\<lambda>_. 95) demo_db = (Inr n, db') \<and>
     sstate ''s2'' db' = Some ''interrupted'' \<and> sstate ''s1'' db' = Some ''finished''"
proof -
  let ?F = "demo_files (\<lambda>_. Acquired)"
  obtain s where ss: "active_agent_sessions demo_db = Inr [s]" "as_id s = ''s2''" "as_cast_path s = ''/s/s2/a.cast''"
    using demo_active by blast
  have st: "sstate ''s1'' demo_db = Some ''finished''" "sstate ''s2'' demo_db = Some ''recording''"
    by (simp_all add: sstate_def find_session_def demo_db_def demo_session_def)
  have gone: "recorder_gone ?F s = Inr True"
    using ss(3) by (simp add: recorder_gone_def demo_files_def claim_released_session_lock_def RECORDER_LOCK_ATTEMPTS_def
        upt_rec path_parent_def components_def is_absolute_def named_components_def)
  obtain r db' where r: "reconcile_agent_sessions ?F (\<lambda>_. 95) demo_db = (r, db')"
    by (cases "reconcile_agent_sessions ?F (\<lambda>_. 95) demo_db")
  note res = reconcile_interrupts_gone [OF demo_inv r ss(1)]
  obtain n where n: "r = Inr n" using res gone by (cases r) auto
  show ?thesis using res n r st gone ss(2) by auto
qed

section \<open>Shutting down on request\<close>

text \<open>A request to shut down without force is granted exactly if, after finishing the sessions whose
  recorder is gone, none is recording: that is, if every recording session's lock can be taken. When it
  is refused the daemon goes on.\<close>

theorem shutdown_guarded:
  assumes "db_inv (en_db (dm_engine dm))" and "active_agent_sessions (en_db (dm_engine dm)) = Inr sessions"
    and "dispatch K V (OpShutdown False) dm = (r, dm')" and "\<not> dm_shutdown dm"
  shows "(dm_shutdown dm' \<longleftrightarrow> (\<forall>s \<in> set sessions. recorder_gone (de_files V) s = Inr True)) \<and>
     (dm_shutdown dm' \<longleftrightarrow> r = Inr PEmpty)"
proof -
  let ?db = "en_db (dm_engine dm)" and ?F = "de_files V"
  obtain rr db1 where rec: "reconcile_agent_sessions ?F (de_clock V) ?db = (rr, db1)"
    by (cases "reconcile_agent_sessions ?F (de_clock V) ?db")
  obtain ss where ss: "active_agent_sessions ?db = Inr ss" "distinct (map as_id ss)"
      "as_id ` set ss = {sid. sstate sid ?db = Some ''recording''}"
    using active_sessions [OF assms(1)] .
  have s: "sessions = ss" using ss(1) assms(2) by simp
  have run: "reconcile_sessions ?F (de_clock V) sessions 0 ?db = (rr, db1)"
    using rec assms(2) by (simp add: reconcile_agent_sessions_def)
  have "\<forall>u \<in> set sessions. sstate (as_id u) ?db = Some ''recording''" using ss(3) s by blast
  note eff = reconcile_sessions_effect [OF assms(1) _ this run]
  show ?thesis
  proof (cases rr)
    case (Inl e)
    then have "\<exists>u \<in> set sessions. recorder_gone ?F u = Inl e" using eff ss(2) s by simp
    moreover have "dm_shutdown dm' = dm_shutdown dm \<and> r = Inl e"
      using assms(3) rec Inl by (auto simp: reconciled_def on_store_def)
    ultimately show ?thesis using assms(4) by force
  next
    case (Inr n)
    have inv1: "db_inv db1" and st: "\<And>sid. sstate sid db1 = (if sid \<in> gone_ids ?F sessions then Some ''interrupted'' else sstate sid ?db)"
      using eff ss(2) s Inr by simp_all
    obtain left where left: "active_agent_sessions db1 = Inr left"
        "as_id ` set left = {sid. sstate sid db1 = Some ''recording''}"
      using active_sessions [OF inv1] .
    have rec_iff: "sstate sid ?db = Some ''recording'' \<longleftrightarrow> sid \<in> as_id ` set sessions" for sid
      using ss(3) s by blast
    have "left = [] \<longleftrightarrow> (\<forall>sid. sstate sid db1 \<noteq> Some ''recording'')" using left(2) by force
    also have "\<dots> \<longleftrightarrow> (\<forall>u \<in> set sessions. as_id u \<in> gone_ids ?F sessions)"
      unfolding st by (auto simp: rec_iff)
    also have "\<dots> \<longleftrightarrow> (\<forall>u \<in> set sessions. recorder_gone ?F u = Inr True)"
      using ss(2) s by (auto simp: gone_ids_def distinct_map inj_on_def) metis
    finally show ?thesis
      using assms(3,4) rec Inr left(1)
      by (auto simp: reconciled_def on_store_def shutdown_request_def set_db_def en_db_def split: if_split_asm)
  qed
qed

theorem shutdown_guarded_witness:
  "\<not> dm_shutdown (snd (dispatch demo_config demo_daemon_env (OpShutdown False) demo_daemon))"
proof -
  obtain s where s: "active_agent_sessions demo_db = Inr [s]" "as_cast_path s = ''/s/s2/a.cast''" using demo_active by blast
  have "recorder_gone (de_files demo_daemon_env) s = Inr False"
    using s(2) by (simp add: recorder_gone_def demo_daemon_env_def demo_files_def claim_released_session_lock_def
        RECORDER_LOCK_ATTEMPTS_def upt_rec path_parent_def components_def is_absolute_def named_components_def)
  moreover obtain r dm' where d: "dispatch demo_config demo_daemon_env (OpShutdown False) demo_daemon = (r, dm')"
    by (cases "dispatch demo_config demo_daemon_env (OpShutdown False) demo_daemon")
  moreover have "\<not> dm_shutdown demo_daemon" by (simp add: demo_daemon_def)
  ultimately show ?thesis using shutdown_guarded [OF _ _ d, of "[s]"] s(1) demo_inv by simp
qed

section \<open>One answer per frame\<close>

fun frame_id :: "frame \<Rightarrow> string" where
  "frame_id (Message (Request version rid op)) = rid"
| "frame_id _ = ''invalid''"

text \<open>On a connection whose frames arrive intact, that does not subscribe and whose answers can be sent,
  each frame is answered by exactly one response, in the order of the frames, with the identifier of
  its request; frames that are no requests, or of another protocol version, are answered with an error
  and change nothing.\<close>

theorem connection_answers:
  assumes "\<forall>f \<in> set frames. subscription_of (snd f) = None \<and> de_send (fst f) = Inr ()"
    and "handle_connection K (map (\<lambda>(V, f). (V, Inr f)) frames) dm = (ms, dm', r)"
  shows "r = Some (Inr ()) \<and> list_all2 (\<lambda>f m. \<exists>body. m = Response PROTOCOL_VERSION (frame_id (snd f)) body \<and>
       ((\<forall>rid op. snd f \<noteq> Message (Request PROTOCOL_VERSION rid op)) \<longrightarrow> (\<exists>e. body = BodyError e))) frames ms \<and>
     ((\<forall>f \<in> set frames. \<forall>rid op. snd f \<noteq> Message (Request PROTOCOL_VERSION rid op)) \<longrightarrow> dm' = dm)"
  using assms
proof (induction frames arbitrary: dm ms)
  case Nil
  then show ?case by simp
next
  case (Cons f frames)
  obtain V fr where f: "f = (V, fr)" by (cases f)
  obtain m dm1 where one: "serve_frame K V fr dm = (m, dm1)" by (cases "serve_frame K V fr dm")
  obtain ms2 dm2 r2 where rec: "handle_connection K (map (\<lambda>(V, f). (V, Inr f)) frames) dm1 = (ms2, dm2, r2)"
    by (cases "handle_connection K (map (\<lambda>(V, f). (V, Inr f)) frames) dm1")
  have all: "ms = m # ms2" "dm' = dm2" "r = r2" using Cons.prems f one rec by auto
  have "(\<exists>body. m = Response PROTOCOL_VERSION (frame_id fr) body \<and>
       ((\<forall>rid op. fr \<noteq> Message (Request PROTOCOL_VERSION rid op)) \<longrightarrow> (\<exists>e. body = BodyError e))) \<and>
     ((\<forall>rid op. fr \<noteq> Message (Request PROTOCOL_VERSION rid op)) \<longrightarrow> dm1 = dm)"
    using one by (cases "(K, V, fr, dm)" rule: serve_frame.cases)
      (auto simp: wire_error_def result_message_def wire_ok_def split: if_split_asm prod.split_asm sum.split)
  then show ?case using Cons.IH [of dm1 ms2] Cons.prems(1) rec unfolding all f by auto
qed

theorem connection_answers_witness:
  "\<exists>b1 b2. fst (handle_connection demo_config [(demo_daemon_env, Inr (NotJson ''x'')),
        (demo_daemon_env, Inr (Message (Request 1 ''q'' OpHealth)))] demo_daemon) =
     [Response PROTOCOL_VERSION ''invalid'' b1, Response PROTOCOL_VERSION ''q'' b2]"
proof -
  let ?frames = "[(demo_daemon_env, NotJson ''x''), (demo_daemon_env, Message (Request 1 ''q'' OpHealth))]"
  obtain ms dm' r where h: "handle_connection demo_config (map (\<lambda>(V, f). (V, Inr f)) ?frames) demo_daemon = (ms, dm', r)"
    by (cases "handle_connection demo_config (map (\<lambda>(V, f). (V, Inr f)) ?frames) demo_daemon")
  show ?thesis using connection_answers [OF _ h] h
    by (auto simp: demo_daemon_env_def list_all2_Cons1)
qed

section \<open>The daemon's lock\<close>

text \<open>C28: When daemons acquire the lock one after another, and are killed or release it in between, at no
  time do two of them hold it, whatever a previous daemon has left in the file.\<close>

theorem lock_exclusive:
  assumes "lk_pc (run_steps (serial_step others) (no_daemon left) inputs) p = Holding i"
    and "lk_pc (run_steps (serial_step others) (no_daemon left) inputs) q = Holding j"
  shows "p = q"
  using holder_unique [OF serial_lock.run_inv [OF no_daemon_inv] assms] .

theorem lock_exclusive_witness:
  "\<exists>i. lk_pc (run_steps (serial_step (\<lambda>_. KillESRCH)) (no_daemon None) [Acquire 7]) 7 = Holding i \<and>
   (\<forall>j. lk_pc (run_steps (serial_step (\<lambda>_. KillESRCH)) (no_daemon None) [Acquire 7]) 8 \<noteq> Holding j)"
proof -
  have "holds_new 7 (no_daemon None) (acquire (\<lambda>_. KillESRCH) 7 (no_daemon None))"
    using acquire_result [of "no_daemon None" 7 "\<lambda>_. KillESRCH"] by (simp add: no_daemon_def)
  then obtain i where h: "lk_pc (run_steps (serial_step (\<lambda>_. KillESRCH)) (no_daemon None) [Acquire 7]) 7 = Holding i"
    by (auto simp: holds_new_def no_daemon_def)
  then show ?thesis using lock_exclusive [OF h, of 8] by auto
qed

text \<open>A lock that was left behind is taken over: when no daemon runs and the file holds no live process,
  acquiring it succeeds.\<close>

theorem lock_recovers:
  assumes "lock_inv st" and "lk_pc st p = NotStarted" and "\<forall>q. \<not> running_process st q" and "\<forall>pid. others pid = KillESRCH"
    and "p < 2 ^ 31" and "\<forall>i. lk_entry st = Some i \<longrightarrow> parse_i32 (trim_chars (chars_of (lk_content st i))) \<noteq> Some (int p)"
  shows "\<exists>i. lk_pc (acquire others p st) p = Holding i \<and> lk_entry (acquire others p st) = Some i \<and>
     lk_content (acquire others p st) i = lock_line p"
proof -
  have "owner_of others (set_pc p (Checking 0) st) i = Inr False" if "lk_entry st = Some i" for i
    using assms(3-6) that
    by (auto simp: owner_of_def lock_owner_alive_def probe_def running_process_def split: option.split)
  then have "holds_new p st (acquire others p st)"
    using acquire_result [OF assms(2), of others] by (cases "lk_entry st") auto
  then show ?thesis by (auto simp: holds_new_def)
qed

theorem lock_recovers_witness:
  "\<exists>i. lk_pc (acquire (\<lambda>_. KillESRCH) 8 (no_daemon (Some (lock_line 7)))) 8 = Holding i"
proof -
  have "lk_content (no_daemon (Some (lock_line 7))) 0 = lock_line 7" "lk_entry (no_daemon (Some (lock_line 7))) = Some 0"
    "\<forall>q. \<not> running_process (no_daemon (Some (lock_line 7))) q" "lk_pc (no_daemon (Some (lock_line 7))) 8 = NotStarted"
    by (simp_all add: no_daemon_def running_process_def)
  then show ?thesis
    using lock_recovers [OF no_daemon_inv, of "Some (lock_line 7)" 8 "\<lambda>_. KillESRCH"] lock_line_parses [of 7] by auto
qed

text \<open>Two daemons that start at the same time can both hold the lock: the second reads the file between
  its creation and the writing of the process id, takes it for stale, and removes it.\<close>

theorem lock_two_holders:
  "let st = run_steps (lock_step (\<lambda>_. KillESRCH)) (no_daemon None)
       (map AcquireStep [7, 7, 8, 8, 8, 8, 8, 8, 7])
   in lk_pc st 7 = Holding 1 \<and> lk_pc st 8 = Holding 2"
  by (simp add: acquire_step_def no_daemon_def set_pc_def lock_owner_alive_def trim_chars_def)

section \<open>The daemon's life\<close>

definition full_life :: "effect list" where
  "full_life = [LockHeld, SocketBound, StoreOpened, ExecutionsReconciled, SessionsReconciled, ServingClients,
     EngineDrained, StoreStopped, SocketRemoved, LockReleased]"

text \<open>How far it gets: a prefix of the steps, all of them if it ends cleanly.\<close>

definition far :: "effect list \<Rightarrow> effect list \<times> unit result option \<Rightarrow> bool" where
  "far steps r \<longleftrightarrow> prefix (fst r) steps \<and> (snd r = Some (Inr ()) \<longrightarrow> fst r = steps)"

lemma far_append: "far steps (effs, r) \<Longrightarrow> far (pre @ steps) (pre @ effs, r)"
  by (simp add: far_def)

lemma serve_far: "far [ServingClients, EngineDrained, StoreStopped, SocketRemoved] (serve U own events)"
proof (cases "accept_loop own events")
  case (Pair peers r)
  show ?thesis
  proof (cases r)
    case None
    then show ?thesis using Pair by (auto simp: far_def serve_def)
  next
    case (Some l)
    show ?thesis
    proof (cases l)
      case LoopBreak
      then show ?thesis using Some Pair by (auto simp: far_def serve_def shut_down_def)
    next
      case (LoopFailed e)
      then show ?thesis using Some Pair by (auto simp: far_def serve_def)
    qed
  qed
qed

lemma with_store_far:
  "far ([ExecutionsReconciled, SessionsReconciled] @ [ServingClients, EngineDrained, StoreStopped, SocketRemoved])
     (with_store U F clock clock' own events db)"
proof -
  obtain r1 db1 where r1: "reconcile_incomplete clock db = (r1, db1)" by (cases "reconcile_incomplete clock db")
  obtain r2 db2 where r2: "reconcile_agent_sessions F clock' db1 = (r2, db2)" by (cases "reconcile_agent_sessions F clock' db1")
  obtain effs r where s: "serve U own events = (effs, r)" by (cases "serve U own events")
  consider e where "r1 = Inl e" | n e where "r1 = Inr n" "r2 = Inl e" | n m where "r1 = Inr n" "r2 = Inr m"
    by (cases r1; cases r2) auto
  then show ?thesis
  proof cases
    case 1
    then show ?thesis using r1 by (auto simp: far_def with_store_def)
  next
    case 2
    then show ?thesis using r1 r2 by (auto simp: far_def with_store_def)
  next
    case 3
    then have "with_store U F clock clock' own events db = ([ExecutionsReconciled, SessionsReconciled] @ effs, r)"
      using r1 r2 s by (simp add: with_store_def)
    then show ?thesis by (simp only: far_append [OF serve_far [of U own events, unfolded s]])
  qed
qed

lemma locked_far:
  "far ([SocketBound, StoreOpened] @ [ExecutionsReconciled, SessionsReconciled] @
       [ServingClients, EngineDrained, StoreStopped, SocketRemoved])
     (locked_run U F clock clock' own events)"
proof (cases "bind_res (st_socket U) (\<lambda>_. st_bind U)")
  case (Inl e)
  then show ?thesis
    by (cases "st_socket U"; cases "st_bind U") (auto simp: far_def locked_run_def)
next
  case (Inr u)
  then have ok: "st_socket U = Inr ()" "st_bind U = Inr ()" by (auto simp: bind_res_Inr_iff)
  show ?thesis
  proof (cases "bind_res (st_permissions U) (\<lambda>_. st_open U)")
    case (Inl e)
    then show ?thesis using ok by (auto simp: far_def locked_run_def)
  next
    case (Inr db)
    obtain effs r where s: "with_store U F clock clock' own events db = (effs, r)"
      by (cases "with_store U F clock clock' own events db")
    then have "locked_run U F clock clock' own events = ([SocketBound, StoreOpened] @ effs, r)"
      using ok Inr by (simp add: locked_run_def)
    then show ?thesis by (simp only: far_append [OF with_store_far [of U F clock clock' own events db, unfolded s]])
  qed
qed

lemma verified_peer: "verify_peer own c = Inr u \<Longrightarrow> c = Inr own"
  by (auto simp: verify_peer_def split: sum.split_asm if_split_asm)

lemma accepted_peers: "\<forall>peer \<in> set (fst (accept_loop own events)). peer = Inr own"
proof (induction own events rule: accept_loop.induct)
  case (2 own c evs)
  then show ?case
    by (cases "verify_peer own c"; cases "accept_loop own evs") (auto dest: verified_peer)
next
  case (5 own r evs)
  then show ?case by (cases r) simp_all
qed simp_all

text \<open>Whatever fails, the daemon does its steps in one order: nothing before it holds the lock, the store
  only with the socket bound, clients only after both reconciliations; and whenever it ends, it has
  released the lock if it held it. A clean end has gone through all of them. Clients it serves run under
  its own user.\<close>

theorem daemon_life:
  assumes "run_daemon U F clock clock' own events = (effs, r)"
  shows "subseq effs full_life \<and> (r = Some (Inr ()) \<longrightarrow> effs = full_life) \<and>
     (r \<noteq> None \<longrightarrow> (LockHeld \<in> set effs \<longleftrightarrow> LockReleased \<in> set effs)) \<and>
     (\<forall>peer \<in> set (fst (accept_loop own events)). peer = Inr own)"
proof -
  note peers = accepted_peers [of own events]
  let ?body = "[SocketBound, StoreOpened] @ [ExecutionsReconciled, SessionsReconciled] @
       [ServingClients, EngineDrained, StoreStopped, SocketRemoved]"
  show ?thesis
  proof (cases "bind_res (st_ensure U) (\<lambda>_. st_lock U)")
    case (Inl e)
    then show ?thesis using assms peers by (auto simp: run_daemon_def)
  next
    case (Inr u)
    obtain es r' where l: "locked_run U F clock clock' own events = (es, r')" by (cases "locked_run U F clock clock' own events")
    have f: "far ?body (es, r')" using locked_far [of U F clock clock' own events] l by simp
    have e: "effs = LockHeld # es @ (if r = None then [] else [LockReleased])" "r' = r"
      using assms Inr l by (auto simp: run_daemon_def)
    have full: "full_life = LockHeld # ?body @ [LockReleased]" by (simp add: full_life_def)
    have sub: "subseq es ?body" using f by (simp add: far_def prefix_imp_subseq del: append.simps)
    have "subseq (es @ (if r = None then [] else [LockReleased])) (?body @ [LockReleased])"
      by (rule list_emb_append_mono [OF sub]) simp
    then have "subseq effs full_life" unfolding e full by (simp del: append.simps)
    moreover have "r = Some (Inr ()) \<longrightarrow> effs = full_life" using f e unfolding full by (auto simp: far_def)
    moreover have "r \<noteq> None \<longrightarrow> (LockHeld \<in> set effs \<longleftrightarrow> LockReleased \<in> set effs)" using e by simp
    ultimately show ?thesis using peers by blast
  qed
qed

theorem daemon_life_witness:
  "fst (run_daemon \<lparr>st_ensure = Inr (), st_lock = Inr (), st_socket = Inr (), st_bind = Inr (), st_permissions = Inr (),
      st_open = Inl (Io ''disk''), st_drain = Inr (), st_store_shutdown = Inr ()\<rparr>
      (demo_files (\<lambda>_. Acquired)) (\<lambda>_. 0) (\<lambda>_. 0) 7 []) = [LockHeld, SocketBound, LockReleased] \<and>
   subseq [LockHeld, SocketBound, LockReleased] full_life"
proof -
  let ?U = "\<lparr>st_ensure = Inr (), st_lock = Inr (), st_socket = Inr (), st_bind = Inr (), st_permissions = Inr (),
      st_open = Inl (Io ''disk''), st_drain = Inr (), st_store_shutdown = Inr ()\<rparr>"
  have r: "run_daemon ?U (demo_files (\<lambda>_. Acquired)) (\<lambda>_. 0) (\<lambda>_. 0) 7 [] =
      ([LockHeld, SocketBound, LockReleased], Some (Inl (Io ''disk'')))"
    by (simp add: run_daemon_def locked_run_def)
  show ?thesis using daemon_life [OF r] r by simp
qed

text \<open>An error of \<open>accept\<close> ends the daemon without draining the engine or removing the socket, although
  executions may be running.\<close>

theorem accept_error_skips_drain:
  "fst (accept_loop own (AcceptFailed m # events)) = [] \<and>
   (case serve U own (AcceptFailed m # events) of (effs, r) \<Rightarrow> effs = [ServingClients] \<and> r = Some (Inl (Io m)))"
  by (simp add: serve_def)

end
