(* ===== verification/Client.thy ===== *)
theory Client
  imports Wire
begin

text \<open>
  The client of the daemon (\<open>src/client.rs\<close>): one connection per call, the check of the response, what each
  method expects back, the capability check, starting the daemon when it is not there, and the events of
  a subscription. The transport to the daemon (socket, codec, JSON) is an argument.
\<close>

section \<open>One call\<close>

text \<open>What comes back over a fresh connection. A frame is its message, or the error of decoding it.\<close>

datatype reply =
    NotConnected
  | SendFailed string
  | ReplyClosed
  | ReplyBroken string
  | ReplyFrame "string + wire_message"

type_synonym 's transport = "wire_message \<Rightarrow> 's \<Rightarrow> reply \<times> 's"

record client =
  cl_socket :: string
  cl_show_result :: "protocol_result \<Rightarrow> string"

fun decode_response :: "string + wire_message \<Rightarrow> string \<Rightarrow> protocol_result result" where
  "decode_response (Inl m) expected = Inl (Json m)"
| "decode_response (Inr (Response version rid body)) expected =
     (if version \<noteq> PROTOCOL_VERSION then Inl (ProtocolVersionMismatch PROTOCOL_VERSION version)
      else if rid \<noteq> expected then Inl (Protocol ''response request_id did not match'')
      else case body of BodyOk result \<Rightarrow> Inr result | BodyError e \<Rightarrow> Inl (into_error e))"
| "decode_response (Inr _) expected = Inl (Protocol ''expected daemon response'')"

fun read_reply :: "client \<Rightarrow> string \<Rightarrow> string \<Rightarrow> reply \<Rightarrow> protocol_result result" where
  "read_reply C closed rid NotConnected = Inl (DaemonUnavailable (cl_socket C))"
| "read_reply C closed rid (SendFailed m) = Inl (Io m)"
| "read_reply C closed rid ReplyClosed = Inl (Protocol closed)"
| "read_reply C closed rid (ReplyBroken m) = Inl (Io m)"
| "read_reply C closed rid (ReplyFrame f) = decode_response f rid"

definition client_call :: "client \<Rightarrow> 's transport \<Rightarrow> string \<Rightarrow> operation \<Rightarrow> 's \<Rightarrow> protocol_result result \<times> 's" where
  "client_call C T rid op s =
     (case T (wire_request rid op) s of
        (r, s') \<Rightarrow> (read_reply C ''daemon closed the connection'' rid r, s'))"

section \<open>What the methods expect\<close>

definition unexpected :: "client \<Rightarrow> string \<Rightarrow> protocol_result \<Rightarrow> 'a result" where
  "unexpected C expected actual =
     Inl (Protocol (''expected '' @ expected @ '' response, received '' @ cl_show_result C actual))"

definition expect_health :: "client \<Rightarrow> protocol_result \<Rightarrow> health result" where
  "expect_health C r = (case r of PHealth v \<Rightarrow> Inr v | _ \<Rightarrow> unexpected C ''health'' r)"

definition expect_workspace :: "client \<Rightarrow> protocol_result \<Rightarrow> workspace result" where
  "expect_workspace C r = (case r of PWorkspace v \<Rightarrow> Inr v | _ \<Rightarrow> unexpected C ''workspace'' r)"

definition expect_execution :: "client \<Rightarrow> protocol_result \<Rightarrow> execution result" where
  "expect_execution C r = (case r of PExecution v \<Rightarrow> Inr v | _ \<Rightarrow> unexpected C ''execution'' r)"

definition expect_agent_session :: "client \<Rightarrow> protocol_result \<Rightarrow> agent_session result" where
  "expect_agent_session C r = (case r of PAgentSession v \<Rightarrow> Inr v | _ \<Rightarrow> unexpected C ''agent session'' r)"

definition expect_empty :: "client \<Rightarrow> protocol_result \<Rightarrow> unit result" where
  "expect_empty C r = (case r of PEmpty \<Rightarrow> Inr () | _ \<Rightarrow> unexpected C ''empty response'' r)"

definition expect_workspaces :: "client \<Rightarrow> protocol_result \<Rightarrow> workspace list result" where
  "expect_workspaces C r = (case r of PWorkspaces v \<Rightarrow> Inr v | _ \<Rightarrow> unexpected C ''workspaces'' r)"

definition expect_executions :: "client \<Rightarrow> protocol_result \<Rightarrow> execution list result" where
  "expect_executions C r = (case r of PExecutions v \<Rightarrow> Inr v | _ \<Rightarrow> unexpected C ''executions'' r)"

definition expect_stats :: "client \<Rightarrow> protocol_result \<Rightarrow> execution_stats result" where
  "expect_stats C r = (case r of PStats v \<Rightarrow> Inr v | _ \<Rightarrow> unexpected C ''statistics'' r)"

definition expect_detail :: "client \<Rightarrow> protocol_result \<Rightarrow> agent_session_detail result" where
  "expect_detail C r = (case r of PAgentSessionDetail v \<Rightarrow> Inr v | _ \<Rightarrow> unexpected C ''agent session detail'' r)"

definition expect_agent_sessions :: "client \<Rightarrow> protocol_result \<Rightarrow> agent_session list result" where
  "expect_agent_sessions C r = (case r of PAgentSessions v \<Rightarrow> Inr v | _ \<Rightarrow> unexpected C ''agent sessions'' r)"

definition expect_turn :: "client \<Rightarrow> protocol_result \<Rightarrow> agent_turn result" where
  "expect_turn C r = (case r of PAgentTurn v \<Rightarrow> Inr v | _ \<Rightarrow> unexpected C ''agent turn'' r)"

definition expect_output :: "client \<Rightarrow> protocol_result \<Rightarrow> read_output_response result" where
  "expect_output C r = (case r of POutput v \<Rightarrow> Inr v | _ \<Rightarrow> unexpected C ''output'' r)"

definition expect_wait :: "client \<Rightarrow> protocol_result \<Rightarrow> wait_response result" where
  "expect_wait C r = (case r of PWait v \<Rightarrow> Inr v | _ \<Rightarrow> unexpected C ''wait'' r)"

definition expect_subscription :: "client \<Rightarrow> protocol_result \<Rightarrow> subscription_response result" where
  "expect_subscription C r = (case r of PSubscription v \<Rightarrow> Inr v | _ \<Rightarrow> unexpected C ''subscription'' r)"

definition call_expect ::
  "(client \<Rightarrow> protocol_result \<Rightarrow> 'a result) \<Rightarrow> client \<Rightarrow> 's transport \<Rightarrow> string \<Rightarrow> operation \<Rightarrow> 's \<Rightarrow> 'a result \<times> 's" where
  "call_expect expect C T rid op s = (case client_call C T rid op s of (r, s') \<Rightarrow> (bind_res r (expect C), s'))"

definition client_health :: "client \<Rightarrow> 's transport \<Rightarrow> string \<Rightarrow> 's \<Rightarrow> health result \<times> 's" where
  "client_health C T rid s = call_expect expect_health C T rid OpHealth s"

definition require_capability :: "client \<Rightarrow> 's transport \<Rightarrow> string \<Rightarrow> string \<Rightarrow> 's \<Rightarrow> unit result \<times> 's" where
  "require_capability C T rid capability s =
     (case client_health C T rid s of
        (r, s') \<Rightarrow>
          (bind_res r (\<lambda>h. if capability \<in> set (he_capabilities h) then Inr ()
             else Inl (DaemonUpgradeRequired (he_daemon_pid h) capability)), s'))"

text \<open>The methods that first ask for a capability; the two calls draw two identifiers.\<close>

definition call_capable ::
  "string \<Rightarrow> (client \<Rightarrow> protocol_result \<Rightarrow> 'a result) \<Rightarrow> client \<Rightarrow> 's transport \<Rightarrow> string \<Rightarrow> string \<Rightarrow> operation \<Rightarrow> 's \<Rightarrow>
   'a result \<times> 's" where
  "call_capable capability expect C T rid rid' op s =
     (case require_capability C T rid capability s of
        (Inl e, s1) \<Rightarrow> (Inl e, s1)
      | (Inr _, s1) \<Rightarrow> call_expect expect C T rid' op s1)"

section \<open>The methods\<close>

text \<open>The method for an operation, as the value it returns; \<open>subscribe\<close> comes below.\<close>

datatype method_result =
    MHealth "health result"
  | MWorkspace "workspace result"
  | MWorkspaces "workspace list result"
  | MUnit "unit result"
  | MExecution "execution result"
  | MExecutions "execution list result"
  | MStats "execution_stats result"
  | MSession "agent_session result"
  | MDetail "agent_session_detail result"
  | MSessions "agent_session list result"
  | MTurn "agent_turn result"
  | MOutput "read_output_response result"
  | MWait "wait_response result"
  | MSubscription "subscription_response result"

fun client_method :: "client \<Rightarrow> 's transport \<Rightarrow> string \<Rightarrow> string \<Rightarrow> operation \<Rightarrow> 's \<Rightarrow> method_result \<times> 's" where
  "client_method C T rid rid' OpHealth s = map_prod MHealth id (client_health C T rid s)"
| "client_method C T rid rid' (OpWorkspaceAdd name root) s =
     map_prod MWorkspace id (call_expect expect_workspace C T rid (OpWorkspaceAdd name root) s)"
| "client_method C T rid rid' (OpWorkspaceRemove w) s =
     map_prod MUnit id (call_expect expect_empty C T rid (OpWorkspaceRemove w) s)"
| "client_method C T rid rid' OpWorkspaceList s =
     map_prod MWorkspaces id (call_expect expect_workspaces C T rid OpWorkspaceList s)"
| "client_method C T rid rid' (OpExecute rq) s =
     map_prod MExecution id (call_expect expect_execution C T rid (OpExecute rq) s)"
| "client_method C T rid rid' (OpGet xid) s =
     map_prod MExecution id (call_expect expect_execution C T rid (OpGet xid) s)"
| "client_method C T rid rid' (OpList w limit) s =
     map_prod MExecutions id (call_expect expect_executions C T rid (OpList w limit) s)"
| "client_method C T rid rid' (OpStats w since) s =
     map_prod MStats id (call_capable CAPABILITY_EXECUTION_STATS expect_stats C T rid rid' (OpStats w since) s)"
| "client_method C T rid rid' (OpSessionCreate rq) s =
     map_prod MSession id (call_capable CAPABILITY_AGENT_SESSIONS expect_agent_session C T rid rid' (OpSessionCreate rq) s)"
| "client_method C T rid rid' (OpSessionFinish sid fin) s =
     map_prod MSession id (call_capable CAPABILITY_AGENT_SESSIONS expect_agent_session C T rid rid' (OpSessionFinish sid fin) s)"
| "client_method C T rid rid' (OpSessionGet sid) s =
     map_prod MDetail id (call_capable CAPABILITY_AGENT_SESSIONS expect_detail C T rid rid' (OpSessionGet sid) s)"
| "client_method C T rid rid' (OpSessionList w limit) s =
     map_prod MSessions id (call_capable CAPABILITY_AGENT_SESSIONS expect_agent_sessions C T rid rid' (OpSessionList w limit) s)"
| "client_method C T rid rid' (OpSessionDelete sid) s =
     map_prod MUnit id (call_capable CAPABILITY_AGENT_SESSIONS expect_empty C T rid rid' (OpSessionDelete sid) s)"
| "client_method C T rid rid' (OpAgentEvent rq) s =
     map_prod MTurn id (call_capable CAPABILITY_AGENT_TURNS expect_turn C T rid rid' (OpAgentEvent rq) s)"
| "client_method C T rid rid' (OpReadOutput xid after_seq max_bytes) s =
     map_prod MOutput id (call_expect expect_output C T rid (OpReadOutput xid after_seq max_bytes) s)"
| "client_method C T rid rid' (OpWait xid after_seq timeout_ms max_bytes) s =
     map_prod MWait id (call_expect expect_wait C T rid (OpWait xid after_seq timeout_ms max_bytes) s)"
| "client_method C T rid rid' (OpSubscribe xid after_seq) s =
     (case T (wire_request rid (OpSubscribe xid after_seq)) s of
        (r, s') \<Rightarrow> (MSubscription (bind_res (read_reply C ''daemon closed the subscription'' rid r) (expect_subscription C)), s'))"
| "client_method C T rid rid' (OpCancel xid) s =
     map_prod MExecution id (call_expect expect_execution C T rid (OpCancel xid) s)"
| "client_method C T rid rid' (OpShutdown force) s =
     map_prod MUnit id (call_expect expect_empty C T rid (OpShutdown force) s)"

section \<open>Starting the daemon\<close>

text \<open>\<open>healths\<close> are the results of the probes, one before the start and one after each pause.\<close>

fun probe_daemon :: "client \<Rightarrow> health result list \<Rightarrow> unit result" where
  "probe_daemon C [] = Inl (DaemonUnavailable (cl_socket C))"
| "probe_daemon C (h # hs) =
     (case h of
        Inr _ \<Rightarrow> Inr ()
      | Inl (DaemonUnavailable _) \<Rightarrow> probe_daemon C hs
      | Inl e \<Rightarrow> Inl e)"

definition connect_or_start :: "client \<Rightarrow> health result \<Rightarrow> unit result \<Rightarrow> (nat \<Rightarrow> health result) \<Rightarrow> unit result" where
  "connect_or_start C first started probes =
     (case first of
        Inr _ \<Rightarrow> Inr ()
      | Inl (DaemonUnavailable _) \<Rightarrow> bind_res started (\<lambda>_. probe_daemon C (map probes [0..<60]))
      | Inl e \<Rightarrow> Inl e)"

section \<open>The events of a subscription\<close>

record subscription =
  sb_id :: string
  sb_next_seq :: nat

text \<open>A frame: \<open>None\<close> is the end of the connection, \<open>Inl\<close> an error of the codec or of JSON.\<close>

fun next_event :: "(error + wire_message) option \<Rightarrow> subscription \<Rightarrow> execution_event option result \<times> subscription" where
  "next_event None sb = (Inr None, sb)"
| "next_event (Some (Inl e)) sb = (Inl e, sb)"
| "next_event (Some (Inr (Event version sid ev))) sb =
     (if version \<noteq> PROTOCOL_VERSION then (Inl (ProtocolVersionMismatch PROTOCOL_VERSION version), sb)
      else if sid \<noteq> sb_id sb then (Inl (Protocol ''subscription event id did not match''), sb)
      else if ev_seq ev \<noteq> sb_next_seq sb + 1
      then (Inl (Protocol (''subscription sequence was not contiguous after '' @ show_nat (sb_next_seq sb) @
              '': received '' @ show_nat (ev_seq ev))), sb)
      else (Inr (Some ev), sb\<lparr>sb_next_seq := ev_seq ev\<rparr>))"
| "next_event (Some (Inr _)) sb = (Inl (Protocol ''expected subscription event from daemon''), sb)"

text \<open>A client that asks for the next event until it gets none or an error.\<close>

fun receive_events :: "(error + wire_message) list \<Rightarrow> subscription \<Rightarrow> execution_event list \<times> unit result" where
  "receive_events [] sb = ([], Inr ())"
| "receive_events (f # fs) sb =
     (case next_event (Some f) sb of
        (Inl e, _) \<Rightarrow> ([], Inl e)
      | (Inr None, _) \<Rightarrow> ([], Inr ())
      | (Inr (Some ev), sb') \<Rightarrow> (case receive_events fs sb' of (evs, r) \<Rightarrow> (ev # evs, r)))"

end
