(* ===== verification/ClientDaemon.thy ===== *)
theory ClientDaemon
  imports Client Daemon DaemonInv
begin

text \<open>
  A client connected to the daemon of this development: the transport hands the message to
  \<open>serve_frame\<close> and the response back, as JSON that reads what was written. What the daemon's operations
  return is what the client's methods expect, and an error of the daemon reaches the caller with its code
  and message.
\<close>

definition daemon_transport :: "daemon_config \<Rightarrow> daemon_env \<Rightarrow> daemon transport" where
  "daemon_transport K V message dm =
     (case serve_frame K V (Message message) dm of (response, dm') \<Rightarrow> (ReplyFrame (Inr response), dm'))"

text \<open>The error a client gets for one of the daemon.\<close>

definition remote_error :: "daemon_config \<Rightarrow> error \<Rightarrow> error" where
  "remote_error K e = into_error (protocol_error_from (dc_display K) e)"

lemma daemon_call:
  "client_call C (daemon_transport K V) rid op dm =
     (case dispatch K V op dm of (r, dm') \<Rightarrow> (map_sum (remote_error K) id r, dm'))"
  by (simp add: client_call_def daemon_transport_def wire_request_def result_message_def wire_ok_def wire_error_def
      remote_error_def split_beta split: sum.split)

lemma daemon_call_expect:
  "call_expect expect C (daemon_transport K V) rid op dm =
     (case dispatch K V op dm of
        (Inl e, dm') \<Rightarrow> (Inl (remote_error K e), dm')
      | (Inr result, dm') \<Rightarrow> (expect C result, dm'))"
  by (simp add: call_expect_def daemon_call split_beta split: sum.split)

section \<open>What the operations return\<close>

fun kind_of :: "operation \<Rightarrow> protocol_result \<Rightarrow> bool" where
  "kind_of OpHealth r = (case r of PHealth _ \<Rightarrow> True | _ \<Rightarrow> False)"
| "kind_of (OpWorkspaceAdd _ _) r = (case r of PWorkspace _ \<Rightarrow> True | _ \<Rightarrow> False)"
| "kind_of (OpWorkspaceRemove _) r = (r = PEmpty)"
| "kind_of OpWorkspaceList r = (case r of PWorkspaces _ \<Rightarrow> True | _ \<Rightarrow> False)"
| "kind_of (OpExecute _) r = (case r of PExecution _ \<Rightarrow> True | _ \<Rightarrow> False)"
| "kind_of (OpGet _) r = (case r of PExecution _ \<Rightarrow> True | _ \<Rightarrow> False)"
| "kind_of (OpList _ _) r = (case r of PExecutions _ \<Rightarrow> True | _ \<Rightarrow> False)"
| "kind_of (OpStats _ _) r = (case r of PStats _ \<Rightarrow> True | _ \<Rightarrow> False)"
| "kind_of (OpSessionCreate _) r = (case r of PAgentSession _ \<Rightarrow> True | _ \<Rightarrow> False)"
| "kind_of (OpSessionFinish _ _) r = (case r of PAgentSession _ \<Rightarrow> True | _ \<Rightarrow> False)"
| "kind_of (OpSessionGet _) r = (case r of PAgentSessionDetail _ \<Rightarrow> True | _ \<Rightarrow> False)"
| "kind_of (OpSessionList _ _) r = (case r of PAgentSessions _ \<Rightarrow> True | _ \<Rightarrow> False)"
| "kind_of (OpSessionDelete _) r = (r = PEmpty)"
| "kind_of (OpAgentEvent _) r = (case r of PAgentTurn _ \<Rightarrow> True | _ \<Rightarrow> False)"
| "kind_of (OpReadOutput _ _ _) r = (case r of POutput _ \<Rightarrow> True | _ \<Rightarrow> False)"
| "kind_of (OpWait _ _ _ _) r = (case r of PWait _ \<Rightarrow> True | _ \<Rightarrow> False)"
| "kind_of (OpSubscribe _ _) r = (case r of PSubscription _ \<Rightarrow> True | _ \<Rightarrow> False)"
| "kind_of (OpCancel _) r = (case r of PExecution _ \<Rightarrow> True | _ \<Rightarrow> False)"
| "kind_of (OpShutdown _) r = (r = PEmpty)"

lemma on_engine_Inr: "on_engine f k dm = (Inr result, dm') \<Longrightarrow> \<exists>v. result = k v"
  by (cases "f (dm_engine dm)"; cases "fst (f (dm_engine dm))") (auto simp: on_engine_def)

lemma reconciled_Inr: "reconciled V k dm = (Inr result, dm') \<Longrightarrow> \<exists>dm1. k dm1 = (Inr result, dm')"
  by (auto simp: reconciled_def split: sum.split_asm prod.split_asm)

lemma dispatch_kind:
  assumes "dispatch K V op dm = (Inr result, dm')"
  shows "kind_of op result"
proof (cases op)
  case (OpSessionCreate rq)
  then show ?thesis using assms by (auto simp: Let_def split: sum.split_asm dest!: on_engine_Inr)
next
  case (OpSessionDelete sid)
  then show ?thesis using assms
    by (auto simp: delete_session_def split: sum.split_asm option.split_asm if_split_asm dest!: on_engine_Inr)
next
  case (OpShutdown force)
  then show ?thesis using assms
    by (auto simp: shutdown_request_def split: sum.split_asm if_split_asm dest!: reconciled_Inr)
qed (use assms in \<open>auto simp: Let_def dest!: on_engine_Inr reconciled_Inr\<close>)

lemma health_capabilities:
  assumes "dispatch K V OpHealth dm = (Inr (PHealth h), dm')"
  shows "he_capabilities h = [CAPABILITY_EXECUTION_STATS, CAPABILITY_AGENT_SESSIONS, CAPABILITY_AGENT_TURNS]"
proof -
  obtain dm1 where "on_engine (\<lambda>e. (bind_res (active_agent_sessions (en_db e))
      (\<lambda>sessions. Inr (health_of K (length sessions) e)), e)) PHealth dm1 = (Inr (PHealth h), dm')"
    using reconciled_Inr [OF assms [simplified]] by blast
  then show ?thesis
    by (cases "active_agent_sessions (en_db (dm_engine dm1))") (auto simp: on_engine_def health_of_def)
qed

section \<open>Errors a method can give\<close>

text \<open>The error is the daemon's: of the operation, of the question for the capabilities before it, or of the
  operation after that question.\<close>

definition from_daemon :: "daemon_config \<Rightarrow> daemon_env \<Rightarrow> operation \<Rightarrow> daemon \<Rightarrow> error \<Rightarrow> bool" where
  "from_daemon K V op dm e \<longleftrightarrow>
     (\<exists>e0. e = remote_error K e0 \<and>
       Inl e0 \<in> {fst (dispatch K V op dm), fst (dispatch K V OpHealth dm),
                 fst (dispatch K V op (snd (dispatch K V OpHealth dm)))})"

lemma call_expect_first:
  assumes "call_expect expect C (daemon_transport K V) rid op dm = (Inl e, dm')"
    and "\<And>result. kind_of op result \<Longrightarrow> \<exists>v. expect C result = Inr v"
  shows "\<exists>e0. fst (dispatch K V op dm) = Inl e0 \<and> e = remote_error K e0"
proof -
  obtain r dm1 where d: "dispatch K V op dm = (r, dm1)" by (cases "dispatch K V op dm")
  show ?thesis
  proof (cases r)
    case (Inl e0)
    then show ?thesis using assms(1) d by (auto simp: daemon_call_expect)
  next
    case (Inr result)
    then have "kind_of op result" using dispatch_kind d by blast
    then obtain v where "expect C result = Inr v" using assms(2) by blast
    then show ?thesis using assms(1) Inr d by (simp add: daemon_call_expect)
  qed
qed

lemma call_expect_errors:
  assumes "call_expect expect C (daemon_transport K V) rid op dm = (Inl e, dm')"
    and "\<And>result. kind_of op result \<Longrightarrow> \<exists>v. expect C result = Inr v"
  shows "from_daemon K V op dm e"
  using call_expect_first [OF assms] unfolding from_daemon_def by (metis insertCI)

lemma require_capability_errors:
  assumes "require_capability C (daemon_transport K V) rid capability dm = (Inl e, dm')"
    and "capability \<in> {CAPABILITY_EXECUTION_STATS, CAPABILITY_AGENT_SESSIONS, CAPABILITY_AGENT_TURNS}"
  shows "from_daemon K V op dm e"
proof -
  obtain r dm1 where d: "dispatch K V OpHealth dm = (r, dm1)" by (cases "dispatch K V OpHealth dm")
  show ?thesis
  proof (cases r)
    case (Inl e0)
    then have "fst (dispatch K V OpHealth dm) = Inl e0 \<and> e = remote_error K e0"
      using assms(1) d by (auto simp: require_capability_def client_health_def daemon_call_expect simp del: dispatch.simps)
    then show ?thesis unfolding from_daemon_def by (metis insertCI)
  next
    case (Inr result)
    then have "kind_of OpHealth result" using dispatch_kind d by blast
    then obtain h where h: "result = PHealth h" by (auto split: protocol_result.splits)
    then have "set (he_capabilities h) = {CAPABILITY_EXECUTION_STATS, CAPABILITY_AGENT_SESSIONS, CAPABILITY_AGENT_TURNS}"
      using health_capabilities d Inr by simp
    then show ?thesis using assms d Inr h
      by (auto simp: require_capability_def client_health_def daemon_call_expect expect_health_def simp del: dispatch.simps)
  qed
qed

lemma call_capable_errors:
  assumes "call_capable capability expect C (daemon_transport K V) rid rid' op dm = (Inl e, dm')"
    and "capability \<in> {CAPABILITY_EXECUTION_STATS, CAPABILITY_AGENT_SESSIONS, CAPABILITY_AGENT_TURNS}"
    and "\<And>result. kind_of op result \<Longrightarrow> \<exists>v. expect C result = Inr v"
  shows "from_daemon K V op dm e"
proof (cases "require_capability C (daemon_transport K V) rid capability dm")
  case (Pair r dm1)
  show ?thesis
  proof (cases r)
    case (Inl e1)
    then have "e1 = e" using assms(1) Pair by (simp add: call_capable_def)
    then show ?thesis using require_capability_errors [OF _ assms(2)] Pair Inl by blast
  next
    case (Inr u)
    have c: "call_expect expect C (daemon_transport K V) rid' op dm1 = (Inl e, dm')"
      using assms(1) Pair Inr by (simp add: call_capable_def)
    have "dm1 = snd (dispatch K V OpHealth dm)"
      using Pair by (auto simp: require_capability_def client_health_def daemon_call_expect split_beta
          simp del: dispatch.simps split: sum.split_asm)
    then show ?thesis using call_expect_first [OF c assms(3)] unfolding from_daemon_def by (metis insertCI)
  qed
qed

end
