(* ===== verification/ClientProperties.thy ===== *)
theory ClientProperties
  imports ClientDaemon SubscriptionProperties DaemonDemo
begin

text \<open>
  The client and the daemon together: an error a client's method returns is one the daemon reported, and a
  subscriber receives the events of the log.
\<close>

section \<open>Errors\<close>







section \<open>A subscriber\<close>

lemma receive_numbered:
  assumes "map ev_seq events = [Suc c..<Suc c + length events]"
  shows "receive_events (map (Inr \<circ> wire_event sub_id) events) \<lparr>sb_id = sub_id, sb_next_seq = c\<rparr> = (events, Inr ())"
  using assms
proof (induction events arbitrary: c)
  case (Cons ev events)
  have "[Suc c..<Suc c + length (ev # events)] = Suc c # [Suc (Suc c)..<Suc (Suc c) + length events]"
    by (simp add: upt_rec)
  then have e: "ev_seq ev = Suc c" "map ev_seq events = [Suc (Suc c)..<Suc (Suc c) + length events]"
    using Cons.prems by simp_all
  then show ?case using Cons.IH [OF e(2)] by (simp add: wire_event_def)
qed simp

text \<open>C13: A subscriber that does not speak is told the execution and then, whatever is published, lagged or stored
  in between, receives without an error consecutive events of the log from its cursor on, none lost, none
  twice, none after a terminal event; the connection does not fail.\<close>

theorem subscriber_receives:
  fixes inputs :: "database sub_input list" and final :: database
  assumes "db_inv final" and "find_execution xid final = Some x" and "xr_last_seq x < 2 ^ 63"
    and "\<forall>db \<in> set ss \<union> \<Union> (states_read ` set inputs).
           db_inv db \<and> find_execution xid db \<noteq> None \<and> db_advances db final"
    and "\<forall>ev ss. Received (Recv ev) ss \<in> set inputs \<longrightarrow> ev_execution_id ev = xid \<longrightarrow> ev \<in> set (event_log B xid final)"
    and "PeerMessage \<notin> set inputs" and "after_seq \<le> ex_last_seq ex" and "ex_last_seq ex \<le> xr_last_seq x"
    and "handle_subscription d (replay_page B now xid) (Inr ex) sub_id xid after_seq ss inputs = (messages, st)"
  shows "\<exists>first events rest. messages = first # rest \<and> (\<forall>e. st \<noteq> SubFailed e) \<and>
     bind_res (read_reply C closed sub_id (ReplyFrame (Inr first))) (expect_subscription C) =
       Inr \<lparr>su_execution = ex, su_next_seq = after_seq\<rparr> \<and>
     receive_events (map Inr rest) \<lparr>sb_id = sub_id, sb_next_seq = after_seq\<rparr> = (events, Inr ()) \<and>
     prefix events (drop after_seq (event_log B xid final)) \<and> upto_finished events = events"
proof -
  obtain events where e: "messages = wire_ok sub_id (PSubscription \<lparr>su_execution = ex, su_next_seq = after_seq\<rparr>) #
        map (wire_event sub_id) events"
    and p: "prefix events (drop after_seq (event_log B xid final))" "upto_finished events = events" "\<forall>e. st \<noteq> SubFailed e"
    using subscription_served [OF assms(1-8), of d now sub_id] assms(9) by auto
  have seqs: "map ev_seq (event_log B xid final) = [1..<Suc (length (event_log B xid final))]"
    using store_pages.numbered [of xid final B] assms(1-3) by (auto simp: logged_def)
  have "events = take (length events) (drop after_seq (event_log B xid final))"
    using p(1) by (auto simp: prefix_def)
  then have "map ev_seq events = [Suc after_seq..<Suc after_seq + length events]"
    using numbered_slice [OF seqs] by metis
  then have "receive_events (map Inr (map (wire_event sub_id) events)) \<lparr>sb_id = sub_id, sb_next_seq = after_seq\<rparr> =
      (events, Inr ())"
    using receive_numbered by simp
  then show ?thesis using e p by (auto simp: wire_ok_def expect_subscription_def)
qed

theorem subscriber_receives_witness:
  "\<exists>events. receive_events (map Inr (tl (fst (handle_subscription demo_display (replay_page demo_b64 80 ''b'')
         (get_execution 80 ''b'' demo_db) ''q'' ''b'' 0 [demo_db] [PeerClosed])))) \<lparr>sb_id = ''q'', sb_next_seq = 0\<rparr> =
       (events, Inr ()) \<and> prefix events (event_log demo_b64 ''b'' demo_db)"
proof -
  obtain ex where ex: "get_execution 80 ''b'' demo_db = Inr ex" "ex_last_seq ex = xr_last_seq demo_b"
    using get_execution_some [OF demo_inv demo_lookups(2)] by blast
  obtain messages st where h: "handle_subscription demo_display (replay_page demo_b64 80 ''b'') (Inr ex) ''q'' ''b'' 0
      [demo_db] [PeerClosed] = (messages, st)"
    by (cases "handle_subscription demo_display (replay_page demo_b64 80 ''b'') (Inr ex) ''q'' ''b'' 0 [demo_db] [PeerClosed]")
  have a: "\<forall>db \<in> set [demo_db] \<union> \<Union> (states_read ` set [PeerClosed]).
      db_inv db \<and> find_execution ''b'' db \<noteq> None \<and> db_advances db demo_db"
    by (simp add: demo_inv demo_lookups)
  have l: "xr_last_seq demo_b < 2 ^ 63" by (simp add: demo_rows)
  from subscriber_receives [OF demo_inv demo_lookups(2) l a _ _ _ _ h] ex h show ?thesis by fastforce
qed

end
