(* ===== verification/Iterators.thy ===== *)
theory Iterators
  imports Prelude "HOL-Library.List_Lexorder" "HOL-Library.Char_ord"
begin

text \<open>Methods of the standard library's iterators that several components use.\<close>

text \<open>\<open>Iterator::find_map\<close>.\<close>

fun first_some :: "('a \<Rightarrow> 'b option) \<Rightarrow> 'a list \<Rightarrow> 'b option" where
  "first_some f [] = None"
| "first_some f (x # xs) = (case f x of Some y \<Rightarrow> Some y | None \<Rightarrow> first_some f xs)"

lemma first_some_cong [fundef_cong]:
  "xs = ys \<Longrightarrow> (\<And>y. y \<in> set ys \<Longrightarrow> f y = g y) \<Longrightarrow> first_some f xs = first_some g ys"
  by (induction ys arbitrary: xs) (auto split: option.splits)

lemma first_some_None: "first_some f xs = None \<longleftrightarrow> (\<forall>x \<in> set xs. f x = None)"
  by (induction xs) (auto split: option.splits)

lemma first_some_Some: "first_some f xs = Some y \<Longrightarrow> \<exists>x \<in> set xs. f x = Some y"
  by (induction xs) (auto split: option.splits)

text \<open>\<open>Iterator::max_by_key\<close>: the last of the elements with the greatest key.\<close>

fun max_by_key :: "('a \<Rightarrow> 'k::linorder) \<Rightarrow> 'a list \<Rightarrow> 'a option" where
  "max_by_key k [] = None"
| "max_by_key k (x # xs) =
     (case max_by_key k xs of None \<Rightarrow> Some x | Some y \<Rightarrow> if k y < k x then Some x else Some y)"

lemma max_by_key_None [simp]: "max_by_key k xs = None \<longleftrightarrow> xs = []"
  by (cases xs) (auto split: option.splits)

lemma max_by_key_Some: "max_by_key k xs = Some x \<Longrightarrow> x \<in> set xs \<and> (\<forall>y \<in> set xs. k y \<le> k x)"
  by (induction xs arbitrary: x) (auto split: option.splits if_splits intro: order_trans less_imp_le)


text \<open>
  \<open>BTreeMap<String, V>\<close> as the list of its entries in the order of the keys, the bytes of which are compared. An
  insertion replaces the value of a key that is there.
\<close>

fun btree_insert :: "string \<Rightarrow> 'v \<Rightarrow> (string \<times> 'v) list \<Rightarrow> (string \<times> 'v) list" where
  "btree_insert k v [] = [(k, v)]"
| "btree_insert k v ((k', v') # rest) =
     (if k = k' then (k, v) # rest
      else if k < k' then (k, v) # (k', v') # rest
      else (k', v') # btree_insert k v rest)"

text \<open>\<open>collect\<close>: the last pair of a key wins.\<close>

definition btree_collect :: "(string \<times> 'v) list \<Rightarrow> (string \<times> 'v) list" where
  "btree_collect pairs = foldl (\<lambda>m (k, v). btree_insert k v m) [] pairs"

lemma map_of_btree_insert [simp]: "map_of (btree_insert k v m) = (map_of m)(k \<mapsto> v)"
  by (induction k v m rule: btree_insert.induct) (auto simp: fun_eq_iff)

lemma btree_insert_keys: "fst ` set (btree_insert k v m) = insert k (fst ` set m)"
  by (induction k v m rule: btree_insert.induct) auto

lemma btree_insert_sorted: "sorted_wrt (<) (map fst m) \<Longrightarrow> sorted_wrt (<) (map fst (btree_insert k v m))"
proof (induction k v m rule: btree_insert.induct)
  case (2 k v k' v' rest)
  show ?case
  proof (cases "k = k' \<or> k < k'")
    case True
    then show ?thesis using "2.prems" by (auto intro: less_trans)
  next
    case False
    then have "k' < k" by (metis linorder_neqE)
    moreover have "set (map fst (btree_insert k v rest)) = insert k (fst ` set rest)" using btree_insert_keys by simp
    ultimately show ?thesis using False 2 by auto
  qed
qed simp

lemma btree_collect_from: "foldl (\<lambda>m (k, v). btree_insert k v m) m pairs = m' \<Longrightarrow> map_of m' = map_of m ++ map_of (rev pairs)"
proof (induction pairs arbitrary: m)
  case (Cons p pairs)
  then show ?case by (cases p) (auto simp: fun_eq_iff map_add_def split: option.split)
qed simp

lemma map_of_btree_collect: "map_of (btree_collect pairs) = map_of (rev pairs)"
  using btree_collect_from [of "[]" pairs] by (simp add: btree_collect_def)

end
