(* ===== verification/Mcp.thy ===== *)
theory Mcp
  imports Iterators ClientDaemon
begin

text \<open>
  The MCP server (\<open>src/mcp.rs\<close>): the tools an agent calls, each a few calls of the client, confined to one
  workspace. The output of an execution is converted to text or base64 within a budget of raw bytes.
\<close>

section \<open>Inputs and results\<close>

definition DEFAULT_OUTPUT_BYTES :: nat where
  "DEFAULT_OUTPUT_BYTES = 256 * 1024"

definition MAX_OUTPUT_BYTES :: nat where
  "MAX_OUTPUT_BYTES = 1024 * 1024"

record mcp_server =
  ms_client :: client
  ms_workspace :: workspace
  ms_session_id :: "string option"
  ms_display :: display_env
  ms_base64 :: base64

datatype output_format = Text | Base64

record run_input =
  ri_cwd :: "string option"
  ri_program :: "string option"
  ri_args :: "string list"
  ri_shell_command :: "string option"
  ri_shell_program :: "string option"
  ri_env :: "(string \<times> string) list"
  ri_stdin_base64 :: "string option"
  ri_wait_ms :: "nat option"
  ri_capture_limit_bytes :: "nat option"
  ri_output_format :: output_format
  ri_max_bytes :: "nat option"

record read_input =
  rd_execution_id :: string
  rd_after_seq :: nat
  rd_output_format :: output_format
  rd_max_bytes :: "nat option"

record wait_input =
  wi_execution_id :: string
  wi_after_seq :: nat
  wi_timeout_ms :: "nat option"
  wi_output_format :: output_format
  wi_max_bytes :: "nat option"

datatype tool_payload =
    TeStarted nat int
  | TeOutput output_stream nat "string option" "string option" "bool option"
  | TeCaptureTruncated nat
  | TeFinished execution_outcome

record tool_event =
  te_execution_id :: string
  te_seq :: nat
  te_timestamp_ms :: int
  te_payload :: tool_payload

record tool_output =
  to_execution :: execution
  to_events :: "tool_event list"
  to_next_seq :: nat
  to_has_more :: bool
  to_timed_out :: bool

type_synonym 'a tool_result = "string + 'a"

section \<open>Helpers\<close>

definition normalized_max :: "nat option \<Rightarrow> nat" where
  "normalized_max value = clamp 1 MAX_OUTPUT_BYTES (case value of Some v \<Rightarrow> v | None \<Rightarrow> DEFAULT_OUTPUT_BYTES)"

definition contains_cwd :: "string \<Rightarrow> workspace \<Rightarrow> bool" where
  "contains_cwd cwd w \<longleftrightarrow> path_eq cwd (ws_root w) \<or> path_starts_with cwd (ws_root w)"

definition select_project_workspace :: "workspace list \<Rightarrow> string \<Rightarrow> workspace option" where
  "select_project_workspace workspaces cwd =
     max_by_key (\<lambda>w. length (components (ws_root w))) (filter (contains_cwd cwd) workspaces)"

definition for_current_project :: "workspace list result \<Rightarrow> string result \<Rightarrow> workspace result" where
  "for_current_project workspaces canonical_cwd =
     bind_res canonical_cwd (\<lambda>cwd. bind_res workspaces (\<lambda>ws.
       ok_or (error.Config (''no registered Loomterm workspace contains '' @ cwd @
           ''; run `loom workspace add . --name loomterm` first'')) (select_project_workspace ws cwd)))"

definition ensure_workspace_match :: "execution \<Rightarrow> string \<Rightarrow> execution tool_result" where
  "ensure_workspace_match execution workspace_id =
     (if ex_workspace_id execution = workspace_id then Inr execution
      else Inl (''execution is outside the MCP server'' @ [squote] @ ''s project workspace''))"

definition persisted_output :: "base64 \<Rightarrow> string \<Rightarrow> bytes tool_result" where
  "persisted_output B data =
     (case b64_decode B data of Inl e \<Rightarrow> Inl (''invalid persisted output: '' @ e) | Inr bs \<Rightarrow> Inr bs)"

definition event_raw_bytes :: "base64 \<Rightarrow> execution_event \<Rightarrow> nat tool_result" where
  "event_raw_bytes B ev =
     (case ev_payload ev of
        EvOutput _ data \<Rightarrow> bind_res (persisted_output B data) (\<lambda>bs. Inr (length bs))
      | _ \<Rightarrow> Inr 0)"

fun tool_payload_of :: "base64 \<Rightarrow> output_format \<Rightarrow> event_payload \<Rightarrow> tool_payload tool_result" where
  "tool_payload_of B fmt (EvStarted pid pgid) = Inr (TeStarted pid pgid)"
| "tool_payload_of B fmt (EvOutput stream data) =
     bind_res (persisted_output B data) (\<lambda>bs.
       Inr (case fmt of
          Text \<Rightarrow> (case from_utf8 bs of
              Inr t \<Rightarrow> TeOutput stream (length bs) (Some t) None None
            | Inl _ \<Rightarrow> TeOutput stream (length bs) (Some (from_utf8_lossy bs)) None (Some True))
        | Base64 \<Rightarrow> TeOutput stream (length bs) None (Some data) None))"
| "tool_payload_of B fmt (EvCaptureTruncated limit) = Inr (TeCaptureTruncated limit)"
| "tool_payload_of B fmt (EvFinished outcome) = Inr (TeFinished outcome)"

definition convert_event :: "base64 \<Rightarrow> output_format \<Rightarrow> execution_event \<Rightarrow> tool_event tool_result" where
  "convert_event B fmt ev =
     bind_res (tool_payload_of B fmt (ev_payload ev)) (\<lambda>payload.
       Inr \<lparr>te_execution_id = ev_execution_id ev, te_seq = ev_seq ev, te_timestamp_ms = ev_timestamp_ms ev,
            te_payload = payload\<rparr>)"

text \<open>The result holds the converted events, whether the budget stopped it, and the new values of
  \<open>remaining\<close> and \<open>cursor\<close>.\<close>

fun convert_events ::
  "base64 \<Rightarrow> output_format \<Rightarrow> execution_event list \<Rightarrow> nat \<Rightarrow> nat \<Rightarrow> (tool_event list \<times> bool \<times> nat \<times> nat) tool_result" where
  "convert_events B fmt [] remaining cursor = Inr ([], False, remaining, cursor)"
| "convert_events B fmt (ev # evs) remaining cursor =
     bind_res (event_raw_bytes B ev) (\<lambda>raw.
       if raw > remaining then Inr ([], True, remaining, cursor)
       else bind_res (convert_event B fmt ev) (\<lambda>te.
         bind_res (convert_events B fmt evs (remaining - raw) (ev_seq ev)) (\<lambda>(tes, more, rem, cur).
           Inr (te # tes, more, rem, cur))))"

definition tool_of :: "mcp_server \<Rightarrow> 'a result \<Rightarrow> 'a tool_result" where
  "tool_of M r = (case r of Inl e \<Rightarrow> Inl (error_display (ms_display M) e) | Inr v \<Rightarrow> Inr v)"

section \<open>The tools\<close>

text \<open>\<open>ids\<close> are the identifiers the calls draw.\<close>

definition tool_call ::
  "mcp_server \<Rightarrow> 's transport \<Rightarrow> (client \<Rightarrow> protocol_result \<Rightarrow> 'a result) \<Rightarrow> string \<Rightarrow> operation \<Rightarrow> 's \<Rightarrow> 'a tool_result \<times> 's" where
  "tool_call M T expect rid op s = (case call_expect expect (ms_client M) T rid op s of (r, s') \<Rightarrow> (tool_of M r, s'))"

definition allowed_execution :: "mcp_server \<Rightarrow> 's transport \<Rightarrow> string \<Rightarrow> string \<Rightarrow> 's \<Rightarrow> execution tool_result \<times> 's" where
  "allowed_execution M T rid xid s =
     (case tool_call M T expect_execution rid (OpGet xid) s of
        (r, s') \<Rightarrow> (bind_res r (\<lambda>x. ensure_workspace_match x (ws_id (ms_workspace M))), s'))"

definition page_result ::
  "mcp_server \<Rightarrow> output_format \<Rightarrow> nat \<Rightarrow> nat \<Rightarrow> execution \<Rightarrow> execution_event list \<Rightarrow> nat \<Rightarrow> bool \<Rightarrow> bool \<Rightarrow> tool_output tool_result" where
  "page_result M fmt max_bytes after_seq x events native_next native_more timed_out =
     bind_res (convert_events (ms_base64 M) fmt events max_bytes after_seq) (\<lambda>(tes, page_more, _, cursor).
       Inr \<lparr>to_execution = x, to_events = tes, to_next_seq = cursor,
            to_has_more = (native_more \<or> page_more \<or> cursor < native_next), to_timed_out = timed_out\<rparr>)"

definition mcp_read :: "mcp_server \<Rightarrow> 's transport \<Rightarrow> (nat \<Rightarrow> string) \<Rightarrow> read_input \<Rightarrow> 's \<Rightarrow> tool_output tool_result \<times> 's" where
  "mcp_read M T ids i s =
     (case allowed_execution M T (ids 0) (rd_execution_id i) s of
        (Inl e, s1) \<Rightarrow> (Inl e, s1)
      | (Inr _, s1) \<Rightarrow>
          let max_bytes = normalized_max (rd_max_bytes i) in
          (case tool_call M T expect_output (ids 1) (OpReadOutput (rd_execution_id i) (rd_after_seq i) max_bytes) s1 of
             (r, s2) \<Rightarrow> (bind_res r (\<lambda>ro. page_result M (rd_output_format i) max_bytes (rd_after_seq i)
                 (ro_execution ro) (ro_events ro) (ro_next_seq ro) (ro_has_more ro) False), s2)))"

definition mcp_wait :: "mcp_server \<Rightarrow> 's transport \<Rightarrow> (nat \<Rightarrow> string) \<Rightarrow> wait_input \<Rightarrow> 's \<Rightarrow> tool_output tool_result \<times> 's" where
  "mcp_wait M T ids i s =
     (case allowed_execution M T (ids 0) (wi_execution_id i) s of
        (Inl e, s1) \<Rightarrow> (Inl e, s1)
      | (Inr _, s1) \<Rightarrow>
          let max_bytes = normalized_max (wi_max_bytes i);
              timeout = min (case wi_timeout_ms i of Some t \<Rightarrow> t | None \<Rightarrow> 30000) 60000 in
          (case tool_call M T expect_wait (ids 1) (OpWait (wi_execution_id i) (wi_after_seq i) timeout max_bytes) s1 of
             (r, s2) \<Rightarrow> (bind_res r (\<lambda>w. page_result M (wi_output_format i) max_bytes (wi_after_seq i)
                 (wr_execution w) (wr_events w) (wr_next_seq w) (wr_has_more w) (wr_timed_out w)), s2)))"

definition mcp_get :: "mcp_server \<Rightarrow> 's transport \<Rightarrow> (nat \<Rightarrow> string) \<Rightarrow> string \<Rightarrow> 's \<Rightarrow> execution tool_result \<times> 's" where
  "mcp_get M T ids xid s = allowed_execution M T (ids 0) xid s"

definition mcp_cancel :: "mcp_server \<Rightarrow> 's transport \<Rightarrow> (nat \<Rightarrow> string) \<Rightarrow> string \<Rightarrow> 's \<Rightarrow> execution tool_result \<times> 's" where
  "mcp_cancel M T ids xid s =
     (case allowed_execution M T (ids 0) xid s of
        (Inl e, s1) \<Rightarrow> (Inl e, s1)
      | (Inr _, s1) \<Rightarrow> tool_call M T expect_execution (ids 1) (OpCancel xid) s1)"

definition mcp_list :: "mcp_server \<Rightarrow> 's transport \<Rightarrow> (nat \<Rightarrow> string) \<Rightarrow> nat option \<Rightarrow> 's \<Rightarrow> execution list tool_result \<times> 's" where
  "mcp_list M T ids limit s =
     tool_call M T expect_executions (ids 0)
       (OpList (Some (ws_id (ms_workspace M))) (min (case limit of Some l \<Rightarrow> l | None \<Rightarrow> 100) 1000)) s"

definition mcp_workspaces :: "mcp_server \<Rightarrow> workspace list" where
  "mcp_workspaces M = [ms_workspace M]"

section \<open>Running a command\<close>

fun run_command :: "run_input \<Rightarrow> command_spec tool_result" where
  "run_command i =
     (case (ri_program i, ri_shell_command i) of
        (Some program, None) \<Rightarrow> Inr (Argv program (ri_args i))
      | (None, Some command) \<Rightarrow> Inr (Shell command (ri_shell_program i))
      | (Some _, Some _) \<Rightarrow> Inl ''program and shell_command are mutually exclusive''
      | (None, None) \<Rightarrow> Inl ''one of program or shell_command is required'')"

definition run_request :: "mcp_server \<Rightarrow> run_input \<Rightarrow> command_spec \<Rightarrow> execution_request" where
  "run_request M i command =
     \<lparr>rq_workspace_id = ws_id (ms_workspace M), rq_cwd = ri_cwd i, rq_command = command, rq_env = ri_env i,
      rq_stdin_base64 = ri_stdin_base64 i,
      rq_initiator = \<lparr>in_kind = ''mcp'', in_name = Some ''loom-mcp'', in_session_id = ms_session_id M\<rparr>,
      rq_capture_limit_bytes = ri_capture_limit_bytes i\<rparr>"

text \<open>The variables of the loop of \<open>run\<close>.\<close>

record run_loop =
  rl_current :: execution
  rl_events :: "tool_event list"
  rl_cursor :: nat
  rl_remaining :: nat
  rl_has_more :: bool

text \<open>Per iteration: the identifier of the call and the two readings of the clock, in nanoseconds. \<open>None\<close>
  when they are used up before the loop ends.\<close>

fun run_loop_steps ::
  "mcp_server \<Rightarrow> 's transport \<Rightarrow> output_format \<Rightarrow> nat \<Rightarrow> (string \<times> nat \<times> nat) list \<Rightarrow> run_loop \<Rightarrow> 's \<Rightarrow>
   run_loop tool_result option \<times> 's" where
  "run_loop_steps M T fmt deadline [] l s = (None, s)"
| "run_loop_steps M T fmt deadline ((rid, now, now') # rest) l s =
     (if is_terminal (ex_state (rl_current l)) \<or> deadline \<le> now \<or> rl_remaining l = 0 then (Some (Inr l), s)
      else
        let timeout_ms = max 1 ((deadline - now') div 1000000) in
        case tool_call M T expect_wait rid (OpWait (ex_id (rl_current l)) (rl_cursor l) timeout_ms (rl_remaining l)) s of
          (Inl e, s1) \<Rightarrow> (Some (Inl e), s1)
        | (Inr w, s1) \<Rightarrow>
            (case convert_events (ms_base64 M) fmt (wr_events w) (rl_remaining l) (rl_cursor l) of
               Inl e \<Rightarrow> (Some (Inl e), s1)
             | Inr (tes, page_more, remaining, cursor) \<Rightarrow>
                 let l1 = \<lparr>rl_current = wr_execution w, rl_events = rl_events l @ tes, rl_cursor = cursor,
                           rl_remaining = remaining,
                           rl_has_more = (wr_has_more w \<or> page_more \<or> cursor < wr_next_seq w)\<rparr> in
                 if wr_timed_out w \<or> page_more then (Some (Inr l1), s1)
                 else run_loop_steps M T fmt deadline rest l1 s1))"

definition run_result :: "run_loop \<Rightarrow> tool_output" where
  "run_result l =
     \<lparr>to_execution = rl_current l, to_events = rl_events l, to_next_seq = rl_cursor l,
      to_has_more = (rl_has_more l \<or> (\<not> is_terminal (ex_state (rl_current l)) \<and> rl_remaining l = 0)),
      to_timed_out = False\<rparr>"

definition mcp_run ::
  "mcp_server \<Rightarrow> 's transport \<Rightarrow> string \<Rightarrow> nat \<Rightarrow> (string \<times> nat \<times> nat) list \<Rightarrow> run_input \<Rightarrow> 's \<Rightarrow>
   tool_output tool_result option \<times> 's" where
  "mcp_run M T rid now steps i s =
     (case run_command i of
        Inl e \<Rightarrow> (Some (Inl e), s)
      | Inr command \<Rightarrow>
          (case tool_call M T expect_execution rid (OpExecute (run_request M i command)) s of
             (Inl e, s1) \<Rightarrow> (Some (Inl e), s1)
           | (Inr execution, s1) \<Rightarrow>
               let wait_ms = min (case ri_wait_ms i of Some w \<Rightarrow> w | None \<Rightarrow> 30000) 60000;
                   l0 = \<lparr>rl_current = execution, rl_events = [], rl_cursor = 0,
                         rl_remaining = normalized_max (ri_max_bytes i), rl_has_more = False\<rparr> in
               (case run_loop_steps M T (ri_output_format i) (now + wait_ms * 1000000) steps l0 s1 of
                  (r, s2) \<Rightarrow> (map_option (\<lambda>r. bind_res r (\<lambda>l. Inr (run_result l))) r, s2))))"


text \<open>
  How the MCP server cuts a page of events to its budget of raw bytes: \<open>fitting\<close> counts the rows that fit,
  and \<open>convert_events\<close> over stored rows returns exactly those. The output of a conversion is the stored output.
\<close>

section \<open>Rows read back\<close>

lemma collect_res_mem: "collect_res (map f xs) = Inr ys \<Longrightarrow> y \<in> set ys \<Longrightarrow> \<exists>x \<in> set xs. f x = Inr y"
  by (induction xs arbitrary: ys) (auto simp: bind_res_Inr_iff)

lemma collect_res_length: "collect_res rs = Inr ys \<Longrightarrow> length ys = length rs"
  by (induction rs arbitrary: ys) (auto simp: bind_res_Inr_iff)

lemma enumerate_row: "p \<in> set (enumerate n rows) \<Longrightarrow> snd p \<in> set rows"
  by (metis map_snd_enumerate image_eqI set_map)

lemma read_executions_some:
  assumes "\<And>now r. r \<in> set rows \<Longrightarrow> \<exists>ex. execution_from_row now r = Inr ex"
  shows "\<exists>executions. read_executions clock rows = Inr executions"
proof -
  have "(case p of (i, r) \<Rightarrow> execution_from_row (clock i) r) = Inr (projr (execution_from_row (clock (fst p)) (snd p)))"
    if "p \<in> set (enumerate 0 rows)" for p
    using assms [OF enumerate_row [OF that], of "clock (fst p)"] by (auto simp: split_beta)
  then have "read_executions clock rows =
      Inr (map (\<lambda>p. projr (execution_from_row (clock (fst p)) (snd p))) (enumerate 0 rows))"
    unfolding read_executions_def by (rule collect_res_map_Inr)
  then show ?thesis by blast
qed

lemma list_executions_some:
  assumes "db_inv db"
  shows "\<exists>executions. list_executions clock w n db = Inr executions"
  unfolding list_executions_def
proof (rule read_executions_some)
  fix now r
  assume "r \<in> set (take n (order_by_desc xr_created_at_ms
      (case w of Some v \<Rightarrow> filter (execution_of_workspace v db) (db_executions db) | None \<Rightarrow> db_executions db)))"
  then have "r \<in> set (db_executions db)" by (auto dest!: in_set_takeD split: option.splits)
  then have "find_execution (xr_id r) db = Some r" using find_execution_iff [OF assms] by blast
  then show "\<exists>ex. execution_from_row now r = Inr ex"
    using get_execution_some [OF assms, of "xr_id r" r now] by (auto simp: get_execution_def)
qed

section \<open>Stored events\<close>

lemma event_raw_row:
  assumes "b64_ok B" and "event_row_ok r"
  shows "event_raw_bytes B (decode_event B xid r) = Inr (event_bytes r)"
  using assms by (auto simp: event_row_ok_def decode_event_def event_from_row_def output_event_def event_raw_bytes_def
      persisted_output_def b64_ok_def event_bytes_def Let_def)

definition tool_event_of :: "base64 \<Rightarrow> output_format \<Rightarrow> execution_event \<Rightarrow> tool_event" where
  "tool_event_of B fmt ev = projr (convert_event B fmt ev)"

lemma convert_raw:
  assumes "event_raw_bytes B ev = Inr n"
  shows "convert_event B fmt ev = Inr (tool_event_of B fmt ev)" "te_seq (tool_event_of B fmt ev) = ev_seq ev"
proof -
  have "\<exists>p. tool_payload_of B fmt (ev_payload ev) = Inr p"
  proof (cases "ev_payload ev")
    case (EvOutput stream data)
    then obtain bs where "persisted_output B data = Inr bs"
      using assms by (cases "persisted_output B data") (auto simp: event_raw_bytes_def)
    then show ?thesis using EvOutput by simp
  qed auto
  then show "convert_event B fmt ev = Inr (tool_event_of B fmt ev)" "te_seq (tool_event_of B fmt ev) = ev_seq ev"
    by (auto simp: tool_event_of_def convert_event_def)
qed

section \<open>The budget\<close>

fun fitting :: "nat \<Rightarrow> event_row list \<Rightarrow> nat" where
  "fitting budget [] = 0"
| "fitting budget (r # rs) = (if event_bytes r > budget then 0 else Suc (fitting (budget - event_bytes r) rs))"

lemma fitting_le: "fitting budget rs \<le> length rs"
  by (induction budget rs rule: fitting.induct) auto

lemma fitting_bytes: "rows_bytes (take (fitting budget rs) rs) \<le> budget"
  by (induction budget rs rule: fitting.induct) auto

lemma fitting_most: "fitting budget rs < length rs \<Longrightarrow> budget < rows_bytes (take (Suc (fitting budget rs)) rs)"
  by (induction budget rs rule: fitting.induct) auto

lemma fitting_0: "fitting budget rs = 0 \<longleftrightarrow> rs = [] \<or> budget < event_bytes (hd rs)"
  by (cases rs) auto

lemma convert_rows:
  assumes "b64_ok B" and "\<forall>r \<in> set rs. event_row_ok r" and "map er_seq rs = [Suc cursor..<Suc cursor + length rs]"
  shows "convert_events B fmt (map (decode_event B xid) rs) budget cursor =
    Inr (map (\<lambda>r. tool_event_of B fmt (decode_event B xid r)) (take (fitting budget rs) rs), fitting budget rs < length rs,
         budget - rows_bytes (take (fitting budget rs) rs), cursor + fitting budget rs)"
  using assms(2,3)
proof (induction rs arbitrary: budget cursor)
  case (Cons r rs)
  have "[Suc cursor..<Suc cursor + length (r # rs)] = Suc cursor # [Suc (Suc cursor)..<Suc (Suc cursor) + length rs]"
    by (simp add: upt_rec)
  then have s: "er_seq r = Suc cursor" "map er_seq rs = [Suc (Suc cursor)..<Suc (Suc cursor) + length rs]"
    using Cons.prems(2) by simp_all
  have raw: "event_raw_bytes B (decode_event B xid r) = Inr (event_bytes r)"
    using event_raw_row [OF assms(1)] Cons.prems(1) by simp
  have seq: "ev_seq (decode_event B xid r) = Suc cursor" using decode_event_seq Cons.prems(1) s(1) by simp
  have IH: "convert_events B fmt (map (decode_event B xid) rs) (budget - event_bytes r) (Suc cursor) =
    Inr (map (\<lambda>r. tool_event_of B fmt (decode_event B xid r)) (take (fitting (budget - event_bytes r) rs) rs),
         fitting (budget - event_bytes r) rs < length rs,
         budget - event_bytes r - rows_bytes (take (fitting (budget - event_bytes r) rs) rs),
         Suc cursor + fitting (budget - event_bytes r) rs)"
    using Cons.IH [of "Suc cursor" "budget - event_bytes r"] Cons.prems(1) s(2) by auto
  show ?case
    using raw convert_raw(1) [OF raw, of fmt] seq IH by auto
qed simp

section \<open>One page\<close>

lemma normalized_max_bounds: "1 \<le> normalized_max v" "normalized_max v \<le> MAX_OUTPUT_BYTES"
  by (auto simp: normalized_max_def clamp_def MAX_OUTPUT_BYTES_def)

lemma normalized_max_request: "clamp (Suc 0) MAX_REQUEST_BYTES (normalized_max v) = normalized_max v"
  using normalized_max_bounds [of v] by (simp add: clamp_def MAX_REQUEST_BYTES_def MAX_OUTPUT_BYTES_def)

lemma tool_call_daemon:
  "tool_call M (daemon_transport K V) expect rid op dm =
     (case dispatch K V op dm of
        (Inl e, dm') \<Rightarrow> (tool_of M (Inl (remote_error K e)), dm')
      | (Inr result, dm') \<Rightarrow> (tool_of M (expect (ms_client M) result), dm'))"
  by (simp add: tool_call_def daemon_call_expect split_beta split: sum.split)

lemma get_execution_row:
  assumes "get_execution now xid db = Inr ex" and "find_execution xid db = Some x"
  shows "ex_workspace_id ex = xr_workspace_id x" "ex_last_seq ex = xr_last_seq x" "ex_id ex = xr_id x"
  using assms by (cases "parse_state 2 (xr_state x)"; auto simp: get_execution_def execution_from_row_def)+

text \<open>The daemon's records of an execution, and whether the server may use it.\<close>

definition may_use :: "mcp_server \<Rightarrow> daemon \<Rightarrow> string \<Rightarrow> bool" where
  "may_use M dm xid \<longleftrightarrow>
     (\<exists>x. find_execution xid (en_db (dm_engine dm)) = Some x \<and> xr_workspace_id x = ws_id (ms_workspace M))"

lemma allowed_daemon:
  assumes "db_inv (en_db (dm_engine dm))"
  shows "\<exists>r. allowed_execution M (daemon_transport K V) rid xid dm = (r, dm) \<and>
    ((\<exists>ex. r = Inr ex) \<longleftrightarrow> may_use M dm xid) \<and>
    (\<forall>ex. r = Inr ex \<longrightarrow> get_execution (e_clock (de_store V) 0) xid (en_db (dm_engine dm)) = Inr ex)"
proof -
  let ?db = "en_db (dm_engine dm)" and ?now = "e_clock (de_store V) 0"
  show ?thesis
  proof (cases "find_execution xid ?db")
    case None
    then show ?thesis
      by (simp add: allowed_execution_def tool_call_daemon on_engine_def read_store_def get_execution_def tool_of_def may_use_def)
  next
    case (Some x)
    obtain ex where ex: "get_execution ?now xid ?db = Inr ex"
      using get_execution_some [OF assms Some] by blast
    then show ?thesis using Some get_execution_row [OF ex Some]
      by (simp add: allowed_execution_def tool_call_daemon on_engine_def read_store_def tool_of_def may_use_def
          expect_execution_def ensure_workspace_match_def)
  qed
qed

end
