(* ===== verification/McpProperties.thy ===== *)
theory McpProperties
  imports Mcp DaemonDemo
begin

text \<open>
  The properties of the MCP server: what a page of output holds and when reading page after page gets all of
  it, what an execution of another workspace is answered, the budget of a run, the conversion of output, and
  the workspace of a project.
\<close>

section \<open>Pages of output\<close>

text \<open>A page of \<open>loom_read\<close> is the next piece of the execution's log after the cursor, converted, within the
  budget of raw bytes and as long as the budget allows; the cursor moves past it and \<open>has_more\<close> is exact.\<close>

lemma read_daemon:
  assumes "b64_ok (ms_base64 M)" and "e_base64 (de_store V) = ms_base64 M" and "db_inv (en_db (dm_engine dm))"
    and "find_execution (rd_execution_id i) (en_db (dm_engine dm)) = Some x" and "xr_workspace_id x = ws_id (ms_workspace M)"
    and "rd_after_seq i < 2 ^ 63"
  shows "\<exists>out k. mcp_read M (daemon_transport K V) ids i dm = (Inr out, dm) \<and>
    to_events out = map (tool_event_of (ms_base64 M) (rd_output_format i))
      (take k (drop (rd_after_seq i) (event_log (ms_base64 M) (rd_execution_id i) (en_db (dm_engine dm))))) \<and>
    to_next_seq out = rd_after_seq i + k \<and> k \<le> xr_last_seq x - rd_after_seq i \<and>
    (to_has_more out \<longleftrightarrow> rd_after_seq i + k < xr_last_seq x) \<and>
    rows_bytes (take k (drop (rd_after_seq i) (events_of (en_db (dm_engine dm)) (rd_execution_id i)))) \<le>
      normalized_max (rd_max_bytes i) \<and>
    (to_has_more out \<longrightarrow> 4096 \<le> k \<or> normalized_max (rd_max_bytes i) <
       rows_bytes (take (Suc k) (drop (rd_after_seq i) (events_of (en_db (dm_engine dm)) (rd_execution_id i)))))"
proof -
  let ?db = "en_db (dm_engine dm)" and ?B = "ms_base64 M" and ?xid = "rd_execution_id i" and ?a = "rd_after_seq i"
  let ?max = "normalized_max (rd_max_bytes i)" and ?es = "drop ?a (events_of ?db ?xid)"
  obtain ex where al: "allowed_execution M (daemon_transport K V) (ids 0) ?xid dm = (Inr ex, dm)"
    using allowed_daemon [OF assms(3), of M K V "ids 0" ?xid] assms(4,5) by (auto simp: may_use_def)
  have mb: "?max < u64_max" using normalized_max_bounds [of "rd_max_bytes i"] by (simp add: MAX_OUTPUT_BYTES_def)
  obtain ro k where ro: "read_output ?B (e_clock (de_store V) 0) ?xid ?a ?max ?db = Inr ro"
      "ro_events ro = take k (drop ?a (event_log ?B ?xid ?db))" "k \<le> 4096" "k \<le> xr_last_seq x - ?a"
      "ro_next_seq ro = ?a + k" "ro_has_more ro \<longleftrightarrow> ?a + k < xr_last_seq x"
      "k < 4096 \<Longrightarrow> ?a + k < xr_last_seq x \<Longrightarrow> ?max < rows_bytes (take (Suc k) ?es)"
    using read_output_page [OF assms(3,4,6) mb, of ?B "e_clock (de_store V) 0"] by metis
  let ?rs = "take k ?es" and ?j = "fitting ?max (take k ?es)"
  have len: "length (events_of ?db ?xid) = xr_last_seq x" using length_event_log [OF assms(3,4)] by blast
  then have lk: "length ?rs = k" using ro(4) by simp
  have "map er_seq (events_of ?db ?xid) = [1..<Suc (xr_last_seq x)]"
    using log_of [OF assms(3,4)] by (simp add: log_ok_def)
  then have "map er_seq ?rs = take k (drop ?a [1..<Suc (xr_last_seq x)])"
    by (simp only: take_map [symmetric] drop_map [symmetric])
  then have seqs: "map er_seq ?rs = [Suc ?a..<Suc ?a + length ?rs]"
    using take_upt_all [of k ?a "xr_last_seq x"] by (metis length_map)
  have ok: "\<forall>r \<in> set ?rs. event_row_ok r" using events_ok [OF assms(3)] by (meson in_set_dropD in_set_takeD)
  have evs: "ro_events ro = map (decode_event ?B ?xid) ?rs"
    by (simp add: ro(2) event_log_def drop_map take_map)
  have conv: "convert_events ?B (rd_output_format i) (ro_events ro) ?max ?a =
      Inr (map (\<lambda>r. tool_event_of ?B (rd_output_format i) (decode_event ?B ?xid r)) (take ?j ?rs), ?j < length ?rs,
           ?max - rows_bytes (take ?j ?rs), ?a + ?j)"
    unfolding evs by (rule convert_rows [OF assms(1) ok seqs])
  have jk: "?j \<le> k" using fitting_le [of ?max ?rs] lk by simp
  define out where "out = \<lparr>to_execution = ro_execution ro,
      to_events = map (\<lambda>r. tool_event_of ?B (rd_output_format i) (decode_event ?B ?xid r)) (take ?j ?rs),
      to_next_seq = ?a + ?j, to_has_more = (ro_has_more ro \<or> ?j < length ?rs \<or> ?a + ?j < ro_next_seq ro), to_timed_out = False\<rparr>"
  have "mcp_read M (daemon_transport K V) ids i dm = (Inr out, dm)"
    using al ro(1) conv assms(2)
    by (simp add: mcp_read_def Let_def tool_call_daemon on_engine_def read_store_def normalized_max_request tool_of_def
        expect_output_def page_result_def out_def)
  moreover have "take ?j ?rs = take ?j ?es" using jk by (simp add: min_def)
  then have "to_events out = map (tool_event_of ?B (rd_output_format i)) (take ?j (drop ?a (event_log ?B ?xid ?db)))"
    and bytes: "rows_bytes (take ?j ?es) \<le> ?max"
    using fitting_bytes [of ?max ?rs] by (simp_all add: out_def event_log_def drop_map take_map)
  moreover have more: "to_has_more out \<longleftrightarrow> ?a + ?j < xr_last_seq x"
    using jk lk ro(4-6) by (auto simp: out_def)
  moreover have "4096 \<le> ?j \<or> ?max < rows_bytes (take (Suc ?j) ?es)" if "to_has_more out"
  proof (cases "?j < k")
    case True
    then have "take (Suc ?j) ?rs = take (Suc ?j) ?es" by (simp add: min_def)
    then show ?thesis using fitting_most [of ?max ?rs] True lk by simp
  next
    case False
    then have "?j = k" "?a + k < xr_last_seq x" using jk that more by simp_all
    then show ?thesis using ro(3,7) by (cases "k < 4096") simp_all
  qed
  ultimately show ?thesis
    using jk ro(4) by (intro exI [of _ out] exI [of _ ?j]) (simp add: out_def)
qed

text \<open>An agent that reads page after page, from the cursor the last page gave, while there is more; \<open>None\<close> when the
  number of calls is used up.\<close>

fun read_all ::
  "mcp_server \<Rightarrow> 's transport \<Rightarrow> (nat \<Rightarrow> nat \<Rightarrow> string) \<Rightarrow> nat \<Rightarrow> read_input \<Rightarrow> 's \<Rightarrow> tool_event list tool_result option \<times> 's" where
  "read_all M T ids 0 i s = (None, s)"
| "read_all M T ids (Suc n) i s =
     (case mcp_read M T (ids n) i s of
        (Inl e, s1) \<Rightarrow> (Some (Inl e), s1)
      | (Inr out, s1) \<Rightarrow>
          if to_has_more out then
            (case read_all M T ids n (i\<lparr>rd_after_seq := to_next_seq out\<rparr>) s1 of
               (r, s2) \<Rightarrow> (map_option (map_sum id ((@) (to_events out))) r, s2))
          else (Some (Inr (to_events out)), s1))"

lemma take_past: "length xs \<le> a + k \<Longrightarrow> take k (drop a xs) = drop a xs"
  by simp

lemma read_all_complete:
  assumes "b64_ok (ms_base64 M)" and "e_base64 (de_store V) = ms_base64 M" and "db_inv (en_db (dm_engine dm))"
    and "find_execution (rd_execution_id i) (en_db (dm_engine dm)) = Some x" and "xr_workspace_id x = ws_id (ms_workspace M)"
    and "rd_after_seq i \<le> xr_last_seq x" and "xr_last_seq x < 2 ^ 63" and "xr_last_seq x - rd_after_seq i < n"
    and "\<forall>r \<in> set (drop (rd_after_seq i) (events_of (en_db (dm_engine dm)) (rd_execution_id i))).
           event_bytes r \<le> normalized_max (rd_max_bytes i)"
  shows "read_all M (daemon_transport K V) ids n i dm =
    (Some (Inr (map (tool_event_of (ms_base64 M) (rd_output_format i))
       (drop (rd_after_seq i) (event_log (ms_base64 M) (rd_execution_id i) (en_db (dm_engine dm)))))), dm)"
  using assms(4-9)
proof (induction n arbitrary: i)
  case (Suc n)
  let ?db = "en_db (dm_engine dm)" and ?a = "rd_after_seq i" and ?xid = "rd_execution_id i"
  let ?L = "event_log (ms_base64 M) ?xid ?db" and ?f = "tool_event_of (ms_base64 M) (rd_output_format i)"
  have "?a < 2 ^ 63" using Suc.prems(3,4) by simp
  from read_daemon [OF assms(1-3) Suc.prems(1,2) this, of K "ids n"] obtain out k where
    out: "mcp_read M (daemon_transport K V) (ids n) i dm = (Inr out, dm)" "to_events out = map ?f (take k (drop ?a ?L))"
      "to_next_seq out = ?a + k" "k \<le> xr_last_seq x - ?a" "to_has_more out \<longleftrightarrow> ?a + k < xr_last_seq x"
      "to_has_more out \<longrightarrow> 4096 \<le> k \<or> normalized_max (rd_max_bytes i) < rows_bytes (take (Suc k) (drop ?a (events_of ?db ?xid)))"
    by metis
  have len: "length ?L = xr_last_seq x" "length (events_of ?db ?xid) = xr_last_seq x"
    using length_event_log [OF assms(3) Suc.prems(1)] by blast+
  show ?case
  proof (cases "to_has_more out")
    case False
    then have "take k (drop ?a ?L) = drop ?a ?L" using out(5) len by simp
    then show ?thesis using False out(1,2) by simp
  next
    case True
    then have last: "?a + k < xr_last_seq x" using out(5) by simp
    have "0 < k"
    proof (rule ccontr)
      assume "\<not> 0 < k"
      then have "k = 0" by simp
      then have "normalized_max (rd_max_bytes i) < rows_bytes (take 1 (drop ?a (events_of ?db ?xid)))"
        using out(6) True by simp
      moreover obtain r rs where "drop ?a (events_of ?db ?xid) = r # rs"
        using last len \<open>k = 0\<close> by (cases "drop ?a (events_of ?db ?xid)") auto
      ultimately show False using Suc.prems(6) by simp
    qed
    let ?i = "i\<lparr>rd_after_seq := ?a + k\<rparr>"
    have "\<forall>r \<in> set (drop (?a + k) (events_of ?db ?xid)). event_bytes r \<le> normalized_max (rd_max_bytes i)"
      using Suc.prems(6) set_drop_subset_set_drop [of ?a "?a + k" "events_of ?db ?xid"] by auto
    then have "read_all M (daemon_transport K V) ids n ?i dm = (Some (Inr (map ?f (drop (?a + k) ?L))), dm)"
      using Suc.IH [of ?i] Suc.prems \<open>0 < k\<close> last by simp
    moreover have "take k (drop ?a ?L) @ drop (?a + k) ?L = drop ?a ?L"
      by (metis append_take_drop_id drop_drop add.commute)
    ultimately show ?thesis using True out(1-3) by (simp flip: map_append)
  qed
qed simp

lemma read_all_stuck:
  assumes "b64_ok (ms_base64 M)" and "e_base64 (de_store V) = ms_base64 M" and "db_inv (en_db (dm_engine dm))"
    and "find_execution (rd_execution_id i) (en_db (dm_engine dm)) = Some x" and "xr_workspace_id x = ws_id (ms_workspace M)"
    and "xr_last_seq x < 2 ^ 63"
    and "r \<in> set (drop (rd_after_seq i) (events_of (en_db (dm_engine dm)) (rd_execution_id i)))"
    and "normalized_max (rd_max_bytes i) < event_bytes r"
  shows "read_all M (daemon_transport K V) ids n i dm = (None, dm)"
  using assms(4-8)
proof (induction n arbitrary: i)
  case (Suc n)
  let ?db = "en_db (dm_engine dm)" and ?a = "rd_after_seq i" and ?xid = "rd_execution_id i"
  let ?es = "drop ?a (events_of ?db ?xid)"
  have len: "length (events_of ?db ?xid) = xr_last_seq x"
    using length_event_log [OF assms(3) Suc.prems(1)] by blast
  have "?a < length (events_of ?db ?xid)" using Suc.prems(4) by (cases "?a < length (events_of ?db ?xid)") auto
  then have "?a < 2 ^ 63" using Suc.prems(3) len by simp
  from read_daemon [OF assms(1-3) Suc.prems(1,2) this, of K "ids n"] obtain out k where
    out: "mcp_read M (daemon_transport K V) (ids n) i dm = (Inr out, dm)" "to_next_seq out = ?a + k"
      "k \<le> xr_last_seq x - ?a" "to_has_more out \<longleftrightarrow> ?a + k < xr_last_seq x"
      "rows_bytes (take k ?es) \<le> normalized_max (rd_max_bytes i)"
    by metis
  have "r \<notin> set (take k ?es)"
  proof
    assume "r \<in> set (take k ?es)"
    then have "event_bytes r \<le> rows_bytes (take k ?es)"
      by (auto simp: rows_bytes_def intro: member_le_sum_list)
    then show False using out(5) Suc.prems(5) by simp
  qed
  moreover have "set ?es = set (take k ?es) \<union> set (drop k ?es)" by (metis append_take_drop_id set_append)
  ultimately have r: "r \<in> set (drop (?a + k) (events_of ?db ?xid))"
    using Suc.prems(4) by (auto simp: add.commute)
  then have "to_has_more out" using out(4) len by (cases "?a + k < length (events_of ?db ?xid)") auto
  then show ?case
    using Suc.IH [of "i\<lparr>rd_after_seq := ?a + k\<rparr>"] Suc.prems out(1,2) r by simp
qed simp

text \<open>C15: An agent that reads page after page while there is more, as the server's instructions tell it, gets the
  whole log from its cursor on, in at most one call per event and one more, exactly if no event holds more
  raw output than the budget of a call; otherwise it reads for ever.\<close>

theorem mcp_reading_ends:
  assumes "b64_ok (ms_base64 M)" and "e_base64 (de_store V) = ms_base64 M" and "db_inv (en_db (dm_engine dm))"
    and "find_execution (rd_execution_id i) (en_db (dm_engine dm)) = Some x" and "xr_workspace_id x = ws_id (ms_workspace M)"
    and "rd_after_seq i \<le> xr_last_seq x" and "xr_last_seq x < 2 ^ 63" and "xr_last_seq x - rd_after_seq i < n"
  shows "read_all M (daemon_transport K V) ids n i dm =
    (if \<exists>r \<in> set (drop (rd_after_seq i) (events_of (en_db (dm_engine dm)) (rd_execution_id i))).
          normalized_max (rd_max_bytes i) < event_bytes r
     then None
     else Some (Inr (map (tool_event_of (ms_base64 M) (rd_output_format i))
       (drop (rd_after_seq i) (event_log (ms_base64 M) (rd_execution_id i) (en_db (dm_engine dm)))))), dm)"
  using read_all_stuck [OF assms(1-5,7), of _ K ids n] read_all_complete [OF assms, of K ids] by (simp add: not_less) blast

definition demo_server :: mcp_server where
  "demo_server = \<lparr>ms_client = \<lparr>cl_socket = ''/r/loomd.sock'', cl_show_result = (\<lambda>_. ''?'')\<rparr>,
     ms_workspace = \<lparr>ws_id = ''w0'', ws_name = ''work'', ws_root = ''/w'', ws_created_at_ms = 1\<rparr>,
     ms_session_id = None, ms_display = demo_display, ms_base64 = demo_b64\<rparr>"

definition demo_read :: "nat \<Rightarrow> read_input" where
  "demo_read budget = \<lparr>rd_execution_id = ''a'', rd_after_seq = 1, rd_output_format = Text, rd_max_bytes = Some budget\<rparr>"

theorem mcp_reading_ends_witness:
  "fst (read_all demo_server (daemon_transport demo_config demo_daemon_env) (\<lambda>_ _. ''q'') 9 (demo_read 4) demo_daemon) = None"
proof -
  let ?dm = demo_daemon
  have B: "b64_ok (ms_base64 demo_server)" "e_base64 (de_store demo_daemon_env) = ms_base64 demo_server"
    by (simp_all add: b64_ok_def demo_server_def demo_b64_def demo_daemon_env_def demo_env_def)
  have x: "db_inv (en_db (dm_engine ?dm))" "find_execution (rd_execution_id (demo_read 4)) (en_db (dm_engine ?dm)) = Some demo_a"
    by (simp_all add: demo_inv demo_lookups demo_read_def)
  have w: "xr_workspace_id demo_a = ws_id (ms_workspace demo_server)" by (simp add: demo_defs demo_server_def)
  have a: "rd_after_seq (demo_read 4) \<le> xr_last_seq demo_a" "xr_last_seq demo_a < 2 ^ 63"
      "xr_last_seq demo_a - rd_after_seq (demo_read 4) < 9"
    by (simp_all add: demo_read_def demo_rows)
  have big: "\<exists>r \<in> set (drop (rd_after_seq (demo_read 4)) (events_of (en_db (dm_engine ?dm)) (rd_execution_id (demo_read 4)))).
      normalized_max (rd_max_bytes (demo_read 4)) < event_bytes r"
    by (simp add: demo_read_def demo_events normalized_max_def clamp_def MAX_OUTPUT_BYTES_def output_row_def event_bytes_def)
  from mcp_reading_ends [OF B x w a, of demo_config "\<lambda>_ _. ''q''"] big show ?thesis by simp
qed

section \<open>One workspace\<close>

text \<open>C17: An execution of another workspace, or an unknown one, cannot be read, awaited, inspected or cancelled
  through the server: each tool answers with an error and the daemon is as before.\<close>

theorem mcp_confined:
  assumes "db_inv (en_db (dm_engine dm))" and "\<not> may_use M dm xid"
  shows "\<exists>e. mcp_get M (daemon_transport K V) ids xid dm = (Inl e, dm) \<and>
      mcp_cancel M (daemon_transport K V) ids xid dm = (Inl e, dm) \<and>
      (rd_execution_id i = xid \<longrightarrow> mcp_read M (daemon_transport K V) ids i dm = (Inl e, dm)) \<and>
      (wi_execution_id j = xid \<longrightarrow> mcp_wait M (daemon_transport K V) ids j dm = (Inl e, dm))"
proof -
  obtain r where r: "allowed_execution M (daemon_transport K V) (ids 0) xid dm = (r, dm)" "\<not> (\<exists>ex. r = Inr ex)"
    using allowed_daemon [OF assms(1), of M K V "ids 0" xid] assms(2) by blast
  then obtain e where "r = Inl e" by (cases r) auto
  then show ?thesis using r(1) by (intro exI [of _ e]) (auto simp: mcp_get_def mcp_cancel_def mcp_read_def mcp_wait_def)
qed

theorem mcp_confined_witness:
  "\<exists>e. mcp_cancel (demo_server\<lparr>ms_workspace := \<lparr>ws_id = ''w9'', ws_name = ''other'', ws_root = ''/v'', ws_created_at_ms = 1\<rparr>\<rparr>)
      (daemon_transport demo_config demo_daemon_env) (\<lambda>_. ''q'') ''b'' demo_daemon = (Inl e, demo_daemon)"
proof -
  let ?M = "demo_server\<lparr>ms_workspace := \<lparr>ws_id = ''w9'', ws_name = ''other'', ws_root = ''/v'', ws_created_at_ms = 1\<rparr>\<rparr>"
  have "\<not> may_use ?M demo_daemon ''b''" by (simp add: may_use_def demo_lookups) (simp add: demo_defs)
  from mcp_confined [OF _ this, of demo_config demo_daemon_env "\<lambda>_. ''q''"] show ?thesis by (auto simp: demo_inv)
qed

lemma mcp_list_daemon:
  "mcp_list M (daemon_transport K V) ids limit dm =
     (case list_executions (e_clock (de_store V)) (Some (ws_id (ms_workspace M)))
             (clamp 1 1000 (min (case limit of Some l \<Rightarrow> l | None \<Rightarrow> 100) 1000)) (en_db (dm_engine dm)) of
        Inl e \<Rightarrow> (tool_of M (Inl (remote_error K e)), dm)
      | Inr executions \<Rightarrow> (Inr executions, dm))"
  by (simp add: mcp_list_def tool_call_daemon on_engine_def read_store_def split: sum.split)
    (simp add: tool_of_def expect_executions_def)

text \<open>\<open>loom_list\<close> shows executions of the server's own workspace only, provided no workspace is named like
  that workspace's identifier.\<close>

theorem mcp_list_confined:
  assumes "db_inv (en_db (dm_engine dm))"
    and "\<forall>w \<in> set (db_workspaces (en_db (dm_engine dm))). ws_name (wk_workspace w) \<noteq> ws_id (ms_workspace M)"
    and "mcp_list M (daemon_transport K V) ids limit dm = (Inr executions, dm')"
  shows "dm' = dm \<and> (\<forall>ex \<in> set executions. ex_workspace_id ex = ws_id (ms_workspace M)) \<and> length executions \<le> 1000"
proof -
  let ?db = "en_db (dm_engine dm)" and ?w = "ws_id (ms_workspace M)"
  let ?n = "clamp 1 1000 (min (case limit of Some l \<Rightarrow> l | None \<Rightarrow> 100) 1000)"
  let ?rows = "take ?n (order_by_desc xr_created_at_ms (filter (execution_of_workspace ?w ?db) (db_executions ?db)))"
  have l: "list_executions (e_clock (de_store V)) (Some ?w) ?n ?db = Inr executions \<and> dm' = dm"
    using assms(3) unfolding mcp_list_daemon by (simp add: tool_of_def split: sum.split_asm)
  then have c: "collect_res (map (\<lambda>(i, r). execution_from_row (e_clock (de_store V) i) r) (enumerate 0 ?rows)) = Inr executions"
    by (simp add: list_executions_def read_executions_def)
  have "ex_workspace_id ex = ?w" if ex: "ex \<in> set executions" for ex
  proof -
    obtain i r where r: "r \<in> set ?rows" "execution_from_row (e_clock (de_store V) i) r = Inr ex"
      using collect_res_mem [OF c ex] enumerate_row by fastforce
    then have "r \<in> set (filter (execution_of_workspace ?w ?db) (db_executions ?db))"
      by (metis in_set_takeD set_order_by_desc)
    then have "xr_workspace_id r = ?w" using assms(2) by (auto simp: execution_of_workspace_def list_ex_iff)
    then show ?thesis using r(2) by (cases "parse_state 2 (xr_state r)") (auto simp: execution_from_row_def)
  qed
  moreover have "length executions \<le> 1000"
  proof -
    have "length executions = length (enumerate 0 ?rows)" using collect_res_length [OF c] by simp
    moreover have "?n \<le> 1000" by (simp add: clamp_def)
    ultimately show ?thesis by simp
  qed
  ultimately show ?thesis using l by blast
qed

theorem mcp_list_confined_witness:
  "\<exists>executions. fst (mcp_list demo_server (daemon_transport demo_config demo_daemon_env) (\<lambda>_. ''q'') None demo_daemon) =
     Inr executions \<and> (\<forall>ex \<in> set executions. ex_workspace_id ex = ''w0'')"
proof -
  let ?T = "daemon_transport demo_config demo_daemon_env"
  have h: "\<forall>w \<in> set (db_workspaces (en_db (dm_engine demo_daemon))). ws_name (wk_workspace w) \<noteq> ws_id (ms_workspace demo_server)"
    by (simp add: demo_db_def demo_server_def)
  have "\<exists>executions dm'. mcp_list demo_server ?T (\<lambda>_. ''q'') None demo_daemon = (Inr executions, dm')"
    using list_executions_some [OF demo_inv, of "e_clock (de_store demo_daemon_env)"
        "Some (ws_id (ms_workspace demo_server))" "clamp 1 1000 100"]
    by (auto simp: mcp_list_daemon)
  then obtain executions dm' where m: "mcp_list demo_server ?T (\<lambda>_. ''q'') None demo_daemon = (Inr executions, dm')" by blast
  from mcp_list_confined [OF _ h m] m show ?thesis by (simp add: demo_inv demo_server_def)
qed

section \<open>The budget of a run\<close>

definition te_raw :: "tool_event \<Rightarrow> nat" where
  "te_raw te = (case te_payload te of TeOutput _ n _ _ _ \<Rightarrow> n | _ \<Rightarrow> 0)"

definition shown_bytes :: "tool_event list \<Rightarrow> nat" where
  "shown_bytes tes = sum_list (map te_raw tes)"

lemma convert_event_raw:
  "event_raw_bytes B ev = Inr n \<Longrightarrow> convert_event B fmt ev = Inr te \<Longrightarrow> te_raw te = n \<and> te_seq te = ev_seq ev"
proof (cases "ev_payload ev")
  case (EvOutput stream data)
  assume "event_raw_bytes B ev = Inr n" "convert_event B fmt ev = Inr te"
  then show ?thesis using EvOutput
    by (cases "persisted_output B data")
      (auto simp: event_raw_bytes_def convert_event_def te_raw_def split: output_format.splits sum.splits)
qed (auto simp: event_raw_bytes_def convert_event_def te_raw_def)

lemma convert_events_budget:
  assumes "convert_events B fmt evs budget cursor = Inr (tes, stopped, rest, cursor')"
  shows "shown_bytes tes + rest = budget \<and> cursor' = (if tes = [] then cursor else te_seq (last tes))"
  using assms
proof (induction evs arbitrary: budget cursor tes)
  case Nil
  then show ?case by (simp add: shown_bytes_def)
next
  case (Cons ev evs)
  obtain n where n: "event_raw_bytes B ev = Inr n" using Cons.prems by (cases "event_raw_bytes B ev") auto
  show ?case
  proof (cases "n > budget")
    case True
    then show ?thesis using Cons.prems n by (auto simp: shown_bytes_def)
  next
    case False
    then obtain te tes' where te: "convert_event B fmt ev = Inr te" "tes = te # tes'"
        "convert_events B fmt evs (budget - n) (ev_seq ev) = Inr (tes', stopped, rest, cursor')"
      using Cons.prems n by (cases "convert_event B fmt ev"; cases "convert_events B fmt evs (budget - n) (ev_seq ev)") auto
    show ?thesis using Cons.IH [OF te(3)] convert_event_raw [OF n te(1)] te(2) False
      by (cases "tes' = []") (auto simp: shown_bytes_def)
  qed
qed

definition run_within :: "nat \<Rightarrow> run_loop \<Rightarrow> bool" where
  "run_within budget l \<longleftrightarrow> shown_bytes (rl_events l) + rl_remaining l = budget \<and>
     rl_cursor l = (if rl_events l = [] then 0 else te_seq (last (rl_events l)))"

lemma run_loop_within:
  assumes "run_loop_steps M T fmt deadline steps l s = (Some (Inr l'), s')" and "run_within budget l"
  shows "run_within budget l'"
  using assms
proof (induction steps arbitrary: l s)
  case (Cons step steps)
  obtain rid now now' where step: "step = (rid, now, now')" by (cases step)
  show ?case
  proof (cases "is_terminal (ex_state (rl_current l)) \<or> deadline \<le> now \<or> rl_remaining l = 0")
    case True
    then show ?thesis using Cons.prems step by simp
  next
    case False
    let ?t = "max 1 ((deadline - now') div 1000000)"
    obtain r s1 where c: "tool_call M T expect_wait rid (OpWait (ex_id (rl_current l)) (rl_cursor l) ?t (rl_remaining l)) s = (r, s1)"
      by (cases "tool_call M T expect_wait rid (OpWait (ex_id (rl_current l)) (rl_cursor l) ?t (rl_remaining l)) s")
    obtain w where w: "r = Inr w" using Cons.prems(1) step False c by (cases r) (auto simp: Let_def)
    obtain tes stopped rest cursor where e:
      "convert_events (ms_base64 M) fmt (wr_events w) (rl_remaining l) (rl_cursor l) = Inr (tes, stopped, rest, cursor)"
      using Cons.prems(1) step False c w
      by (cases "convert_events (ms_base64 M) fmt (wr_events w) (rl_remaining l) (rl_cursor l)") (auto simp: Let_def)
    let ?l = "\<lparr>rl_current = wr_execution w, rl_events = rl_events l @ tes, rl_cursor = cursor, rl_remaining = rest,
               rl_has_more = (wr_has_more w \<or> stopped \<or> cursor < wr_next_seq w)\<rparr>"
    have "run_within budget ?l"
      using convert_events_budget [OF e] Cons.prems(2) by (auto simp: run_within_def shown_bytes_def)
    then show ?thesis using Cons.prems(1) Cons.IH [of ?l s1] step False c w e by (auto simp: Let_def split: if_split_asm)
  qed
qed simp

text \<open>Whatever the daemon answers, the output \<open>loom_run\<close> shows is at most the budget, and the cursor it returns
  is that of the last event shown, so that \<open>loom_read\<close> goes on where it stopped.\<close>

theorem mcp_run_within_budget:
  assumes "mcp_run M T rid now steps i s = (Some (Inr out), s')"
  shows "shown_bytes (to_events out) \<le> normalized_max (ri_max_bytes i) \<and> normalized_max (ri_max_bytes i) \<le> MAX_OUTPUT_BYTES \<and>
    to_next_seq out = (if to_events out = [] then 0 else te_seq (last (to_events out)))"
proof -
  obtain command where c: "run_command i = Inr command" using assms by (cases "run_command i") (auto simp: mcp_run_def)
  obtain r s1 where t: "tool_call M T expect_execution rid (OpExecute (run_request M i command)) s = (r, s1)"
    by (cases "tool_call M T expect_execution rid (OpExecute (run_request M i command)) s")
  obtain execution where x: "r = Inr execution" using assms c t by (cases r) (auto simp: mcp_run_def)
  let ?l = "\<lparr>rl_current = execution, rl_events = [], rl_cursor = 0, rl_remaining = normalized_max (ri_max_bytes i), rl_has_more = False\<rparr>"
  obtain d r' where r: "run_loop_steps M T (ri_output_format i) d steps ?l s1 = (r', s')" "map_option (\<lambda>r. bind_res r (\<lambda>l. Inr (run_result l))) r' = Some (Inr out)"
    using assms c t x by (auto simp: mcp_run_def Let_def split: prod.split_asm)
  then obtain l where l: "r' = Some (Inr l)" "out = run_result l" by (auto simp: bind_res_Inr_iff)
  have "run_within (normalized_max (ri_max_bytes i)) l"
    using run_loop_within [OF r(1) [unfolded l(1)], of "normalized_max (ri_max_bytes i)"] by (simp add: run_within_def shown_bytes_def)
  then show ?thesis using l(2) normalized_max_bounds(2) by (auto simp: run_within_def run_result_def)
qed

text \<open>A daemon that answers from a list.\<close>

fun scripted :: "protocol_result list transport" where
  "scripted m [] = (NotConnected, [])"
| "scripted m (r # rs) = (ReplyFrame (Inr (wire_ok ''q'' r)), rs)"

definition demo_run :: run_input where
  "demo_run = \<lparr>ri_cwd = None, ri_program = Some ''ls'', ri_args = [], ri_shell_command = None, ri_shell_program = None, ri_env = [],
     ri_stdin_base64 = None, ri_wait_ms = None, ri_capture_limit_bytes = None, ri_output_format = Text, ri_max_bytes = Some 6\<rparr>"

definition demo_wait :: "execution \<Rightarrow> wait_response" where
  "demo_wait ex = \<lparr>wr_execution = ex, wr_events = [output_event demo_b64 ''b'' 1 42 Stdout ''hello'', output_event demo_b64 ''b'' 2 43 Stdout ''more''],
     wr_next_seq = 2, wr_has_more = False, wr_timed_out = False\<rparr>"

theorem mcp_run_within_budget_witness:
  "\<exists>ex out s'. mcp_run demo_server scripted ''q'' 0 [(''q'', 1, 1)] demo_run [PExecution ex, PWait (demo_wait ex)] = (Some (Inr out), s') \<and>
     map te_seq (to_events out) = [1] \<and> shown_bytes (to_events out) \<le> 6 \<and> to_next_seq out = 1"
proof -
  obtain ex :: execution where ex: "ex_state ex = Running"
    using get_execution_some [OF demo_inv demo_lookups(2), of 80] row_state_str [of demo_b Running] by (auto simp: demo_rows)
  let ?run = "mcp_run demo_server scripted ''q'' 0 [(''q'', 1, 1)] demo_run [PExecution ex, PWait (demo_wait ex)]"
  have u: "from_utf8 ''hello'' = Inr ''hello''" by (simp add: from_utf8_Inr_iff) code_simp
  obtain out s' where r: "?run = (Some (Inr out), s')" "map te_seq (to_events out) = [1]"
    using ex by (simp add: mcp_run_def demo_run_def tool_call_def call_expect_def client_call_def wire_request_def wire_ok_def
        demo_server_def tool_of_def expect_execution_def expect_wait_def demo_wait_def normalized_max_def clamp_def MAX_OUTPUT_BYTES_def
        event_raw_bytes_def persisted_output_def output_event_def demo_b64_def convert_event_def u run_result_def)
  show ?thesis using mcp_run_within_budget [OF r(1)] r
    by (intro exI [of _ ex] exI [of _ out] exI [of _ s'])
      (auto simp: demo_run_def normalized_max_def clamp_def MAX_OUTPUT_BYTES_def last_map [symmetric] split: if_split_asm)
qed

section \<open>The output of an execution\<close>

text \<open>The bytes of a stream an event shows, and the bytes of a stream the store holds.\<close>

definition te_bytes :: "base64 \<Rightarrow> output_stream \<Rightarrow> tool_event \<Rightarrow> bytes" where
  "te_bytes B stream te = (case te_payload te of
     TeOutput s n (Some t) None None \<Rightarrow> (if s = stream then t else [])
   | TeOutput s n None (Some d) None \<Rightarrow> (if s = stream then projr (b64_decode B d) else [])
   | _ \<Rightarrow> [])"

definition te_lossy :: "tool_event \<Rightarrow> bool" where
  "te_lossy te = (case te_payload te of TeOutput _ _ _ _ (Some l) \<Rightarrow> l | _ \<Rightarrow> False)"

definition ill_formed :: "event_row \<Rightarrow> bool" where
  "ill_formed r \<longleftrightarrow> (case er_data r of Some d \<Rightarrow> valid_up_to d \<noteq> length d | None \<Rightarrow> False)"

lemma converted_bytes:
  assumes "b64_ok B" and "event_row_ok r"
  shows "te_lossy (tool_event_of B fmt (decode_event B xid r)) \<longleftrightarrow> fmt = Text \<and> ill_formed r"
    and "\<not> te_lossy (tool_event_of B fmt (decode_event B xid r)) \<Longrightarrow>
      te_bytes B stream (tool_event_of B fmt (decode_event B xid r)) = row_bytes stream r"
proof -
  let ?te = "tool_event_of B fmt (decode_event B xid r)"
  have both: "(te_lossy ?te \<longleftrightarrow> fmt = Text \<and> ill_formed r) \<and> (\<not> te_lossy ?te \<longrightarrow> te_bytes B stream ?te = row_bytes stream r)"
  proof (cases "er_kind r = ''output''")
    case True
    then obtain d s where d: "er_data r = Some d" "er_stream r = Some (stream_str s)"
      using assms(2) by (auto simp: event_row_ok_def intro: that [of _ Stdout] that [of _ Stderr])
    then have dec: "decode_event B xid r = output_event B xid (er_seq r) (er_timestamp_ms r) s d"
      using True by (cases s) (auto simp: decode_event_def event_from_row_def Let_def)
    have p: "te_payload ?te = (case fmt of
        Text \<Rightarrow> (case from_utf8 d of Inr t \<Rightarrow> TeOutput s (length d) (Some t) None None
               | Inl _ \<Rightarrow> TeOutput s (length d) (Some (from_utf8_lossy d)) None (Some True))
      | Base64 \<Rightarrow> TeOutput s (length d) None (Some (b64_encode B d)) None)"
      using assms(1) by (simp add: dec tool_event_of_def convert_event_def output_event_def persisted_output_def b64_ok_def)
    have u: "from_utf8 d = (if valid_up_to d = length d then Inr d else from_utf8 d)"
      using from_utf8_Inr_iff [of d d] by auto
    have v: "valid_up_to d \<noteq> length d \<Longrightarrow> \<exists>e. from_utf8 d = Inl e"
      using from_utf8_Inr_iff [of d] by (cases "from_utf8 d") auto
    have st: "stream_str s = stream_str stream \<longleftrightarrow> s = stream" by (cases s; cases stream) simp_all
    show ?thesis
    proof (cases "valid_up_to d = length d")
      case True
      then show ?thesis using u p d st assms(1)
        by (cases fmt) (auto simp: te_lossy_def te_bytes_def ill_formed_def row_bytes_def b64_ok_def)
    next
      case False
      then obtain e where "from_utf8 d = Inl e" using v by blast
      then show ?thesis using False p d st assms(1)
        by (cases fmt) (auto simp: te_lossy_def te_bytes_def ill_formed_def row_bytes_def b64_ok_def)
    qed
  next
    case False
    then show ?thesis using assms(2)
      by (auto simp: event_row_ok_def decode_event_def event_from_row_def tool_event_of_def convert_event_def Let_def
          te_lossy_def te_bytes_def ill_formed_def row_bytes_def)
  qed
  show "te_lossy ?te \<longleftrightarrow> fmt = Text \<and> ill_formed r" using both by blast
  show "te_bytes B stream ?te = row_bytes stream r" if "\<not> te_lossy ?te" using both that by blast
qed

text \<open>C16: The output an agent has read from the beginning is, for each stream, byte for byte the captured output,
  unless an event is marked lossy; in the base64 format none is, and in the text format exactly those whose
  captured piece is not valid UTF-8 on its own.\<close>

theorem mcp_output_roundtrip:
  assumes "b64_ok (ms_base64 M)" and "e_base64 (de_store V) = ms_base64 M" and "db_inv (en_db (dm_engine dm))"
    and "find_execution (rd_execution_id i) (en_db (dm_engine dm)) = Some x" and "xr_workspace_id x = ws_id (ms_workspace M)"
    and "rd_after_seq i = 0" and "xr_last_seq x < 2 ^ 63" and "xr_last_seq x < n"
    and "\<forall>r \<in> set (events_of (en_db (dm_engine dm)) (rd_execution_id i)). event_bytes r \<le> normalized_max (rd_max_bytes i)"
  shows "\<exists>tes. read_all M (daemon_transport K V) ids n i dm = (Some (Inr tes), dm) \<and>
    ((\<exists>te \<in> set tes. te_lossy te) \<longleftrightarrow>
      rd_output_format i = Text \<and> (\<exists>r \<in> set (events_of (en_db (dm_engine dm)) (rd_execution_id i)). ill_formed r)) \<and>
    ((\<exists>te \<in> set tes. te_lossy te) \<or>
      (\<forall>stream. concat (map (te_bytes (ms_base64 M) stream) tes) =
                concat (map (row_bytes stream) (events_of (en_db (dm_engine dm)) (rd_execution_id i)))))"
proof -
  let ?es = "events_of (en_db (dm_engine dm)) (rd_execution_id i)" and ?B = "ms_base64 M"
  let ?f = "\<lambda>r. tool_event_of ?B (rd_output_format i) (decode_event ?B (rd_execution_id i) r)"
  have ok: "event_row_ok r" if "r \<in> set ?es" for r using events_ok [OF assms(3) that] .
  have all: "read_all M (daemon_transport K V) ids n i dm = (Some (Inr (map ?f ?es)), dm)"
    using read_all_complete [OF assms(1-5), of n K ids] assms(6-9) by (simp add: event_log_def comp_def)
  have lossy: "(\<exists>te \<in> set (map ?f ?es). te_lossy te) \<longleftrightarrow> rd_output_format i = Text \<and> (\<exists>r \<in> set ?es. ill_formed r)"
    using converted_bytes(1) [OF assms(1) ok] by auto
  have "concat (map (te_bytes ?B stream) (map ?f ?es)) = concat (map (row_bytes stream) ?es)"
    if "\<not> (\<exists>te \<in> set (map ?f ?es). te_lossy te)" for stream
    using that converted_bytes(2) [OF assms(1) ok] by (auto simp: comp_def intro!: arg_cong [of _ _ concat] map_cong)
  then show ?thesis using all lossy by blast
qed

theorem mcp_output_roundtrip_witness:
  "\<exists>tes. fst (read_all demo_server (daemon_transport demo_config demo_daemon_env) (\<lambda>_ _. ''q'') 9
       ((demo_read 100)\<lparr>rd_after_seq := 0, rd_output_format := Base64\<rparr>) demo_daemon) = Some (Inr tes) \<and>
     concat (map (te_bytes demo_b64 Stdout) tes) = ''hello''"
proof -
  let ?i = "(demo_read 100)\<lparr>rd_after_seq := 0, rd_output_format := Base64\<rparr>"
  have B: "b64_ok (ms_base64 demo_server)" "e_base64 (de_store demo_daemon_env) = ms_base64 demo_server"
    by (simp_all add: b64_ok_def demo_server_def demo_b64_def demo_daemon_env_def demo_env_def)
  have x: "db_inv (en_db (dm_engine demo_daemon))" "find_execution (rd_execution_id ?i) (en_db (dm_engine demo_daemon)) = Some demo_a"
    by (simp_all add: demo_inv demo_lookups demo_read_def)
  have w: "xr_workspace_id demo_a = ws_id (ms_workspace demo_server)" by (simp add: demo_defs demo_server_def)
  have a: "rd_after_seq ?i = 0" "xr_last_seq demo_a < 2 ^ 63" "xr_last_seq demo_a < 9" by (simp_all add: demo_rows)
  have e: "events_of (en_db (dm_engine demo_daemon)) (rd_execution_id ?i) = events_of demo_db ''a''" by (simp add: demo_read_def)
  have small: "\<forall>r \<in> set (events_of (en_db (dm_engine demo_daemon)) (rd_execution_id ?i)). event_bytes r \<le> normalized_max (rd_max_bytes ?i)"
    unfolding e by (simp add: demo_read_def demo_events normalized_max_def clamp_def MAX_OUTPUT_BYTES_def output_row_def event_bytes_def
        started_row_def truncated_row_def finished_row_def)
  from mcp_output_roundtrip [OF B x w a small, of demo_config "\<lambda>_ _. ''q''", unfolded e] show ?thesis
    by (auto simp: demo_events row_bytes_def output_row_def started_row_def truncated_row_def finished_row_def demo_server_def)
qed

section \<open>The workspace of a project\<close>

lemma contains_cwd_prefix: "contains_cwd cwd w \<longleftrightarrow> prefix (components (ws_root w)) (components cwd)"
  by (auto simp: contains_cwd_def path_eq_def path_starts_with_def)

text \<open>The server works in the innermost registered workspace that contains its directory: every registered root
  that contains the directory contains the chosen root. Without one it refuses to start.\<close>

theorem project_workspace_innermost:
  "case for_current_project (Inr ws) (Inr cwd) of
      Inl e \<Rightarrow> (\<forall>w \<in> set ws. \<not> prefix (components (ws_root w)) (components cwd))
    | Inr w \<Rightarrow> w \<in> set ws \<and> prefix (components (ws_root w)) (components cwd) \<and>
        (\<forall>v \<in> set ws. prefix (components (ws_root v)) (components cwd) \<longrightarrow>
           prefix (components (ws_root v)) (components (ws_root w)))"
proof (cases "select_project_workspace ws cwd")
  case None
  then show ?thesis
    by (auto simp: for_current_project_def ok_or_def select_project_workspace_def filter_empty_conv contains_cwd_prefix)
next
  case (Some w)
  then have w: "w \<in> set ws" "prefix (components (ws_root w)) (components cwd)"
    and longest: "\<forall>v \<in> set ws. contains_cwd cwd v \<longrightarrow> length (components (ws_root v)) \<le> length (components (ws_root w))"
    using max_by_key_Some [of _ "filter (contains_cwd cwd) ws" w]
    by (auto simp: select_project_workspace_def contains_cwd_prefix)
  have "prefix (components (ws_root v)) (components (ws_root w))"
    if "v \<in> set ws" "prefix (components (ws_root v)) (components cwd)" for v
    using that w(2) longest by (auto simp: contains_cwd_prefix intro: prefix_length_prefix)
  then show ?thesis using Some w by (simp add: for_current_project_def ok_or_def)
qed

theorem project_workspace_innermost_witness:
  "\<exists>w. for_current_project (Inr [\<lparr>ws_id = ''w1'', ws_name = ''a'', ws_root = ''/a'', ws_created_at_ms = 1\<rparr>,
       \<lparr>ws_id = ''w2'', ws_name = ''b'', ws_root = ''/a/b'', ws_created_at_ms = 2\<rparr>]) (Inr ''/a/b/c'') = Inr w \<and> ws_id w = ''w2''"
proof -
  let ?ws = "[\<lparr>ws_id = ''w1'', ws_name = ''a'', ws_root = ''/a'', ws_created_at_ms = 1\<rparr>,
       \<lparr>ws_id = ''w2'', ws_name = ''b'', ws_root = ''/a/b'', ws_created_at_ms = 2\<rparr>]"
  have c: "prefix (components ''/a'') (components ''/a/b/c'')" "prefix (components ''/a/b'') (components ''/a/b/c'')"
      "\<not> prefix (components ''/a/b'') (components ''/a'')"
    by (simp_all add: components_def is_absolute_def named_components_def)
  show ?thesis
    using project_workspace_innermost [of ?ws "''/a/b/c''"] c
    by (cases "for_current_project (Inr ?ws) (Inr ''/a/b/c'')") auto
qed

end
