(* ===== verification/AgentHooks.thy ===== *)
theory AgentHooks
  imports Json Client Iterators
begin

text \<open>
  The hooks coding agents call (\<open>src/agent.rs\<close> and \<open>record_agent_hook_event\<close> in \<open>src/bin/loom.rs\<close>): the
  answer that denies the native shell, the session a hook event belongs to, the event it stands for, and the
  search for an execution's identifier in a tool's response. Reading JSON text is an argument.
\<close>

definition MAX_HOOK_INPUT_BYTES :: nat where
  "MAX_HOOK_INPUT_BYTES = 1024 * 1024"

section \<open>Shell routing\<close>

definition routing_reason :: string where
  "routing_reason =
     ''Native Bash is disabled for this Loomterm session. Retry the same operation with '' @
     ''the Loomterm MCP loom_run tool. Use program and args for a simple argv command, or '' @
     ''shell_command when shell syntax is required. Preserve the requested cwd and environment. '' @
     ''Do not fall back to native Bash. If the command requires an interactive PTY, tell the user '' @
     ''to relaunch with --allow-native-shell.''"

definition strict_shell_routing_response :: "json \<Rightarrow> json option" where
  "strict_shell_routing_response input =
     Option.bind (as_object input) (\<lambda>ms.
     Option.bind (map_of ms ''hook_event_name'') (\<lambda>event. Option.bind (as_str event) (\<lambda>event_name.
       if event_name \<noteq> ''PreToolUse'' then None
       else
     Option.bind (map_of ms ''tool_name'') (\<lambda>tool. Option.bind (as_str tool) (\<lambda>tool_name.
       if \<not> eq_ignore_ascii_case tool_name ''bash'' then None
       else Some (JObject [(''hookSpecificOutput'', JObject
         [(''hookEventName'', JString ''PreToolUse''),
          (''permissionDecision'', JString ''deny''),
          (''permissionDecisionReason'', JString routing_reason)])]))))))"

section \<open>The session of a hook event\<close>

definition hook_cwd :: "json \<Rightarrow> string option" where
  "hook_cwd input = Option.bind (get_member ''cwd'' input) as_str"

definition session_matches :: "string \<Rightarrow> string \<Rightarrow> agent_session \<Rightarrow> bool" where
  "session_matches provider cwd s \<longleftrightarrow>
     as_state s = Recording \<and>
     (eq_ignore_ascii_case (as_agent_kind s) provider \<or> eq_ignore_ascii_case (as_agent_kind s) ''generic'') \<and>
     (path_eq cwd (as_cwd s) \<or> path_starts_with cwd (as_cwd s))"

definition select_active_session_id :: "agent_session list \<Rightarrow> string \<Rightarrow> string \<Rightarrow> string option" where
  "select_active_session_id sessions provider cwd = map_option as_id (find (session_matches provider cwd) sessions)"

section \<open>An execution's identifier in a tool's response\<close>

definition named_execution :: "(string \<times> json) list \<Rightarrow> string option" where
  "named_execution ms =
     (case Option.bind (map_of ms ''execution_id'') as_str of
        Some i \<Rightarrow> Some i
      | None \<Rightarrow> Option.bind (Option.bind (Option.bind (map_of ms ''execution'') as_object) (\<lambda>e. map_of e ''id'')) as_str)"

function find_execution_id_at_depth :: "(string \<Rightarrow> json option) \<Rightarrow> json \<Rightarrow> nat \<Rightarrow> string option" where
  "find_execution_id_at_depth parse v depth =
     (if depth > 8 then None
      else case v of
        JObject ms \<Rightarrow>
          (case named_execution ms of
             Some i \<Rightarrow> Some i
           | None \<Rightarrow> first_some (\<lambda>m. find_execution_id_at_depth parse (snd m) (depth + 1)) ms)
      | JArray vs \<Rightarrow> first_some (\<lambda>w. find_execution_id_at_depth parse w (depth + 1)) vs
      | JString text \<Rightarrow>
          if length text \<le> MAX_HOOK_INPUT_BYTES then
            (case parse text of
               Some w \<Rightarrow> find_execution_id_at_depth parse w (depth + 1)
             | None \<Rightarrow> None)
          else None
      | _ \<Rightarrow> None)"
  by pat_completeness auto
termination
  by (relation "measure (\<lambda>(parse, v, depth). 9 - depth)") auto

declare find_execution_id_at_depth.simps [simp del]

definition find_execution_id :: "(string \<Rightarrow> json option) \<Rightarrow> json \<Rightarrow> string option" where
  "find_execution_id parse v = find_execution_id_at_depth parse v 0"

section \<open>The event\<close>

definition optional_string :: "json option \<Rightarrow> string option" where
  "optional_string value = Option.bind value as_str"

definition required_string :: "json option \<Rightarrow> string \<Rightarrow> string result" where
  "required_string value name =
     ok_or (InvalidRequest (''hook field '' @ name @ '' must be a string''))
       (case optional_string value of Some s \<Rightarrow> if s = [] then None else Some s | None \<Rightarrow> None)"

definition hook_event :: "(string \<Rightarrow> json option) \<Rightarrow> (string \<times> json) list \<Rightarrow> string \<Rightarrow> agent_event option result" where
  "hook_event parse ms name =
     (if name = ''UserPromptSubmit'' then
        bind_res (required_string (map_of ms ''prompt'') ''prompt'') (\<lambda>prompt. Inr (Some (PromptSubmitted prompt)))
      else if name = ''PreToolUse'' then
        bind_res (required_string (map_of ms ''tool_use_id'') ''tool_use_id'') (\<lambda>action_id.
        bind_res (required_string (map_of ms ''tool_name'') ''tool_name'') (\<lambda>tool_name.
          Inr (Some (ToolStarted action_id tool_name))))
      else if name = ''PostToolUse'' \<or> name = ''PostToolUseFailure'' then
        bind_res (required_string (map_of ms ''tool_use_id'') ''tool_use_id'') (\<lambda>action_id.
        bind_res (required_string (map_of ms ''tool_name'') ''tool_name'') (\<lambda>tool_name.
          Inr (Some (ToolFinished action_id tool_name (name = ''PostToolUseFailure'')
            (Option.bind (map_of ms ''tool_response'') (find_execution_id parse))))))
      else if name = ''Stop'' \<or> name = ''StopFailure'' then
        Inr (Some (TurnFinished (name = ''StopFailure'') (optional_string (map_of ms ''last_assistant_message''))))
      else Inr None)"

definition normalize_hook_event ::
  "(string \<Rightarrow> json option) \<Rightarrow> string \<Rightarrow> string \<Rightarrow> json \<Rightarrow> agent_event_request option result" where
  "normalize_hook_event parse provider loom_session_id input =
     bind_res (ok_or (InvalidRequest ''hook input must be a JSON object'') (as_object input)) (\<lambda>ms.
     bind_res (required_string (map_of ms ''session_id'') ''session_id'') (\<lambda>provider_session_id.
     bind_res (required_string (map_of ms ''hook_event_name'') ''hook_event_name'') (\<lambda>name.
     bind_res (hook_event parse ms name) (\<lambda>event.
       case event of
         None \<Rightarrow> Inr None
       | Some ev \<Rightarrow>
           let request = \<lparr>ae_session_id = loom_session_id, ae_provider = provider,
                 ae_provider_session_id = provider_session_id,
                 ae_provider_turn_id = optional_string (map_of ms ''turn_id''), ae_event = ev\<rparr> in
           bind_res (event_request_validate request) (\<lambda>_. Inr (Some request))))))"

section \<open>The hook command\<close>

text \<open>What the command ends with: the answer it writes, or the line it logs. \<open>hk_input\<close> is what it reads from
  standard input, at most one byte more than the limit; \<open>None\<close> when reading fails.\<close>

record hook_env =
  hk_input :: "bytes option"
  hk_parse :: "bytes \<Rightarrow> json option"
  hk_strict :: "string option"
  hk_can_write :: bool
  hk_paths :: bool
  hk_session_id :: "string option"
  hk_canonicalize :: "string \<Rightarrow> string option"
  hk_ids :: "nat \<Rightarrow> string"

datatype hook_end = HookAnswer json | HookLog string

definition hook_search ::
  "client \<Rightarrow> 's transport \<Rightarrow> hook_env \<Rightarrow> string \<Rightarrow> json \<Rightarrow> 's \<Rightarrow> (string + string option) \<times> 's" where
  "hook_search C T H provider input s =
     (case Option.bind (hook_cwd input) (hk_canonicalize H) of
        None \<Rightarrow> (Inl ''hook input had no usable cwd'', s)
      | Some cwd \<Rightarrow>
          (case call_capable CAPABILITY_AGENT_SESSIONS expect_agent_sessions C T (hk_ids H 0) (hk_ids H 1)
                  (OpSessionList None 1000) s of
             (Inl _, s1) \<Rightarrow> (Inl ''could not list active Loomterm sessions'', s1)
           | (Inr sessions, s1) \<Rightarrow> (Inr (select_active_session_id sessions provider cwd), s1)))"

definition hook_session ::
  "client \<Rightarrow> 's transport \<Rightarrow> hook_env \<Rightarrow> string \<Rightarrow> json \<Rightarrow> 's \<Rightarrow> (string + string option) \<times> 's" where
  "hook_session C T H provider input s =
     (case hk_session_id H of
        Some sid \<Rightarrow> if sid \<noteq> [] then (Inr (Some sid), s) else hook_search C T H provider input s
      | None \<Rightarrow> hook_search C T H provider input s)"

definition hook_send ::
  "client \<Rightarrow> 's transport \<Rightarrow> display_env \<Rightarrow> hook_env \<Rightarrow> agent_event_request \<Rightarrow> 's \<Rightarrow> hook_end \<times> 's" where
  "hook_send C T d H request s =
     (case call_capable CAPABILITY_AGENT_TURNS expect_turn C T (hk_ids H 2) (hk_ids H 3) (OpAgentEvent request) s of
        (Inr _, s1) \<Rightarrow> (HookLog ''recorded agent event'', s1)
      | (Inl e, s1) \<Rightarrow> (HookLog (''could not record agent event: '' @ error_display d e), s1))"

definition hook_record ::
  "client \<Rightarrow> 's transport \<Rightarrow> display_env \<Rightarrow> hook_env \<Rightarrow> string \<Rightarrow> json \<Rightarrow> 's \<Rightarrow> hook_end \<times> 's" where
  "hook_record C T d H provider input s =
     (if \<not> hk_paths H then (HookLog ''could not discover Loomterm paths'', s)
      else
        case hook_session C T H provider input s of
          (Inl line, s1) \<Rightarrow> (HookLog line, s1)
        | (Inr None, s1) \<Rightarrow> (HookLog ''no matching active Loomterm session'', s1)
        | (Inr (Some sid), s1) \<Rightarrow>
            (case normalize_hook_event (hk_parse H) provider sid input of
               Inr (Some request) \<Rightarrow> hook_send C T d H request s1
             | _ \<Rightarrow> (HookLog ''hook event was unsupported or invalid'', s1)))"

definition record_agent_hook_event ::
  "client \<Rightarrow> 's transport \<Rightarrow> display_env \<Rightarrow> hook_env \<Rightarrow> string \<Rightarrow> 's \<Rightarrow> hook_end \<times> 's" where
  "record_agent_hook_event C T d H provider s =
     (case hk_input H of
        None \<Rightarrow> (HookLog ''hook input read failed or exceeded the size limit'', s)
      | Some bs \<Rightarrow>
          if length bs > MAX_HOOK_INPUT_BYTES then (HookLog ''hook input read failed or exceeded the size limit'', s)
          else
            (case hk_parse H bs of
               None \<Rightarrow> (HookLog ''hook input was not valid JSON'', s)
             | Some input \<Rightarrow>
                 (case if hk_strict H = Some ''strict'' then strict_shell_routing_response input else None of
                    Some response \<Rightarrow>
                      (if hk_can_write H then HookAnswer response
                       else HookLog ''could not write strict shell routing response'', s)
                  | None \<Rightarrow> hook_record C T d H provider input s)))"

section \<open>What the search looks at\<close>

text \<open>\<open>sees parse n v ms\<close>: the object with members \<open>ms\<close> is the value \<open>v\<close> or is reached from it in at most \<open>n\<close>
  steps into objects, arrays and JSON text of limited length.\<close>

inductive sees :: "(string \<Rightarrow> json option) \<Rightarrow> nat \<Rightarrow> json \<Rightarrow> (string \<times> json) list \<Rightarrow> bool" for parse where
  here: "sees parse n (JObject ms) ms"
| member: "(k, v) \<in> set os \<Longrightarrow> sees parse n v ms \<Longrightarrow> sees parse (Suc n) (JObject os) ms"
| element: "v \<in> set vs \<Longrightarrow> sees parse n v ms \<Longrightarrow> sees parse (Suc n) (JArray vs) ms"
| parsed: "length t \<le> MAX_HOOK_INPUT_BYTES \<Longrightarrow> parse t = Some v \<Longrightarrow> sees parse n v ms \<Longrightarrow> sees parse (Suc n) (JString t) ms"

inductive_cases sees_objectE: "sees parse n (JObject os) ms"
inductive_cases sees_arrayE: "sees parse n (JArray vs) ms"
inductive_cases sees_stringE: "sees parse n (JString t) ms"
inductive_cases sees_otherE: "sees parse n JNull ms" "sees parse n (JBool b) ms" "sees parse n (JNumber i) ms" "sees parse n (JFloat f) ms"

lemma sees_more: "sees parse n v ms \<Longrightarrow> n \<le> m \<Longrightarrow> sees parse m v ms"
proof (induction arbitrary: m rule: sees.induct)
  case (member k v os n ms)
  then show ?case by (cases m) (auto intro: sees.member)
next
  case (element v vs n ms)
  then show ?case by (cases m) (auto intro: sees.element)
next
  case (parsed t v n ms)
  then show ?case by (cases m) (auto intro: sees.parsed)
qed (rule sees.here)

lemmas find_object = find_execution_id_at_depth.simps [of parse "JObject ms" for parse ms]
lemmas find_array = find_execution_id_at_depth.simps [of parse "JArray vs" for parse vs]
lemmas find_string = find_execution_id_at_depth.simps [of parse "JString t" for parse t]

lemma find_other [simp]:
  "find_execution_id_at_depth parse JNull depth = None" "find_execution_id_at_depth parse (JBool b) depth = None"
  "find_execution_id_at_depth parse (JNumber k) depth = None" "find_execution_id_at_depth parse (JFloat f) depth = None"
  by (subst find_execution_id_at_depth.simps, simp)+

lemma find_sound:
  "find_execution_id_at_depth parse v depth = Some i \<Longrightarrow> \<exists>ms. sees parse (8 - depth) v ms \<and> named_execution ms = Some i"
proof (induction parse v depth rule: find_execution_id_at_depth.induct)
  case (1 parse v depth)
  have d: "depth \<le> 8" using "1.prems" by (auto simp: find_execution_id_at_depth.simps [of parse v] split: if_split_asm)
  have deeper: "\<exists>ms. sees parse (7 - depth) w ms \<and> named_execution ms = Some i \<and> depth < 8"
    if "find_execution_id_at_depth parse w (depth + 1) = Some i"
      "find_execution_id_at_depth parse w (depth + 1) = Some i \<Longrightarrow> \<exists>ms. sees parse (8 - (depth + 1)) w ms \<and> named_execution ms = Some i" for w
    using that by (auto simp: find_execution_id_at_depth.simps [of parse w] split: if_split_asm)
  have s: "8 - depth = Suc (7 - depth)" if "depth < 8" using that by simp
  show ?case
  proof (cases v)
    case (JObject os)
    show ?thesis
    proof (cases "named_execution os")
      case (Some j)
      then have "j = i" using "1.prems" d JObject by (simp add: find_object)
      then show ?thesis using Some JObject here by blast
    next
      case None
      then obtain k w where w: "(k, w) \<in> set os" "find_execution_id_at_depth parse w (depth + 1) = Some i"
        using "1.prems" d JObject by (auto simp: find_object dest!: first_some_Some)
      then show ?thesis using deeper [OF w(2)] "1.IH"(3) [of os "(k, w)"] d JObject None member s by fastforce
    qed
  next
    case (JArray vs)
    then obtain w where w: "w \<in> set vs" "find_execution_id_at_depth parse w (depth + 1) = Some i"
      using "1.prems" d by (auto simp: find_array dest!: first_some_Some)
    then show ?thesis using deeper [OF w(2)] "1.IH"(2) [of vs w] d JArray element s by fastforce
  next
    case (JString t)
    then obtain w where w: "length t \<le> MAX_HOOK_INPUT_BYTES" "parse t = Some w" "find_execution_id_at_depth parse w (depth + 1) = Some i"
      using "1.prems" d by (auto simp: find_string split: if_split_asm option.split_asm)
    then show ?thesis using deeper [OF w(3)] "1.IH"(1) [of t w] d JString parsed s by fastforce
  qed (use "1.prems" in simp_all)
qed

lemma find_complete:
  "sees parse n v ms \<Longrightarrow> n + depth \<le> 8 \<Longrightarrow> find_execution_id_at_depth parse v depth = None \<Longrightarrow> named_execution ms = None"
proof (induction arbitrary: depth rule: sees.induct)
  case (here n ms)
  then show ?case by (auto simp: find_object split: option.split_asm)
next
  case (member k v os n ms)
  then have "find_execution_id_at_depth parse v (Suc depth) = None"
    by (force simp: find_object first_some_None split: option.split_asm)
  then show ?case using member.IH [of "Suc depth"] member.prems(1) by simp
next
  case (element v vs n ms)
  then have "find_execution_id_at_depth parse v (Suc depth) = None" by (auto simp: find_array first_some_None)
  then show ?case using element.IH [of "Suc depth"] element.prems(1) by simp
next
  case (parsed t v n ms)
  then have "find_execution_id_at_depth parse v (Suc depth) = None" by (auto simp: find_string)
  then show ?case using parsed.IH [of "Suc depth"] parsed.prems(1) by simp
qed

end
