(* ===== verification/AgentProperties.thy ===== *)
theory AgentProperties
  imports AgentHooks DaemonDemo ClientDaemon
begin

text \<open>
  The properties of the hooks: which execution a tool's response names, when the native shell is denied, and
  what a hook sends to the daemon.
\<close>

text \<open>C18: The search of a tool's response ends; it returns an identifier exactly if some object within eight steps
  into the response (members, elements, JSON text of limited length) names an execution, and then one of
  those.\<close>

theorem hook_finds_execution:
  "(\<forall>i. find_execution_id parse v = Some i \<longrightarrow> (\<exists>ms. sees parse 8 v ms \<and> named_execution ms = Some i)) \<and>
   (find_execution_id parse v = None \<longleftrightarrow> (\<forall>ms. sees parse 8 v ms \<longrightarrow> named_execution ms = None))"
proof -
  have a: "\<exists>ms. sees parse 8 v ms \<and> named_execution ms = Some i" if "find_execution_id parse v = Some i" for i
    using find_sound [of parse v 0 i] that by (simp add: find_execution_id_def)
  have b: "named_execution ms = None" if "find_execution_id parse v = None" "sees parse 8 v ms" for ms
    using find_complete [OF that(2), of 0] that(1) by (simp add: find_execution_id_def)
  show ?thesis using a b by (metis option.exhaust option.distinct(1))
qed

theorem hook_finds_execution_witness:
  "find_execution_id (\<lambda>t. if t = ''T'' then Some (JObject [(''execution'', JObject [(''id'', JString ''e1'')])]) else None)
     (JObject [(''content'', JArray [JObject [(''text'', JString ''T'')]])]) \<noteq> None"
proof -
  let ?parse = "\<lambda>t. if t = ''T'' then Some (JObject [(''execution'', JObject [(''id'', JString ''e1'')])]) else None"
  have "sees ?parse (Suc 0) (JString ''T'') [(''execution'', JObject [(''id'', JString ''e1'')])]"
    by (rule sees.parsed [where v = "JObject [(''execution'', JObject [(''id'', JString ''e1'')])]"])
      (simp_all add: MAX_HOOK_INPUT_BYTES_def sees.here)
  then have "sees ?parse (Suc (Suc 0)) (JObject [(''text'', JString ''T'')]) [(''execution'', JObject [(''id'', JString ''e1'')])]"
    by (rule sees.member [rotated]) simp
  then have "sees ?parse (Suc (Suc (Suc 0))) (JArray [JObject [(''text'', JString ''T'')]]) [(''execution'', JObject [(''id'', JString ''e1'')])]"
    by (rule sees.element [rotated]) simp
  then have "sees ?parse (Suc (Suc (Suc (Suc 0)))) (JObject [(''content'', JArray [JObject [(''text'', JString ''T'')]])])
      [(''execution'', JObject [(''id'', JString ''e1'')])]"
    by (rule sees.member [rotated]) simp
  from sees_more [OF this, of 8] have "sees ?parse 8 (JObject [(''content'', JArray [JObject [(''text'', JString ''T'')]])])
      [(''execution'', JObject [(''id'', JString ''e1'')])]" by simp
  moreover have "named_execution [(''execution'', JObject [(''id'', JString ''e1'')])] = Some ''e1''"
    by (simp add: named_execution_def)
  ultimately show ?thesis
    using hook_finds_execution [of ?parse "JObject [(''content'', JArray [JObject [(''text'', JString ''T'')]])]"] by fastforce
qed

section \<open>The native shell\<close>

lemma routing_response_iff:
  "(\<exists>r. strict_shell_routing_response input = Some r) \<longleftrightarrow>
     get_member ''hook_event_name'' input = Some (JString ''PreToolUse'') \<and>
     (\<exists>tool. get_member ''tool_name'' input = Some (JString tool) \<and> eq_ignore_ascii_case tool ''bash'')"
proof (cases input)
  case (JObject ms)
  have str: "as_str v = Some t \<longleftrightarrow> v = JString t" for v t by (cases v) auto
  show ?thesis
    by (cases "map_of ms ''hook_event_name''"; cases "map_of ms ''tool_name''")
      (auto simp: JObject strict_shell_routing_response_def str bind_eq_Some_conv split: if_splits)
qed (simp_all add: strict_shell_routing_response_def)

lemma hook_record_logs: "\<exists>line. fst (hook_record C T d H provider input s) = HookLog line"
  by (auto simp: hook_record_def hook_send_def split: prod.split sum.split option.split)

text \<open>The hook denies a tool call exactly in strict mode, for an input within the size limit that is a
  \<open>PreToolUse\<close> event of the tool Bash in any case; then the daemon has not been asked.\<close>

theorem hook_denies_shell:
  "(\<exists>response. fst (record_agent_hook_event C T d H provider s) = HookAnswer response) \<longleftrightarrow>
     hk_strict H = Some ''strict'' \<and> hk_can_write H \<and>
     snd (record_agent_hook_event C T d H provider s) = s \<and>
     (\<exists>bs input. hk_input H = Some bs \<and> length bs \<le> MAX_HOOK_INPUT_BYTES \<and> hk_parse H bs = Some input \<and>
        get_member ''hook_event_name'' input = Some (JString ''PreToolUse'') \<and>
        (\<exists>tool. get_member ''tool_name'' input = Some (JString tool) \<and> eq_ignore_ascii_case tool ''bash''))"
proof (cases "\<exists>bs input. hk_input H = Some bs \<and> length bs \<le> MAX_HOOK_INPUT_BYTES \<and> hk_parse H bs = Some input")
  case True
  then obtain bs input where i: "hk_input H = Some bs" "length bs \<le> MAX_HOOK_INPUT_BYTES" "hk_parse H bs = Some input" by blast
  obtain line where l: "fst (hook_record C T d H provider input s) = HookLog line"
    using hook_record_logs [of C T d H provider input s] by blast
  show ?thesis
    using i l routing_response_iff [of input]
    by (cases "hk_strict H = Some ''strict''"; cases "strict_shell_routing_response input"; cases "hk_can_write H")
      (auto simp: record_agent_hook_event_def)
next
  case False
  then show ?thesis by (auto simp: record_agent_hook_event_def split: option.split)
qed

section \<open>What a hook sends\<close>



end
