(* ===== verification/Rewriting.thy ===== *)
theory Rewriting
  imports Text "HOL-Library.Sublist"
begin

text \<open>
  Replacing parts of a text. \<open>rewritten m s out\<close> is the relation both replacements of the repository refine:
  the matcher \<open>m\<close> says how many bytes go at the front of \<open>s\<close> and what comes instead; without a match one
  character is kept. Its lemma says where a pattern in the output can come from.
\<close>

inductive rewritten :: "(bytes \<Rightarrow> (nat \<times> string) option) \<Rightarrow> bytes \<Rightarrow> string \<Rightarrow> bool" for m where
  finished: "rewritten m [] []"
| replaced: "m s = Some (k, r) \<Longrightarrow> rewritten m (drop k s) t \<Longrightarrow> rewritten m s (r @ t)"
| kept: "m s = None \<Longrightarrow> 0 < w \<Longrightarrow> w \<le> length s \<Longrightarrow> (\<forall>i. 0 < i \<and> i < w \<longrightarrow> is_cont (s ! i)) \<Longrightarrow>
    rewritten m (drop w s) t \<Longrightarrow> rewritten m s (take w s @ t)"

text \<open>A text that cannot overlap a replacement.\<close>

definition apart :: "string \<Rightarrow> string \<Rightarrow> bool" where
  "apart p r \<longleftrightarrow> r \<noteq> [] \<and> hd r \<notin> set p \<and> last r \<notin> set p \<and> \<not> sublist p r"

lemma rewritten_prefix:
  assumes "rewritten m s out" and "prefix p out" and "\<And>s k r. m s = Some (k, r) \<Longrightarrow> r \<noteq> [] \<and> hd r \<notin> set p"
  shows "prefix p s"
  using assms
proof (induction arbitrary: p rule: rewritten.induct)
  case (replaced s k r t)
  then have "r \<noteq> [] \<and> hd r \<notin> set p" by blast
  then show ?case using replaced.prems(1) by (cases p; cases r) auto
next
  case (kept s w t)
  show ?case
  proof (cases "length p \<le> w")
    case True
    then have "prefix p (take w s)" using kept.prems(1) kept.hyps(3)
      by (metis length_take min.absorb2 prefix_length_prefix prefixI)
    then show ?thesis using take_is_prefix prefix_order.trans by blast
  next
    case False
    then obtain p' where p: "p = take w s @ p'" "prefix p' t"
      using kept.prems(1) kept.hyps(3) by (auto simp: prefix_append dest: prefix_length_le)
    have "prefix p' (drop w s)" using kept.IH [OF p(2)] kept.prems(2) p(1) by fastforce
    then show ?thesis using p(1) by (metis append_take_drop_id same_prefix_prefix)
  qed
qed simp

text \<open>A pattern in the output is a pattern at a place of the input where nothing matched.\<close>

lemma rewritten_sublist:
  assumes "rewritten m s out" and "sublist p out" and "\<And>s k r. m s = Some (k, r) \<Longrightarrow> apart p r"
    and "p \<noteq> []" and "\<not> is_cont (hd p)"
  shows "\<exists>s'. suffix s' s \<and> prefix p s' \<and> m s' = None"
  using assms
proof (induction rule: rewritten.induct)
  case (replaced s k r t)
  have ap: "apart p r" using replaced by blast
  have "sublist p t"
    using replaced.prems(1) unfolding sublist_append
  proof (elim disjE exE conjE)
    fix xs1 xs2
    assume x: "p = xs1 @ xs2" "suffix xs1 r" "prefix xs2 t"
    have "xs1 = []"
    proof (rule ccontr)
      assume "xs1 \<noteq> []"
      then have "last r = last xs1" using x(2) by (auto simp: suffix_def)
      then show False using ap x(1) \<open>xs1 \<noteq> []\<close> by (auto simp: apart_def)
    qed
    then show ?thesis using x by auto
  qed (use ap in \<open>auto simp: apart_def\<close>)
  then have "\<exists>s'. suffix s' (drop k s) \<and> prefix p s' \<and> m s' = None" using replaced by blast
  then show ?case using suffix_drop suffix_order.trans by blast
next
  case (kept s w t)
  obtain a b where a: "take w s @ t = a @ p @ b" using kept.prems(1) by (auto simp: sublist_def)
  consider "a = []" | "a \<noteq> []" "length a < w" | "w \<le> length a" by linarith
  then show ?case
  proof cases
    case 1
    have "prefix p (take w s @ t)" using 1 a by simp
    moreover have "rewritten m s (take w s @ t)" using kept.hyps by (rule rewritten.kept)
    ultimately have "prefix p s"
      using rewritten_prefix [of m s "take w s @ t" p] kept.prems(2) by (auto simp: apart_def)
    then show ?thesis using kept.hyps(1) by blast
  next
    case 2
    have "hd p = (a @ p @ b) ! length a" using kept.prems(3) by (cases p) auto
    also have "\<dots> = s ! length a" using 2 kept.hyps(3) by (simp flip: a add: nth_append)
    finally show ?thesis using kept.hyps(4) 2 kept.prems(4) by auto
  next
    case 3
    have "t = drop w (take w s @ t)" using kept.hyps(3) by simp
    also have "\<dots> = drop w a @ p @ b" unfolding a using 3 by simp
    finally have "sublist p t" by (metis sublist_appendI)
    then have "\<exists>s'. suffix s' (drop w s) \<and> prefix p s' \<and> m s' = None" using kept by blast
    then show ?thesis using suffix_drop suffix_order.trans by blast
  qed
qed simp

lemma rewritten_clean:
  assumes "rewritten m s out" and "\<And>s k r. m s = Some (k, r) \<Longrightarrow> apart p r" and "p \<noteq> []" and "\<not> is_cont (hd p)"
    and "\<And>s. prefix p s \<Longrightarrow> m s \<noteq> None"
  shows "\<not> sublist p out"
proof
  assume "sublist p out"
  then have "\<exists>s'. suffix s' s \<and> prefix p s' \<and> m s' = None"
    by (rule rewritten_sublist [OF assms(1)]) (use assms(2-4) in auto)
  then show False using assms(5) by blast
qed

lemma rewritten_keeps_clean:
  assumes "rewritten m s out" and "\<And>s k r. m s = Some (k, r) \<Longrightarrow> apart p r" and "p \<noteq> []" and "\<not> is_cont (hd p)"
    and "\<not> sublist p s"
  shows "\<not> sublist p out"
proof
  assume "sublist p out"
  then have "\<exists>s'. suffix s' s \<and> prefix p s' \<and> m s' = None"
    by (rule rewritten_sublist [OF assms(1)]) (use assms(2-4) in auto)
  then obtain s' where "suffix s' s" "prefix p s'" by blast
  then have "sublist p s" by (auto simp: suffix_def prefix_def sublist_def)
  then show False using assms(5) by blast
qed

text \<open>Without a match nothing changes.\<close>

lemma rewritten_id:
  assumes "rewritten m s out" and "\<And>s'. suffix s' s \<Longrightarrow> m s' = None"
  shows "out = s"
  using assms
proof (induction rule: rewritten.induct)
  case (replaced s k r t)
  then show ?case by auto
next
  case (kept s w t)
  have "t = drop w s" using kept.IH kept.prems suffix_drop suffix_order.trans by blast
  then show ?case by simp
qed simp

section \<open>\<open>str::replace\<close>\<close>

text \<open>For a pattern that is not empty; an empty one would go between all characters, and the code never has one.\<close>

function replace_all :: "string \<Rightarrow> string \<Rightarrow> string \<Rightarrow> string" where
  "replace_all p r s =
     (if s = [] then []
      else if p \<noteq> [] \<and> prefix p s then r @ replace_all p r (drop (length p) s)
      else hd s # replace_all p r (tl s))"
  by pat_completeness auto
termination
  by (relation "measure (\<lambda>(p, r, s). length s)") auto

declare replace_all.simps [simp del]

definition one_match :: "string \<Rightarrow> string \<Rightarrow> bytes \<Rightarrow> (nat \<times> string) option" where
  "one_match p r s = (if p \<noteq> [] \<and> prefix p s then Some (length p, r) else None)"

lemma replace_all_rewritten: "rewritten (one_match p r) s (replace_all p r s)"
proof (induction p r s rule: replace_all.induct)
  case (1 p r s)
  consider "s = []" | "s \<noteq> []" "p \<noteq> [] \<and> prefix p s" | "s \<noteq> []" "\<not> (p \<noteq> [] \<and> prefix p s)" by blast
  then show ?case
  proof cases
    case 1
    then show ?thesis using rewritten.finished by (simp add: replace_all.simps [of p r "[]"])
  next
    case 2
    then have "one_match p r s = Some (length p, r)" by (simp add: one_match_def)
    then show ?thesis using "1.IH"(1) 2 by (simp add: replace_all.simps [of p r s] rewritten.replaced)
  next
    case 3
    have "rewritten (one_match p r) (drop 1 s) (replace_all p r (tl s))" using "1.IH"(2) 3 by (simp add: drop_Suc)
    moreover have "0 < length s" using 3 by simp
    ultimately have "rewritten (one_match p r) s (take 1 s @ replace_all p r (tl s))"
      using 3 by (intro rewritten.kept) (auto simp: one_match_def Suc_le_eq)
    moreover have "replace_all p r s = take 1 s @ replace_all p r (tl s)"
      using 3 by (subst replace_all.simps) (cases s, auto)
    ultimately show ?thesis by simp
  qed
qed

end
