(* ===== verification/SessionRedact.thy ===== *)
theory SessionRedact
  imports Rewriting Iterators Json Model
begin

text \<open>
  Redaction of recordings before they are exported (\<open>src/session.rs\<close>): the scan of the output stream across
  the events it is cut into, and the replacement in every string of a JSON value. The home directory becomes
  \<open>~\<close>, each pattern the user gives becomes \<open>[REDACTED]\<close>.
\<close>

definition REDACTED :: string where
  "REDACTED = ''[REDACTED]''"

definition replacements_of :: "string option \<Rightarrow> string list \<Rightarrow> (string \<times> string) list" where
  "replacements_of home redactions =
     (case home of Some h \<Rightarrow> if h \<noteq> [] then [(h, ''~'')] else [] | None \<Rightarrow> []) @
     map (\<lambda>p. (p, REDACTED)) (filter (\<lambda>p. p \<noteq> []) redactions)"

section \<open>The scan of the stream\<close>

definition best_match :: "(string \<times> string) list \<Rightarrow> bytes \<Rightarrow> (string \<times> string) option" where
  "best_match reps s = max_by_key (\<lambda>pr. length (fst pr)) (filter (\<lambda>pr. fst pr \<noteq> [] \<and> prefix (fst pr) s) reps)"

definition first_width :: "bytes \<Rightarrow> nat" where
  "first_width s = (case utf8_next s of Utf8_Char w _ \<Rightarrow> w | _ \<Rightarrow> 1)"

lemma best_match_Some:
  assumes "best_match reps s = Some (p, r)"
  shows "(p, r) \<in> set reps" "p \<noteq> []" "prefix p s"
  using max_by_key_Some [of _ "filter (\<lambda>pr. fst pr \<noteq> [] \<and> prefix (fst pr) s) reps" "(p, r)"] assms
  by (auto simp: best_match_def)

lemma best_match_None: "best_match reps s = None \<longleftrightarrow> (\<forall>(p, r) \<in> set reps. p = [] \<or> \<not> prefix p s)"
  by (auto simp: best_match_def filter_empty_conv)

lemma first_width_bounds: "s \<noteq> [] \<Longrightarrow> 0 < first_width s \<and> first_width s \<le> length s"
  using utf8_next_Char_width [of s] by (cases "utf8_next s") (auto simp: first_width_def Suc_le_eq)

type_synonym found = "nat \<times> nat \<times> string"

function scan_matches :: "(string \<times> string) list \<Rightarrow> bytes \<Rightarrow> nat \<Rightarrow> found list" where
  "scan_matches reps stream pos =
     (if pos < length stream then
        (case best_match reps (drop pos stream) of
           Some (p, r) \<Rightarrow> (pos, pos + length p, r) # scan_matches reps stream (pos + length p)
         | None \<Rightarrow> scan_matches reps stream (pos + first_width (drop pos stream)))
      else [])"
  by pat_completeness auto
termination
proof (relation "measure (\<lambda>(reps, stream, pos). length stream - pos)")
  fix reps :: "(string \<times> string) list" and stream :: bytes and pos :: nat and a p r
  assume "pos < length stream" "best_match reps (drop pos stream) = Some a" "(p, r) = a"
  then show "((reps, stream, pos + length p), (reps, stream, pos)) \<in>
      measure (\<lambda>(reps, stream, pos). length stream - pos)"
    using best_match_Some(2) [of reps "drop pos stream" p r] by (cases p) auto
next
  fix reps :: "(string \<times> string) list" and stream :: bytes and pos :: nat
  assume "pos < length stream"
  then show "((reps, stream, pos + first_width (drop pos stream)), (reps, stream, pos)) \<in>
      measure (\<lambda>(reps, stream, pos). length stream - pos)"
    using first_width_bounds [of "drop pos stream"] by auto
qed simp

declare scan_matches.simps [simp del]

section \<open>One event\<close>

definition slice :: "bytes \<Rightarrow> nat \<Rightarrow> nat \<Rightarrow> bytes" where
  "slice s i j = take (j - i) (drop i s)"

fun redact_range :: "bytes \<Rightarrow> nat \<Rightarrow> nat \<Rightarrow> found list \<Rightarrow> string \<Rightarrow> nat \<Rightarrow> string" where
  "redact_range stream a b [] redacted cursor = redacted @ (if cursor < b then slice stream cursor b else [])"
| "redact_range stream a b ((ms, me, r) # found) redacted cursor =
     (if me \<le> a \<or> ms \<ge> b then redact_range stream a b found redacted cursor
      else redact_range stream a b found
        (if ms \<ge> a then redacted @ (if cursor < ms then slice stream cursor ms else []) @ r else redacted)
        (max cursor me))"

text \<open>The output events, as the text of an output event.\<close>

definition output_text :: "json \<Rightarrow> string option" where
  "output_text v = Option.bind (as_array v) (\<lambda>event.
     if Option.bind (nth_value event 1) as_str \<noteq> Some ''o'' then None
     else Option.bind (nth_value event 2) as_str)"

definition stream_of :: "json list \<Rightarrow> string" where
  "stream_of values = concat (map (\<lambda>v. case output_text v of Some t \<Rightarrow> t | None \<Rightarrow> []) values)"

definition set_output_text :: "string \<Rightarrow> json \<Rightarrow> json" where
  "set_output_text t v = (case v of JArray event \<Rightarrow> JArray (event[2 := JString t]) | _ \<Rightarrow> v)"

fun redact_events :: "bytes \<Rightarrow> found list \<Rightarrow> json list \<Rightarrow> nat \<Rightarrow> json list" where
  "redact_events stream found [] start = []"
| "redact_events stream found (v # vs) start =
     (case output_text v of
        None \<Rightarrow> v # redact_events stream found vs start
      | Some t \<Rightarrow>
          set_output_text (redact_range stream start (start + length t) found [] start) v #
            redact_events stream found vs (start + length t))"

definition redact_output_stream :: "(string \<times> string) list \<Rightarrow> json list \<Rightarrow> json list" where
  "redact_output_stream reps values =
     (let stream = stream_of values in
      if stream = [] \<or> reps = [] then values
      else redact_events stream (scan_matches reps stream 0) values 0)"

section \<open>Strings of a value\<close>

definition redact_string :: "(string \<times> string) list \<Rightarrow> string \<Rightarrow> string" where
  "redact_string reps text = foldl (\<lambda>t (p, r). replace_all p r t) text reps"

fun redact_json :: "(string \<times> string) list \<Rightarrow> json \<Rightarrow> json" where
  "redact_json reps (JString text) = JString (redact_string reps text)"
| "redact_json reps (JArray vs) = JArray (map (redact_json reps) vs)"
| "redact_json reps (JObject ms) = JObject (map (\<lambda>(k, v). (k, redact_json reps v)) ms)"
| "redact_json reps v = v"

text \<open>The codec of the detail is serde's. When the redacted value cannot be read back the detail stays as it
  was.\<close>

definition redact_detail ::
  "('d \<Rightarrow> json option) \<Rightarrow> (json \<Rightarrow> 'd option) \<Rightarrow> (string \<times> string) list \<Rightarrow> 'd \<Rightarrow> 'd" where
  "redact_detail to_value from_value reps detail =
     (case from_value (redact_json reps (case to_value detail of Some v \<Rightarrow> v | None \<Rightarrow> JNull)) of
        Some redacted \<Rightarrow> redacted
      | None \<Rightarrow> detail)"

section \<open>A recording\<close>

text \<open>\<open>Inl\<close> is a line that cannot be read. The result is the text of the exported recording.\<close>

definition parse_line :: "(string \<Rightarrow> string + json) \<Rightarrow> string + string \<Rightarrow> json result" where
  "parse_line parse line =
     (case line of
        Inl m \<Rightarrow> Inl (Io m)
      | Inr l \<Rightarrow> (case parse l of Inl m \<Rightarrow> Inl (Json m) | Inr v \<Rightarrow> Inr v))"

definition sanitized :: "(string \<times> string) list \<Rightarrow> json list \<Rightarrow> json list" where
  "sanitized reps values = map (redact_json reps) (redact_output_stream reps values)"

definition sanitize_cast ::
  "(string \<Rightarrow> string + json) \<Rightarrow> (json \<Rightarrow> string) \<Rightarrow> string option \<Rightarrow> (string + string) list result \<Rightarrow> string list \<Rightarrow> string result" where
  "sanitize_cast parse print home file redactions =
     bind_res file (\<lambda>lines. bind_res (collect_res (map (parse_line parse) lines)) (\<lambda>values.
       Inr (concat (map (\<lambda>v. print v @ [CHR 0x0A]) (sanitized (replacements_of home redactions) values)))))"


text \<open>
  The redaction of the events is the redaction of the stream they are cut from: \<open>redact_text\<close> is the
  redaction of an undivided text, and every event receives the part of it that belongs to its bytes.
\<close>

section \<open>The redaction of an undivided text\<close>

function redact_text :: "(string \<times> string) list \<Rightarrow> bytes \<Rightarrow> string" where
  "redact_text reps s =
     (if s = [] then []
      else case best_match reps s of
        Some (p, r) \<Rightarrow> r @ redact_text reps (drop (length p) s)
      | None \<Rightarrow> take (first_width s) s @ redact_text reps (drop (first_width s) s))"
  by pat_completeness auto
termination
proof (relation "measure (\<lambda>(reps, s). length s)")
  fix reps :: "(string \<times> string) list" and s :: bytes and a p r
  assume "s \<noteq> []" "best_match reps s = Some a" "(p, r) = a"
  then show "((reps, drop (length p) s), (reps, s)) \<in> measure (\<lambda>(reps, s). length s)"
    using best_match_Some(2) [of reps s p r] by (cases p) auto
next
  fix reps :: "(string \<times> string) list" and s :: bytes
  assume "s \<noteq> []"
  then show "((reps, drop (first_width s) s), (reps, s)) \<in> measure (\<lambda>(reps, s). length s)"
    using first_width_bounds [of s] by auto
qed simp

declare redact_text.simps [simp del]

definition matcher :: "(string \<times> string) list \<Rightarrow> bytes \<Rightarrow> (nat \<times> string) option" where
  "matcher reps s = map_option (\<lambda>(p, r). (length p, r)) (best_match reps s)"

lemma first_width_cont: "s \<noteq> [] \<Longrightarrow> 0 < i \<Longrightarrow> i < first_width s \<Longrightarrow> is_cont (s ! i)"
proof -
  assume s: "s \<noteq> []" and i: "0 < i" "i < first_width s"
  obtain w c where w: "utf8_next s = Utf8_Char w c" using i by (cases "utf8_next s") (auto simp: first_width_def)
  have "i = 1 \<or> i = 2 \<or> i = 3" using i w utf8_next_Char_width [OF w] by (auto simp: first_width_def)
  moreover have "i < w" using i w by (simp add: first_width_def)
  ultimately show ?thesis using w
    by (cases s) (auto simp: utf8_next.simps(2) second3_ok_def second4_ok_def is_cont_def split: list.splits if_splits)
qed

lemma redact_text_rewritten: "rewritten (matcher reps) s (redact_text reps s)"
proof (induction reps s rule: redact_text.induct)
  case (1 reps s)
  show ?case
  proof (cases "s = []")
    case True
    then show ?thesis using rewritten.finished by (simp add: redact_text.simps [of reps "[]"])
  next
    case False
    show ?thesis
    proof (cases "best_match reps s")
      case None
      have "matcher reps s = None" using None by (simp add: matcher_def)
      then have "rewritten (matcher reps) s (take (first_width s) s @ redact_text reps (drop (first_width s) s))"
        using None "1.IH"(1) [OF False None] first_width_bounds [OF False] first_width_cont [OF False]
        by (intro rewritten.kept) auto
      then show ?thesis using None False by (simp add: redact_text.simps [of reps s])
    next
      case (Some pr)
      obtain p r where pr: "pr = (p, r)" by (cases pr)
      have "rewritten (matcher reps) s (r @ redact_text reps (drop (length p) s))"
      proof (rule rewritten.replaced)
        show "matcher reps s = Some (length p, r)" using Some pr by (simp add: matcher_def)
        show "rewritten (matcher reps) (drop (length p) s) (redact_text reps (drop (length p) s))"
          by (rule "1.IH"(2) [OF False Some pr [symmetric]])
      qed
      then show ?thesis using Some pr False by (simp add: redact_text.simps [of reps s])
    qed
  qed
qed

section \<open>What each byte contributes\<close>

text \<open>The output that belongs to the byte at position \<open>i\<close>: the replacement where a match starts, nothing inside a
  match, the byte elsewhere.\<close>

fun emit :: "bytes \<Rightarrow> found list \<Rightarrow> nat \<Rightarrow> string" where
  "emit s [] i = [s ! i]"
| "emit s ((ms, me, r) # found) i = (if i = ms then r else if ms < i \<and> i < me then [] else emit s found i)"

definition emitted :: "bytes \<Rightarrow> found list \<Rightarrow> nat \<Rightarrow> nat \<Rightarrow> string" where
  "emitted s found a b = concat (map (emit s found) [a..<b])"

lemma emitted_split: "a \<le> b \<Longrightarrow> b \<le> c \<Longrightarrow> emitted s found a c = emitted s found a b @ emitted s found b c"
  using upt_add_eq_append [of a b "c - b"] by (simp add: emitted_def)

lemma emitted_nil [simp]: "b \<le> a \<Longrightarrow> emitted s found a b = []"
  by (simp add: emitted_def)

lemma emitted_cong: "(\<And>i. a \<le> i \<Longrightarrow> i < b \<Longrightarrow> emit s found i = emit s found' i) \<Longrightarrow> emitted s found a b = emitted s found' a b"
  unfolding emitted_def by (intro arg_cong [of _ _ concat] map_cong) auto

fun ordered :: "nat \<Rightarrow> nat \<Rightarrow> found list \<Rightarrow> bool" where
  "ordered lo n [] \<longleftrightarrow> True"
| "ordered lo n ((ms, me, r) # found) \<longleftrightarrow> lo \<le> ms \<and> ms < me \<and> me \<le> n \<and> ordered me n found"

lemma ordered_le: "ordered lo n found \<Longrightarrow> lo' \<le> lo \<Longrightarrow> ordered lo' n found"
  by (cases found) auto

lemma emit_below: "ordered lo n found \<Longrightarrow> i < lo \<Longrightarrow> emit s found i = [s ! i]"
proof (induction found arbitrary: lo)
  case (Cons m found)
  obtain ms me r where m: "m = (ms, me, r)" by (cases m)
  then have "i < me" "i < ms" "ordered me n found" using Cons.prems by auto
  then show ?case using Cons.IH [of me] m by simp
qed simp

lemma emitted_below:
  assumes "ordered lo (length s) found" and "b \<le> lo" and "b \<le> length s"
  shows "emitted s found a b = slice s a b"
proof -
  have "emitted s found a b = concat (map (\<lambda>i. [s ! i]) [a..<b])"
    unfolding emitted_def using emit_below [OF assms(1)] assms(2) by (intro arg_cong [of _ _ concat] map_cong) auto
  also have "\<dots> = map (\<lambda>i. s ! i) [a..<b]" by (induction "[a..<b]") simp_all
  also have "\<dots> = slice s a b" using assms(3) by (intro nth_equalityI) (simp_all add: slice_def)
  finally show ?thesis .
qed

lemma emitted_inside:
  assumes "ordered ms (length s) ((ms, me, r) # found)" and "ms < a" and "b \<le> me"
  shows "emitted s ((ms, me, r) # found) a b = []"
  using assms(2,3) by (auto simp: emitted_def)

lemma emitted_at:
  assumes "ordered lo (length s) ((ms, me, r) # found)" and "ms < b"
  shows "emitted s ((ms, me, r) # found) ms b = r @ emitted s found (max me ms) b"
proof -
  let ?M = "(ms, me, r) # found"
  have m: "ms < me" using assms(1) by simp
  have "emitted s ?M ms b = emitted s ?M ms (Suc ms) @ emitted s ?M (Suc ms) b"
    using assms(2) by (intro emitted_split) auto
  also have "emitted s ?M ms (Suc ms) = r" by (simp add: emitted_def)
  also have "emitted s ?M (Suc ms) b = emitted s found me b"
  proof (cases "me \<le> b")
    case True
    have "emitted s ?M (Suc ms) b = emitted s ?M (Suc ms) me @ emitted s ?M me b"
      using True m by (intro emitted_split) auto
    also have "emitted s ?M (Suc ms) me = []" by (auto simp: emitted_def)
    also have "emitted s ?M me b = emitted s found me b" using m by (intro emitted_cong) auto
    finally show ?thesis by simp
  next
    case False
    then show ?thesis by (auto simp: emitted_def)
  qed
  finally show ?thesis using m by (simp add: max_def)
qed

text \<open>The loop over one range gives what its bytes contribute. \<open>cursor\<close> is either the start of the range or the
  end of the last match.\<close>

lemma redact_range_emitted:
  assumes "ordered lo (length s) found" and "a \<le> cursor" and "cursor = a \<or> cursor \<le> lo" and "b \<le> length s"
  shows "redact_range s a b found acc cursor = acc @ emitted s found cursor b"
  using assms(1-3)
proof (induction found arbitrary: lo acc cursor)
  case Nil
  have "emitted s [] cursor b = slice s cursor b"
    using emitted_below [of b s "[]" b cursor] assms(4) by simp
  then show ?case by auto
next
  case (Cons m found)
  obtain ms me r where m: "m = (ms, me, r)" by (cases m)
  have o: "lo \<le> ms" "ms < me" "me \<le> length s" "ordered me (length s) found" using Cons.prems(1) m by auto
  consider "me \<le> a" | "ms \<ge> b" "a < me" | "ms < a" "a < me" "ms < b" | "a \<le> ms" "ms < b" by linarith
  then show ?case
  proof cases
    case 1
    have "emitted s (m # found) cursor b = emitted s found cursor b"
      using 1 o m Cons.prems(2) by (intro emitted_cong) auto
    moreover have "cursor = a \<or> cursor \<le> me" using Cons.prems(3) o by auto
    ultimately show ?thesis using 1 m Cons.IH [OF o(4) Cons.prems(2)] by simp
  next
    case 2
    have "emitted s (m # found) cursor b = emitted s found cursor b"
      using 2 o m by (intro emitted_cong) auto
    moreover have "cursor = a \<or> cursor \<le> me" using Cons.prems(3) o by auto
    ultimately show ?thesis using 2 m Cons.IH [OF o(4) Cons.prems(2)] by simp
  next
    case 3
    then have c: "cursor = a" using Cons.prems(2,3) o by auto
    have "emitted s (m # found) a b = emitted s found me b"
    proof (cases "me \<le> b")
      case True
      have "emitted s (m # found) a b = emitted s (m # found) a me @ emitted s (m # found) me b"
        using True 3 by (intro emitted_split) auto
      also have "emitted s (m # found) a me = []" using 3 m by (auto simp: emitted_def)
      also have "emitted s (m # found) me b = emitted s found me b" using o m by (intro emitted_cong) auto
      finally show ?thesis by simp
    next
      case False
      then show ?thesis using 3 m by (auto simp: emitted_def)
    qed
    moreover have "redact_range s a b (m # found) acc cursor = redact_range s a b found acc me"
      using 3 m c by (simp add: max_def)
    ultimately show ?thesis using Cons.IH [OF o(4), of me acc] 3 c by simp
  next
    case 4
    have c: "cursor \<le> ms" using Cons.prems(3) o 4 by auto
    have "emitted s (m # found) cursor b = emitted s (m # found) cursor ms @ emitted s (m # found) ms b"
      using c 4 by (intro emitted_split) auto
    also have "emitted s (m # found) cursor ms = slice s cursor ms"
      using Cons.prems(1) o m by (intro emitted_below [of ms]) auto
    also have "emitted s (m # found) ms b = r @ emitted s found me b"
      using emitted_at [of lo s ms me r found b] Cons.prems(1) m 4 o by (simp add: max_def)
    finally have e: "emitted s (m # found) cursor b = slice s cursor ms @ r @ emitted s found me b" .
    have sl: "(if cursor < ms then slice s cursor ms else []) = slice s cursor ms" using c by (auto simp: slice_def)
    have "redact_range s a b (m # found) acc cursor = redact_range s a b found (acc @ slice s cursor ms @ r) me"
      using 4 m o c sl by (simp add: max_def)
    then show ?thesis using Cons.IH [OF o(4), of me "acc @ slice s cursor ms @ r"] e 4 o by simp
  qed
qed

section \<open>The scan finds what the redaction replaces\<close>

lemma scan_ordered: "ordered pos (length s) (scan_matches reps s pos)"
proof (induction reps s pos rule: scan_matches.induct)
  case (1 reps s pos)
  show ?case
  proof (cases "pos < length s")
    case True
    show ?thesis
    proof (cases "best_match reps (drop pos s)")
      case None
      then have "scan_matches reps s pos = scan_matches reps s (pos + first_width (drop pos s))"
        using True by (subst scan_matches.simps) simp
      then show ?thesis using ordered_le [OF "1.IH"(1) [OF True None], of pos] by simp
    next
      case (Some pr)
      obtain p r where pr: "pr = (p, r)" by (cases pr)
      have "p \<noteq> []" "prefix p (drop pos s)" using best_match_Some(2,3) Some pr by blast+
      then have "0 < length p" "pos + length p \<le> length s" using prefix_length_le [of p "drop pos s"] True by auto
      then show ?thesis using "1.IH"(2) [OF True Some pr [symmetric]] True Some pr by (subst scan_matches.simps) simp
    qed
  next
    case False
    then show ?thesis by (subst scan_matches.simps) simp
  qed
qed

lemma redact_text_emitted: "redact_text reps (drop pos s) = emitted s (scan_matches reps s pos) pos (length s)"
proof (induction reps s pos rule: scan_matches.induct)
  case (1 reps s pos)
  let ?w = "first_width (drop pos s)"
  show ?case
  proof (cases "pos < length s")
    case True
    then have ne: "drop pos s \<noteq> []" by simp
    show ?thesis
    proof (cases "best_match reps (drop pos s)")
      case None
      have w: "0 < ?w" "pos + ?w \<le> length s" using first_width_bounds [OF ne] True by auto
      have sc: "scan_matches reps s pos = scan_matches reps s (pos + ?w)" using True None by (subst scan_matches.simps) simp
      have "emitted s (scan_matches reps s (pos + ?w)) pos (length s) =
          slice s pos (pos + ?w) @ emitted s (scan_matches reps s (pos + ?w)) (pos + ?w) (length s)"
        using emitted_split [of pos "pos + ?w" "length s"] emitted_below [OF scan_ordered, of "pos + ?w" "pos + ?w" s reps pos] w
        by simp
      then show ?thesis using "1.IH"(1) [OF True None] None ne sc
        by (subst redact_text.simps) (simp add: slice_def add.commute)
    next
      case (Some pr)
      obtain p r where pr: "pr = (p, r)" by (cases pr)
      let ?M = "scan_matches reps s (pos + length p)"
      have sc: "scan_matches reps s pos = (pos, pos + length p, r) # ?M"
        using True Some pr by (subst scan_matches.simps) simp
      have "emitted s (scan_matches reps s pos) pos (length s) = r @ emitted s ?M (pos + length p) (length s)"
        using emitted_at [of pos s pos "pos + length p" r ?M "length s"] scan_ordered [of pos s reps] True
        unfolding sc by (simp add: max_def)
      then show ?thesis using "1.IH"(2) [OF True Some pr [symmetric]] Some pr ne
        by (subst redact_text.simps) (simp add: add.commute)
    qed
  next
    case False
    then show ?thesis by (subst redact_text.simps) simp
  qed
qed

end
