(* ===== verification/SessionCast.thy ===== *)
theory SessionCast
  imports Errors Text Json SessionFiles
begin

text \<open>
  The recording of an agent session (\<open>src/session.rs\<close>): the decoder that cuts the terminal's bytes into text,
  the output thread with its capture limit, and the lines of the recording. Whatever the pieces in which the
  terminal delivers the bytes, the recorded text is that of decoding them in one go.
\<close>

section \<open>The decoder\<close>

text \<open>The loop of \<open>Utf8Decoder::push\<close>: the texts it gives and what stays pending.\<close>

lemma utf8_error_at:
  assumes "from_utf8 p = Inl (Utf8_Error v len)"
  shows "v = valid_up_to p \<and> (case len of Some n \<Rightarrow> utf8_next (drop v p) = Utf8_Invalid n
                                      | None \<Rightarrow> utf8_next (drop v p) = Utf8_Incomplete)"
  using assms by (cases "utf8_next (drop (valid_up_to p) p)") (auto simp: from_utf8_def Let_def)

lemma utf8_error_consumes:
  assumes "from_utf8 p = Inl (Utf8_Error v (Some n))"
  shows "0 < n \<and> n \<le> length p - v \<and> v \<le> length p"
proof -
  have "utf8_next (drop v p) = Utf8_Invalid n" "v = valid_up_to p"
    using utf8_error_at [OF assms] by auto
  then show ?thesis using utf8_next_Invalid_width [of "drop v p" n] valid_up_to_le [of p] by auto
qed

function decode_pending :: "bytes \<Rightarrow> string list \<times> bytes" where
  "decode_pending p =
     (case from_utf8 p of
        Inr t \<Rightarrow> (if t = [] then [] else [t], [])
      | Inl (Utf8_Error v len) \<Rightarrow>
          let valid = (if v > 0 then [from_utf8_lossy (take v p)] else []) in
          (case len of
             None \<Rightarrow> (valid, drop v p)
           | Some n \<Rightarrow>
               (case decode_pending (drop n (drop v p)) of
                  (texts, q) \<Rightarrow> (valid @ replacement # texts, q))))"
  by pat_completeness auto
termination
proof (relation "measure length")
  fix p e v len n
  assume "from_utf8 p = Inl e" "e = Utf8_Error v len" "len = Some n"
  then show "(drop n (drop v p), p) \<in> measure length" using utf8_error_consumes [of p v n] by auto
qed simp

declare decode_pending.simps [simp del]

definition decoder_push :: "bytes \<Rightarrow> bytes \<Rightarrow> string list \<times> bytes" where
  "decoder_push pending bs = decode_pending (pending @ bs)"

definition decoder_finish :: "bytes \<Rightarrow> string option" where
  "decoder_finish pending = (if pending \<noteq> [] then Some (from_utf8_lossy pending) else None)"

text \<open>Text the decoder has given is text no later bytes change.\<close>

lemma utf8_next_take: "utf8_next p = Utf8_Char w d \<Longrightarrow> utf8_next (take w p @ t) = Utf8_Char w d"
  by (cases p) (auto simp: utf8_next.simps(2) split: list.splits if_splits)

lemma lossy_append_valid:
  "from_utf8_lossy (p @ c) = take (valid_up_to p) p @ from_utf8_lossy (drop (valid_up_to p) p @ c)"
proof (induction p rule: valid_up_to.induct)
  case (1 p)
  show ?case
  proof (cases "utf8_next p")
    case (Utf8_Char w d)
    have w: "w \<le> length p" using utf8_next_Char_width [OF Utf8_Char] by simp
    have "utf8_next (p @ c) = Utf8_Char w d" using utf8_next_append [of p c] Utf8_Char by simp
    then have "from_utf8_lossy (p @ c) = take w p @ from_utf8_lossy (drop w p @ c)"
      using w by (simp add: from_utf8_lossy.simps [of "p @ c"])
    also have "\<dots> = take w p @ take (valid_up_to (drop w p)) (drop w p) @
        from_utf8_lossy (drop (valid_up_to (drop w p)) (drop w p) @ c)"
      using 1 [OF Utf8_Char] by simp
    finally show ?thesis by (simp add: valid_up_to.simps [of p] Utf8_Char take_add add.commute)
  qed (simp_all add: valid_up_to.simps [of p])
qed

lemma take_valid_lossy: "from_utf8_lossy (take (valid_up_to p) p) = take (valid_up_to p) p"
proof (induction p rule: valid_up_to.induct)
  case (1 p)
  show ?case
  proof (cases "utf8_next p")
    case (Utf8_Char w d)
    have w: "w \<le> length p" "0 < w" using utf8_next_Char_width [OF Utf8_Char] by simp_all
    let ?t = "take (valid_up_to (drop w p)) (drop w p)"
    have t: "take (valid_up_to p) p = take w p @ ?t" by (simp add: valid_up_to.simps [of p] Utf8_Char take_add)
    have n: "utf8_next (take w p @ ?t) = Utf8_Char w d" using utf8_next_take [OF Utf8_Char] by simp
    have "from_utf8_lossy (take w p @ ?t) = take w p @ from_utf8_lossy ?t"
      using w by (simp add: from_utf8_lossy.simps [of "take w p @ ?t"] n)
    then show ?thesis using t 1 [OF Utf8_Char] by simp
  qed (simp_all add: valid_up_to.simps [of p])
qed

lemma decode_pending_lossy:
  "decode_pending p = (texts, q) \<Longrightarrow> from_utf8_lossy (p @ c) = concat texts @ from_utf8_lossy (q @ c)"
proof (induction p arbitrary: texts q rule: decode_pending.induct)
  case (1 p)
  show ?case
  proof (cases "from_utf8 p")
    case (Inr t)
    then have t: "t = p" "valid_up_to p = length p" using from_utf8_Inr_iff by blast+
    then have "texts = (if p = [] then [] else [p])" "q = []" using "1.prems" Inr by (simp_all add: decode_pending.simps [of p])
    then show ?thesis using lossy_append_valid [of p c] t(2) by simp
  next
    case (Inl e)
    obtain v len where e: "e = Utf8_Error v len" by (cases e)
    have v: "v = valid_up_to p" using utf8_error_at [of p v len] Inl e by blast
    have l: "from_utf8_lossy (p @ c) = take v p @ from_utf8_lossy (drop v p @ c)"
      unfolding v by (rule lossy_append_valid)
    have val: "concat (if v > 0 then [from_utf8_lossy (take v p)] else []) = take v p"
      unfolding v using take_valid_lossy [of p] by (cases "valid_up_to p = 0") auto
    show ?thesis
    proof (cases len)
      case None
      then show ?thesis using "1.prems" Inl e l val by (auto simp: decode_pending.simps [of p] Let_def)
    next
      case (Some n)
      obtain texts' where d: "decode_pending (drop n (drop v p)) = (texts', q)"
        "texts = (if v > 0 then [from_utf8_lossy (take v p)] else []) @ replacement # texts'"
        using "1.prems" Inl e Some by (auto simp: decode_pending.simps [of p] Let_def split: prod.split_asm)
      have inv: "utf8_next (drop v p) = Utf8_Invalid n"
        using utf8_error_at [of p v "Some n"] Inl unfolding e Some by auto
      then have "n \<le> length (drop v p)" using utf8_next_Invalid_width by blast
      moreover have "utf8_next (drop v p @ c) = Utf8_Invalid n" using utf8_next_append [of "drop v p" c] inv by simp
      ultimately have "from_utf8_lossy (drop v p @ c) = replacement @ from_utf8_lossy (drop n (drop v p) @ c)"
        by (simp add: from_utf8_lossy.simps [of "drop v p @ c"])
      also have "\<dots> = replacement @ concat texts' @ from_utf8_lossy (q @ c)"
        using "1.IH" [OF Inl e refl Some d(1)] by simp
      finally show ?thesis using l val d(2) by simp
    qed
  qed
qed

text \<open>The chunks pushed one after another.\<close>

fun decode_chunks :: "bytes \<Rightarrow> bytes list \<Rightarrow> string list \<times> bytes" where
  "decode_chunks pending [] = ([], pending)"
| "decode_chunks pending (c # cs) =
     (case decoder_push pending c of
        (texts, q) \<Rightarrow> (case decode_chunks q cs of (texts', r) \<Rightarrow> (texts @ texts', r)))"

lemma decode_chunks_lossy:
  "decode_chunks pending cs = (texts, q) \<Longrightarrow> from_utf8_lossy (pending @ concat cs) = concat texts @ from_utf8_lossy q"
proof (induction cs arbitrary: pending texts)
  case (Cons c cs)
  obtain t1 p1 where d: "decode_pending (pending @ c) = (t1, p1)" by (cases "decode_pending (pending @ c)")
  obtain t2 where t2: "decode_chunks p1 cs = (t2, q)" "texts = t1 @ t2"
    using Cons.prems d by (auto simp: decoder_push_def split: prod.split_asm)
  show ?case using decode_pending_lossy [OF d, of "concat cs"] Cons.IH [OF t2(1)] t2(2) by simp
qed simp

section \<open>The output thread\<close>

text \<open>One read of the terminal: the bytes with the results of showing them and of the writes to the recording
  they cause (\<open>Some (k, e)\<close>: after \<open>k\<close> events the error \<open>e\<close>), the end, or an error.\<close>

datatype pty_read =
    PtyBytes bytes "unit result" "(nat \<times> error) option"
  | PtyEnd "error option"
  | PtyError string

record recorded =
  rc_shown :: bytes
  rc_captured :: nat
  rc_truncated :: bool
  rc_pending :: bytes
  rc_texts :: "string list"

definition nothing_recorded :: recorded where
  "nothing_recorded = \<lparr>rc_shown = [], rc_captured = 0, rc_truncated = False, rc_pending = [], rc_texts = []\<rparr>"

definition record_chunk :: "nat \<Rightarrow> bytes \<Rightarrow> (nat \<times> error) option \<Rightarrow> recorded \<Rightarrow> unit result \<times> recorded" where
  "record_chunk limit bs cast rc =
     (let record_count = min (limit - rc_captured rc) (length bs);
          (texts, pending) = (if record_count > 0 then decoder_push (rc_pending rc) (take record_count bs)
                              else ([], rc_pending rc));
          rc1 = rc\<lparr>rc_captured := rc_captured rc + record_count, rc_pending := pending\<rparr> in
      case cast of
        Some (k, e) \<Rightarrow>
          if k < length texts then (Inl e, rc1\<lparr>rc_texts := rc_texts rc @ take k texts\<rparr>)
          else (Inr (), rc1\<lparr>rc_texts := rc_texts rc @ texts, rc_truncated := (rc_truncated rc \<or> record_count < length bs)\<rparr>)
      | None \<Rightarrow>
          (Inr (), rc1\<lparr>rc_texts := rc_texts rc @ texts, rc_truncated := (rc_truncated rc \<or> record_count < length bs)\<rparr>))"

text \<open>\<open>None\<close> while the thread still reads.\<close>

fun session_capture_output :: "nat \<Rightarrow> pty_read list \<Rightarrow> recorded \<Rightarrow> unit result option \<times> recorded" where
  "session_capture_output limit [] rc = (None, rc)"
| "session_capture_output limit (PtyError m # rs) rc = (Some (Inl (Io m)), rc)"
| "session_capture_output limit (PtyEnd failed # rs) rc =
     (case decoder_finish (rc_pending rc) of
        None \<Rightarrow> (Some (Inr ()), rc)
      | Some text \<Rightarrow>
          (case failed of
             Some e \<Rightarrow> (Some (Inl e), rc)
           | None \<Rightarrow> (Some (Inr ()), rc\<lparr>rc_texts := rc_texts rc @ [text]\<rparr>)))"
| "session_capture_output limit (PtyBytes bs shown cast # rs) rc =
     (case shown of
        Inl e \<Rightarrow> (Some (Inl e), rc)
      | Inr _ \<Rightarrow>
          (case record_chunk limit bs cast (rc\<lparr>rc_shown := rc_shown rc @ bs\<rparr>) of
             (Inl e, rc') \<Rightarrow> (Some (Inl e), rc')
           | (Inr _, rc') \<Rightarrow> session_capture_output limit rs rc'))"

section \<open>The lines of the recording\<close>

text \<open>An event as it is written, with its interval in milliseconds: \<open>round_millis\<close> rounds to the nearest
  millisecond, halves upwards. The instants are nanoseconds of the monotonic clock.\<close>

record cast_writer =
  cw_started :: nat
  cw_previous :: nat
  cw_lines :: "json list"

definition round_millis :: "nat \<Rightarrow> nat" where
  "round_millis ns = (ns + 500000) div 1000000"

definition cast_header :: "string \<Rightarrow> nat \<Rightarrow> nat \<Rightarrow> nat \<Rightarrow> string \<Rightarrow> json" where
  "cast_header term_type timestamp cols rows command =
     JObject [(''version'', JNumber 3),
       (''term'', JObject [(''cols'', JNumber (int cols)), (''rows'', JNumber (int rows)), (''type'', JString term_type)]),
       (''timestamp'', JNumber (int timestamp)), (''command'', JString command),
       (''title'', JString ''Loomterm agent session'')]"

definition new_cast_writer :: "string \<Rightarrow> nat \<Rightarrow> nat \<Rightarrow> nat \<Rightarrow> nat \<Rightarrow> string \<Rightarrow> cast_writer" where
  "new_cast_writer term_type timestamp now cols rows command =
     \<lparr>cw_started = now, cw_previous = now, cw_lines = [cast_header term_type timestamp cols rows command]\<rparr>"

definition cast_event :: "(nat \<Rightarrow> string) \<Rightarrow> nat \<Rightarrow> string \<Rightarrow> string \<Rightarrow> cast_writer \<Rightarrow> cast_writer" where
  "cast_event show_millis now code data w =
     (let interval = (if cw_previous w = cw_started w then now - cw_started w else now - cw_previous w) in
      w\<lparr>cw_previous := now,
        cw_lines := cw_lines w @ [JArray [JFloat (show_millis (round_millis interval)), JString code, JString data]]\<rparr>)"

end
