(* ===== verification/SessionProperties.thy ===== *)
theory SessionProperties
  imports SessionRedact SessionCast
begin

text \<open>
  The properties of session recordings: what the recorder writes, and what redaction leaves.
\<close>

section \<open>Redaction of the output\<close>






section \<open>What is left of a pattern\<close>




lemma replacements_of_mem:
  "(p, r) \<in> set (replacements_of home redactions) \<Longrightarrow> p \<noteq> [] \<and> (r = ''~'' \<or> r = REDACTED) \<and> (p \<in> set redactions \<or> home = Some p)"
  by (auto simp: replacements_of_def split: option.split_asm if_split_asm)



















text \<open>In the strings of the detail the replacements are made one after another, the home directory first: of a
  pattern below the home directory the rest stays.\<close>

lemma redact_string_home_first:
  "redact_string (replacements_of (Some ''/h'') [''/h/key'']) ''/h/key'' = ''~/key''"
  by (simp add: redact_string_def replacements_of_def replace_all.simps)

section \<open>What the recorder writes\<close>

text \<open>The state of the output thread after the bytes \<open>C\<close>.\<close>

definition recorded_of :: "nat \<Rightarrow> bytes \<Rightarrow> recorded \<Rightarrow> bool" where
  "recorded_of limit C rc \<longleftrightarrow>
     rc_shown rc = C \<and> rc_captured rc = min limit (length C) \<and> (rc_truncated rc \<longleftrightarrow> limit < length C) \<and>
     (\<forall>c. from_utf8_lossy (take limit C @ c) = concat (rc_texts rc) @ from_utf8_lossy (rc_pending rc @ c))"

lemma record_chunk_step:
  assumes "recorded_of limit C rc"
  shows "\<exists>rc'. record_chunk limit bs None (rc\<lparr>rc_shown := rc_shown rc @ bs\<rparr>) = (Inr (), rc') \<and> recorded_of limit (C @ bs) rc'"
proof -
  let ?n = "min (limit - rc_captured rc) (length bs)"
  have c: "rc_captured rc = min limit (length C)" using assms by (simp add: recorded_of_def)
  then have tk: "take limit (C @ bs) = take limit C @ take ?n bs" by (auto simp: min_def)
  obtain texts q where d: "decode_pending (rc_pending rc @ take ?n bs) = (texts, q)"
    by (cases "decode_pending (rc_pending rc @ take ?n bs)")
  show ?thesis
  proof (cases "?n > 0")
    case True
    have "from_utf8_lossy (take limit (C @ bs) @ c) = concat (rc_texts rc @ texts) @ from_utf8_lossy (q @ c)" for c
      using decode_pending_lossy [OF d, of c] assms unfolding tk recorded_of_def by simp
    then show ?thesis using True d assms c
      by (auto simp: record_chunk_def Let_def decoder_push_def recorded_of_def)
  next
    case False
    then have none: "take ?n bs = []" by auto
    have "from_utf8_lossy (take limit (C @ bs) @ c) = concat (rc_texts rc) @ from_utf8_lossy (rc_pending rc @ c)" for c
      using assms unfolding tk none recorded_of_def by simp
    then show ?thesis using False assms c
      by (auto simp: record_chunk_def Let_def recorded_of_def)
  qed
qed

lemma capture_chunks:
  assumes "recorded_of limit C rc"
  shows "\<exists>rc'. session_capture_output limit (map (\<lambda>bs. PtyBytes bs (Inr ()) None) chunks @ rest) rc =
      session_capture_output limit rest rc' \<and> recorded_of limit (C @ concat chunks) rc'"
  using assms
proof (induction chunks arbitrary: C rc)
  case (Cons bs chunks)
  obtain rc1 where r: "record_chunk limit bs None (rc\<lparr>rc_shown := rc_shown rc @ bs\<rparr>) = (Inr (), rc1)" "recorded_of limit (C @ bs) rc1"
    using record_chunk_step [OF Cons.prems] by blast
  then show ?case using Cons.IH [OF r(2)] by simp
qed auto

lemma capture_all:
  "\<exists>rc. session_capture_output limit (map (\<lambda>bs. PtyBytes bs (Inr ()) None) chunks @ [PtyEnd None]) nothing_recorded = (Some (Inr ()), rc) \<and>
     rc_shown rc = concat chunks \<and> rc_captured rc = min limit (length (concat chunks)) \<and>
     (rc_truncated rc \<longleftrightarrow> limit < length (concat chunks)) \<and>
     concat (rc_texts rc) = from_utf8_lossy (take limit (concat chunks))"
proof -
  have "recorded_of limit [] nothing_recorded" by (simp add: recorded_of_def nothing_recorded_def)
  from capture_chunks [OF this, of chunks "[PtyEnd None]"] obtain rc where
    rc: "session_capture_output limit (map (\<lambda>bs. PtyBytes bs (Inr ()) None) chunks @ [PtyEnd None]) nothing_recorded =
        session_capture_output limit [PtyEnd None] rc" "recorded_of limit (concat chunks) rc"
    by auto
  have t: "from_utf8_lossy (take limit (concat chunks)) = concat (rc_texts rc) @ from_utf8_lossy (rc_pending rc)"
    using rc(2) unfolding recorded_of_def by (metis append_Nil2)
  show ?thesis
  proof (cases "rc_pending rc = []")
    case True
    then show ?thesis using rc t by (auto simp: decoder_finish_def recorded_of_def)
  next
    case False
    then show ?thesis using rc t by (auto simp: decoder_finish_def recorded_of_def)
  qed
qed

text \<open>C21: However the terminal cuts its output into pieces, the recorder shows all of it, counts the first \<open>limit\<close>
  bytes, notes a truncation exactly if there were more, and records the text of decoding those bytes in one
  go.\<close>

theorem recorder_splits_freely:
  "\<exists>rc. session_capture_output limit (map (\<lambda>bs. PtyBytes bs (Inr ()) None) chunks @ [PtyEnd None]) nothing_recorded = (Some (Inr ()), rc) \<and>
     rc_shown rc = concat chunks \<and> rc_captured rc = min limit (length (concat chunks)) \<and>
     (rc_truncated rc \<longleftrightarrow> limit < length (concat chunks)) \<and>
     concat (rc_texts rc) = from_utf8_lossy (take limit (concat chunks))"
  by (rule capture_all)

section \<open>Counting a recording\<close>

text \<open>The events of a recording, in the order the recorder's threads wrote them.\<close>

fun write_cast_events :: "(nat \<Rightarrow> string) \<Rightarrow> (nat \<times> string \<times> string) list \<Rightarrow> cast_writer \<Rightarrow> cast_writer" where
  "write_cast_events show_millis [] w = w"
| "write_cast_events show_millis ((now, code, data) # evs) w = write_cast_events show_millis evs (cast_event show_millis now code data w)"

definition output_texts :: "(nat \<times> string \<times> string) list \<Rightarrow> string list" where
  "output_texts evs = map (snd \<circ> snd) (filter (\<lambda>e. fst (snd e) = ''o'') evs)"

lemma write_events_lines:
  "\<exists>vs. cw_lines (write_cast_events show_millis evs w) = cw_lines w @ vs \<and>
     list_all2 (\<lambda>v e. \<exists>i. v = JArray [JFloat i, JString (fst (snd e)), JString (snd (snd e))]) vs evs"
proof (induction evs arbitrary: w)
  case (Cons e evs)
  obtain now code data where e: "e = (now, code, data)" by (cases e)
  obtain i where "cw_lines (cast_event show_millis now code data w) = cw_lines w @ [JArray [JFloat i, JString code, JString data]]"
    by (simp add: cast_event_def Let_def)
  moreover obtain vs where "cw_lines (write_cast_events show_millis evs (cast_event show_millis now code data w)) =
      cw_lines (cast_event show_millis now code data w) @ vs"
    "list_all2 (\<lambda>v e. \<exists>i. v = JArray [JFloat i, JString (fst (snd e)), JString (snd (snd e))]) vs evs"
    using Cons.IH by blast
  ultimately show ?case by (intro exI [of _ "JArray [JFloat i, JString code, JString data] # vs"]) (simp add: e)
qed simp

lemma cast_lines_sum:
  assumes "list_all2 (\<lambda>v e. \<exists>i. v = JArray [JFloat i, JString (fst (snd e)), JString (snd (snd e))]) vs evs"
    and "\<forall>v \<in> set vs. parse (print v) = Some v" and "count + length (concat (output_texts evs)) \<le> u64_max"
  shows "cast_lines parse (map (Inr \<circ> print) vs) count = Some (count + length (concat (output_texts evs)))"
  using assms
proof (induction vs evs arbitrary: count rule: list_all2_induct)
  case (Cons v vs e evs)
  then obtain i where v: "v = JArray [JFloat i, JString (fst (snd e)), JString (snd (snd e))]" by blast
  show ?case
  proof (cases "fst (snd e) = ''o''")
    case True
    then have "sat_add count (length (snd (snd e))) = count + length (snd (snd e))"
      using Cons.prems by (simp add: sat_add_def output_texts_def)
    then show ?thesis using True Cons.IH [of "count + length (snd (snd e))"] Cons.prems
      by (simp add: v nth_value_def output_texts_def)
  next
    case False
    then show ?thesis using Cons.IH [of count] Cons.prems by (simp add: v nth_value_def output_texts_def)
  qed
qed (simp add: output_texts_def)

text \<open>When the daemon counts the recording of a recorder that is gone, it arrives at the number of bytes the
  recorder had captured, whatever it was interleaved with, provided the captured output is valid UTF-8 (the
  replacement characters of other output are counted instead of the bytes).\<close>

theorem recording_counted:
  assumes "session_capture_output limit (map (\<lambda>bs. PtyBytes bs (Inr ()) None) chunks @ [PtyEnd None]) nothing_recorded = (Some (Inr ()), rc)"
    and "output_texts evs = rc_texts rc"
    and "\<forall>v \<in> set (tl (cw_lines (write_cast_events show_millis evs (new_cast_writer term_type timestamp now cols rows command)))).
           parse (print v) = Some v"
    and "from_utf8 (take limit (concat chunks)) = Inr text" and "limit \<le> u64_max"
  shows "cast_output_bytes parse (Some (map (Inr \<circ> print)
      (cw_lines (write_cast_events show_millis evs (new_cast_writer term_type timestamp now cols rows command))))) = Some (rc_captured rc)"
proof -
  have texts: "concat (rc_texts rc) = from_utf8_lossy (take limit (concat chunks))"
    "rc_captured rc = min limit (length (concat chunks))"
    using capture_all [of limit chunks] assms(1) by auto
  then have len: "length (concat (output_texts evs)) = rc_captured rc"
    using lossy_valid [OF assms(4)] assms(2) by (simp add: min.commute)
  obtain vs where vs: "cw_lines (write_cast_events show_millis evs (new_cast_writer term_type timestamp now cols rows command)) =
      cw_lines (new_cast_writer term_type timestamp now cols rows command) @ vs"
    "list_all2 (\<lambda>v e. \<exists>i. v = JArray [JFloat i, JString (fst (snd e)), JString (snd (snd e))]) vs evs"
    using write_events_lines by blast
  have "cast_lines parse (map (Inr \<circ> print) vs) 0 = Some (0 + length (concat (output_texts evs)))"
    using assms(3,5) texts(2) len vs(1) by (intro cast_lines_sum [OF vs(2)]) (auto simp: new_cast_writer_def)
  then show ?thesis using vs(1) len by (simp add: cast_output_bytes_def new_cast_writer_def)
qed

theorem recording_counted_witness:
  "\<exists>rc. session_capture_output 3 (map (\<lambda>bs. PtyBytes bs (Inr ()) None) [''ab'', ''cd''] @ [PtyEnd None]) nothing_recorded = (Some (Inr ()), rc) \<and>
     cast_output_bytes (\<lambda>s. case s of [] \<Rightarrow> None | c # d \<Rightarrow> Some (JArray [JFloat ''0'', JString [c], JString d]))
       (Some (map (Inr \<circ> (\<lambda>v. case v of JArray [_, JString c, JString d] \<Rightarrow> c @ d | _ \<Rightarrow> []))
         (cw_lines (write_cast_events (\<lambda>_. ''0'') [(5, ''o'', ''ab''), (6, ''r'', ''80x24''), (7, ''o'', ''c'')]
           (new_cast_writer ''xterm'' 0 1 80 24 ''sh''))))) = Some (rc_captured rc)"
proof -
  let ?parse = "\<lambda>s. case s of [] \<Rightarrow> None | c # d \<Rightarrow> Some (JArray [JFloat ''0'', JString [c], JString d])"
  let ?print = "\<lambda>v. case v of JArray [_, JString c, JString d] \<Rightarrow> c @ d | _ \<Rightarrow> []"
  let ?evs = "[(5, ''o'', ''ab''), (6, ''r'', ''80x24''), (7, ''o'', ''c'')] :: (nat \<times> string \<times> string) list"
  have u: "from_utf8 ''ab'' = Inr ''ab''" "from_utf8 ''c'' = Inr ''c''" "from_utf8 ''abc'' = Inr ''abc''"
    unfolding from_utf8_Inr_iff by code_simp+
  obtain rc where rc: "session_capture_output 3 (map (\<lambda>bs. PtyBytes bs (Inr ()) None) [''ab'', ''cd''] @ [PtyEnd None]) nothing_recorded =
      (Some (Inr ()), rc)" "rc_texts rc = [''ab'', ''c'']"
    by (simp add: record_chunk_def nothing_recorded_def decoder_push_def decode_pending.simps u decoder_finish_def Let_def)
  have t: "output_texts ?evs = rc_texts rc" using rc(2) by (simp add: output_texts_def)
  have l: "\<forall>v \<in> set (tl (cw_lines (write_cast_events (\<lambda>_. ''0'') ?evs (new_cast_writer ''xterm'' 0 1 80 24 ''sh'')))). ?parse (?print v) = Some v"
    by (simp add: new_cast_writer_def cast_event_def Let_def)
  have v: "from_utf8 (take 3 (concat [''ab'', ''cd''])) = Inr ''abc''" using u(3) by (simp add: eval_nat_numeral)
  have "(3::nat) \<le> u64_max" by simp
  from recording_counted [OF rc(1) t l v this] rc(1) show ?thesis by blast
qed

end
