(* ===== verification/SessionRecorder.thy ===== *)
theory SessionRecorder
  imports SessionCast
begin

text \<open>
  The recorder of a session (\<open>record\<close> in \<open>src/session.rs\<close>): the set-up in the order of its calls, the loop that
  watches the child, the end of the child's process group, and what every way out leaves behind. The child, the
  terminal and the threads answer through \<open>recorder_env\<close>; what the recorder does to them is listed in a trace.
\<close>

section \<open>Signals and outcomes\<close>

definition signal_number :: "string \<Rightarrow> nat" where
  "signal_number signal =
     (let s = map ascii_lower signal in
      if contains_sub ''hangup'' s then 1
      else if contains_sub ''interrupt'' s then 2
      else if contains_sub ''quit'' s then 3
      else if contains_sub ''kill'' s then 9
      else if contains_sub ''term'' s then 15
      else 1)"

text \<open>A status of the child: its exit code as \<open>u32\<close>, and the name of the signal that ended it.\<close>

record child_status =
  ch_exit_code :: nat
  ch_signal :: "string option"

definition as_i32 :: "nat \<Rightarrow> int" where
  "as_i32 n = (let m = int n mod 2 ^ 32 in if m < 2 ^ 31 then m else m - 2 ^ 32)"

definition record_outcome :: "bool \<Rightarrow> child_status \<Rightarrow> execution_outcome" where
  "record_outcome interrupted status =
     (if interrupted then OutcomeInterrupted ''session recorder received a termination signal''
      else case ch_signal status of
        Some signal \<Rightarrow> Signaled (int (signal_number signal))
      | None \<Rightarrow> Exited (as_i32 (ch_exit_code status)))"

definition record_exit_code :: "execution_outcome \<Rightarrow> int" where
  "record_exit_code outcome =
     (case outcome of Exited code \<Rightarrow> code | Signaled signal \<Rightarrow> 128 + signal | OutcomeInterrupted _ \<Rightarrow> 130 | _ \<Rightarrow> 1)"

section \<open>The command of the session\<close>

record record_spec =
  rs_command :: command_spec
  rs_cwd :: string
  rs_session_id :: string
  rs_agent_kind :: string
  rs_cast_path :: string
  rs_initial_cols :: nat
  rs_initial_rows :: nat
  rs_capture_limit_bytes :: nat
  rs_env :: "(string \<times> string) list"

fun command_builder :: "command_spec \<Rightarrow> string list" where
  "command_builder (Argv program args) = program # args"
| "command_builder (Shell command shell) = [case shell of Some s \<Rightarrow> s | None \<Rightarrow> ''/bin/sh'', ''-c'', command]"

text \<open>What is started, over the environment of the recorder: the two variables of the session and then those of the
  specification, each replacing an earlier one of the same name.\<close>

definition recorder_environment :: "record_spec \<Rightarrow> (string \<rightharpoonup> string) \<Rightarrow> (string \<rightharpoonup> string)" where
  "recorder_environment spec inherited =
     inherited(''LOOMTERM_SESSION_ID'' \<mapsto> rs_session_id spec, ''LOOMTERM_AGENT_KIND'' \<mapsto> rs_agent_kind spec)
       ++ map_of (rev (rs_env spec))"

section \<open>What the recorder does\<close>

datatype rec_action =
    Spawned
  | RawModeOn
  | RelayStarted
  | Resized nat nat
  | GroupTerminated
  | ChildKilled
  | Reaped
  | Disarmed
  | RelayJoined
  | RawModeOff

text \<open>\<open>terminate_child_group\<close>: the results of polling the child until the deadline, of killing it and of waiting for
  it. Without a process identifier it is killed at once.\<close>

record child_ending =
  tm_pid :: bool
  tm_polls :: "child_status option result list"
  tm_kill :: "unit result"
  tm_wait :: "unit result"

fun poll_child :: "child_status option result list \<Rightarrow> bool result" where
  "poll_child [] = Inr False"
| "poll_child (Inl e # ps) = Inl e"
| "poll_child (Inr (Some _) # ps) = Inr True"
| "poll_child (Inr None # ps) = poll_child ps"

definition kill_child :: "child_ending \<Rightarrow> unit result \<times> rec_action list" where
  "kill_child tm =
     (case tm_kill tm of
        Inl e \<Rightarrow> (Inl e, [ChildKilled])
      | Inr _ \<Rightarrow> (Inr (), [ChildKilled, Reaped]))"

definition terminate_child_group :: "child_ending \<Rightarrow> unit result \<times> rec_action list" where
  "terminate_child_group tm =
     (if tm_pid tm then
        (case poll_child (tm_polls tm) of
           Inl e \<Rightarrow> (Inl e, [GroupTerminated])
         | Inr True \<Rightarrow> (Inr (), [GroupTerminated, Reaped])
         | Inr False \<Rightarrow> (case kill_child tm of (r, acts) \<Rightarrow> (r, GroupTerminated # acts)))
      else kill_child tm)"

section \<open>The loop\<close>

text \<open>What one turn of the loop sees.\<close>

record rec_tick =
  rt_resized :: bool
  rt_size :: "(nat \<times> nat) option"
  rt_resize_event :: "unit result"
  rt_relay_closed :: bool
  rt_stdin_terminal :: bool
  rt_terminated :: bool
  rt_relay_end :: child_ending
  rt_signal_end :: child_ending
  rt_status :: "child_status option result"

definition tick_resize :: "rec_tick \<Rightarrow> unit result \<times> rec_action list" where
  "tick_resize t =
     (case rt_size t of
        Some (cols, rows) \<Rightarrow>
          if rt_resized t \<and> cols > 0 \<and> rows > 0 then (rt_resize_event t, [Resized cols rows]) else (Inr (), [])
      | None \<Rightarrow> (Inr (), []))"

definition when_ending :: "bool \<Rightarrow> child_ending \<Rightarrow> unit result \<times> rec_action list" where
  "when_ending b tm = (if b then terminate_child_group tm else (Inr (), []))"

definition ending :: "rec_tick \<Rightarrow> bool" where
  "ending t \<longleftrightarrow> rt_relay_closed t \<or> \<not> rt_stdin_terminal t"

text \<open>One turn: \<open>Inr None\<close> to go on, \<open>Inr (Some status)\<close> when the child is gone.\<close>

definition rec_step :: "rec_tick \<Rightarrow> bool \<Rightarrow> child_status option result \<times> bool \<times> rec_action list" where
  "rec_step t interrupted =
     (case tick_resize t of
        (Inl e, acts) \<Rightarrow> (Inl e, interrupted, acts)
      | (Inr _, acts) \<Rightarrow>
          (case when_ending (ending t) (rt_relay_end t) of
             (Inl e, acts1) \<Rightarrow> (Inl e, True, acts @ acts1)
           | (Inr _, acts1) \<Rightarrow>
               (case when_ending (rt_terminated t) (rt_signal_end t) of
                  (Inl e, acts2) \<Rightarrow> (Inl e, True, acts @ acts1 @ acts2)
                | (Inr _, acts2) \<Rightarrow>
                    (rt_status t, interrupted \<or> ending t \<or> rt_terminated t,
                     acts @ acts1 @ acts2 @ (case rt_status t of Inr (Some _) \<Rightarrow> [Reaped] | _ \<Rightarrow> [])))))"

fun rec_loop :: "rec_tick list \<Rightarrow> bool \<Rightarrow> child_status option result \<times> bool \<times> rec_action list" where
  "rec_loop [] interrupted = (Inr None, interrupted, [])"
| "rec_loop (t # ts) interrupted =
     (case rec_step t interrupted of
        (Inr None, i, acts) \<Rightarrow> (case rec_loop ts i of (r, i', acts') \<Rightarrow> (r, i', acts @ acts'))
      | (r, i, acts) \<Rightarrow> (r, i, acts))"

section \<open>The input relay\<close>

text \<open>What the relay meets when it comes round: the stop flag, the result of the poll, and for a read the bytes with
  the results of writing them to the terminal of the child and of flushing.\<close>

datatype relay_poll =
    StopSet
  | PollTimeout
  | PollInterrupted
  | PollError string
  | PollHangup
  | PollOther
  | PollInput "string + bytes" "unit result" "unit result"

text \<open>The result, \<open>None\<close> while it runs, and the bytes the child was given. A failed write or flush ends the relay
  without an error.\<close>

fun relay_input :: "relay_poll list \<Rightarrow> unit result option \<times> bytes" where
  "relay_input [] = (None, [])"
| "relay_input (StopSet # ps) = (Some (Inr ()), [])"
| "relay_input (PollTimeout # ps) = relay_input ps"
| "relay_input (PollInterrupted # ps) = relay_input ps"
| "relay_input (PollError m # ps) = (Some (Inl (Io m)), [])"
| "relay_input (PollHangup # ps) = (Some (Inr ()), [])"
| "relay_input (PollOther # ps) = relay_input ps"
| "relay_input (PollInput (Inl m) written flushed # ps) = (Some (Inl (Io m)), [])"
| "relay_input (PollInput (Inr bs) written flushed # ps) =
     (if bs = [] \<or> isl written then (Some (Inr ()), [])
      else if isl flushed then (Some (Inr ()), bs)
      else case relay_input ps of (r, sent) \<Rightarrow> (r, bs @ sent))"

section \<open>The whole run\<close>

record recorder_env =
  re_terminals :: bool
  re_openpty :: "unit result"
  re_cast :: "unit result"
  re_spawn :: "unit result"
  re_reader :: "unit result"
  re_writer :: "unit result"
  re_raw_mode :: "unit result"
  re_signals :: "unit result"
  re_ticks :: "rec_tick list"
  re_relay :: "unit result"
  re_limit :: nat
  re_reads :: "pty_read list"
  re_exit_event :: "unit result"
  re_guard :: child_ending

record record_result =
  rr_outcome :: execution_outcome
  rr_captured_bytes :: nat
  rr_output_truncated :: bool
  rr_exit_code :: int

text \<open>The drops at the end of the function: the relay is joined, the terminal leaves raw mode, and the child's guard
  ends the child unless it has been disarmed.\<close>

definition drop_guard :: "recorder_env \<Rightarrow> rec_action list" where
  "drop_guard R = snd (terminate_child_group (re_guard R))"

text \<open>\<open>None\<close> while the output thread has not come to its end.\<close>

definition finish_record :: "recorder_env \<Rightarrow> bool \<Rightarrow> child_status \<Rightarrow> record_result result option \<times> rec_action list" where
  "finish_record R interrupted status =
     (case re_relay R of
        Inl e \<Rightarrow> (Some (Inl e), [Disarmed, RelayJoined, RawModeOff])
      | Inr _ \<Rightarrow>
          (case session_capture_output (re_limit R) (re_reads R) nothing_recorded of
             (None, rc) \<Rightarrow> (None, [Disarmed, RelayJoined])
           | (Some (Inl e), rc) \<Rightarrow> (Some (Inl e), [Disarmed, RelayJoined, RawModeOff])
           | (Some (Inr _), rc) \<Rightarrow>
               let outcome = record_outcome interrupted status; code = record_exit_code outcome in
               (Some (bind_res (re_exit_event R) (\<lambda>_.
                  Inr \<lparr>rr_outcome = outcome, rr_captured_bytes = rc_captured rc,
                       rr_output_truncated = rc_truncated rc, rr_exit_code = code\<rparr>)),
                [Disarmed, RelayJoined, RawModeOff])))"

text \<open>After the start of the child.\<close>

definition watch_child :: "recorder_env \<Rightarrow> record_result result option \<times> rec_action list" where
  "watch_child R =
     (case re_signals R of
        Inl e \<Rightarrow> (Some (Inl e), [RelayJoined, RawModeOff] @ drop_guard R)
      | Inr _ \<Rightarrow>
          (case rec_loop (re_ticks R) False of
             (Inl e, _, acts) \<Rightarrow> (Some (Inl e), acts @ [RelayJoined, RawModeOff] @ drop_guard R)
           | (Inr None, _, acts) \<Rightarrow> (None, acts)
           | (Inr (Some status), interrupted, acts) \<Rightarrow>
               (case finish_record R interrupted status of (r, acts') \<Rightarrow> (r, acts @ acts'))))"

definition with_child :: "recorder_env \<Rightarrow> record_result result option \<times> rec_action list" where
  "with_child R =
     (case bind_res (re_reader R) (\<lambda>_. re_writer R) of
        Inl e \<Rightarrow> (Some (Inl e), drop_guard R)
      | Inr _ \<Rightarrow>
          (case re_raw_mode R of
             Inl e \<Rightarrow> (Some (Inl e), drop_guard R)
           | Inr _ \<Rightarrow> (case watch_child R of (r, acts) \<Rightarrow> (r, [RawModeOn, RelayStarted] @ acts))))"

definition record_session :: "recorder_env \<Rightarrow> record_result result option \<times> rec_action list" where
  "record_session R =
     (if \<not> re_terminals R
      then (Some (Inl (InvalidRequest ''session recording requires terminal stdin and stdout'')), [])
      else
        case bind_res (re_openpty R) (\<lambda>_. bind_res (re_cast R) (\<lambda>_. re_spawn R)) of
          Inl e \<Rightarrow> (Some (Inl e), [])
        | Inr _ \<Rightarrow> (case with_child R of (r, acts) \<Rightarrow> (r, Spawned # acts)))"

end
