(* ===== verification/RecorderProperties.thy ===== *)
theory RecorderProperties
  imports SessionRecorder SessionProperties
begin

text \<open>
  The properties of the recorder's run: no child and no raw terminal is left behind, and the outcome is that of the
  child unless the recorder had been told to stop.
\<close>

lemma terminate_acts:
  "set (snd (terminate_child_group tm)) \<inter> {GroupTerminated, ChildKilled} \<noteq> {}"
  "set (snd (terminate_child_group tm)) \<subseteq> {GroupTerminated, ChildKilled, Reaped}"
  by (auto simp: terminate_child_group_def kill_child_def split: sum.split bool.split)

definition loop_acts :: "rec_action set" where
  "loop_acts = insert GroupTerminated (insert ChildKilled (insert Reaped {Resized cols rows | cols rows. True}))"

lemma when_ending_acts: "set (snd (when_ending b tm)) \<subseteq> loop_acts"
  using terminate_acts(2) [of tm] by (auto simp: when_ending_def loop_acts_def)

lemma rec_step_acts: "set (snd (snd (rec_step t i))) \<subseteq> loop_acts"
proof -
  have a: "set (snd (tick_resize t)) \<subseteq> loop_acts" by (auto simp: tick_resize_def loop_acts_def split: option.split)
  have b: "set (case rt_status t of Inr (Some _) \<Rightarrow> [Reaped] | _ \<Rightarrow> []) \<subseteq> loop_acts"
    by (auto simp: loop_acts_def split: sum.split option.split)
  show ?thesis
    using a b when_ending_acts [of "ending t" "rt_relay_end t"] when_ending_acts [of "rt_terminated t" "rt_signal_end t"]
    by (auto simp: rec_step_def split_beta split: sum.split)
qed

lemma rec_loop_acts: "rec_loop ts i = (r, i', acts) \<Longrightarrow> set acts \<subseteq> loop_acts"
proof (induction ts arbitrary: i r i' acts)
  case (Cons t ts)
  obtain r1 i1 acts1 where s: "rec_step t i = (r1, i1, acts1)" by (cases "rec_step t i")
  have a: "set acts1 \<subseteq> loop_acts" using rec_step_acts [of t i] s by simp
  show ?case
  proof (cases "r1 = Inr None")
    case True
    obtain r2 i2 acts2 where l: "rec_loop ts i1 = (r2, i2, acts2)" by (cases "rec_loop ts i1")
    then have "acts = acts1 @ acts2" using Cons.prems s True by simp
    then show ?thesis using Cons.IH [OF l] a by simp
  next
    case False
    then have "acts = acts1" using Cons.prems s by (cases r1; cases "projr r1") auto
    then show ?thesis using a by simp
  qed
qed simp

text \<open>The loop ends with a status exactly in the first turn that finds the child gone; before it every turn went on.\<close>

definition told_to_stop :: "rec_tick \<Rightarrow> bool" where
  "told_to_stop t \<longleftrightarrow> ending t \<or> rt_terminated t"

lemma rec_step_status:
  assumes "rec_step t i = (Inr s, i', acts)"
  shows "rt_status t = Inr s \<and> i' = (i \<or> told_to_stop t) \<and> (s \<noteq> None \<longrightarrow> Reaped \<in> set acts)"
  using assms by (auto simp: rec_step_def told_to_stop_def split: prod.split_asm sum.split_asm)

lemma rec_loop_status:
  assumes "rec_loop ts i = (Inr (Some status), i', acts)"
  shows "\<exists>before t after. ts = before @ t # after \<and> (\<forall>b \<in> set before. rt_status b = Inr None) \<and>
    rt_status t = Inr (Some status) \<and> i' = (i \<or> (\<exists>b \<in> set (before @ [t]). told_to_stop b)) \<and> Reaped \<in> set acts"
  using assms
proof (induction ts arbitrary: i acts)
  case (Cons t ts)
  obtain r1 i1 acts1 where s: "rec_step t i = (r1, i1, acts1)" by (cases "rec_step t i")
  show ?case
  proof (cases "r1 = Inr None")
    case True
    obtain r2 i2 acts2 where l: "rec_loop ts i1 = (r2, i2, acts2)" by (cases "rec_loop ts i1")
    then have l': "rec_loop ts i1 = (Inr (Some status), i', acts2)" and a: "acts = acts1 @ acts2" using Cons.prems s True by simp_all
    obtain before u after where u: "ts = before @ u # after" "\<forall>b \<in> set before. rt_status b = Inr None"
      "rt_status u = Inr (Some status)" "i' = (i1 \<or> (\<exists>b \<in> set (before @ [u]). told_to_stop b))" "Reaped \<in> set acts2"
      using Cons.IH [OF l'] by blast
    have "rt_status t = Inr None" "i1 = (i \<or> told_to_stop t)" using rec_step_status [of t i None i1 acts1] s True by auto
    then show ?thesis using u a
      by (intro exI [of _ "t # before"] exI [of _ u] exI [of _ after]) auto
  next
    case False
    then have r: "r1 = Inr (Some status)" "i1 = i'" "acts = acts1" using Cons.prems s by (cases r1; cases "projr r1"; auto)+
    then show ?thesis using rec_step_status [of t i "Some status" i1 acts1] s
      by (intro exI [of _ "[]"] exI [of _ t] exI [of _ ts]) auto
  qed
qed simp

section \<open>A run\<close>

definition gone_child :: child_ending where
  "gone_child = \<lparr>tm_pid = True, tm_polls = [Inr (Some \<lparr>ch_exit_code = 3, ch_signal = None\<rparr>)], tm_kill = Inr (), tm_wait = Inr ()\<rparr>"

definition quiet_tick :: rec_tick where
  "quiet_tick = \<lparr>rt_resized = False, rt_size = Some (80, 24), rt_resize_event = Inr (), rt_relay_closed = False,
     rt_stdin_terminal = True, rt_terminated = False, rt_relay_end = gone_child, rt_signal_end = gone_child,
     rt_status = Inr (Some \<lparr>ch_exit_code = 3, ch_signal = None\<rparr>)\<rparr>"

definition quiet_run :: recorder_env where
  "quiet_run = \<lparr>re_terminals = True, re_openpty = Inr (), re_cast = Inr (), re_spawn = Inr (), re_reader = Inr (),
     re_writer = Inr (), re_raw_mode = Inr (), re_signals = Inr (), re_ticks = [quiet_tick\<lparr>rt_status := Inr None\<rparr>, quiet_tick],
     re_relay = Inr (), re_limit = 5, re_reads = [PtyBytes ''ok'' (Inr ()) None, PtyEnd None], re_exit_event = Inr (), re_guard = gone_child\<rparr>"

text \<open>What the output thread counts when it ends without an error.\<close>

fun read_bytes :: "pty_read list \<Rightarrow> bytes" where
  "read_bytes (PtyBytes bs _ _ # rs) = bs @ read_bytes rs"
| "read_bytes _ = []"

lemma capture_counts_from:
  assumes "session_capture_output limit rs rc = (Some (Inr ()), rc')" "rc_captured rc = min limit n" "rc_truncated rc \<longleftrightarrow> limit < n"
  shows "rc_captured rc' = min limit (n + length (read_bytes rs)) \<and> (rc_truncated rc' \<longleftrightarrow> limit < n + length (read_bytes rs))"
  using assms
proof (induction limit rs rc arbitrary: n rule: session_capture_output.induct)
  case (4 limit bs shown cast rs rc)
  obtain rc1 where c: "shown = Inr ()" "record_chunk limit bs cast (rc\<lparr>rc_shown := rc_shown rc @ bs\<rparr>) = (Inr (), rc1)"
    "session_capture_output limit rs rc1 = (Some (Inr ()), rc')"
    using "4.prems"(1) by (auto split: sum.split_asm prod.split_asm)
  have "rc_captured rc1 = min limit (n + length bs)" "rc_truncated rc1 \<longleftrightarrow> limit < n + length bs"
    using c(2) "4.prems"(2,3)
    by (auto simp: record_chunk_def Let_def split: option.split_asm prod.split_asm if_split_asm)
  from "4.IH" [OF c(1) c(2) [symmetric] refl c(3) this] show ?case by (simp add: add.assoc)
qed (auto split: option.split_asm)

lemma capture_counts:
  assumes "session_capture_output limit rs nothing_recorded = (Some (Inr ()), rc)"
  shows "rc_captured rc = min limit (length (read_bytes rs)) \<and> (rc_truncated rc \<longleftrightarrow> limit < length (read_bytes rs))"
  using capture_counts_from [OF assms, of 0] by (simp add: nothing_recorded_def)

lemma quiet_run_output:
  "\<exists>rc. session_capture_output 5 [PtyBytes ''ok'' (Inr ()) None, PtyEnd None] nothing_recorded = (Some (Inr ()), rc) \<and>
     rc_captured rc = 2 \<and> \<not> rc_truncated rc"
  using capture_all [of 5 "[''ok'']"] by auto

lemma quiet_run_result:
  "record_session quiet_run = (Some (Inr \<lparr>rr_outcome = Exited 3, rr_captured_bytes = 2, rr_output_truncated = False, rr_exit_code = 3\<rparr>),
     [Spawned, RawModeOn, RelayStarted, Reaped, Disarmed, RelayJoined, RawModeOff])"
  using quiet_run_output
  by (auto simp: record_session_def with_child_def watch_child_def finish_record_def rec_step_def tick_resize_def when_ending_def ending_def
      quiet_run_def quiet_tick_def record_outcome_def record_exit_code_def as_i32_def Let_def)

section \<open>Nothing is left behind\<close>

lemma finish_record_returns:
  "finish_record R i status = (Some r, acts) \<Longrightarrow> acts = [Disarmed, RelayJoined, RawModeOff]"
  by (auto simp: finish_record_def Let_def split: sum.split_asm prod.split_asm option.split_asm)

text \<open>C22: When the recorder returns, in whatever way, a child that was started has been reaped or its group has been
  told to end, and a terminal in raw mode has left it, after the input relay was joined; a result is returned
  only for a child that is gone.\<close>

theorem recorder_leaves_nothing:
  assumes "record_session R = (Some r, acts)"
  shows "(Spawned \<in> set acts \<longrightarrow> set acts \<inter> {Reaped, GroupTerminated, ChildKilled} \<noteq> {}) \<and>
    (RawModeOn \<in> set acts \<longrightarrow> (\<exists>xs ys zs. acts = xs @ RelayJoined # RawModeOff # ys \<and> RawModeOn \<in> set xs \<and> RawModeOn \<notin> set ys)) \<and>
    (\<forall>result. r = Inr result \<longrightarrow> Spawned \<in> set acts \<and> Reaped \<in> set acts \<and> Disarmed \<in> set acts)"
proof (cases "re_terminals R \<and> (\<exists>u. bind_res (re_openpty R) (\<lambda>_. bind_res (re_cast R) (\<lambda>_. re_spawn R)) = Inr u)")
  case False
  then have "acts = [] \<and> (\<exists>e. r = Inl e)"
    using assms by (cases "bind_res (re_openpty R) (\<lambda>_. bind_res (re_cast R) (\<lambda>_. re_spawn R))")
      (auto simp: record_session_def split: if_split_asm)
  then show ?thesis by auto
next
  case True
  then obtain acts1 where w: "with_child R = (Some r, acts1)" "acts = Spawned # acts1"
    using assms by (auto simp: record_session_def split: prod.split_asm)
  have guard: "set (drop_guard R) \<inter> {Reaped, GroupTerminated, ChildKilled} \<noteq> {}" "RawModeOn \<notin> set (drop_guard R)"
    using terminate_acts [of "re_guard R"] by (auto simp: drop_guard_def)
  show ?thesis
  proof (cases "(\<exists>e. bind_res (re_reader R) (\<lambda>_. re_writer R) = Inl e) \<or> (\<exists>e. re_raw_mode R = Inl e)")
    case True
    then have "acts1 = drop_guard R \<and> (\<exists>e. r = Inl e)"
      using w(1) by (auto simp: with_child_def split: sum.split_asm)
    then show ?thesis using w(2) guard by auto
  next
    case False
    then obtain acts2 where x: "watch_child R = (Some r, acts2)" "acts1 = RawModeOn # RelayStarted # acts2"
      using w(1) by (auto simp: with_child_def split: sum.split_asm prod.split_asm)
    show ?thesis
    proof (cases "re_signals R")
      case (Inl e)
      then have a: "acts2 = RelayJoined # RawModeOff # drop_guard R" "r = Inl e" using x(1) by (auto simp: watch_child_def)
      have "acts = [Spawned, RawModeOn, RelayStarted] @ RelayJoined # RawModeOff # drop_guard R" using w(2) x(2) a by simp
      then show ?thesis using guard a(2) by (intro conjI impI exI [of _ "[Spawned, RawModeOn, RelayStarted]"] exI [of _ "drop_guard R"]) auto
    next
      case (Inr u)
      obtain lr i la where l: "rec_loop (re_ticks R) False = (lr, i, la)" by (cases "rec_loop (re_ticks R) False")
      have la: "RawModeOn \<notin> set la" using rec_loop_acts [OF l] by (auto simp: loop_acts_def)
      consider e where "lr = Inl e" | status where "lr = Inr (Some status)"
        using x(1) Inr l by (cases lr; cases "projr lr") (auto simp: watch_child_def)
      then show ?thesis
      proof cases
        case (1 e)
        then have a: "acts2 = la @ RelayJoined # RawModeOff # drop_guard R" "r = Inl e" using x(1) Inr l by (auto simp: watch_child_def)
        have "acts = ([Spawned, RawModeOn, RelayStarted] @ la) @ RelayJoined # RawModeOff # drop_guard R" using w(2) x(2) a by simp
        then show ?thesis using guard a(2)
          by (intro conjI impI exI [of _ "[Spawned, RawModeOn, RelayStarted] @ la"] exI [of _ "drop_guard R"]) auto
      next
        case (2 status)
        obtain fr fa where f: "finish_record R i status = (fr, fa)" by (cases "finish_record R i status")
        then have a: "acts2 = la @ fa" "fr = Some r" using x(1) Inr l 2 by (auto simp: watch_child_def)
        have fa: "fa = [Disarmed, RelayJoined, RawModeOff]" using finish_record_returns f a(2) by blast
        have re: "Reaped \<in> set la" using rec_loop_status [of "re_ticks R" False status i la] l 2 by blast
        have "acts = ([Spawned, RawModeOn, RelayStarted] @ la @ [Disarmed]) @ RelayJoined # RawModeOff # []" using w(2) x(2) a(1) fa by simp
        then show ?thesis using re
          by (intro conjI impI allI exI [of _ "[Spawned, RawModeOn, RelayStarted] @ la @ [Disarmed]"] exI [of _ "[]"]) auto
      qed
    qed
  qed
qed

theorem recorder_leaves_nothing_witness:
  "\<exists>result acts. record_session quiet_run = (Some (Inr result), acts) \<and> set acts \<inter> {Reaped, GroupTerminated, ChildKilled} \<noteq> {} \<and>
     (\<exists>xs ys. acts = xs @ RelayJoined # RawModeOff # ys \<and> RawModeOn \<in> set xs)"
proof -
  have r: "record_session quiet_run = (Some (Inr \<lparr>rr_outcome = Exited 3, rr_captured_bytes = 2, rr_output_truncated = False, rr_exit_code = 3\<rparr>),
     [Spawned, RawModeOn, RelayStarted, Reaped, Disarmed, RelayJoined, RawModeOff])"
    by (rule quiet_run_result)
  show ?thesis using recorder_leaves_nothing [OF r] r by auto
qed

section \<open>The outcome\<close>

lemma record_session_ended:
  assumes "record_session R = (Some (Inr result), acts)"
  obtains status i acts1 rc where "rec_loop (re_ticks R) False = (Inr (Some status), i, acts1)"
    and "session_capture_output (re_limit R) (re_reads R) nothing_recorded = (Some (Inr ()), rc)"
    and "rr_outcome result = record_outcome i status" and "rr_exit_code result = record_exit_code (rr_outcome result)"
    and "rr_captured_bytes result = rc_captured rc" and "rr_output_truncated result = rc_truncated rc"
proof -
  obtain acts' where w: "watch_child R = (Some (Inr result), acts')"
    using assms by (auto simp: record_session_def with_child_def split: if_split_asm prod.split_asm sum.split_asm)
  obtain status i acts1 acts2 where l: "rec_loop (re_ticks R) False = (Inr (Some status), i, acts1)"
    and f: "finish_record R i status = (Some (Inr result), acts2)"
    using w by (auto simp: watch_child_def split: prod.split_asm sum.split_asm option.split_asm)
  obtain rc where c: "session_capture_output (re_limit R) (re_reads R) nothing_recorded = (Some (Inr ()), rc)"
    and r: "rr_outcome result = record_outcome i status" "rr_exit_code result = record_exit_code (rr_outcome result)"
      "rr_captured_bytes result = rc_captured rc" "rr_output_truncated result = rc_truncated rc"
    using f by (auto simp: finish_record_def Let_def split: prod.split_asm sum.split_asm option.split_asm)
      (cases "re_exit_event R"; auto)+
  show ?thesis by (rule that [OF l c r])
qed

text \<open>A run that returns a result watched the child until it was gone: it is recorded as interrupted exactly if some
  turn of the loop up to that one had been told to stop, and otherwise with the signal or exit code of the child,
  which decides the exit code; the bytes counted are those of the terminal up to the limit.\<close>

theorem recorder_outcome:
  assumes "record_session R = (Some (Inr result), acts)"
  shows "\<exists>before t after status. re_ticks R = before @ t # after \<and> (\<forall>b \<in> set before. rt_status b = Inr None) \<and>
    rt_status t = Inr (Some status) \<and>
    rr_outcome result = record_outcome (\<exists>b \<in> set (before @ [t]). told_to_stop b) status \<and>
    rr_exit_code result = record_exit_code (rr_outcome result) \<and>
    rr_captured_bytes result = min (re_limit R) (length (read_bytes (re_reads R))) \<and>
    (rr_output_truncated result \<longleftrightarrow> re_limit R < length (read_bytes (re_reads R)))"
proof -
  obtain status i acts1 rc where l: "rec_loop (re_ticks R) False = (Inr (Some status), i, acts1)"
    and c: "session_capture_output (re_limit R) (re_reads R) nothing_recorded = (Some (Inr ()), rc)"
    and r: "rr_outcome result = record_outcome i status" "rr_exit_code result = record_exit_code (rr_outcome result)"
      "rr_captured_bytes result = rc_captured rc" "rr_output_truncated result = rc_truncated rc"
    using record_session_ended [OF assms] by metis
  obtain before t after where "re_ticks R = before @ t # after" "\<forall>b \<in> set before. rt_status b = Inr None"
    "rt_status t = Inr (Some status)" "i = (False \<or> (\<exists>b \<in> set (before @ [t]). told_to_stop b))"
    using rec_loop_status [OF l] by blast
  then show ?thesis using r capture_counts [OF c]
    by (intro exI [of _ before] exI [of _ t] exI [of _ after] exI [of _ status]) simp
qed

theorem recorder_outcome_witness:
  "\<exists>result acts. record_session quiet_run = (Some (Inr result), acts) \<and> rr_exit_code result = record_exit_code (rr_outcome result) \<and>
     rr_captured_bytes result = 2"
proof -
  note r = quiet_run_result
  show ?thesis using recorder_outcome [OF r] r by auto
qed

text \<open>The relay of the input closes when it cannot write to a child that has gone; a turn that sees this and only then
  asks for the status records the child's normal end as an interruption.\<close>

lemma normal_exit_interrupted:
  "\<exists>result acts. record_session (quiet_run\<lparr>re_ticks := [quiet_tick\<lparr>rt_relay_closed := True, rt_relay_end := gone_child\<rparr>]\<rparr>) = (Some (Inr result), acts) \<and>
     rr_outcome result = OutcomeInterrupted ''session recorder received a termination signal'' \<and> rr_exit_code result = 130"
proof -
  obtain rc where "session_capture_output 5 [PtyBytes ''ok'' (Inr ()) None, PtyEnd None] nothing_recorded = (Some (Inr ()), rc)"
    using quiet_run_output by blast
  then show ?thesis
    by (simp add: record_session_def with_child_def watch_child_def finish_record_def rec_step_def tick_resize_def when_ending_def
        ending_def terminate_child_group_def quiet_run_def quiet_tick_def gone_child_def record_outcome_def record_exit_code_def
        Let_def del: session_capture_output.simps)
qed

text \<open>A signal outside the five names is recorded as a hangup.\<close>

lemma unknown_signal_is_hangup: "signal_number ''Segmentation fault: 11'' = 1"
  by code_simp

end
