(* ===== verification/Cli.thy ===== *)
theory Cli
  imports Client Iterators Settings
begin

text \<open>
  What the commands of the command line (\<open>src/bin/loom.rs\<close>) share: the calls of the client they make one
  after another, the choice of the workspace, and the small helpers for texts. A connection is the client with
  its transport and the identifiers its requests draw.
\<close>

section \<open>One call after another\<close>

type_synonym ('s, 'a) action = "'s \<Rightarrow> 'a result \<times> 's"

definition pure_res :: "'a result \<Rightarrow> ('s, 'a) action" where
  "pure_res r s = (r, s)"

definition seq_res :: "('s, 'a) action \<Rightarrow> ('a \<Rightarrow> ('s, 'b) action) \<Rightarrow> ('s, 'b) action" where
  "seq_res m f s = (case m s of (Inl e, s1) \<Rightarrow> (Inl e, s1) | (Inr a, s1) \<Rightarrow> f a s1)"

lemma seq_res_Inr_iff: "seq_res m f s = (Inr b, s2) \<longleftrightarrow> (\<exists>a s1. m s = (Inr a, s1) \<and> f a s1 = (Inr b, s2))"
  by (auto simp: seq_res_def split: prod.split sum.split)

lemma seq_res_Inr [simp]: "m s = (Inr a, s1) \<Longrightarrow> seq_res m f s = f a s1"
  by (simp add: seq_res_def)

lemma seq_res_Inl [simp]: "m s = (Inl e, s1) \<Longrightarrow> seq_res m f s = (Inl e, s1)"
  by (simp add: seq_res_def)

lemma pure_res_iff [simp]: "pure_res r s = (r', s') \<longleftrightarrow> r' = r \<and> s' = s"
  by (auto simp: pure_res_def)

section \<open>The client's methods\<close>

record 's connection =
  cn_client :: client
  cn_transport :: "'s transport"
  cn_ids :: "nat \<Rightarrow> string"

definition plain_call :: "(client \<Rightarrow> protocol_result \<Rightarrow> 'a result) \<Rightarrow> 's connection \<Rightarrow> nat \<Rightarrow> operation \<Rightarrow> ('s, 'a) action" where
  "plain_call expect N k op = call_expect expect (cn_client N) (cn_transport N) (cn_ids N k) op"

definition session_call :: "(client \<Rightarrow> protocol_result \<Rightarrow> 'a result) \<Rightarrow> 's connection \<Rightarrow> nat \<Rightarrow> operation \<Rightarrow> ('s, 'a) action" where
  "session_call expect N k op =
     call_capable CAPABILITY_AGENT_SESSIONS expect (cn_client N) (cn_transport N) (cn_ids N k) (cn_ids N (k + 1)) op"

definition cm_health :: "'s connection \<Rightarrow> nat \<Rightarrow> ('s, health) action" where
  "cm_health N k = plain_call expect_health N k OpHealth"

definition cm_list_workspaces :: "'s connection \<Rightarrow> nat \<Rightarrow> ('s, workspace list) action" where
  "cm_list_workspaces N k = plain_call expect_workspaces N k OpWorkspaceList"

definition cm_get :: "'s connection \<Rightarrow> nat \<Rightarrow> string \<Rightarrow> ('s, execution) action" where
  "cm_get N k xid = plain_call expect_execution N k (OpGet xid)"

definition cm_get_agent_session :: "'s connection \<Rightarrow> nat \<Rightarrow> string \<Rightarrow> ('s, agent_session_detail) action" where
  "cm_get_agent_session N k sid = session_call expect_detail N k (OpSessionGet sid)"

definition cm_list_agent_sessions :: "'s connection \<Rightarrow> nat \<Rightarrow> string option \<Rightarrow> nat \<Rightarrow> ('s, agent_session list) action" where
  "cm_list_agent_sessions N k w limit = session_call expect_agent_sessions N k (OpSessionList w limit)"

definition cm_create_agent_session :: "'s connection \<Rightarrow> nat \<Rightarrow> agent_session_request \<Rightarrow> ('s, agent_session) action" where
  "cm_create_agent_session N k rq = session_call expect_agent_session N k (OpSessionCreate rq)"

definition cm_finish_agent_session :: "'s connection \<Rightarrow> nat \<Rightarrow> string \<Rightarrow> agent_session_finish \<Rightarrow> ('s, agent_session) action" where
  "cm_finish_agent_session N k sid fin = session_call expect_agent_session N k (OpSessionFinish sid fin)"

definition cm_shutdown :: "'s connection \<Rightarrow> nat \<Rightarrow> bool \<Rightarrow> ('s, unit) action" where
  "cm_shutdown N k force = plain_call expect_empty N k (OpShutdown force)"

section \<open>The workspace\<close>

definition innermost_root :: "string \<Rightarrow> workspace list \<Rightarrow> workspace option" where
  "innermost_root cwd workspaces =
     max_by_key (\<lambda>w. length (ws_root w)) (filter (\<lambda>w. path_starts_with cwd (ws_root w)) workspaces)"

text \<open>\<open>cwd\<close> is the canonical current directory.\<close>

definition resolve_workspace :: "'s connection \<Rightarrow> string result \<Rightarrow> string option \<Rightarrow> ('s, string) action" where
  "resolve_workspace N cwd requested =
     (case requested of
        Some w \<Rightarrow> pure_res (Inr w)
      | None \<Rightarrow>
          seq_res (pure_res cwd) (\<lambda>dir. seq_res (cm_list_workspaces N 0) (\<lambda>ws.
            pure_res (ok_or (InvalidRequest
                ''current directory is not in a registered workspace; run `loom workspace add .`'')
              (map_option ws_id (innermost_root dir ws))))))"

definition selected_workspace :: "'s connection \<Rightarrow> string result \<Rightarrow> string option \<Rightarrow> ('s, workspace) action" where
  "selected_workspace N cwd requested =
     seq_res (resolve_workspace N cwd requested) (\<lambda>identifier. seq_res (cm_list_workspaces N 1) (\<lambda>ws.
       pure_res (ok_or (WorkspaceNotFound identifier)
         (find (\<lambda>w. ws_id w = identifier \<or> ws_name w = identifier) ws))))"

section \<open>Texts\<close>

definition newline :: string where
  "newline = [CHR 0x0A]"

text \<open>The first \<open>n\<close> characters of a text, and what follows them.\<close>

fun split_chars :: "nat \<Rightarrow> string \<Rightarrow> string \<times> string" where
  "split_chars 0 s = ([], s)"
| "split_chars (Suc n) s =
     (case utf8_next s of
        Utf8_Char w _ \<Rightarrow> (case split_chars n (drop w s) of (bounded, rest) \<Rightarrow> (take w s @ bounded, rest))
      | _ \<Rightarrow> ([], s))"

definition bounded_text :: "string \<Rightarrow> nat \<Rightarrow> string" where
  "bounded_text value max_chars =
     (case split_chars max_chars value of (bounded, rest) \<Rightarrow> if rest \<noteq> [] then bounded @ ''...'' else bounded)"

lemma split_chars_append: "split_chars n s = (a, b) \<Longrightarrow> s = a @ b"
proof (induction n arbitrary: s a)
  case (Suc n)
  then show ?case by (cases "utf8_next s") (auto split: prod.split_asm)
qed simp

lemma split_chars_length: "split_chars n s = (a, b) \<Longrightarrow> length a \<le> 4 * n"
proof (induction n arbitrary: s a)
  case (Suc n)
  show ?case
  proof (cases "utf8_next s")
    case (Utf8_Char w c)
    obtain a' where a: "split_chars n (drop w s) = (a', b)" "a = take w s @ a'"
      using Suc.prems Utf8_Char by (auto split: prod.split_asm)
    have "w \<le> 4" using utf8_next_Char_width [OF Utf8_Char] by simp
    then show ?thesis using Suc.IH [OF a(1)] a(2) by simp
  qed (use Suc.prems in auto)
qed simp

text \<open>\<open>short_id\<close> is \<open>get(..8)\<close>: the whole text when the eighth byte does not end a character.\<close>

definition short_id :: "string \<Rightarrow> string" where
  "short_id i = (if length i \<ge> 8 \<and> (length i = 8 \<or> \<not> is_cont (i ! 8)) then take 8 i else i)"

text \<open>\<open>str::split_once\<close>.\<close>

definition split_once :: "char \<Rightarrow> string \<Rightarrow> (string \<times> string) option" where
  "split_once c s = (if c \<in> set s then Some (takeWhile (\<lambda>x. x \<noteq> c) s, tl (dropWhile (\<lambda>x. x \<noteq> c) s)) else None)"

definition parse_env :: "string \<Rightarrow> string + string \<times> string" where
  "parse_env value =
     (case split_once (CHR ''='') value of
        None \<Rightarrow> Inl ''expected KEY=VALUE''
      | Some (k, v) \<Rightarrow>
          if k = [] \<or> CHR ''='' \<in> set k then Inl ''environment key must be non-empty'' else Inr (k, v))"

lemma split_at_first: "c \<notin> set k \<Longrightarrow> takeWhile (\<lambda>x. x \<noteq> c) (k @ c # v) = k \<and> dropWhile (\<lambda>x. x \<noteq> c) (k @ c # v) = c # v"
  by (induction k) auto

lemma parse_env_iff: "parse_env s = Inr (k, v) \<longleftrightarrow> s = k @ CHR ''='' # v \<and> k \<noteq> [] \<and> CHR ''='' \<notin> set k"
proof
  assume "parse_env s = Inr (k, v)"
  then have s: "CHR ''='' \<in> set s" "k = takeWhile (\<lambda>x. x \<noteq> CHR ''='') s" "v = tl (dropWhile (\<lambda>x. x \<noteq> CHR ''='') s)" "k \<noteq> []"
    by (auto simp: parse_env_def split_once_def split: if_split_asm)
  then have "dropWhile (\<lambda>x. x \<noteq> CHR ''='') s \<noteq> []" "hd (dropWhile (\<lambda>x. x \<noteq> CHR ''='') s) = CHR ''=''"
    using hd_dropWhile [of "\<lambda>x. x \<noteq> CHR ''=''" s] by (auto simp: dropWhile_eq_Nil_conv)
  then have "dropWhile (\<lambda>x. x \<noteq> CHR ''='') s = CHR ''='' # v" using s(3) by (metis list.collapse)
  then show "s = k @ CHR ''='' # v \<and> k \<noteq> [] \<and> CHR ''='' \<notin> set k"
    using s takeWhile_dropWhile_id [of "\<lambda>x. x \<noteq> CHR ''=''" s] by (auto dest: set_takeWhileD)
next
  assume s: "s = k @ CHR ''='' # v \<and> k \<noteq> [] \<and> CHR ''='' \<notin> set k"
  then have "takeWhile (\<lambda>x. x \<noteq> CHR ''='') s = k" "dropWhile (\<lambda>x. x \<noteq> CHR ''='') s = CHR ''='' # v"
    using split_at_first [of "CHR ''=''" k v] by simp_all
  then show "parse_env s = Inr (k, v)" using s by (simp add: parse_env_def split_once_def)
qed


text \<open>
  The methods of the client that register workspaces and follow executions (\<open>src/client.rs\<close>), as calls of a
  connection.
\<close>

definition cm_add_workspace :: "'s connection \<Rightarrow> nat \<Rightarrow> string \<Rightarrow> string \<Rightarrow> ('s, workspace) action" where
  "cm_add_workspace N k name root = plain_call expect_workspace N k (OpWorkspaceAdd name root)"

definition cm_remove_workspace :: "'s connection \<Rightarrow> nat \<Rightarrow> string \<Rightarrow> ('s, unit) action" where
  "cm_remove_workspace N k w = plain_call expect_empty N k (OpWorkspaceRemove w)"

definition cm_execute :: "'s connection \<Rightarrow> nat \<Rightarrow> execution_request \<Rightarrow> ('s, execution) action" where
  "cm_execute N k rq = plain_call expect_execution N k (OpExecute rq)"

definition cm_list :: "'s connection \<Rightarrow> nat \<Rightarrow> string option \<Rightarrow> nat \<Rightarrow> ('s, execution list) action" where
  "cm_list N k w limit = plain_call expect_executions N k (OpList w limit)"

definition cm_cancel :: "'s connection \<Rightarrow> nat \<Rightarrow> string \<Rightarrow> ('s, execution) action" where
  "cm_cancel N k xid = plain_call expect_execution N k (OpCancel xid)"

definition cm_stats :: "'s connection \<Rightarrow> nat \<Rightarrow> string \<Rightarrow> int \<Rightarrow> ('s, execution_stats) action" where
  "cm_stats N k w since =
     call_capable CAPABILITY_EXECUTION_STATS expect_stats (cn_client N) (cn_transport N) (cn_ids N k) (cn_ids N (k + 1)) (OpStats w since)"

definition cm_delete_agent_session :: "'s connection \<Rightarrow> nat \<Rightarrow> string \<Rightarrow> ('s, unit) action" where
  "cm_delete_agent_session N k sid = session_call expect_empty N k (OpSessionDelete sid)"

definition cm_read_output :: "'s connection \<Rightarrow> nat \<Rightarrow> string \<Rightarrow> nat \<Rightarrow> nat \<Rightarrow> ('s, read_output_response) action" where
  "cm_read_output N k xid after_seq max_bytes = plain_call expect_output N k (OpReadOutput xid after_seq max_bytes)"

definition cm_subscribe :: "'s connection \<Rightarrow> nat \<Rightarrow> string \<Rightarrow> nat \<Rightarrow> ('s, subscription) action" where
  "cm_subscribe N k xid after_seq s =
     (case cn_transport N (wire_request (cn_ids N k) (OpSubscribe xid after_seq)) s of
        (r, s') \<Rightarrow>
          (bind_res (bind_res (read_reply (cn_client N) ''daemon closed the subscription'' (cn_ids N k) r) (expect_subscription (cn_client N)))
             (\<lambda>su. Inr \<lparr>sb_id = cn_ids N k, sb_next_seq = su_next_seq su\<rparr>), s'))"

end
