(* ===== verification/Handoff.thy ===== *)
theory Handoff
  imports Cli
begin

text \<open>
  Handing the work of one agent session to another (\<open>src/bin/loom.rs\<close>): the choice of the session whose
  executions are still active, and the prompt that tells the next agent what it takes over.
\<close>

definition has_active_executions :: "agent_session_detail \<Rightarrow> bool" where
  "has_active_executions d \<longleftrightarrow> list_ex (\<lambda>x. \<not> is_terminal (ex_state x)) (sd_executions d)"

definition validate_handoff_source :: "agent_session_detail \<Rightarrow> string \<Rightarrow> agent_session_detail result" where
  "validate_handoff_source d workspace_id =
     (if as_workspace_id (sd_session d) \<noteq> workspace_id
      then Inl (InvalidRequest ''handoff source belongs to a different workspace'')
      else if as_state (sd_session d) = Recording
      then Inl (InvalidRequest ''handoff source is still recording; exit the source agent first'')
      else if \<not> has_active_executions d
      then Inl (InvalidRequest ''handoff source has no queued or running executions'')
      else Inr d)"

text \<open>The loop over the listed sessions; the calls draw their identifiers from \<open>k\<close> on.\<close>

fun first_active_session :: "'s connection \<Rightarrow> nat \<Rightarrow> agent_session list \<Rightarrow> ('s, agent_session_detail) action" where
  "first_active_session N k [] =
     pure_res (Inl (InvalidRequest
       ''no finished session with queued or running executions is available; use `loom agent` to start a new session''))"
| "first_active_session N k (session # sessions) =
     (if as_state session = Recording then first_active_session N k sessions
      else seq_res (cm_get_agent_session N k (as_id session)) (\<lambda>d.
        if has_active_executions d then pure_res (Inr d) else first_active_session N (k + 2) sessions))"

definition select_handoff_source :: "'s connection \<Rightarrow> string \<Rightarrow> string option \<Rightarrow> ('s, agent_session_detail) action" where
  "select_handoff_source N workspace_id requested =
     (case requested of
        Some sid \<Rightarrow>
          seq_res (cm_get_agent_session N 2 sid) (\<lambda>d. pure_res (validate_handoff_source d workspace_id))
      | None \<Rightarrow>
          seq_res (cm_list_agent_sessions N 2 (Some workspace_id) 100) (\<lambda>sessions. first_active_session N 4 sessions))"

section \<open>The prompt\<close>

definition active_line :: "execution \<Rightarrow> string" where
  "active_line x =
     ''- '' @ ex_id x @ '' | '' @ state_str (ex_state x) @ '' | cwd='' @ bounded_text (ex_cwd x) 1000 @ '' | '' @
     bounded_text (ex_command_display x) 2000 @ newline"

definition active_lines :: "agent_session_detail \<Rightarrow> string" where
  "active_lines d = concat (map active_line (filter (\<lambda>x. \<not> is_terminal (ex_state x)) (sd_executions d)))"

definition turn_lines :: "agent_turn option \<Rightarrow> string" where
  "turn_lines latest =
     (case latest of
        None \<Rightarrow> []
      | Some turn \<Rightarrow>
          ''Original request: '' @ bounded_text (tn_prompt turn) 4000 @ newline @
          (case tn_last_assistant_message turn of
             None \<Rightarrow> []
           | Some message \<Rightarrow> ''Previous assistant status: '' @ bounded_text message 4000 @ newline))"

definition build_handoff_prompt :: "agent_session_detail \<Rightarrow> string" where
  "build_handoff_prompt d =
     (let session = sd_session d;
          latest_turn = max_by_key tn_created_at_ms (sd_turns d) in
      ''Take over durable Loomterm work from the previous '' @ as_agent_kind session @ '' session '' @ as_id session @
      ''. Use Loomterm MCP for all execution operations. First call loom_list, then call loom_read for each listed execution to verify its current state and existing output. Do not start a replacement, cancel an execution, or use native Bash before inspecting it. After inspection, continue the original goal based on the current evidence.''
      @ newline @ newline @ ''Source session: '' @
      (case as_name session of Some name \<Rightarrow> name | None \<Rightarrow> as_command_display session) @ newline @
      turn_lines latest_turn @
      newline @ ''Active executions:'' @ newline @
      active_lines d)"

section \<open>What is chosen\<close>

lemma first_active_session_Inr:
  "first_active_session N k sessions s = (Inr d, s') \<Longrightarrow>
     has_active_executions d \<and>
     (\<exists>before session after k' s1. sessions = before @ session # after \<and> as_state session \<noteq> Recording \<and>
        cm_get_agent_session N k' (as_id session) s1 = (Inr d, s'))"
proof (induction sessions arbitrary: k s)
  case (Cons x xs)
  show ?case
  proof (cases "as_state x = Recording")
    case True
    then have "first_active_session N k xs s = (Inr d, s')" using Cons.prems by simp
    then show ?thesis using Cons.IH [of k s] by (metis append_Cons)
  next
    case False
    then obtain d1 s1 where g: "cm_get_agent_session N k (as_id x) s = (Inr d1, s1)"
      "(if has_active_executions d1 then pure_res (Inr d1) else first_active_session N (k + 2) xs) s1 = (Inr d, s')"
      using Cons.prems by (auto simp: seq_res_Inr_iff)
    show ?thesis
    proof (cases "has_active_executions d1")
      case True
      then show ?thesis using g False by (metis append_Nil if_True pure_res_iff sum.inject(2))
    next
      case no: False
      then have "first_active_session N (k + 2) xs s1 = (Inr d, s')" using g(2) by simp
      then show ?thesis using Cons.IH [of "k + 2" s1] by (metis append_Cons)
    qed
  qed
qed simp

end
