(* ===== verification/SessionExport.thy ===== *)
theory SessionExport
  imports SessionRedact
begin

text \<open>
  Exporting a recorded session (\<open>src/session.rs\<close>): the recording and the detail are redacted and written as
  they are, or inside a page. The files, serde and the constant text of the page are parameters.
\<close>

record export_env =
  xe_parse :: "string \<Rightarrow> string + json"
  xe_print :: "json \<Rightarrow> string"
  xe_home :: "string option"
  xe_lines :: "string \<Rightarrow> (string + string) list result"
  xe_to_value :: "agent_session_detail \<Rightarrow> json option"
  xe_from_value :: "json \<Rightarrow> agent_session_detail option"
  xe_to_vec :: "agent_session_detail \<Rightarrow> bytes result"
  xe_base64 :: base64
  xe_page :: "string \<Rightarrow> string \<Rightarrow> string"
  xe_write :: "string \<Rightarrow> bytes \<Rightarrow> unit result"

definition sanitized_cast :: "export_env \<Rightarrow> string \<Rightarrow> string list \<Rightarrow> string result" where
  "sanitized_cast X cast_path redactions =
     sanitize_cast (xe_parse X) (xe_print X) (xe_home X) (xe_lines X cast_path) redactions"

definition export_cast :: "export_env \<Rightarrow> string \<Rightarrow> string \<Rightarrow> string list \<Rightarrow> unit result" where
  "export_cast X cast_path output redactions =
     bind_res (sanitized_cast X cast_path redactions) (\<lambda>cast. xe_write X output cast)"

definition write_replay_html :: "export_env \<Rightarrow> agent_session_detail \<Rightarrow> string \<Rightarrow> string \<Rightarrow> string list \<Rightarrow> unit result" where
  "write_replay_html X detail cast_path output redactions =
     bind_res (sanitized_cast X cast_path redactions) (\<lambda>cast.
       let d = redact_detail (xe_to_value X) (xe_from_value X) (replacements_of (xe_home X) redactions) detail in
       bind_res (xe_to_vec X d) (\<lambda>detail_bytes.
         xe_write X output (xe_page X (b64_encode (xe_base64 X) cast) (b64_encode (xe_base64 X) detail_bytes))))"

end
