(* ===== verification/Launch.thy ===== *)
theory Launch
  imports Cli Handoff SessionRecorder SessionExport
begin

text \<open>
  Recording a session from the command line (\<open>src/bin/loom.rs\<close>): the private directory with its lock, the
  registration with the daemon, the recorder, and the report of its outcome, also to a daemon that has been
  restarted in the meantime; and the launch of an agent, alone or taking over the work of another.
\<close>

section \<open>The files of a session\<close>

record session_artifacts =
  sa_directory :: string
  sa_cast_path :: string
  sa_html_path :: string

definition artifacts_of :: "app_paths \<Rightarrow> string \<Rightarrow> session_artifacts" where
  "artifacts_of paths sid =
     (let directory = path_join (ap_sessions_dir paths) sid in
      \<lparr>sa_directory = directory, sa_cast_path = path_join directory ''recording.cast'',
       sa_html_path = path_join directory ''replay.html''\<rparr>)"

text \<open>The results of the steps of \<open>SessionArtifacts::create\<close>.\<close>

record artifact_io =
  ai_create_dir :: "unit result"
  ai_permissions :: "unit result"
  ai_lock_file :: "unit result"
  ai_lock :: "unit result"

definition create_artifacts :: "artifact_io \<Rightarrow> app_paths \<Rightarrow> string \<Rightarrow> session_artifacts result" where
  "create_artifacts A paths sid =
     bind_res (ai_create_dir A) (\<lambda>_. bind_res (ai_permissions A) (\<lambda>_. bind_res (ai_lock_file A) (\<lambda>_.
       bind_res (ai_lock A) (\<lambda>_. Inr (artifacts_of paths sid)))))"

definition terminal_size :: "(nat \<times> nat) result \<Rightarrow> (nat \<times> nat) result" where
  "terminal_size found =
     bind_res found (\<lambda>(cols, rows). Inr (if cols = 0 then 80 else cols, if rows = 0 then 24 else rows))"

section \<open>Arguments\<close>

datatype agent_kind_arg = KindAuto | KindCodex | KindClaude | KindGeneric

datatype agent_provider_arg = ProviderCodex | ProviderClaude

fun provider_str :: "agent_provider_arg \<Rightarrow> string" where
  "provider_str ProviderCodex = ''codex''"
| "provider_str ProviderClaude = ''claude''"

fun provider_kind :: "agent_provider_arg \<Rightarrow> agent_kind_arg" where
  "provider_kind ProviderCodex = KindCodex"
| "provider_kind ProviderClaude = KindClaude"

definition routing_environment :: "bool \<Rightarrow> (string \<times> string) list" where
  "routing_environment allow_native_shell =
     [(''LOOMTERM_SHELL_ROUTING'', if allow_native_shell then ''native'' else ''strict'')]"

fun kind_of_program :: "command_spec \<Rightarrow> string" where
  "kind_of_program (Shell command shell) = ''generic''"
| "kind_of_program (Argv program args) =
     (let name = (case path_file_name program of Some n \<Rightarrow> n | None \<Rightarrow> program) in
      if name = ''codex'' then ''codex'' else if name = ''claude'' then ''claude'' else ''generic'')"

fun resolve_agent_kind :: "agent_kind_arg \<Rightarrow> command_spec \<Rightarrow> string" where
  "resolve_agent_kind KindCodex command = ''codex''"
| "resolve_agent_kind KindClaude command = ''claude''"
| "resolve_agent_kind KindGeneric command = ''generic''"
| "resolve_agent_kind KindAuto command = kind_of_program command"

record session_record_args =
  ra_workspace :: "string option"
  ra_name :: "string option"
  ra_agent :: agent_kind_arg
  ra_capture_limit_bytes :: "nat option"
  ra_argv :: "string list"

fun argv_command :: "string \<Rightarrow> string list \<Rightarrow> command_spec result" where
  "argv_command missing [] = Inl (InvalidRequest missing)"
| "argv_command missing (program # args) = Inr (Argv program args)"

section \<open>Recording\<close>

text \<open>What the process finds. \<open>le_connect\<close> are the results of \<open>connect_or_start\<close>, \<open>le_task_failed\<close> is the
  panic of the recorder's thread.\<close>

record launch_env =
  le_paths :: app_paths
  le_settings :: "settings result"
  le_cwd :: "string result"
  le_size :: "(nat \<times> nat) result"
  le_session_id :: string
  le_pid :: nat
  le_artifacts :: artifact_io
  le_recorder :: "record_spec \<Rightarrow> recorder_env"
  le_task_failed :: "string option"
  le_connect :: "nat \<Rightarrow> unit result"
  le_export :: export_env
  le_display :: display_env

record prepared =
  pp_limit :: nat
  pp_cwd :: string
  pp_workspace_id :: string
  pp_size :: "nat \<times> nat"
  pp_command :: command_spec

definition prepare_recording :: "'s connection \<Rightarrow> launch_env \<Rightarrow> session_record_args \<Rightarrow> bool \<Rightarrow> ('s, prepared) action" where
  "prepare_recording N E args json =
     (if json then pure_res (Inl (InvalidRequest ''--json is not supported by interactive session recording''))
      else
        seq_res (pure_res (le_settings E)) (\<lambda>settings.
        seq_res (pure_res (le_cwd E)) (\<lambda>cwd.
        seq_res (resolve_workspace N (le_cwd E) (ra_workspace args)) (\<lambda>workspace_id.
        seq_res (pure_res (terminal_size (le_size E))) (\<lambda>dims.
        seq_res (pure_res (argv_command ''missing agent command'' (ra_argv args))) (\<lambda>command.
          pure_res (Inr \<lparr>pp_limit = (case ra_capture_limit_bytes args of Some l \<Rightarrow> l | None \<Rightarrow> se_capture_limit_bytes settings),
                         pp_cwd = cwd, pp_workspace_id = workspace_id, pp_size = dims, pp_command = command\<rparr>)))))))"

definition session_request :: "launch_env \<Rightarrow> session_record_args \<Rightarrow> prepared \<Rightarrow> session_artifacts \<Rightarrow> agent_session_request" where
  "session_request E args p arts =
     \<lparr>sr_id = le_session_id E, sr_workspace_id = pp_workspace_id p,
      sr_agent_kind = resolve_agent_kind (ra_agent args) (pp_command p), sr_name = ra_name args,
      sr_command = pp_command p, sr_cwd = pp_cwd p, sr_recorder_pid = le_pid E,
      sr_initial_cols = fst (pp_size p), sr_initial_rows = snd (pp_size p),
      sr_cast_path = sa_cast_path arts, sr_html_path = sa_html_path arts\<rparr>"

definition session_spec :: "launch_env \<Rightarrow> session_record_args \<Rightarrow> prepared \<Rightarrow> session_artifacts \<Rightarrow> (string \<times> string) list \<Rightarrow> record_spec" where
  "session_spec E args p arts env =
     \<lparr>rs_command = pp_command p, rs_cwd = pp_cwd p, rs_session_id = le_session_id E,
      rs_agent_kind = resolve_agent_kind (ra_agent args) (pp_command p), rs_cast_path = sa_cast_path arts,
      rs_initial_cols = fst (pp_size p), rs_initial_rows = snd (pp_size p),
      rs_capture_limit_bytes = pp_limit p, rs_env = env\<rparr>"

definition finish_session_resilient ::
  "'s connection \<Rightarrow> unit result \<Rightarrow> nat \<Rightarrow> string \<Rightarrow> agent_session_finish \<Rightarrow> ('s, agent_session) action" where
  "finish_session_resilient N reconnected k sid fin s =
     (case cm_finish_agent_session N k sid fin s of
        (Inr session, s1) \<Rightarrow> (Inr session, s1)
      | (Inl (DaemonUnavailable _), s1) \<Rightarrow>
          seq_res (pure_res reconnected) (\<lambda>_. cm_finish_agent_session N (k + 2) sid fin) s1
      | (Inl e, s1) \<Rightarrow> (Inl e, s1))"

definition failed_finish :: "display_env \<Rightarrow> error \<Rightarrow> agent_session_finish" where
  "failed_finish d e =
     \<lparr>sf_state = SessionInterrupted, sf_outcome = OutcomeInterrupted (error_display d e), sf_captured_bytes = 0,
      sf_output_truncated = False\<rparr>"

definition recorded_finish :: "record_result \<Rightarrow> agent_session_finish" where
  "recorded_finish r =
     \<lparr>sf_state = (case rr_outcome r of OutcomeInterrupted _ \<Rightarrow> SessionInterrupted | _ \<Rightarrow> SessionFinished),
      sf_outcome = rr_outcome r, sf_captured_bytes = rr_captured_bytes r,
      sf_output_truncated = rr_output_truncated r\<rparr>"

text \<open>After the recorder returned a result.\<close>

definition report_recording :: "'s connection \<Rightarrow> launch_env \<Rightarrow> session_artifacts \<Rightarrow> record_result \<Rightarrow> ('s, int) action" where
  "report_recording N E arts r =
     seq_res (finish_session_resilient N (le_connect E 0) 2 (le_session_id E) (recorded_finish r)) (\<lambda>_.
     seq_res (pure_res (le_connect E 1)) (\<lambda>_.
     seq_res (cm_get_agent_session N 6 (le_session_id E)) (\<lambda>detail.
     seq_res (pure_res (write_replay_html (le_export E) detail (sa_cast_path arts) (sa_html_path arts) [])) (\<lambda>_.
       pure_res (Inr (rr_exit_code r))))))"

text \<open>\<open>None\<close> while the recorder runs.\<close>

definition run_recorder ::
  "'s connection \<Rightarrow> launch_env \<Rightarrow> record_spec \<Rightarrow> session_artifacts \<Rightarrow> 's \<Rightarrow> int result option \<times> 's" where
  "run_recorder N E spec arts s =
     (case le_task_failed E of
        Some m \<Rightarrow> (Some (Inl (Config (''session recorder task failed: '' @ m))), s)
      | None \<Rightarrow>
          (case fst (record_session (le_recorder E spec)) of
             None \<Rightarrow> (None, s)
           | Some (Inl e) \<Rightarrow>
               (case finish_session_resilient N (le_connect E 0) 2 (le_session_id E) (failed_finish (le_display E) e) s of
                  (_, s1) \<Rightarrow> (Some (Inl e), s1))
           | Some (Inr r) \<Rightarrow> (case report_recording N E arts r s of (x, s1) \<Rightarrow> (Some x, s1))))"

text \<open>The last component says whether the directory of the session is there at the end.\<close>

definition record_session_with_env ::
  "'s connection \<Rightarrow> launch_env \<Rightarrow> session_record_args \<Rightarrow> bool \<Rightarrow> (string \<times> string) list \<Rightarrow> 's \<Rightarrow> int result option \<times> 's \<times> bool" where
  "record_session_with_env N E args json env s =
     (case prepare_recording N E args json s of
        (Inl e, s1) \<Rightarrow> (Some (Inl e), s1, False)
      | (Inr p, s1) \<Rightarrow>
          (case create_artifacts (le_artifacts E) (le_paths E) (le_session_id E) of
             Inl e \<Rightarrow> (Some (Inl e), s1, \<not> isl (ai_create_dir (le_artifacts E)))
           | Inr arts \<Rightarrow>
               (case cm_create_agent_session N 0 (session_request E args p arts) s1 of
                  (Inl e, s2) \<Rightarrow> (Some (Inl e), s2, False)
                | (Inr _, s2) \<Rightarrow>
                    (case run_recorder N E (session_spec E args p arts env) arts s2 of
                       (r, s3) \<Rightarrow> (r, s3, True)))))"

definition cli_record_session ::
  "'s connection \<Rightarrow> launch_env \<Rightarrow> session_record_args \<Rightarrow> bool \<Rightarrow> 's \<Rightarrow> int result option \<times> 's \<times> bool" where
  "cli_record_session N E args json s = record_session_with_env N E args json [] s"

section \<open>Launching an agent\<close>

record agent_launch_args =
  al_provider :: agent_provider_arg
  al_workspace :: "string option"
  al_name :: "string option"
  al_capture_limit_bytes :: "nat option"
  al_prompt :: "string option"
  al_allow_native_shell :: bool
  al_agent_args :: "string list"

record handoff_args =
  ha_provider :: agent_provider_arg
  ha_workspace :: "string option"
  ha_from :: "string option"
  ha_name :: "string option"
  ha_capture_limit_bytes :: "nat option"
  ha_allow_native_shell :: bool
  ha_agent_args :: "string list"

text \<open>The recording an agent command leads to, or why it leads to none; \<open>integration\<close> is the check of the
  project's configuration for the provider.\<close>

definition agent_recording ::
  "'s connection \<Rightarrow> launch_env \<Rightarrow> (string \<Rightarrow> agent_provider_arg \<Rightarrow> unit result) \<Rightarrow> agent_launch_args \<Rightarrow>
   ('s, session_record_args \<times> (string \<times> string) list) action" where
  "agent_recording N E integration args =
     seq_res (selected_workspace N (le_cwd E) (al_workspace args)) (\<lambda>w.
     seq_res (pure_res (integration (ws_root w) (al_provider args))) (\<lambda>_.
     seq_res (pure_res (case al_prompt args of
         None \<Rightarrow> Inr []
       | Some prompt \<Rightarrow>
           if trim_is_empty prompt then Inl (InvalidRequest ''--prompt must not be empty'') else Inr [prompt])) (\<lambda>prompt.
       pure_res (Inr (\<lparr>ra_workspace = Some (ws_id w), ra_name = al_name args, ra_agent = provider_kind (al_provider args),
                       ra_capture_limit_bytes = al_capture_limit_bytes args,
                       ra_argv = provider_str (al_provider args) # al_agent_args args @ prompt\<rparr>,
                     routing_environment (al_allow_native_shell args))))))"

definition launch_agent ::
  "'s connection \<Rightarrow> 's connection \<Rightarrow> launch_env \<Rightarrow> (string \<Rightarrow> agent_provider_arg \<Rightarrow> unit result) \<Rightarrow> agent_launch_args \<Rightarrow> bool \<Rightarrow>
   's \<Rightarrow> int result option \<times> 's \<times> bool" where
  "launch_agent N N' E integration args json s =
     (case agent_recording N E integration args s of
        (Inl e, s1) \<Rightarrow> (Some (Inl e), s1, False)
      | (Inr (rargs, env), s1) \<Rightarrow> record_session_with_env N' E rargs json env s1)"

definition handoff_recording ::
  "'s connection \<Rightarrow> launch_env \<Rightarrow> (string \<Rightarrow> agent_provider_arg \<Rightarrow> unit result) \<Rightarrow> handoff_args \<Rightarrow>
   ('s, session_record_args \<times> (string \<times> string) list) action" where
  "handoff_recording N E integration args =
     seq_res (selected_workspace N (le_cwd E) (ha_workspace args)) (\<lambda>w.
     seq_res (pure_res (integration (ws_root w) (ha_provider args))) (\<lambda>_.
     seq_res (select_handoff_source N (ws_id w) (ha_from args)) (\<lambda>source.
       pure_res (Inr (\<lparr>ra_workspace = Some (ws_id w),
                       ra_name = (case ha_name args of
                           Some n \<Rightarrow> Some n
                         | None \<Rightarrow> Some (''handoff-'' @ short_id (as_id (sd_session source)) @ ''-to-'' @ provider_str (ha_provider args))),
                       ra_agent = provider_kind (ha_provider args),
                       ra_capture_limit_bytes = ha_capture_limit_bytes args,
                       ra_argv = provider_str (ha_provider args) # ha_agent_args args @ [build_handoff_prompt source]\<rparr>,
                     routing_environment (ha_allow_native_shell args))))))"

definition launch_handoff ::
  "'s connection \<Rightarrow> 's connection \<Rightarrow> launch_env \<Rightarrow> (string \<Rightarrow> agent_provider_arg \<Rightarrow> unit result) \<Rightarrow> handoff_args \<Rightarrow> bool \<Rightarrow>
   's \<Rightarrow> int result option \<times> 's \<times> bool" where
  "launch_handoff N N' E integration args json s =
     (case handoff_recording N E integration args s of
        (Inl e, s1) \<Rightarrow> (Some (Inl e), s1, False)
      | (Inr (rargs, env), s1) \<Rightarrow> record_session_with_env N' E rargs json env s1)"

end
