(* ===== verification/LaunchDaemon.thy ===== *)
theory LaunchDaemon
  imports Launch ClientDaemon RecorderProperties DaemonDemo
begin

text \<open>
  The commands of the command line against the daemon of this development. While the recorders hold their locks the
  daemon's reconciliation writes nothing, so between the calls of a command the store changes only by them.
\<close>

section \<open>A daemon whose recorders run\<close>

definition locks_held :: "daemon_env \<Rightarrow> bool" where
  "locks_held V \<longleftrightarrow> (\<forall>dir n. fs_try_lock (de_files V) dir n = WouldBlock)"

text \<open>A transport that answers each message as the daemon does, with a clock and an environment of its own, or does not
  reach it because it is being restarted.\<close>

definition daemon_link :: "daemon_config \<Rightarrow> daemon transport \<Rightarrow> bool" where
  "daemon_link K T \<longleftrightarrow>
     (\<forall>m dm. T m dm = (NotConnected, dm) \<or> (\<exists>V. locks_held V \<and> T m dm = daemon_transport K V m dm))"

lemma held_gone: "locks_held V \<Longrightarrow> recorder_gone (de_files V) session = Inr False"
  by (simp add: recorder_gone_def claim_released_session_lock_def locks_held_def RECORDER_LOCK_ATTEMPTS_def upt_rec
      split: option.split)

lemma held_sessions: "locks_held V \<Longrightarrow> reconcile_sessions (de_files V) clock sessions k db = (Inr k, db)"
  by (induction sessions) (simp_all add: held_gone)

lemma set_db_same: "set_db (en_db e) e = e"
  by (cases e; cases "en_writer e") (simp add: set_db_def en_db_def)

lemma map_sum_Inr_iff: "map_sum id k r = Inr y \<longleftrightarrow> (\<exists>v. r = Inr v \<and> y = k v)"
  by (cases r) auto

lemma held_reconciled:
  "locks_held V \<Longrightarrow> reconciled V k dm =
     (case active_agent_sessions (en_db (dm_engine dm)) of Inl e \<Rightarrow> (Inl e, dm) | Inr _ \<Rightarrow> k dm)"
  by (simp add: reconciled_def on_store_def reconcile_agent_sessions_def held_sessions set_db_same split: sum.split)

lemma held_health: "locks_held V \<Longrightarrow> dispatch K V OpHealth dm = (r, dm') \<Longrightarrow> dm' = dm"
  by (auto simp: held_reconciled on_engine_def split: sum.split_asm)

definition answer_of :: "daemon_config \<Rightarrow> daemon_env \<Rightarrow> (client \<Rightarrow> protocol_result \<Rightarrow> 'a result) \<Rightarrow> client \<Rightarrow> operation \<Rightarrow> (daemon, 'a) action" where
  "answer_of K V expect C op dm =
     (case dispatch K V op dm of
        (Inl e, dm') \<Rightarrow> (Inl (remote_error K e), dm')
      | (Inr result, dm') \<Rightarrow> (expect C result, dm'))"

lemma answer_of_iff:
  "answer_of K V expect C op dm = (r, dm') \<longleftrightarrow>
     (\<exists>e. dispatch K V op dm = (Inl e, dm') \<and> r = Inl (remote_error K e)) \<or>
     (\<exists>result. dispatch K V op dm = (Inr result, dm') \<and> r = expect C result)"
  unfolding answer_of_def by (cases "dispatch K V op dm"; cases "fst (dispatch K V op dm)") auto

lemma link_call:
  assumes "daemon_link K T"
  shows "call_expect expect C T rid op dm = (Inl (DaemonUnavailable (cl_socket C)), dm) \<or>
     (\<exists>V. locks_held V \<and> call_expect expect C T rid op dm = answer_of K V expect C op dm)"
proof -
  consider "T (wire_request rid op) dm = (NotConnected, dm)"
    | V where "locks_held V" "T (wire_request rid op) dm = daemon_transport K V (wire_request rid op) dm"
    using assms by (auto simp: daemon_link_def)
  then show ?thesis
  proof cases
    case 1
    then show ?thesis by (simp add: call_expect_def client_call_def)
  next
    case (2 V)
    have "call_expect expect C T rid op dm = call_expect expect C (daemon_transport K V) rid op dm"
      by (simp add: call_expect_def client_call_def 2(2))
    then have "call_expect expect C T rid op dm = answer_of K V expect C op dm"
      by (simp only: daemon_call_expect answer_of_def)
    then show ?thesis using 2(1) by blast
  qed
qed

lemma link_capability:
  assumes "daemon_link K T" and "require_capability C T rid cap dm = (r, dm')"
  shows "dm' = dm"
proof -
  have "client_health C T rid dm = (Inl (DaemonUnavailable (cl_socket C)), dm) \<or>
     (\<exists>V. locks_held V \<and> client_health C T rid dm = answer_of K V expect_health C OpHealth dm)"
    unfolding client_health_def by (rule link_call [OF assms(1)])
  then have "snd (client_health C T rid dm) = dm"
    using held_health [of _ K dm] by (auto simp: answer_of_def simp del: dispatch.simps split: prod.split sum.split)
  then show ?thesis using assms(2) by (auto simp: require_capability_def split: prod.split_asm sum.split_asm)
qed

lemma link_session_first:
  assumes "daemon_link K (cn_transport N)" and "session_call expect N k op dm = (r, dm')"
  shows "(\<exists>e. r = Inl e \<and> dm' = dm) \<or>
     (\<exists>V. locks_held V \<and> answer_of K V expect (cn_client N) op dm = (r, dm'))"
proof -
  obtain c dm1 where c: "require_capability (cn_client N) (cn_transport N) (cn_ids N k) CAPABILITY_AGENT_SESSIONS dm = (c, dm1)"
    by (cases "require_capability (cn_client N) (cn_transport N) (cn_ids N k) CAPABILITY_AGENT_SESSIONS dm")
  then have dm1: "dm1 = dm" using link_capability [OF assms(1)] by blast
  show ?thesis
  proof (cases c)
    case (Inl e)
    then show ?thesis using assms(2) c dm1 by (auto simp: session_call_def call_capable_def)
  next
    case (Inr u)
    then have "call_expect expect (cn_client N) (cn_transport N) (cn_ids N (k + 1)) op dm = (r, dm')"
      using assms(2) c dm1 by (simp add: session_call_def call_capable_def)
    then show ?thesis using link_call [OF assms(1), of expect "cn_client N" "cn_ids N (k + 1)" op dm] by auto
  qed
qed

lemma link_session_call:
  assumes "daemon_link K (cn_transport N)" and "session_call expect N k op dm = (Inr v, dm')"
  shows "\<exists>V result. locks_held V \<and> dispatch K V op dm = (Inr result, dm') \<and> expect (cn_client N) result = Inr v"
  using link_session_first [OF assms] unfolding answer_of_iff by auto

lemma expect_session_reached: "Inl (DaemonUnavailable sock) \<noteq> expect_agent_session C result"
  by (cases result) (auto simp: expect_agent_session_def unexpected_def)

lemma link_unavailable:
  assumes "daemon_link K (cn_transport N)" and "cm_finish_agent_session N k sid fin dm = (Inl (DaemonUnavailable sock), dm')"
  shows "dm' = dm"
  using link_session_first [OF assms(1) assms(2) [unfolded cm_finish_agent_session_def]]
  unfolding answer_of_iff
  by (auto simp: remote_error_def into_error_def expect_session_reached simp del: dispatch.simps)

section \<open>Sessions\<close>

definition stored_session :: "daemon \<Rightarrow> string \<Rightarrow> agent_session result" where
  "stored_session dm sid = get_agent_session_record sid (en_db (dm_engine dm))"

lemma find_at_end: "find p xs = None \<Longrightarrow> find p (xs @ [x]) = (if p x then Some x else None)"
  by (induction xs) (auto split: if_split_asm)

lemma link_create:
  assumes "daemon_link K (cn_transport N)" and "cm_create_agent_session N k rq dm = (Inr session, dm')"
  shows "stored_session dm' (sr_id rq) = Inr session \<and> as_state session = Recording"
proof -
  obtain V result where d: "dispatch K V (OpSessionCreate rq) dm = (Inr result, dm')"
    "expect_agent_session (cn_client N) result = Inr session"
    using link_session_call [OF assms(1) assms(2) [unfolded cm_create_agent_session_def]] by blast
  then obtain db' where c: "create_agent_session (e_canonicalize (de_store V)) (e_clock (de_store V) 0) rq (en_db (dm_engine dm)) = (Inr session, db')"
    "dm' = dm\<lparr>dm_engine := set_db db' (dm_engine dm)\<rparr>"
    by (auto simp: Let_def on_engine_def on_store_def map_sum_Inr_iff expect_agent_session_def unexpected_def split: sum.split_asm prod.split_asm
        protocol_result.split_asm)
  then have g: "get_agent_session_record (sr_id rq) db' = Inr session"
    by (auto simp: create_agent_session_def split: sum.split_asm)
  obtain w cwd where "insert_session (new_session_row (e_clock (de_store V) 0) rq w cwd) (en_db (dm_engine dm)) = Inr db'"
    using c(1) by (auto simp: create_agent_session_def bind_res_Inr_iff split: sum.split_asm if_split_asm)
  then have "find_session (sr_id rq) db' = Some (new_session_row (e_clock (de_store V) 0) rq w cwd)"
    by (auto simp: insert_session_def find_session_def new_session_row_def find_at_end split: if_split_asm)
  then have "session_state_str (as_state session) = ''recording''"
    using get_agent_session_record_Inr [OF g] by (auto simp: new_session_row_def)
  then have "as_state session = Recording" by (cases "as_state session") simp_all
  then show ?thesis using g c(2) by (simp add: stored_session_def set_db_def en_db_def)
qed

text \<open>What the store holds of a session that was recording once it is finished.\<close>

definition finished_as :: "agent_session_finish \<Rightarrow> agent_session \<Rightarrow> bool" where
  "finished_as fin session \<longleftrightarrow>
     as_state session = sf_state fin \<and> as_outcome session = Some (sf_outcome fin) \<and>
     as_captured_bytes session = row_u64 (as_i64 (sf_captured_bytes fin)) \<and>
     as_output_truncated session = sf_output_truncated fin"

lemma finish_recording_session:
  assumes "finish_agent_session now sid fin db = (Inr session, db')"
    and "get_agent_session_record sid db = Inr current" and "as_state current = Recording"
  shows "get_agent_session_record sid db' = Inr session \<and> finished_as fin session"
proof -
  let ?db2 = "update_turns (\<lambda>t. tr_session_id t = sid \<and> tr_state t = ''active'') (interrupt_turn now)
    (update_session sid (set_session_finished now fin) db)"
  have r: "db' = ?db2" "get_agent_session_record sid ?db2 = Inr session"
    using assms by (auto simp: finish_agent_session_def Let_def session_is_terminal_def split: if_split_asm)
  have keep: "sn_id (set_session_finished now fin s) = sn_id s" for s by (simp add: set_session_finished_def)
  obtain s where s: "find_session sid db = Some s" using get_agent_session_record_Inr [OF assms(2)] by blast
  then have "agent_session_from_row (set_session_finished now fin s) = Inr session"
    using get_agent_session_record_Inr [OF r(2)] unfolding find_session_updated [OF keep] by auto
  then have "finished_as fin session"
    by (cases "sf_state fin") (auto simp: agent_session_from_row_def set_session_finished_def finished_as_def bind_res_Inr_iff
        parse_agent_session_state_def split: if_split_asm)
  then show ?thesis using r by simp
qed

lemma link_finish:
  assumes "daemon_link K (cn_transport N)" and "cm_finish_agent_session N k sid fin dm = (Inr session, dm')"
    and "stored_session dm sid = Inr current" and "as_state current = Recording"
  shows "stored_session dm' sid = Inr session \<and> finished_as fin session"
proof -
  obtain V result where d: "dispatch K V (OpSessionFinish sid fin) dm = (Inr result, dm')"
    "expect_agent_session (cn_client N) result = Inr session"
    using link_session_call [OF assms(1) assms(2) [unfolded cm_finish_agent_session_def]] by blast
  then obtain db' where "finish_agent_session (e_clock (de_store V) 0) sid fin (en_db (dm_engine dm)) = (Inr session, db')"
    "dm' = dm\<lparr>dm_engine := set_db db' (dm_engine dm)\<rparr>"
    by (auto simp: Let_def on_engine_def on_store_def map_sum_Inr_iff expect_agent_session_def unexpected_def split: sum.split_asm prod.split_asm
        protocol_result.split_asm)
  then show ?thesis using finish_recording_session assms(3,4) unfolding stored_session_def by (auto simp: set_db_def en_db_def)
qed

lemma link_get:
  assumes "daemon_link K (cn_transport N)" and "cm_get_agent_session N k sid dm = (Inr detail, dm')"
  shows "dm' = dm \<and> stored_session dm sid = Inr (sd_session detail)"
proof -
  obtain V result where "locks_held V" "dispatch K V (OpSessionGet sid) dm = (Inr result, dm')"
    "expect_detail (cn_client N) result = Inr detail"
    using link_session_call [OF assms(1) assms(2) [unfolded cm_get_agent_session_def]] by blast
  then show ?thesis
    by (auto simp: held_reconciled on_engine_def read_store_def map_sum_Inr_iff expect_detail_def unexpected_def stored_session_def
        get_agent_session_def bind_res_Inr_iff split: sum.split_asm protocol_result.split_asm)
qed


text \<open>
  A recording against the demonstration daemon, step by step: the session it registers, the recorder's run, the report,
  and the store at the end. The witnesses of the launch properties use it.
\<close>

section \<open>A run against the demonstration daemon\<close>

definition demo_connection :: "daemon connection" where
  "demo_connection = \<lparr>cn_client = \<lparr>cl_socket = ''/r/loomd.sock'', cl_show_result = (\<lambda>_. ''?'')\<rparr>,
     cn_transport = daemon_transport demo_config demo_daemon_env, cn_ids = (\<lambda>_. ''q'')\<rparr>"

definition demo_export :: export_env where
  "demo_export = \<lparr>xe_parse = (\<lambda>_. Inl ''no''), xe_print = (\<lambda>_. []), xe_home = None, xe_lines = (\<lambda>_. Inr []),
     xe_to_value = (\<lambda>_. None), xe_from_value = (\<lambda>_. None), xe_to_vec = (\<lambda>_. Inr []), xe_base64 = demo_b64,
     xe_page = (\<lambda>a b. a @ b), xe_write = (\<lambda>_ _. Inr ())\<rparr>"

definition demo_launch :: launch_env where
  "demo_launch = \<lparr>le_paths = dc_paths demo_config, le_settings = Inr default_settings, le_cwd = Inr ''/w'', le_size = Inr (80, 24),
     le_session_id = ''s9'', le_pid = 7,
     le_artifacts = \<lparr>ai_create_dir = Inr (), ai_permissions = Inr (), ai_lock_file = Inr (), ai_lock = Inr ()\<rparr>,
     le_recorder = (\<lambda>_. quiet_run), le_task_failed = None, le_connect = (\<lambda>_. Inr ()), le_export = demo_export, le_display = demo_display\<rparr>"

definition demo_record_args :: session_record_args where
  "demo_record_args = \<lparr>ra_workspace = Some ''w0'', ra_name = None, ra_agent = KindAuto, ra_capture_limit_bytes = None, ra_argv = [''codex'']\<rparr>"

lemma demo_held: "locks_held demo_daemon_env"
  by (simp add: locks_held_def demo_daemon_env_def demo_files_def)

lemma demo_link: "daemon_link demo_config (cn_transport demo_connection)"
  using demo_held by (auto simp: daemon_link_def demo_connection_def)

lemma demo_capability:
  assumes "active_agent_sessions (en_db (dm_engine dm)) = Inr sessions"
  shows "require_capability (cn_client demo_connection) (daemon_transport demo_config demo_daemon_env) rid CAPABILITY_AGENT_SESSIONS dm = (Inr (), dm)"
  using assms demo_held
  by (simp add: require_capability_def client_health_def daemon_call_expect held_reconciled on_engine_def expect_health_def health_of_def)

lemma demo_session_call:
  assumes "active_agent_sessions (en_db (dm_engine dm)) = Inr sessions"
  shows "session_call expect demo_connection k op dm = answer_of demo_config demo_daemon_env expect (cn_client demo_connection) op dm"
  using assms demo_held
  by (simp add: session_call_def call_capable_def require_capability_def client_health_def daemon_call_expect held_reconciled on_engine_def
      expect_health_def health_of_def demo_connection_def answer_of_def split del: if_split)

definition demo_row9 :: session_row where
  "demo_row9 = \<lparr>sn_id = ''s9'', sn_workspace_id = ''w0'', sn_state = ''recording'', sn_agent_kind = ''codex'', sn_name = None,
     sn_command = Argv ''codex'' [], sn_cwd = ''/w'', sn_created_at_ms = 90, sn_ended_at_ms = None, sn_recorder_pid = 7,
     sn_outcome = None, sn_captured_bytes = 0, sn_output_truncated = False, sn_initial_cols = 80, sn_initial_rows = 24,
     sn_cast_path = ''/s/s9/recording.cast'', sn_html_path = ''/s/s9/replay.html''\<rparr>"

lemma demo_prepared: "prepare_recording demo_connection demo_launch demo_record_args False dm =
    (Inr \<lparr>pp_limit = 268435456, pp_cwd = ''/w'', pp_workspace_id = ''w0'', pp_size = (80, 24), pp_command = Argv ''codex'' []\<rparr>, dm)"
  by (simp add: prepare_recording_def demo_launch_def demo_record_args_def resolve_workspace_def terminal_size_def default_settings_def
      seq_res_def pure_res_def)

definition demo_store9 :: "session_row \<Rightarrow> database" where
  "demo_store9 row = demo_db\<lparr>db_sessions := db_sessions demo_db @ [row]\<rparr>"

definition demo_daemon9 :: "session_row \<Rightarrow> daemon" where
  "demo_daemon9 row = demo_daemon\<lparr>dm_engine := set_db (demo_store9 row) (dm_engine demo_daemon)\<rparr>"

lemma demo_db9 [simp]: "en_db (dm_engine (demo_daemon9 row)) = demo_store9 row"
  by (simp add: demo_daemon9_def set_db_def en_db_def)

lemma demo_set_db9: "demo_daemon9 row\<lparr>dm_engine := set_db (demo_store9 row') (dm_engine (demo_daemon9 row))\<rparr> = demo_daemon9 row'"
  by (simp add: demo_daemon9_def set_db_def)

definition demo_prep :: prepared where
  "demo_prep = \<lparr>pp_limit = 268435456, pp_cwd = ''/w'', pp_workspace_id = ''w0'', pp_size = (80, 24), pp_command = Argv ''codex'' []\<rparr>"

lemma launch_active: "\<exists>sessions. active_agent_sessions demo_db = Inr sessions"
  using active_sessions [OF demo_inv] by metis

lemma demo_kind: "kind_of_program (Argv ''codex'' []) = ''codex''" "\<not> trim_is_empty ''codex''" "from_utf8_lossy ''/w'' = ''/w''"
  by code_simp+

lemma demo_store_created:
  "create_agent_session (e_canonicalize demo_env) 90
     (session_request demo_launch demo_record_args demo_prep (artifacts_of (dc_paths demo_config) ''s9'')) demo_db =
   (agent_session_from_row demo_row9, demo_store9 demo_row9)"
  by (simp add: create_agent_session_def session_request_def demo_launch_def demo_record_args_def demo_prep_def artifacts_of_def
      session_request_validate_def demo_kind get_workspace_def demo_env_def insert_session_def last_opt_def Let_def
      find_workspace_by_def named_def
      new_session_row_def demo_db_def demo_session_def demo_store9_def demo_row9_def demo_config_def path_join_def is_absolute_def
      path_file_name_def components_def named_components_def path_eq_def path_starts_with_def get_agent_session_record_def
      find_session_def del: kind_of_program.simps)

definition demo_record_result :: record_result where
  "demo_record_result = \<lparr>rr_outcome = Exited 3, rr_captured_bytes = 2, rr_output_truncated = False, rr_exit_code = 3\<rparr>"

definition demo_row9_end :: session_row where
  "demo_row9_end = set_session_finished 90 (recorded_finish demo_record_result) demo_row9"

lemma demo_row9_decodes: "\<exists>session. agent_session_from_row demo_row9 = Inr session \<and> as_state session = Recording"
  by (simp add: agent_session_from_row_def demo_row9_def parse_agent_session_state_def)

lemma demo_row9_end_decodes: "\<exists>session. agent_session_from_row demo_row9_end = Inr session"
  by (simp add: agent_session_from_row_def demo_row9_end_def demo_row9_def set_session_finished_def recorded_finish_def
      demo_record_result_def parse_agent_session_state_def)

lemma demo_found9: "sn_id row = ''s9'' \<Longrightarrow> find_session ''s9'' (demo_store9 row) = Some row"
  by (simp add: demo_store9_def find_session_def demo_db_def demo_session_def)

lemma demo_store_finished:
  "finish_agent_session 90 ''s9'' (recorded_finish demo_record_result) (demo_store9 demo_row9) =
   (agent_session_from_row demo_row9_end, demo_store9 demo_row9_end)"
proof -
  obtain session where s: "agent_session_from_row demo_row9 = Inr session" "as_state session = Recording"
    using demo_row9_decodes by blast
  have u: "update_turns (\<lambda>t. tr_session_id t = ''s9'' \<and> tr_state t = ''active'') (interrupt_turn 90)
      (update_session ''s9'' (set_session_finished 90 (recorded_finish demo_record_result)) (demo_store9 demo_row9)) = demo_store9 demo_row9_end"
    by (simp add: update_turns_def update_session_def update_where_def demo_store9_def demo_db_def demo_session_def demo_row9_def
        demo_row9_end_def demo_turn_def)
  have f: "sf_state (recorded_finish demo_record_result) = SessionFinished" "\<not> is_interrupted_outcome (sf_outcome (recorded_finish demo_record_result))"
    by (simp_all add: recorded_finish_def demo_record_result_def is_interrupted_outcome_def)
  have i: "sn_id demo_row9 = ''s9''" "sn_id demo_row9_end = ''s9''"
    by (simp_all add: demo_row9_def demo_row9_end_def set_session_finished_def)
  show ?thesis using s u f i
    by (simp add: finish_agent_session_def get_agent_session_record_def demo_found9 session_is_terminal_def)
qed

lemma demo_store_detail: "\<exists>detail. get_agent_session clock ''s9'' (demo_store9 demo_row9_end) = Inr detail"
proof -
  obtain session where s: "agent_session_from_row demo_row9_end = Inr session" using demo_row9_end_decodes by blast
  have i: "sn_id demo_row9_end = ''s9''" by (simp add: demo_row9_def demo_row9_end_def set_session_finished_def)
  have "turns_of_session ''s9'' (demo_store9 demo_row9_end) = []"
    by (simp add: turns_of_session_def demo_store9_def demo_db_def demo_turn_def)
  moreover have "actions_of_session ''s9'' (demo_store9 demo_row9_end) = []"
    using calculation by (simp add: actions_of_session_def)
  moreover have "filter (\<lambda>x. xr_session_id x = Some ''s9'') (db_executions (demo_store9 demo_row9_end)) = []"
    by (simp add: demo_store9_def demo_db_def demo_a_def demo_b_def demo_row_def new_execution_row_def demo_request_def)
  ultimately show ?thesis using s i
    by (simp add: get_agent_session_def get_agent_session_record_def demo_found9 read_executions_def order_by_def)
qed

lemma launch_active9: "sn_id row = ''s9'' \<Longrightarrow> agent_session_from_row row = Inr session \<Longrightarrow>
  \<exists>sessions. active_agent_sessions (demo_store9 row) = Inr sessions"
proof -
  assume r: "sn_id row = ''s9''" "agent_session_from_row row = Inr session"
  have "\<exists>v. agent_session_from_row s = Inr v" if "s \<in> set (db_sessions (demo_store9 row))" for s
  proof (cases "s = row")
    case False
    then show ?thesis using that
      by (auto simp: demo_store9_def demo_db_def demo_session_def agent_session_from_row_def parse_agent_session_state_def)
  qed (use r in blast)
  then have "agent_session_from_row s = Inr (projr (agent_session_from_row s))" if "s \<in> set (db_sessions (demo_store9 row))" for s
    using that by fastforce
  then have "read_sessions rows = Inr (map (\<lambda>s. projr (agent_session_from_row s)) rows)" if "set rows \<subseteq> set (db_sessions (demo_store9 row))" for rows
    unfolding read_sessions_def using that by (intro collect_res_map_Inr) blast
  moreover have "set (order_by sn_created_at_ms (filter (\<lambda>s. sn_state s = ''recording'') (db_sessions (demo_store9 row)))) \<subseteq>
      set (db_sessions (demo_store9 row))"
    by (auto simp: order_by_def)
  ultimately show ?thesis unfolding active_agent_sessions_def by blast
qed

lemma demo_dispatched:
  assumes "agent_session_from_row demo_row9 = Inr s9"
  shows "dispatch demo_config demo_daemon_env (OpSessionCreate (session_request demo_launch demo_record_args demo_prep
      (artifacts_of (le_paths demo_launch) (le_session_id demo_launch)))) demo_daemon = (Inr (PAgentSession s9), demo_daemon9 demo_row9)"
proof -
  have l [simp]: "le_paths demo_launch = dc_paths demo_config" "le_session_id demo_launch = ''s9''" by (simp_all add: demo_launch_def)
  let ?arts = "artifacts_of (dc_paths demo_config) ''s9''"
  have paths: "validate_session_paths (dc_paths demo_config) ''s9'' (sa_cast_path ?arts) (sa_html_path ?arts) = Inr ()"
    by (simp add: validate_session_paths_def artifacts_of_def demo_config_def path_parent_def path_join_def is_absolute_def components_def
        named_components_def last_opt_def Let_def)
  have V: "de_store demo_daemon_env = demo_env" "e_clock demo_env 0 = 90" by (simp_all add: demo_daemon_env_def demo_env_def)
  define rq where "rq = session_request demo_launch demo_record_args demo_prep ?arts"
  have rq: "sr_id rq = ''s9''" "sr_cast_path rq = sa_cast_path ?arts" "sr_html_path rq = sa_html_path ?arts"
    by (simp_all add: rq_def session_request_def)
  have made: "create_agent_session (e_canonicalize demo_env) 90 rq demo_db = (agent_session_from_row demo_row9, demo_store9 demo_row9)"
    using demo_store_created by (simp add: rq_def)
  have "dispatch demo_config demo_daemon_env (OpSessionCreate rq) demo_daemon = (Inr (PAgentSession s9), demo_daemon9 demo_row9)"
    using paths rq made assms V by (simp add: Let_def on_engine_def on_store_def demo_daemon9_def)
  then show ?thesis by (simp add: rq_def del: dispatch.simps)
qed

lemma demo_recorded:
  "\<exists>dm'. record_session_with_env demo_connection demo_launch demo_record_args False [] demo_daemon = (Some (Inr 3), dm', True)"
proof -
  let ?arts = "artifacts_of (le_paths demo_launch) (le_session_id demo_launch)"
  have l [simp]: "le_paths demo_launch = dc_paths demo_config" "le_session_id demo_launch = ''s9''" "le_task_failed demo_launch = None"
    "le_recorder demo_launch = (\<lambda>_. quiet_run)" "le_connect demo_launch = (\<lambda>_. Inr ())" "le_export demo_launch = demo_export"
    by (simp_all add: demo_launch_def)
  have a: "create_artifacts (le_artifacts demo_launch) (le_paths demo_launch) (le_session_id demo_launch) = Inr ?arts"
    by (simp add: create_artifacts_def demo_launch_def)
  obtain s9 where s9: "agent_session_from_row demo_row9 = Inr s9" using demo_row9_decodes by blast
  obtain e9 where e9: "agent_session_from_row demo_row9_end = Inr e9" using demo_row9_end_decodes by blast
  have i: "sn_id demo_row9 = ''s9''" "sn_id demo_row9_end = ''s9''"
    by (simp_all add: demo_row9_def demo_row9_end_def set_session_finished_def)
  obtain ss where ss: "active_agent_sessions demo_db = Inr ss" using launch_active by blast
  obtain ss9 where ss9: "active_agent_sessions (demo_store9 demo_row9) = Inr ss9" using launch_active9 [OF i(1) s9] by blast
  obtain sse where sse: "active_agent_sessions (demo_store9 demo_row9_end) = Inr sse" using launch_active9 [OF i(2) e9] by blast
  obtain detail where d: "get_agent_session (e_clock demo_env) ''s9'' (demo_store9 demo_row9_end) = Inr detail"
    using demo_store_detail by blast
  have V: "de_store demo_daemon_env = demo_env" "e_clock demo_env 0 = 90" by (simp_all add: demo_daemon_env_def demo_env_def)
  define rq where "rq = session_request demo_launch demo_record_args demo_prep ?arts"
  have "dispatch demo_config demo_daemon_env (OpSessionCreate rq) demo_daemon = (Inr (PAgentSession s9), demo_daemon9 demo_row9)"
    using demo_dispatched [OF s9] by (simp add: rq_def del: dispatch.simps)
  then have c: "cm_create_agent_session demo_connection 0 rq demo_daemon = (Inr s9, demo_daemon9 demo_row9)"
    using ss
    by (simp add: demo_session_call [of demo_daemon ss] cm_create_agent_session_def answer_of_def expect_agent_session_def del: dispatch.simps)
  have f: "cm_finish_agent_session demo_connection 2 ''s9'' (recorded_finish demo_record_result) (demo_daemon9 demo_row9) =
      (Inr e9, demo_daemon9 demo_row9_end)"
    using ss9 demo_store_finished e9 V
    by (simp add: demo_session_call [of "demo_daemon9 demo_row9" ss9] cm_finish_agent_session_def answer_of_def on_engine_def on_store_def expect_agent_session_def demo_set_db9)
  have g: "cm_get_agent_session demo_connection 6 ''s9'' (demo_daemon9 demo_row9_end) = (Inr detail, demo_daemon9 demo_row9_end)"
    using sse d V demo_held
    by (simp add: demo_session_call [of "demo_daemon9 demo_row9_end" sse] cm_get_agent_session_def answer_of_def held_reconciled on_engine_def read_store_def expect_detail_def)
  have h: "write_replay_html demo_export detail cast html [] = Inr ()" for cast html
    by (simp add: write_replay_html_def demo_export_def sanitized_cast_def sanitize_cast_def sanitized_def redact_output_stream_def stream_of_def
        Let_def)
  have "run_recorder demo_connection demo_launch spec ?arts (demo_daemon9 demo_row9) = (Some (Inr 3), demo_daemon9 demo_row9_end)" for spec
    using f g h quiet_run_result
    by (simp add: run_recorder_def report_recording_def finish_session_resilient_def seq_res_def pure_res_def demo_record_result_def)
  then show ?thesis using demo_prepared a c
    by (simp add: record_session_with_env_def demo_prep_def rq_def)
qed

end
