(* ===== verification/LaunchProperties.thy ===== *)
theory LaunchProperties
  imports Mcp LaunchDaemon
begin

text \<open>
  Canonical paths, as \<open>canonicalize\<close> gives them: absolute, without dots, empty names or a slash at the end. Among the
  ancestors of a directory the longer text is the deeper path, so the command line and the MCP server, which compare
  texts and components, choose the same workspace.
\<close>

section \<open>Canonical paths\<close>

definition path_name :: "string \<Rightarrow> bool" where
  "path_name n \<longleftrightarrow> n \<noteq> [] \<and> CHR ''/'' \<notin> set n \<and> n \<noteq> ''.'' \<and> n \<noteq> ''..''"

definition path_text :: "string list \<Rightarrow> string" where
  "path_text names = (if names = [] then ''/'' else concat (map (\<lambda>n. CHR ''/'' # n) names))"

definition canonical :: "string \<Rightarrow> bool" where
  "canonical p \<longleftrightarrow> (\<exists>names. (\<forall>n \<in> set names. path_name n) \<and> p = path_text names)"

lemma split_on_free: "c \<notin> set n \<Longrightarrow> split_on c n = [n]"
  by (induction n) auto

lemma split_on_first: "c \<notin> set n \<Longrightarrow> split_on c (n @ c # rest) = n # split_on c rest"
  by (induction n) auto

lemma split_on_names:
  "names \<noteq> [] \<Longrightarrow> \<forall>n \<in> set names. c \<notin> set n \<Longrightarrow> split_on c (concat (map (\<lambda>n. c # n) names)) = [] # names"
proof (induction names)
  case (Cons n ns)
  show ?case
  proof (cases ns)
    case Nil
    then show ?thesis using Cons.prems by (simp add: split_on_free)
  next
    case (Cons m ms)
    have "split_on c (concat (map (\<lambda>n. c # n) ns)) = [] # ns" using Cons.IH Cons Cons.prems by simp
    then show ?thesis using Cons Cons.prems split_on_first [of c n] by simp
  qed
qed simp

lemma components_path_text:
  assumes "\<forall>n \<in> set names. path_name n"
  shows "components (path_text names) = RootDir # map Normal names"
proof (cases "names = []")
  case False
  have "split_on (CHR ''/'') (path_text names) = [] # names"
    using split_on_names [OF False, of "CHR ''/''"] assms False by (simp add: path_text_def path_name_def)
  moreover have "is_absolute (path_text names)" using False by (cases names) (simp_all add: path_text_def is_absolute_def)
  moreover have "filter (\<lambda>x. x \<noteq> [] \<and> x \<noteq> ''.'') names = names" using assms by (simp add: path_name_def filter_id_conv)
  moreover have "map (\<lambda>x. if x = ''..'' then ParentDir else Normal x) names = map Normal names" using assms by (simp add: path_name_def)
  ultimately show ?thesis by (simp add: components_def Let_def named_components_def)
qed (simp add: path_text_def components_def is_absolute_def named_components_def)

lemma path_text_longer:
  assumes "strict_prefix ms ns" and "\<forall>n \<in> set ns. path_name n"
  shows "length (path_text ms) < length (path_text ns)"
proof -
  obtain k ks where n: "ns = ms @ k # ks" using assms(1) by (auto elim: strict_prefixE')
  then have "k \<noteq> []" using assms(2) by (simp add: path_name_def)
  then show ?thesis by (cases "ms = []") (auto simp: n path_text_def)
qed

text \<open>Two canonical ancestors of the same path.\<close>

lemma ancestors_order:
  assumes "canonical p" "canonical q" "path_starts_with d p" "path_starts_with d q"
  shows "length p < length q \<longleftrightarrow> length (components p) < length (components q)"
proof -
  obtain ps qs where p: "\<forall>n \<in> set ps. path_name n" "p = path_text ps" and q: "\<forall>n \<in> set qs. path_name n" "q = path_text qs"
    using assms(1,2) by (auto simp: canonical_def)
  have cp: "components p = RootDir # map Normal ps" and cq: "components q = RootDir # map Normal qs"
    using p q components_path_text by auto
  have "prefix (map Normal ps) (map Normal qs) \<or> prefix (map Normal qs) (map Normal ps)"
    using assms(3,4) prefix_same_cases [of "components p" "components d" "components q"] by (simp add: path_starts_with_def cp cq)
  then have "prefix ps qs \<or> prefix qs ps"
    by (metis component.inject inj_def map_mono_prefix prefix_map_rightE list.inj_map_strong)
  then consider "ps = qs" | "strict_prefix ps qs" | "strict_prefix qs ps" by (auto simp: strict_prefix_def)
  then show ?thesis
  proof cases
    case 2
    then show ?thesis using path_text_longer [OF 2 q(1)] p q cp cq prefix_length_less [OF 2] by simp
  next
    case 3
    then show ?thesis using path_text_longer [OF 3 p(1)] p q cp cq prefix_length_less [OF 3] by simp
  qed (use p q in simp)
qed

section \<open>The choice of the workspace\<close>

lemma max_by_key_same_order:
  "(\<And>x y. x \<in> set xs \<Longrightarrow> y \<in> set xs \<Longrightarrow> j x < j y \<longleftrightarrow> k x < k y) \<Longrightarrow> max_by_key j xs = max_by_key k xs"
proof (induction xs)
  case (Cons x xs)
  have "max_by_key j xs = max_by_key k xs" using Cons by simp
  moreover have "y \<in> set xs" if "max_by_key k xs = Some y" for y using max_by_key_Some [OF that] by simp
  ultimately show ?case using Cons.prems by (auto split: option.splits)
qed simp

lemma same_choice:
  assumes "\<forall>w \<in> set ws. canonical (ws_root w)"
  shows "innermost_root cwd ws = select_project_workspace ws cwd"
proof -
  have f: "contains_cwd cwd = (\<lambda>w. path_starts_with cwd (ws_root w))"
    using path_eq_starts_with by (auto simp: contains_cwd_def fun_eq_iff)
  show ?thesis unfolding innermost_root_def select_project_workspace_def f
    by (rule max_by_key_same_order) (use assms ancestors_order in \<open>auto\<close>)
qed


text \<open>
  The properties of the commands that record: what the daemon holds when they end, what is handed over, and which
  workspace they work in.
\<close>

section \<open>A recording that was reported\<close>

lemma resilient_finish:
  assumes "daemon_link K (cn_transport N)" and "finish_session_resilient N reconnected k sid fin dm = (Inr session, dm')"
    and "stored_session dm sid = Inr current" and "as_state current = Recording"
  shows "stored_session dm' sid = Inr session \<and> finished_as fin session"
proof -
  obtain r dm1 where f: "cm_finish_agent_session N k sid fin dm = (r, dm1)" by (cases "cm_finish_agent_session N k sid fin dm")
  show ?thesis
  proof (cases r)
    case (Inr s)
    then show ?thesis using assms f link_finish [OF assms(1)] by (auto simp: finish_session_resilient_def)
  next
    case (Inl e)
    then obtain sock where e: "e = DaemonUnavailable sock"
      using assms(2) f by (cases e) (auto simp: finish_session_resilient_def)
    then have "dm1 = dm" using link_unavailable [OF assms(1)] f Inl by blast
    then have "cm_finish_agent_session N (k + 2) sid fin dm = (Inr session, dm')"
      using assms(2) f Inl e by (auto simp: finish_session_resilient_def seq_res_Inr_iff)
    then show ?thesis using link_finish [OF assms(1)] assms(3,4) by blast
  qed
qed

lemma reported_recording:
  assumes "daemon_link K (cn_transport N)" and "report_recording N E arts r dm = (Inr code, dm')"
    and "stored_session dm (le_session_id E) = Inr current" and "as_state current = Recording"
  shows "code = rr_exit_code r \<and>
    (\<exists>session. stored_session dm' (le_session_id E) = Inr session \<and> finished_as (recorded_finish r) session)"
proof -
  obtain session dm1 detail where f: "finish_session_resilient N (le_connect E 0) 2 (le_session_id E) (recorded_finish r) dm = (Inr session, dm1)"
    and g: "cm_get_agent_session N 6 (le_session_id E) dm1 = (Inr detail, dm')" and code: "code = rr_exit_code r"
    using assms(2) by (auto simp: report_recording_def seq_res_Inr_iff)
  have "dm' = dm1" using link_get [OF assms(1) g] by blast
  then show ?thesis using resilient_finish [OF assms(1) f assms(3,4)] code by blast
qed

lemma record_session_code: "record_session R = (Some (Inr result), acts) \<Longrightarrow> rr_exit_code result = record_exit_code (rr_outcome result)"
  by (erule record_session_ended)

text \<open>C23: When a recording command ends with an exit code, the session it registered is no longer recording in the
  daemon's store: it holds the outcome of the recorder, with the bytes it captured and whether it truncated them, and the
  exit code is the one of that outcome. The daemon may be restarted in between.\<close>

theorem recording_reported:
  assumes "daemon_link K (cn_transport N)" and "record_session_with_env N E args json env dm = (Some (Inr code), dm', there)"
  shows "there \<and> (\<exists>result session outcome.
     (\<exists>p acts. record_session (le_recorder E (session_spec E args p (artifacts_of (le_paths E) (le_session_id E)) env)) = (Some (Inr result), acts)) \<and>
     stored_session dm' (le_session_id E) = Inr session \<and> session_is_terminal (as_state session) \<and>
     (as_state session = SessionInterrupted \<longleftrightarrow> is_interrupted_outcome outcome) \<and>
     as_outcome session = Some outcome \<and> outcome = rr_outcome result \<and> code = record_exit_code outcome \<and>
     as_captured_bytes session = row_u64 (as_i64 (rr_captured_bytes result)) \<and>
     as_output_truncated session = rr_output_truncated result)"
proof -
  obtain p dm1 arts session dm2 where c: "create_artifacts (le_artifacts E) (le_paths E) (le_session_id E) = Inr arts"
    and n: "cm_create_agent_session N 0 (session_request E args p arts) dm1 = (Inr session, dm2)"
    and r: "run_recorder N E (session_spec E args p arts env) arts dm2 = (Some (Inr code), dm')" and there
    using assms(2) by (auto simp: record_session_with_env_def split: prod.split_asm sum.split_asm)
  have arts: "arts = artifacts_of (le_paths E) (le_session_id E)" using c by (auto simp: create_artifacts_def bind_res_Inr_iff)
  have rec: "stored_session dm2 (le_session_id E) = Inr session" "as_state session = Recording"
    using link_create [OF assms(1) n] by (simp_all add: session_request_def)
  obtain result acts where run: "record_session (le_recorder E (session_spec E args p arts env)) = (Some (Inr result), acts)"
    and rep: "report_recording N E arts result dm2 = (Inr code, dm')"
    using r by (cases "record_session (le_recorder E (session_spec E args p arts env))")
      (auto simp: run_recorder_def split: option.split_asm sum.split_asm prod.split_asm)
  obtain final where f: "stored_session dm' (le_session_id E) = Inr final" "finished_as (recorded_finish result) final"
    and code: "code = rr_exit_code result"
    using reported_recording [OF assms(1) rep rec] by blast
  have "session_is_terminal (as_state final) \<and> (as_state final = SessionInterrupted \<longleftrightarrow> is_interrupted_outcome (rr_outcome result))"
    using f(2) by (auto simp: finished_as_def recorded_finish_def session_is_terminal_def is_interrupted_outcome_def split: execution_outcome.split)
  then show ?thesis using f run code record_session_code [OF run] \<open>there\<close> unfolding arts
    by (intro conjI exI [of _ result] exI [of _ final] exI [of _ "rr_outcome result"]) (auto simp: finished_as_def recorded_finish_def)
qed

theorem recording_reported_witness:
  "\<exists>dm' session. record_session_with_env demo_connection demo_launch demo_record_args False [] demo_daemon = (Some (Inr 3), dm', True) \<and>
     stored_session dm' ''s9'' = Inr session \<and> as_outcome session = Some (Exited 3)"
proof -
  obtain dm' where r: "record_session_with_env demo_connection demo_launch demo_record_args False [] demo_daemon = (Some (Inr 3), dm', True)"
    using demo_recorded by blast
  have "le_recorder demo_launch = (\<lambda>_. quiet_run)" "le_session_id demo_launch = ''s9''" by (simp_all add: demo_launch_def)
  then show ?thesis using recording_reported [OF demo_link r] quiet_run_result r by auto
qed

section \<open>Whose work is taken over\<close>

lemma read_sessions_mem: "read_sessions rows = Inr sessions \<Longrightarrow> session \<in> set sessions \<Longrightarrow> \<exists>row \<in> set rows. agent_session_from_row row = Inr session"
  unfolding read_sessions_def
proof (induction rows arbitrary: sessions)
  case (Cons row rows)
  then obtain v vs where "agent_session_from_row row = Inr v" "collect_res (map agent_session_from_row rows) = Inr vs" "sessions = v # vs"
    by (auto simp: bind_res_Inr_iff)
  then show ?case using Cons.IH Cons.prems(2) by fastforce
qed simp




definition handoff_db :: database where
  "handoff_db = demo_db\<lparr>db_sessions := [demo_session ''s1'' ''finished''],
     db_executions := [new_execution_row ''e'' 30 (demo_request (Some ''s1'')) ''/w''], db_events := [], db_turns := [], db_actions := []\<rparr>"

definition handoff_daemon :: daemon where
  "handoff_daemon = demo_daemon\<lparr>dm_engine := set_db handoff_db (dm_engine demo_daemon)\<rparr>"

lemma handoff_db_engine [simp]: "en_db (dm_engine handoff_daemon) = handoff_db"
  by (simp add: handoff_daemon_def set_db_def en_db_def)




section \<open>The same workspace for the agent and its user\<close>

text \<open>When the roots of the workspaces are canonical paths, the command line chooses the same workspace for a
  directory as the MCP server an agent runs there, although one compares the texts and the other the components of the
  roots.\<close>

theorem cli_and_mcp_agree:
  assumes "\<forall>w \<in> set workspaces. canonical (ws_root w)"
  shows "innermost_root cwd workspaces = select_project_workspace workspaces cwd"
  using assms by (rule same_choice)

theorem cli_and_mcp_agree_witness:
  "(let ws = [\<lparr>ws_id = ''1'', ws_name = ''root'', ws_root = ''/'', ws_created_at_ms = 0\<rparr>,
              \<lparr>ws_id = ''2'', ws_name = ''in'', ws_root = ''/a/b'', ws_created_at_ms = 1\<rparr>,
              \<lparr>ws_id = ''3'', ws_name = ''out'', ws_root = ''/a'', ws_created_at_ms = 2\<rparr>] in
     map_option ws_id (innermost_root ''/a/b/c'' ws) = Some ''2'' \<and> innermost_root ''/a/b/c'' ws = select_project_workspace ws ''/a/b/c'')"
proof -
  let ?ws = "[\<lparr>ws_id = ''1'', ws_name = ''root'', ws_root = ''/'', ws_created_at_ms = 0\<rparr>,
              \<lparr>ws_id = ''2'', ws_name = ''in'', ws_root = ''/a/b'', ws_created_at_ms = 1\<rparr>,
              \<lparr>ws_id = ''3'', ws_name = ''out'', ws_root = ''/a'', ws_created_at_ms = 2\<rparr>] :: workspace list"
  have "''/'' = path_text []" "''/a/b'' = path_text [''a'', ''b'']" "''/a'' = path_text [''a'']" by (simp_all add: path_text_def)
  moreover have "path_name ''a''" "path_name ''b''" by (simp_all add: path_name_def)
  ultimately have "canonical ''/''" "canonical ''/a/b''" "canonical ''/a''"
    unfolding canonical_def by (intro exI [of _ "[]"] exI [of _ "[''a'', ''b'']"] exI [of _ "[''a'']"]; simp)+
  then have c: "\<forall>w \<in> set ?ws. canonical (ws_root w)" by simp
  have "map_option ws_id (innermost_root ''/a/b/c'' ?ws) = Some ''2''" by code_simp
  then show ?thesis using cli_and_mcp_agree [OF c, of "''/a/b/c''"] by (simp add: Let_def)
qed

section \<open>A recording without its directory\<close>

lemma unreadable_lock_blocks:
  "session \<in> set sessions \<Longrightarrow> recorder_gone F session = Inl e \<Longrightarrow> \<exists>e'. fst (reconcile_sessions F clock sessions k db) = Inl e'"
proof (induction sessions arbitrary: k db)
  case (Cons s ss)
  show ?case
  proof (cases "recorder_gone F s")
    case (Inr gone)
    then have "session \<in> set ss" using Cons.prems by auto
    then show ?thesis using Cons.IH [OF _ Cons.prems(2)] Inr
      by (cases "finish_agent_session (clock k) (as_id s) (interrupted_finish F s) db")
        (auto split: bool.split sum.split)
  qed auto
qed simp

text \<open>C25: While a session is recorded as running whose directory does not exist, its lock cannot be opened, and every
  request that reconciles first fails: health, the reading and listing of sessions, and the shutdown, forced or
  not.\<close>

theorem missing_directory_blocks:
  assumes "active_agent_sessions (en_db (dm_engine dm)) = Inr sessions" and "session \<in> set sessions"
    and "path_parent (as_cast_path session) = Some dir"
    and "fs_try_lock (de_files V) (dir @ [Normal ''active.lock'']) 1 = OpenFailed m"
  shows "\<forall>op \<in> {OpHealth, OpSessionGet sid, OpSessionList w limit, OpShutdown force}. \<exists>e. fst (dispatch K V op dm) = Inl e"
proof -
  have "recorder_gone (de_files V) session = Inl (Io m)"
    using assms(3,4) by (simp add: recorder_gone_def claim_released_session_lock_def RECORDER_LOCK_ATTEMPTS_def upt_rec)
  then obtain e where "fst (reconcile_sessions (de_files V) (de_clock V) sessions 0 (en_db (dm_engine dm))) = Inl e"
    using unreadable_lock_blocks [OF assms(2)] by blast
  then obtain db' where "reconcile_sessions (de_files V) (de_clock V) sessions 0 (en_db (dm_engine dm)) = (Inl e, db')"
    by (metis prod.collapse)
  then have "\<exists>e. fst (reconciled V k dm) = Inl e" for k :: "daemon \<Rightarrow> protocol_result result \<times> daemon"
    using assms(1) by (simp add: reconciled_def on_store_def reconcile_agent_sessions_def)
  then show ?thesis by simp
qed

theorem missing_directory_blocks_witness:
  "\<exists>e. fst (dispatch demo_config (demo_daemon_env\<lparr>de_files := demo_files (\<lambda>_. OpenFailed ''No such file or directory'')\<rparr>) OpHealth demo_daemon) = Inl e"
proof -
  let ?V = "demo_daemon_env\<lparr>de_files := demo_files (\<lambda>_. OpenFailed ''No such file or directory'')\<rparr>"
  obtain sessions where ss: "active_agent_sessions demo_db = Inr sessions" "as_id ` set sessions = {sid. sstate sid demo_db = Some ''recording''}"
    using active_sessions [OF demo_inv] by metis
  have "sstate ''s2'' demo_db = Some ''recording''" by (simp add: sstate_def find_session_def demo_db_def demo_session_def)
  then have "''s2'' \<in> as_id ` set sessions" using ss(2) by simp
  then obtain session where s: "session \<in> set sessions" "as_id session = ''s2''" by auto
  have "\<exists>row \<in> set (db_sessions demo_db). agent_session_from_row row = Inr session"
    using read_sessions_mem [OF _ s(1)] ss(1) by (fastforce simp: active_agent_sessions_def order_by_def)
  then have "as_cast_path session = ''/s/s2/a.cast''" using s(2)
    by (auto simp: demo_db_def demo_session_def agent_session_from_row_def bind_res_Inr_iff)
  then have "path_parent (as_cast_path session) = Some [RootDir, Normal ''s'', Normal ''s2'']"
    by (simp add: path_parent_def components_def is_absolute_def named_components_def)
  from missing_directory_blocks [OF _ s(1) this, of demo_daemon ?V] ss(1) show ?thesis by (simp add: demo_files_def del: dispatch.simps)
qed

text \<open>That is what a lost answer leaves behind: the daemon has registered the session, the command has removed its
  directory.\<close>

definition losing_create :: "daemon transport" where
  "losing_create m dm =
     (case daemon_transport demo_config demo_daemon_env m dm of
        (r, dm') \<Rightarrow> (case m of Request _ _ (OpSessionCreate _) \<Rightarrow> (ReplyClosed, dm') | _ \<Rightarrow> (r, dm')))"

lemma losing_health: "require_capability C losing_create rid cap dm = require_capability C (daemon_transport demo_config demo_daemon_env) rid cap dm"
  by (simp add: require_capability_def client_health_def call_expect_def client_call_def losing_create_def wire_request_def split: prod.split)

lemma lost_answer_leaves_recording:
  "\<exists>e dm' session. record_session_with_env (demo_connection\<lparr>cn_transport := losing_create\<rparr>) demo_launch demo_record_args False [] demo_daemon =
       (Some (Inl e), dm', False) \<and> stored_session dm' ''s9'' = Inr session \<and> as_state session = Recording"
proof -
  let ?N = "demo_connection\<lparr>cn_transport := losing_create\<rparr>"
  let ?arts = "artifacts_of (le_paths demo_launch) (le_session_id demo_launch)"
  obtain s9 where s9: "agent_session_from_row demo_row9 = Inr s9" "as_state s9 = Recording" using demo_row9_decodes by blast
  obtain ss where ss: "active_agent_sessions demo_db = Inr ss" using launch_active by blast
  have a: "create_artifacts (le_artifacts demo_launch) (le_paths demo_launch) (le_session_id demo_launch) = Inr ?arts"
    by (simp add: create_artifacts_def demo_launch_def)
  have p: "prepare_recording ?N demo_launch demo_record_args False demo_daemon = (Inr demo_prep, demo_daemon)"
    using demo_prepared [of demo_daemon]
    by (simp add: prepare_recording_def demo_launch_def demo_record_args_def resolve_workspace_def seq_res_def pure_res_def demo_prep_def)
  define rq where "rq = session_request demo_launch demo_record_args demo_prep ?arts"
  have d: "dispatch demo_config demo_daemon_env (OpSessionCreate rq) demo_daemon = (Inr (PAgentSession s9), demo_daemon9 demo_row9)"
    using demo_dispatched s9(1) by (simp add: rq_def del: dispatch.simps)
  have c: "cm_create_agent_session ?N 0 rq demo_daemon = (Inl (Protocol ''daemon closed the connection''), demo_daemon9 demo_row9)"
    using demo_capability [of demo_daemon ss] ss d
    by (simp add: cm_create_agent_session_def session_call_def call_capable_def losing_health call_expect_def client_call_def
        losing_create_def daemon_transport_def wire_request_def result_message_def demo_connection_def del: dispatch.simps)
  have "find_session ''s9'' (demo_store9 demo_row9) = Some demo_row9" by (rule demo_found9) (simp add: demo_row9_def)
  then have "stored_session (demo_daemon9 demo_row9) ''s9'' = Inr s9"
    using s9 by (simp add: stored_session_def get_agent_session_record_def)
  then show ?thesis using p a c s9(2) by (simp add: record_session_with_env_def rq_def)
qed

end
