(* ===== verification/Onboarding.thy ===== *)
theory Onboarding
  imports Errors Json Iterators Rewriting
begin

text \<open>
  Setting a project up for agents (\<open>src/onboarding.rs\<close>): what the configuration files of the agents should hold, the
  plan that leaves everything else in them as it is, and writing it. The files, the JSON codec and the TOML editor
  are parameters; what the planner relies on of them is stated where it is used.
\<close>

section \<open>Plans\<close>

datatype config_action = CfgCreate | CfgReplace | CfgUnchanged | CfgSkip

record config_plan =
  cp_path :: string
  cp_action :: config_action
  cp_content :: "string option"

record agent_selection =
  sel_codex :: bool
  sel_claude :: bool

text \<open>The TOML editor: reading and printing a document, its table \<open>mcp_servers.loomterm\<close>, setting that table, the
  text of a table and of a string.\<close>

record ('d, 'i) toml_editor =
  tm_parse :: "string \<Rightarrow> string + 'd"
  tm_print :: "'d \<Rightarrow> string"
  tm_get :: "'d \<Rightarrow> 'i option"
  tm_put :: "'i \<Rightarrow> 'd \<Rightarrow> 'd"
  tm_item_text :: "'i \<Rightarrow> string"
  tm_value :: "string \<Rightarrow> string"

record ('d, 'i) init_env =
  ie_canonicalize :: "string \<Rightarrow> string result"
  ie_is_dir :: "string \<Rightarrow> bool"
  ie_read :: "string \<Rightarrow> string option result"
  ie_parse :: "string \<Rightarrow> string + json"
  ie_print :: "json \<Rightarrow> string"
  ie_toml :: "('d, 'i) toml_editor"
  ie_var :: "string \<Rightarrow> string option"
  ie_path :: "string list option"
  ie_is_file :: "string \<Rightarrow> bool"
  ie_exe :: "string result"

definition collision :: "string \<Rightarrow> 'a result" where
  "collision path = Inl (Config (path @
     '' already contains a different Loomterm configuration; use --force to replace only Loomterm-managed entries''))"

definition skipped :: "string \<Rightarrow> config_plan" where
  "skipped path = \<lparr>cp_path = path, cp_action = CfgSkip, cp_content = None\<rparr>"

definition unchanged :: "string \<Rightarrow> config_plan" where
  "unchanged path = \<lparr>cp_path = path, cp_action = CfgUnchanged, cp_content = None\<rparr>"

text \<open>The JSON document of a file; a file that is not there is an empty object.\<close>

definition json_document :: "('d, 'i) init_env \<Rightarrow> string \<Rightarrow> json result" where
  "json_document E path =
     bind_res (ie_read E path) (\<lambda>source.
       case source of
         None \<Rightarrow> Inr (JObject [])
       | Some text \<Rightarrow> (case ie_parse E text of Inl m \<Rightarrow> Inl (Config (path @ '': '' @ m)) | Inr v \<Rightarrow> Inr v))"

definition object_of :: "string \<Rightarrow> string \<Rightarrow> json \<Rightarrow> (string \<times> json) list result" where
  "object_of path what v = ok_or (Config (path @ '': '' @ what @ '' must be a JSON object'')) (as_object v)"

definition entry_or :: "string \<Rightarrow> json \<Rightarrow> (string \<times> json) list \<Rightarrow> json" where
  "entry_or k v ms = (case map_of ms k of Some w \<Rightarrow> w | None \<Rightarrow> v)"

definition json_text :: "('d, 'i) init_env \<Rightarrow> json \<Rightarrow> string" where
  "json_text E v = ie_print E v @ [CHR 0x0A]"

section \<open>The hook of the agent\<close>

definition squote_text :: string where
  "squote_text = [CHR 0x27]"

definition shell_quote :: "string \<Rightarrow> string" where
  "shell_quote value = squote_text @ replace_all squote_text ([CHR 0x27, CHR 0x5C, CHR 0x27, CHR 0x27]) value @ squote_text"

definition hook_environment :: "('d, 'i) init_env \<Rightarrow> (string \<times> string) list" where
  "hook_environment E =
     concat (map (\<lambda>k. case ie_var E k of Some v \<Rightarrow> [(k, v)] | None \<Rightarrow> [])
       [''LOOMTERM_CONFIG'', ''LOOMTERM_STATE_DIR'', ''LOOMTERM_RUNTIME_DIR''])"

definition hook_args :: "string \<Rightarrow> string list" where
  "hook_args provider = [''agent-event'', ''--provider'', provider]"

definition hook_handler :: "('d, 'i) init_env \<Rightarrow> string \<Rightarrow> string \<Rightarrow> json" where
  "hook_handler E command provider =
     (let environment = hook_environment E in
      if provider = ''claude'' then
        (if environment = [] then
           JObject [(''args'', JArray (map JString (hook_args provider))), (''command'', JString command),
             (''timeout'', JNumber 5), (''type'', JString ''command'')]
         else
           JObject [(''args'', JArray (map JString (map (\<lambda>(k, v). k @ ''='' @ v) environment @ command # hook_args provider))),
             (''command'', JString ''/usr/bin/env''), (''timeout'', JNumber 5), (''type'', JString ''command'')])
      else
        let text = join_with '' '' (map (\<lambda>(k, v). k @ ''='' @ shell_quote v) environment);
            prefix = (if text = [] then [] else text @ '' '') in
        JObject [(''command'', JString (prefix @ shell_quote command @ '' agent-event --provider '' @ provider)),
          (''timeout'', JNumber 5), (''type'', JString ''command'')])"

fun windows3 :: "'a list \<Rightarrow> ('a \<times> 'a \<times> 'a) list" where
  "windows3 (x # y # z # rest) = (x, y, z) # windows3 (y # z # rest)"
| "windows3 _ = []"

definition is_loomterm_hook :: "string \<Rightarrow> json \<Rightarrow> bool" where
  "is_loomterm_hook provider handler \<longleftrightarrow>
     (case Option.bind (get_member ''command'' handler) as_str of
        Some command \<Rightarrow> contains_sub (''agent-event --provider '' @ provider) command
      | None \<Rightarrow> False) \<or>
     (case Option.bind (get_member ''args'' handler) as_array of
        Some args \<Rightarrow> list_ex (\<lambda>w. w = (JString ''agent-event'', JString ''--provider'', JString provider)) (windows3 args)
      | None \<Rightarrow> False)"

definition hook_events :: "string \<Rightarrow> string list" where
  "hook_events provider =
     (if provider = ''claude''
      then [''UserPromptSubmit'', ''PreToolUse'', ''PostToolUse'', ''PostToolUseFailure'', ''Stop'', ''StopFailure'']
      else [''UserPromptSubmit'', ''PreToolUse'', ''PostToolUse'', ''Stop''])"

section \<open>The hooks of a settings file\<close>

definition group_handlers :: "json \<Rightarrow> json list option" where
  "group_handlers grp = Option.bind (get_member ''hooks'' grp) as_array"

definition loomterm_handlers :: "string \<Rightarrow> json list \<Rightarrow> json list" where
  "loomterm_handlers provider groups =
     filter (is_loomterm_hook provider) (concat (map (\<lambda>g. case group_handlers g of Some hs \<Rightarrow> hs | None \<Rightarrow> []) groups))"

text \<open>The first pass: the hooks with an entry for every event, the number of events that have the wanted handler, and
  whether some handler is a different one of Loomterm.\<close>

fun scan_hooks ::
  "string \<Rightarrow> string \<Rightarrow> json \<Rightarrow> string list \<Rightarrow> (string \<times> json) list \<Rightarrow> ((string \<times> json) list \<times> nat \<times> bool) result" where
  "scan_hooks path provider desired [] hooks = Inr (hooks, 0, False)"
| "scan_hooks path provider desired (event # events) hooks =
     (let entry = entry_or event (JArray []) hooks in
      bind_res (ok_or (Config (path @ '': hooks.'' @ event @ '' must be a JSON array'')) (as_array entry)) (\<lambda>groups.
        let found = loomterm_handlers provider groups in
        bind_res (scan_hooks path provider desired events (btree_insert event entry hooks)) (\<lambda>(hooks', exact, stale).
          Inr (hooks', exact + (if desired \<in> set found then 1 else 0), stale \<or> (\<exists>h \<in> set found. h \<noteq> desired)))))"

text \<open>The second pass over the groups of an event.\<close>

definition strip_group :: "string \<Rightarrow> json \<Rightarrow> json" where
  "strip_group provider grp =
     (case grp of
        JObject ms \<Rightarrow>
          (case group_handlers grp of
             Some hs \<Rightarrow> JObject (put_member ''hooks'' (JArray (filter (\<lambda>h. \<not> is_loomterm_hook provider h) hs)) ms)
           | None \<Rightarrow> grp)
      | _ \<Rightarrow> grp)"

definition rewrite_groups :: "string \<Rightarrow> json \<Rightarrow> json list \<Rightarrow> json list" where
  "rewrite_groups provider desired groups =
     filter (\<lambda>g. case group_handlers g of Some hs \<Rightarrow> hs \<noteq> [] | None \<Rightarrow> True) (map (strip_group provider) groups) @
     [JObject [(''hooks'', JArray [desired])]]"

definition rewrite_event :: "string \<Rightarrow> json \<Rightarrow> (string \<times> json) list \<Rightarrow> string \<Rightarrow> (string \<times> json) list" where
  "rewrite_event provider desired hooks event =
     (case Option.bind (map_of hooks event) as_array of
        Some groups \<Rightarrow> put_member event (JArray (rewrite_groups provider desired groups)) hooks
      | None \<Rightarrow> hooks)"

text \<open>What follows from the first pass.\<close>

definition hooks_action ::
  "('d, 'i) init_env \<Rightarrow> string \<Rightarrow> string \<Rightarrow> json \<Rightarrow> bool \<Rightarrow> (string \<times> json) list \<Rightarrow>
   (string \<times> json) list \<times> nat \<times> bool \<Rightarrow> config_plan result" where
  "hooks_action E path provider desired force ms r =
     (case r of (hooks1, exact, stale) \<Rightarrow>
        let events = hook_events provider in
        if stale \<and> \<not> force then collision path
        else if \<not> stale \<and> exact = length events then Inr (unchanged path)
        else
          let hooks2 = foldl (rewrite_event provider desired) hooks1 events in
          Inr \<lparr>cp_path = path, cp_action = (if stale then CfgReplace else CfgCreate),
               cp_content = Some (json_text E (JObject (btree_insert ''hooks'' (JObject hooks2) ms)))\<rparr>)"

definition plan_hooks :: "('d, 'i) init_env \<Rightarrow> string \<Rightarrow> string \<Rightarrow> string \<Rightarrow> bool \<Rightarrow> config_plan result" where
  "plan_hooks E path command provider force =
     bind_res (json_document E path) (\<lambda>root.
     bind_res (object_of path ''root'' root) (\<lambda>ms.
     bind_res (object_of path ''hooks'' (entry_or ''hooks'' (JObject []) ms)) (\<lambda>hooks.
     bind_res (scan_hooks path provider (hook_handler E command provider) (hook_events provider) hooks)
       (hooks_action E path provider (hook_handler E command provider) force ms))))"

section \<open>The servers of the agents\<close>

definition claude_server :: "string \<Rightarrow> json" where
  "claude_server command =
     JObject [(''args'', JArray []), (''command'', JString command), (''env'', JObject []), (''type'', JString ''stdio'')]"

definition server_action :: "bool \<Rightarrow> 'a option \<Rightarrow> ('a \<Rightarrow> bool) \<Rightarrow> string \<Rightarrow> config_action result" where
  "server_action force current same path =
     (case current of
        None \<Rightarrow> Inr CfgCreate
      | Some v \<Rightarrow> if same v then Inr CfgUnchanged else if \<not> force then collision path else Inr CfgReplace)"

definition server_plan ::
  "('d, 'i) init_env \<Rightarrow> string \<Rightarrow> string \<Rightarrow> (string \<times> json) list \<Rightarrow> (string \<times> json) list \<Rightarrow> config_action \<Rightarrow> config_plan result" where
  "server_plan E path command ms servers action =
     (if action = CfgUnchanged then Inr (unchanged path)
      else
        Inr \<lparr>cp_path = path, cp_action = action,
             cp_content = Some (json_text E (JObject (btree_insert ''mcpServers''
               (JObject (btree_insert ''loomterm'' (claude_server command) servers)) ms)))\<rparr>)"

definition plan_claude :: "('d, 'i) init_env \<Rightarrow> string \<Rightarrow> string \<Rightarrow> bool \<Rightarrow> config_plan result" where
  "plan_claude E path command force =
     bind_res (json_document E path) (\<lambda>root.
     bind_res (object_of path ''root'' root) (\<lambda>ms.
     bind_res (object_of path ''mcpServers'' (entry_or ''mcpServers'' (JObject []) ms)) (\<lambda>servers.
     bind_res (server_action force (map_of servers ''loomterm'') (\<lambda>v. v = claude_server command) path) (server_plan E path command ms servers))))"

definition nl :: string where
  "nl = [CHR 0x0A]"

definition dquoted :: "string \<Rightarrow> string" where
  "dquoted s = [CHR 0x22] @ s @ [CHR 0x22]"

definition codex_server_text :: "string \<Rightarrow> string" where
  "codex_server_text command =
     ''[mcp_servers.loomterm]'' @ nl @ ''command = '' @ command @ nl @ ''cwd = '' @ dquoted ''.'' @ nl @
     ''env_vars = ['' @ join_with '', '' (map dquoted [''LOOMTERM_CONFIG'', ''LOOMTERM_STATE_DIR'', ''LOOMTERM_RUNTIME_DIR'',
        ''LOOMTERM_SESSION_ID'', ''LOOMTERM_AGENT_KIND'']) @ '']'' @ nl @
     ''startup_timeout_sec = 30'' @ nl @ ''tool_timeout_sec = 90'' @ nl @ ''required = true'' @ nl @
     ''default_tools_approval_mode = '' @ dquoted ''writes'' @ nl"

definition plan_codex :: "('d, 'i) init_env \<Rightarrow> string \<Rightarrow> string \<Rightarrow> bool \<Rightarrow> config_plan result" where
  "plan_codex E path command force =
     (let t = ie_toml E in
      bind_res (ie_read E path) (\<lambda>source.
      bind_res (case tm_parse t (case source of Some text \<Rightarrow> text | None \<Rightarrow> []) of
          Inl m \<Rightarrow> Inl (Config (path @ '': '' @ m)) | Inr d \<Rightarrow> Inr d) (\<lambda>document.
      bind_res (case tm_parse t (codex_server_text (tm_value t command)) of
          Inl m \<Rightarrow> Inl (Config (''could not build Codex configuration: '' @ m)) | Inr d \<Rightarrow> Inr d) (\<lambda>built.
        let desired = the (tm_get t built) in
        bind_res (server_action force (tm_get t document) (\<lambda>i. tm_item_text t i = tm_item_text t desired) path) (\<lambda>action.
          if action = CfgUnchanged then Inr (unchanged path)
          else Inr \<lparr>cp_path = path, cp_action = action, cp_content = Some (tm_print t (tm_put t desired document))\<rparr>)))))"

section \<open>The plan of a project\<close>

record init_plan =
  ip_root :: string
  ip_name :: string
  ip_mcp_command :: string
  ip_loom_command :: string
  ip_codex :: config_plan
  ip_codex_hooks :: config_plan
  ip_claude :: config_plan
  ip_claude_hooks :: config_plan

text \<open>\<open>Path::with_file_name\<close>: the text up to the last name, without separators and dots at its end.\<close>

definition strip_tail :: "string list \<Rightarrow> string list" where
  "strip_tail parts = rev (dropWhile (\<lambda>x. x = [] \<or> x = ''.'') (rev parts))"

definition parent_text :: "string \<Rightarrow> string" where
  "parent_text p =
     (let parts = split_on (CHR ''/'') p; h = hd parts; body = strip_tail (tl parts); up = strip_tail (butlast body) in
      if body = [] then (if is_absolute p then ''/'' else [])
      else if up = [] then (if h = [] then ''/'' else h)
      else join_with ''/'' (h # up))"

definition with_file_name :: "string \<Rightarrow> string \<Rightarrow> string" where
  "with_file_name p name = path_join (if path_file_name p = None then p else parent_text p) name"

definition find_mcp_command :: "('d, 'i) init_env \<Rightarrow> string result" where
  "find_mcp_command E =
     (case find (ie_is_file E) (map (\<lambda>d. path_join d ''loom-mcp'') (case ie_path E of Some ds \<Rightarrow> ds | None \<Rightarrow> [])) of
        Some candidate \<Rightarrow> Inr candidate
      | None \<Rightarrow>
          bind_res (ie_exe E) (\<lambda>exe.
            let sibling = with_file_name exe ''loom-mcp'' in
            if ie_is_file E sibling then Inr sibling
            else Inl (Config ''could not find loom-mcp in PATH or beside the loom binary'')))"

definition plan_name :: "string option \<Rightarrow> string \<Rightarrow> string" where
  "plan_name name root =
     (case name of Some n \<Rightarrow> n | None \<Rightarrow> (case path_file_name root of Some n \<Rightarrow> n | None \<Rightarrow> ''workspace''))"

definition plan_with_command ::
  "('d, 'i) init_env \<Rightarrow> string \<Rightarrow> string option \<Rightarrow> agent_selection \<Rightarrow> bool \<Rightarrow> string \<Rightarrow> init_plan result" where
  "plan_with_command E root name agents force mcp_command =
     bind_res (ie_canonicalize E root) (\<lambda>root.
       if \<not> ie_is_dir E root then Inl (InvalidRequest (''workspace root is not a directory: '' @ root))
       else
         let name = plan_name name root;
             loom_command = with_file_name mcp_command ''loom'';
             codex_path = path_join root ''.codex/config.toml''; codex_hooks_path = path_join root ''.codex/hooks.json'';
             claude_path = path_join root ''.mcp.json''; claude_hooks_path = path_join root ''.claude/settings.json'' in
         if trim_is_empty name then Inl (InvalidRequest ''workspace name must not be empty'')
         else
           bind_res (if sel_codex agents then plan_codex E codex_path mcp_command force else Inr (skipped codex_path)) (\<lambda>codex.
           bind_res (if sel_codex agents then plan_hooks E codex_hooks_path loom_command ''codex'' force
                     else Inr (skipped codex_hooks_path)) (\<lambda>codex_hooks.
           bind_res (if sel_claude agents then plan_claude E claude_path mcp_command force else Inr (skipped claude_path)) (\<lambda>claude.
           bind_res (if sel_claude agents then plan_hooks E claude_hooks_path loom_command ''claude'' force
                     else Inr (skipped claude_hooks_path)) (\<lambda>claude_hooks.
             Inr \<lparr>ip_root = root, ip_name = name, ip_mcp_command = mcp_command, ip_loom_command = loom_command,
                  ip_codex = codex, ip_codex_hooks = codex_hooks, ip_claude = claude, ip_claude_hooks = claude_hooks\<rparr>)))))"

definition init_plan_of :: "('d, 'i) init_env \<Rightarrow> string \<Rightarrow> string option \<Rightarrow> agent_selection \<Rightarrow> bool \<Rightarrow> init_plan result" where
  "init_plan_of E root name agents force =
     bind_res (find_mcp_command E) (\<lambda>mcp_command. plan_with_command E root name agents force mcp_command)"

section \<open>Writing it\<close>

text \<open>\<open>write_atomic\<close>: the steps up to the renaming, and what is there afterwards: the file as it was or the new
  content, and no temporary file unless its removal fails too.\<close>

record write_io =
  wi_parent :: "unit result"
  wi_create :: "unit result"
  wi_write :: "unit result"
  wi_sync :: "unit result"
  wi_permissions :: "unit result"
  wi_rename :: "unit result"

definition write_atomic ::
  "(string \<Rightarrow> write_io) \<Rightarrow> string \<Rightarrow> string \<Rightarrow> (string \<Rightarrow> string option) \<Rightarrow> unit result \<times> (string \<Rightarrow> string option)" where
  "write_atomic io path content fs =
     (case path_parent path of
        None \<Rightarrow> (Inl (Config (''configuration path has no parent: '' @ path)), fs)
      | Some _ \<Rightarrow>
          (case bind_res (wi_parent (io path)) (\<lambda>_. bind_res (wi_create (io path)) (\<lambda>_. bind_res (wi_write (io path)) (\<lambda>_.
                bind_res (wi_sync (io path)) (\<lambda>_. bind_res (wi_permissions (io path)) (\<lambda>_. wi_rename (io path)))))) of
             Inl e \<Rightarrow> (Inl e, fs)
           | Inr _ \<Rightarrow> (Inr (), fs(path \<mapsto> content))))"

fun apply_configs ::
  "(string \<Rightarrow> write_io) \<Rightarrow> config_plan list \<Rightarrow> (string \<Rightarrow> string option) \<Rightarrow> unit result \<times> (string \<Rightarrow> string option)" where
  "apply_configs io [] fs = (Inr (), fs)"
| "apply_configs io (c # cs) fs =
     (case cp_content c of
        None \<Rightarrow> apply_configs io cs fs
      | Some content \<Rightarrow>
          (case write_atomic io (cp_path c) content fs of
             (Inl e, fs1) \<Rightarrow> (Inl e, fs1)
           | (Inr _, fs1) \<Rightarrow> apply_configs io cs fs1))"

definition apply_plan ::
  "(string \<Rightarrow> write_io) \<Rightarrow> init_plan \<Rightarrow> (string \<Rightarrow> string option) \<Rightarrow> unit result \<times> (string \<Rightarrow> string option)" where
  "apply_plan io p fs = apply_configs io [ip_codex p, ip_codex_hooks p, ip_claude p, ip_claude_hooks p] fs"

end
