(* ===== verification/OnboardingHooks.thy ===== *)
theory OnboardingHooks
  imports Onboarding
begin

text \<open>
  The values the planner reads and writes, and what it relies on of the JSON codec and the TOML editor. Whatever it
  makes of a value that was read is a value the codec can print and read back.
\<close>

lemma as_object_iff: "as_object v = Some ms \<longleftrightarrow> v = JObject ms"
  by (cases v) auto

lemma object_of_Inr_iff: "object_of path what v = Inr ms \<longleftrightarrow> v = JObject ms"
  by (simp add: object_of_def ok_or_Inr_iff as_object_iff)

section \<open>What the planner relies on\<close>

text \<open>The values the JSON codec has: objects list their members in the order of the keys, and a float has one of the
  texts the codec prints.\<close>

fun json_value :: "string set \<Rightarrow> json \<Rightarrow> bool" where
  "json_value floats (JFloat f) \<longleftrightarrow> f \<in> floats"
| "json_value floats (JArray vs) \<longleftrightarrow> (\<forall>v \<in> set vs. json_value floats v)"
| "json_value floats (JObject ms) \<longleftrightarrow> sorted_wrt (<) (map fst ms) \<and> (\<forall>v \<in> snd ` set ms. json_value floats v)"
| "json_value floats _ \<longleftrightarrow> True"

text \<open>Reading gives such a value, and a value that was printed, with a line end after it, is read back.\<close>

definition json_codec :: "('d, 'i) init_env \<Rightarrow> string set \<Rightarrow> bool" where
  "json_codec E floats \<longleftrightarrow>
     (\<forall>text v. ie_parse E text = Inr v \<longrightarrow> json_value floats v) \<and>
     (\<forall>v. json_value floats v \<longrightarrow> ie_parse E (json_text E v) = Inr v)"

text \<open>The table that was put into a document is there, with the same text, when the document has been printed and read
  again.\<close>

definition toml_keeps :: "('d, 'i) toml_editor \<Rightarrow> 'd \<Rightarrow> bool" where
  "toml_keeps t d \<longleftrightarrow>
     (\<forall>i. \<exists>d' i'. tm_parse t (tm_print t (tm_put t i d)) = Inr d' \<and> tm_get t d' = Some i' \<and> tm_item_text t i' = tm_item_text t i)"

section \<open>The values that are written\<close>

lemma put_member_value:
  assumes "json_value floats (JObject ms)" and "map_of ms k \<noteq> None" and "json_value floats v"
  shows "json_value floats (JObject (put_member k v ms))"
proof -
  have keys: "map fst (put_member k v ms) = map fst ms" using assms(2)
    by (induction k v ms rule: put_member.induct) (auto split: if_split_asm)
  have "snd ` set (put_member k v ms) \<subseteq> insert v (snd ` set ms)"
    by (induction k v ms rule: put_member.induct) auto
  then have "\<forall>w \<in> snd ` set (put_member k v ms). json_value floats w" using assms(1,3) unfolding json_value.simps by blast
  then show ?thesis using assms(1) keys unfolding json_value.simps by simp
qed

lemma btree_insert_value:
  assumes "json_value floats (JObject ms)" and "json_value floats v"
  shows "json_value floats (JObject (btree_insert k v ms))"
proof -
  have "snd ` set (btree_insert k v ms) \<subseteq> insert v (snd ` set ms)"
    by (induction k v ms rule: btree_insert.induct) auto
  then have "\<forall>w \<in> snd ` set (btree_insert k v ms). json_value floats w" using assms unfolding json_value.simps by blast
  then show ?thesis using assms(1) btree_insert_sorted [of ms k v] unfolding json_value.simps by simp
qed

lemma member_value: "json_value floats (JObject ms) \<Longrightarrow> map_of ms k = Some v \<Longrightarrow> json_value floats v"
  by (force dest: map_of_SomeD)

lemma entry_value: "json_value floats (JObject ms) \<Longrightarrow> json_value floats v \<Longrightarrow> json_value floats (entry_or k v ms)"
  by (auto simp: entry_or_def simp del: json_value.simps dest: member_value split: option.split)

lemma hook_handler_value: "json_value floats (hook_handler E command provider)"
  by (auto simp: hook_handler_def Let_def)

lemma claude_server_value: "json_value floats (claude_server command)"
  by (simp add: claude_server_def)

lemma strip_group_value: "json_value floats g \<Longrightarrow> json_value floats (strip_group provider g)"
proof -
  assume g: "json_value floats g"
  show ?thesis
  proof (cases "group_handlers g")
    case None
    then show ?thesis using g by (auto simp: strip_group_def split: json.split)
  next
    case (Some hs)
    then obtain ms where ms: "g = JObject ms" "map_of ms ''hooks'' = Some (JArray hs)"
      by (cases g) (auto simp: group_handlers_def bind_eq_Some_conv elim: as_array.elims)
    have "json_value floats (JArray hs)" using member_value g ms by blast
    then have "json_value floats (JArray (filter (\<lambda>h. \<not> is_loomterm_hook provider h) hs))" by simp
    then show ?thesis using put_member_value g ms Some by (simp add: strip_group_def del: json_value.simps)
  qed
qed

lemma rewrite_groups_value:
  assumes "\<forall>g \<in> set groups. json_value floats g" and "json_value floats desired"
  shows "json_value floats (JArray (rewrite_groups provider desired groups))"
  using assms strip_group_value by (auto simp: rewrite_groups_def)

lemma scan_hooks_value:
  "scan_hooks path provider desired events hooks = Inr (hooks', exact, stale) \<Longrightarrow> json_value floats (JObject hooks) \<Longrightarrow>
   json_value floats (JObject hooks')"
proof (induction events arbitrary: hooks exact stale)
  case (Cons e events)
  then obtain n s where "scan_hooks path provider desired events (btree_insert e (entry_or e (JArray []) hooks) hooks) = Inr (hooks', n, s)"
    by (auto simp: bind_res_Inr_iff Let_def simp del: json_value.simps)
  then show ?case using Cons.IH Cons.prems(2) btree_insert_value entry_value by (metis empty_iff empty_set json_value.simps(2))
qed simp

lemma rewrite_event_value:
  assumes "json_value floats (JObject hooks)" and "json_value floats desired"
  shows "json_value floats (JObject (rewrite_event provider desired hooks e))"
proof (cases "Option.bind (map_of hooks e) as_array")
  case (Some groups)
  then have m: "map_of hooks e = Some (JArray groups)" by (auto simp: bind_eq_Some_conv elim: as_array.elims)
  then have "\<forall>g \<in> set groups. json_value floats g" using member_value [OF assms(1)] by fastforce
  then show ?thesis using put_member_value assms m rewrite_groups_value by (simp add: rewrite_event_def del: json_value.simps)
qed (simp add: rewrite_event_def assms del: json_value.simps)

lemma rewrite_events_value:
  "json_value floats (JObject hooks) \<Longrightarrow> json_value floats desired \<Longrightarrow>
   json_value floats (JObject (foldl (rewrite_event provider desired) hooks events))"
  by (induction events arbitrary: hooks) (simp_all add: rewrite_event_value del: json_value.simps)


text \<open>What a plan writes is read back.\<close>

lemma document_value:
  assumes "json_codec E floats" and "json_document E path = Inr v"
  shows "json_value floats v"
proof -
  obtain source where r: "ie_read E path = Inr source" using assms(2) by (cases "ie_read E path") (auto simp: json_document_def)
  show ?thesis
  proof (cases source)
    case None
    then show ?thesis using assms(2) r by (auto simp: json_document_def)
  next
    case (Some content)
    then have "ie_parse E content = Inr v" using assms(2) r by (cases "ie_parse E content") (auto simp: json_document_def)
    then show ?thesis using assms(1) by (simp add: json_codec_def)
  qed
qed


text \<open>
  What the planner makes of the hooks of a settings file: the handler it adds is recognised as its own, an event it
  has rewritten holds that handler and no other of its own, and the user's groups, events and members are as before.
\<close>

section \<open>The handler of the agent\<close>

lemma windows3_append: "w \<in> set (windows3 ys) \<Longrightarrow> w \<in> set (windows3 (xs @ ys))"
proof (induction xs)
  case (Cons x xs)
  then show ?case by (cases "xs @ ys" rule: windows3.cases) auto
qed simp

lemma hook_args_window: "(JString ''agent-event'', JString ''--provider'', JString provider) \<in> set (windows3 (map JString (xs @ hook_args provider)))"
  using windows3_append [of _ "map JString (hook_args provider)" "map JString xs"] by (simp add: hook_args_def)

lemma contains_sub_suffix: "contains_sub p (xs @ p)"
  unfolding contains_sub_iff sublist_def by (intro exI [of _ xs] exI [of _ "[]"]) simp

lemma hook_is_ours: "is_loomterm_hook provider (hook_handler E command provider)"
proof (cases "provider = ''claude''")
  case True
  let ?w = "(JString ''agent-event'', JString ''--provider'', JString provider)"
  have "?w \<in> set (windows3 (map JString (hook_args provider)))" using hook_args_window [of provider "[]"] by simp
  moreover have "?w \<in> set (windows3 (map JString (map (\<lambda>(k, v). k @ ''='' @ v) (hook_environment E) @ command # hook_args provider)))"
    using hook_args_window [of provider "map (\<lambda>(k, v). k @ ''='' @ v) (hook_environment E) @ [command]"] by simp
  ultimately show ?thesis using True
    by (auto simp: is_loomterm_hook_def hook_handler_def list_ex_iff Let_def)
next
  case False
  obtain prefix where "hook_handler E command provider =
      JObject [(''command'', JString (prefix @ shell_quote command @ '' agent-event --provider '' @ provider)),
        (''timeout'', JNumber 5), (''type'', JString ''command'')]"
    using False by (auto simp: hook_handler_def Let_def)
  moreover have "contains_sub (''agent-event --provider '' @ provider)
      ((prefix @ shell_quote command @ '' '') @ ''agent-event --provider '' @ provider)"
    by (rule contains_sub_suffix)
  ultimately show ?thesis by (simp add: is_loomterm_hook_def)
qed

section \<open>The groups of an event\<close>

definition handlers_of :: "json \<Rightarrow> json list" where
  "handlers_of g = (case group_handlers g of Some hs \<Rightarrow> hs | None \<Rightarrow> [])"

lemma loomterm_handlers_alt: "loomterm_handlers provider groups = concat (map (\<lambda>g. filter (is_loomterm_hook provider) (handlers_of g)) groups)"
  by (induction groups) (auto simp: loomterm_handlers_def handlers_of_def)

lemma group_handlers_strip:
  "group_handlers (strip_group provider g) = map_option (filter (\<lambda>h. \<not> is_loomterm_hook provider h)) (group_handlers g)"
  by (auto simp: strip_group_def group_handlers_def split: json.split option.split)

lemma rewritten_handlers:
  assumes "is_loomterm_hook provider desired"
  shows "loomterm_handlers provider (rewrite_groups provider desired groups) = [desired]"
proof -
  have own: "handlers_of (JObject [(''hooks'', JArray [desired])]) = [desired]" by (simp add: handlers_of_def group_handlers_def)
  have "filter (is_loomterm_hook provider) (handlers_of (strip_group provider g)) = []" for g
    by (auto simp: handlers_of_def group_handlers_strip filter_empty_conv split: option.split)
  then have "concat (map (\<lambda>g. filter (is_loomterm_hook provider) (handlers_of g)) (filter P (map (strip_group provider) groups))) = []" for P
    by auto
  then show ?thesis using assms own by (simp add: loomterm_handlers_alt rewrite_groups_def)
qed

text \<open>What is the user's in a group: its members beside the handlers, and the handlers that are not the agent's. A
  group that only holds the agent's handlers is not the user's.\<close>

definition user_group :: "string \<Rightarrow> json \<Rightarrow> (json \<times> json list) option" where
  "user_group provider g =
     (case group_handlers g of
        None \<Rightarrow> Some (g, [])
      | Some hs \<Rightarrow>
          (case filter (\<lambda>h. \<not> is_loomterm_hook provider h) hs of
             [] \<Rightarrow> None
           | users \<Rightarrow> Some (JObject (filter (\<lambda>(k, _). k \<noteq> ''hooks'') (case as_object g of Some ms \<Rightarrow> ms | None \<Rightarrow> [])), users)))"

definition user_groups :: "string \<Rightarrow> json list \<Rightarrow> (json \<times> json list) list" where
  "user_groups provider groups = List.map_filter (user_group provider) groups"

lemma put_member_others: "filter (\<lambda>(k', _). k' \<noteq> k) (put_member k v ms) = filter (\<lambda>(k', _). k' \<noteq> k) ms"
  by (induction k v ms rule: put_member.induct) auto

lemma user_group_strip: "user_group provider (strip_group provider g) = user_group provider g"
proof (cases "group_handlers g")
  case None
  then show ?thesis by (auto simp: strip_group_def user_group_def group_handlers_def split: json.split)
next
  case (Some hs)
  then obtain ms where "g = JObject ms" by (cases g) (auto simp: group_handlers_def)
  then show ?thesis using Some group_handlers_strip [of provider g]
    by (auto simp: user_group_def strip_group_def put_member_others filter_empty_conv split: list.split)
qed

lemma map_filter_map_same: "(\<And>x. f (h x) = f x) \<Longrightarrow> List.map_filter f (map h xs) = List.map_filter f xs"
  by (induction xs) (auto simp: List.map_filter_simps split: option.split)

lemma map_filter_drop: "(\<And>x. \<not> P x \<Longrightarrow> f x = None) \<Longrightarrow> List.map_filter f (filter P xs) = List.map_filter f xs"
  by (induction xs) (auto simp: List.map_filter_simps split: option.split)

lemma map_filter_append: "List.map_filter f (xs @ ys) = List.map_filter f xs @ List.map_filter f ys"
  by (simp add: List.map_filter_def)

lemma rewritten_user_groups:
  assumes "is_loomterm_hook provider desired"
  shows "user_groups provider (rewrite_groups provider desired groups) = user_groups provider groups"
proof -
  have own: "user_group provider (JObject [(''hooks'', JArray [desired])]) = None"
    using assms by (simp add: user_group_def group_handlers_def)
  have drop: "\<not> (case group_handlers g of Some hs \<Rightarrow> hs \<noteq> [] | None \<Rightarrow> True) \<Longrightarrow> user_group provider g = None" for g
    by (auto simp: user_group_def split: option.split_asm)
  show ?thesis unfolding user_groups_def rewrite_groups_def map_filter_append
    by (simp add: map_filter_drop [OF drop] map_filter_map_same [where f = "user_group provider" and h = "strip_group provider", OF user_group_strip] own List.map_filter_simps)
qed

section \<open>The two passes over the events\<close>

definition event_groups :: "(string \<times> json) list \<Rightarrow> string \<Rightarrow> json list" where
  "event_groups hooks event = (case Option.bind (map_of hooks event) as_array of Some gs \<Rightarrow> gs | None \<Rightarrow> [])"

lemma scan_hooks_spec:
  assumes "scan_hooks path provider desired events hooks = Inr (hooks', exact, stale)" and "distinct events"
  shows "(\<forall>event \<in> set events. map_of hooks' event = Some (entry_or event (JArray []) hooks) \<and>
            as_array (entry_or event (JArray []) hooks) = Some (event_groups hooks event)) \<and>
    (\<forall>event. event \<notin> set events \<longrightarrow> map_of hooks' event = map_of hooks event) \<and>
    exact = length (filter (\<lambda>event. desired \<in> set (loomterm_handlers provider (event_groups hooks event))) events) \<and>
    (stale \<longleftrightarrow> (\<exists>event \<in> set events. \<exists>h \<in> set (loomterm_handlers provider (event_groups hooks event)). h \<noteq> desired))"
  using assms
proof (induction events arbitrary: hooks hooks' exact stale)
  case (Cons event events)
  let ?entry = "entry_or event (JArray []) hooks"
  let ?hooks1 = "btree_insert event ?entry hooks"
  obtain groups n s where g: "as_array ?entry = Some groups"
    and r: "scan_hooks path provider desired events ?hooks1 = Inr (hooks', n, s)"
    and e: "exact = n + (if desired \<in> set (loomterm_handlers provider groups) then 1 else 0)"
      "stale = (s \<or> (\<exists>h \<in> set (loomterm_handlers provider groups). h \<noteq> desired))"
    using Cons.prems(1) by (auto simp: bind_res_Inr_iff ok_or_Inr_iff Let_def)
  have groups: "event_groups hooks event = groups"
    using g by (auto simp: event_groups_def entry_or_def split: option.split_asm)
  have other: "entry_or e (JArray []) ?hooks1 = entry_or e (JArray []) hooks" "event_groups ?hooks1 e = event_groups hooks e" if "e \<noteq> event" for e
    using that by (auto simp: entry_or_def event_groups_def)
  have away: "e \<noteq> event" if "e \<in> set events" for e using that Cons.prems(2) by auto
  note IH = Cons.IH [OF r]
  have same: "filter (\<lambda>e. desired \<in> set (loomterm_handlers provider (event_groups ?hooks1 e))) events =
      filter (\<lambda>e. desired \<in> set (loomterm_handlers provider (event_groups hooks e))) events"
    using other(2) away by (intro filter_cong) auto
  show ?case using IH Cons.prems(2) g groups e other away same by auto
qed simp

lemma rewrite_events_spec:
  assumes "distinct events" and "\<forall>event \<in> set events. \<exists>gs. Option.bind (map_of hooks event) as_array = Some gs"
  shows "map_of (foldl (rewrite_event provider desired) hooks events) event =
    (if event \<in> set events then Some (JArray (rewrite_groups provider desired (event_groups hooks event))) else map_of hooks event)"
  using assms
proof (induction events arbitrary: hooks)
  case (Cons e events)
  obtain gs where gs: "Option.bind (map_of hooks e) as_array = Some gs" using Cons.prems(2) by auto
  have r: "rewrite_event provider desired hooks e = put_member e (JArray (rewrite_groups provider desired (event_groups hooks e))) hooks"
    using gs by (simp add: rewrite_event_def event_groups_def)
  have "map_of (foldl (rewrite_event provider desired) (rewrite_event provider desired hooks e) events) event =
    (if event \<in> set events then Some (JArray (rewrite_groups provider desired (event_groups (rewrite_event provider desired hooks e) event)))
     else map_of (rewrite_event provider desired hooks e) event)"
    using Cons.prems by (intro Cons.IH) (auto simp: r)
  then show ?case using Cons.prems(1) by (auto simp: r event_groups_def)
qed simp

lemma hook_events_distinct: "distinct (hook_events provider)"
  by (simp add: hook_events_def)

text \<open>The document a plan leads to, for a file that needs one.\<close>

lemma plan_hooks_written:
  assumes "plan_hooks E path command provider force = Inr p" and "cp_content p = Some content"
  shows "\<exists>ms hooks ms' hooks'. json_document E path = Inr (JObject ms) \<and>
    entry_or ''hooks'' (JObject []) ms = JObject hooks \<and> content = json_text E (JObject ms') \<and>
    map_of ms' = (map_of ms)(''hooks'' \<mapsto> JObject hooks') \<and>
    (\<forall>event. map_of hooks' event =
       (if event \<in> set (hook_events provider)
        then Some (JArray (rewrite_groups provider (hook_handler E command provider) (event_groups hooks event)))
        else map_of hooks event)) \<and>
    (\<not> force \<longrightarrow> (\<forall>event \<in> set (hook_events provider).
       set (loomterm_handlers provider (event_groups hooks event)) \<subseteq> {hook_handler E command provider})) \<and>
    (\<forall>floats. json_value floats (JObject ms) \<longrightarrow> json_value floats (JObject ms'))"
proof -
  let ?d = "hook_handler E command provider" and ?es = "hook_events provider"
  obtain ms hooks r where doc: "json_document E path = Inr (JObject ms)" and obj: "entry_or ''hooks'' (JObject []) ms = JObject hooks"
    and scan: "scan_hooks path provider ?d ?es hooks = Inr r" and act: "hooks_action E path provider ?d force ms r = Inr p"
    using assms(1) unfolding plan_hooks_def bind_res_Inr_iff object_of_Inr_iff by blast
  obtain hooks1 exact stale where r: "r = (hooks1, exact, stale)" by (cases r)
  note scan = scan [unfolded r]
  have content: "content = json_text E (JObject (btree_insert ''hooks'' (JObject (foldl (rewrite_event provider ?d) hooks1 ?es)) ms))"
    using act assms(2) by (auto simp: hooks_action_def r Let_def collision_def unchanged_def split: if_split_asm)
  note spec = scan_hooks_spec [OF scan hook_events_distinct]
  have g1: "event_groups hooks1 e = event_groups hooks e" if "e \<in> set ?es" for e
    using spec that by (auto simp: event_groups_def)
  have "\<forall>e \<in> set ?es. \<exists>gs. Option.bind (map_of hooks1 e) as_array = Some gs" using spec by auto
  note w = rewrite_events_spec [OF hook_events_distinct this, of _ ?d]
  have ev: "map_of (foldl (rewrite_event provider ?d) hooks1 ?es) event =
      (if event \<in> set ?es then Some (JArray (rewrite_groups provider ?d (event_groups hooks event))) else map_of hooks event)" for event
    unfolding w using spec g1 by simp
  have unforced: "\<not> force \<longrightarrow> (\<forall>event \<in> set ?es. set (loomterm_handlers provider (event_groups hooks event)) \<subseteq> {?d})"
  proof -
    have "\<not> force \<longrightarrow> \<not> stale" using act by (auto simp: hooks_action_def r collision_def Let_def)
    then show ?thesis using spec by blast
  qed
  have v: "json_value floats (JObject (btree_insert ''hooks'' (JObject (foldl (rewrite_event provider ?d) hooks1 ?es)) ms))"
    if ms: "json_value floats (JObject ms)" for floats
  proof -
    have "json_value floats (JObject hooks)" using entry_value [OF ms, of "JObject []" "''hooks''"] obj by simp
    then have "json_value floats (JObject hooks1)" using scan_hooks_value scan by blast
    then have "json_value floats (JObject (foldl (rewrite_event provider ?d) hooks1 ?es))"
      using rewrite_events_value hook_handler_value by blast
    then show ?thesis using btree_insert_value ms by blast
  qed
  show ?thesis
    by (rule exI [of _ ms], rule exI [of _ hooks],
        rule exI [of _ "btree_insert ''hooks'' (JObject (foldl (rewrite_event provider ?d) hooks1 ?es)) ms"],
        rule exI [of _ "foldl (rewrite_event provider ?d) hooks1 ?es"])
      (intro conjI doc obj content map_of_btree_insert allI [OF ev] unforced allI [OF impI [OF v]])
qed

text \<open>A document whose events hold exactly the wanted handler needs no writing.\<close>

lemma scan_hooks_total:
  assumes "\<forall>event \<in> set events. \<exists>gs. as_array (entry_or event (JArray []) hooks) = Some gs" and "distinct events"
  shows "\<not> isl (scan_hooks path provider desired events hooks)"
  using assms
proof (induction events arbitrary: hooks)
  case (Cons e events)
  have "\<forall>event \<in> set events. \<exists>gs. as_array (entry_or event (JArray []) (btree_insert e (entry_or e (JArray []) hooks) hooks)) = Some gs"
    using Cons.prems by (auto simp: entry_or_def)
  then have "\<not> isl (scan_hooks path provider desired events (btree_insert e (entry_or e (JArray []) hooks) hooks))"
    using Cons.IH Cons.prems(2) by simp
  then obtain h n s where "scan_hooks path provider desired events (btree_insert e (entry_or e (JArray []) hooks) hooks) = Inr (h, n, s)"
    unfolding isl_def by (metis old.sum.exhaust prod_cases3)
  then show ?case using Cons.prems(1) by (auto simp: Let_def)
qed simp

lemma plan_hooks_settled:
  assumes "json_document E path = Inr (JObject ms)" and "map_of ms ''hooks'' = Some (JObject hooks)"
    and "\<forall>event \<in> set (hook_events provider). \<exists>gs. map_of hooks event = Some (JArray gs) \<and>
      loomterm_handlers provider gs = [hook_handler E command provider]"
  shows "plan_hooks E path command provider force = Inr (unchanged path)"
proof -
  let ?d = "hook_handler E command provider" and ?es = "hook_events provider"
  have "\<forall>event \<in> set ?es. \<exists>gs. as_array (entry_or event (JArray []) hooks) = Some gs" using assms(3) by (fastforce simp: entry_or_def)
  then obtain hooks1 exact stale where scan: "scan_hooks path provider ?d ?es hooks = Inr (hooks1, exact, stale)"
    using scan_hooks_total [OF _ hook_events_distinct] by (metis isl_def old.sum.exhaust prod_cases3)
  have f: "loomterm_handlers provider (event_groups hooks e) = [?d]" if "e \<in> set ?es" for e
    using assms(3) that by (fastforce simp: event_groups_def)
  have "filter (\<lambda>e. ?d \<in> set (loomterm_handlers provider (event_groups hooks e))) ?es = ?es" using f by (intro filter_True) simp
  then have "exact = length ?es" "\<not> stale" using scan_hooks_spec [OF scan hook_events_distinct] f by auto
  then show ?thesis using assms(1,2) scan by (simp add: plan_hooks_def hooks_action_def object_of_def entry_or_def)
qed

text \<open>Without \<open>force\<close>, nothing of the agent's that is different is replaced.\<close>

lemma plan_hooks_unforced: "plan_hooks E path command provider False = Inr p \<Longrightarrow> cp_action p \<noteq> CfgReplace"
  by (auto simp: plan_hooks_def hooks_action_def bind_res_Inr_iff Let_def collision_def unchanged_def split: if_split_asm prod.split_asm)

lemma plan_claude_unforced: "plan_claude E path command False = Inr p \<Longrightarrow> cp_action p \<noteq> CfgReplace"
  by (auto simp: plan_claude_def server_plan_def server_action_def bind_res_Inr_iff collision_def unchanged_def split: if_split_asm option.split_asm)

lemma plan_codex_unforced: "plan_codex E path command False = Inr p \<Longrightarrow> cp_action p \<noteq> CfgReplace"
  by (auto simp: plan_codex_def server_action_def bind_res_Inr_iff collision_def unchanged_def Let_def split: if_split_asm option.split_asm)

lemma plan_claude_written:
  assumes "plan_claude E path command force = Inr p" and "cp_content p = Some content"
  shows "\<exists>ms servers ms' servers'. json_document E path = Inr (JObject ms) \<and>
    entry_or ''mcpServers'' (JObject []) ms = JObject servers \<and> content = json_text E (JObject ms') \<and>
    map_of ms' = (map_of ms)(''mcpServers'' \<mapsto> JObject servers') \<and>
    map_of servers' = (map_of servers)(''loomterm'' \<mapsto> claude_server command) \<and>
    (\<not> force \<longrightarrow> map_of servers ''loomterm'' = None) \<and>
    (\<forall>floats. json_value floats (JObject ms) \<longrightarrow> json_value floats (JObject ms'))"
proof -
  obtain ms servers action where doc: "json_document E path = Inr (JObject ms)" and obj: "entry_or ''mcpServers'' (JObject []) ms = JObject servers"
    and sa: "server_action force (map_of servers ''loomterm'') (\<lambda>v. v = claude_server command) path = Inr action"
    and act: "server_plan E path command ms servers action = Inr p"
    using assms(1) unfolding plan_claude_def bind_res_Inr_iff object_of_Inr_iff by blast
  have action: "action \<noteq> CfgUnchanged"
    and content: "content = json_text E (JObject (btree_insert ''mcpServers'' (JObject (btree_insert ''loomterm'' (claude_server command) servers)) ms))"
    using act assms(2) by (auto simp: server_plan_def unchanged_def split: if_split_asm)
  have unforced: "\<not> force \<longrightarrow> map_of servers ''loomterm'' = None"
    using sa action by (cases "map_of servers ''loomterm''") (auto simp: server_action_def collision_def split: if_split_asm)
  have v: "json_value floats (JObject (btree_insert ''mcpServers'' (JObject (btree_insert ''loomterm'' (claude_server command) servers)) ms))" if ms: "json_value floats (JObject ms)" for floats
  proof -
    have "json_value floats (JObject servers)" using entry_value [OF ms, of "JObject []" "''mcpServers''"] obj by simp
    then show ?thesis using btree_insert_value claude_server_value ms by blast
  qed
  show ?thesis
    by (rule exI [of _ ms], rule exI [of _ servers],
        rule exI [of _ "btree_insert ''mcpServers'' (JObject (btree_insert ''loomterm'' (claude_server command) servers)) ms"],
        rule exI [of _ "btree_insert ''loomterm'' (claude_server command) servers"])
      (intro conjI doc obj content map_of_btree_insert unforced allI [OF impI [OF v]])
qed

lemma plan_claude_settled:
  assumes "json_document E path = Inr (JObject ms)" and "map_of ms ''mcpServers'' = Some (JObject servers)"
    and "map_of servers ''loomterm'' = Some (claude_server command)"
  shows "plan_claude E path command force = Inr (unchanged path)"
  using assms by (simp add: plan_claude_def server_plan_def object_of_def entry_or_def server_action_def)

end
