(* ===== verification/Integration.thy ===== *)
theory Integration
  imports Launch Cli OnboardingHooks
begin

text \<open>
  The command line around the plan of a project (\<open>src/bin/loom.rs\<close>): \<open>loom init\<close>, and the check of an agent's
  configuration before a launch.
\<close>

datatype init_agent_arg = InitBoth | InitCodex | InitClaude | InitNone

definition init_selection :: "init_agent_arg \<Rightarrow> agent_selection" where
  "init_selection a =
     \<lparr>sel_codex = (a = InitBoth \<or> a = InitCodex), sel_claude = (a = InitBoth \<or> a = InitClaude)\<rparr>"

record init_args =
  ia_path :: string
  ia_name :: "string option"
  ia_agent :: init_agent_arg
  ia_force :: bool
  ia_dry_run :: bool

text \<open>The environment with the files as they are now; a file that cannot be read is not among them.\<close>

definition with_files :: "('d, 'i) init_env \<Rightarrow> (string \<Rightarrow> string option) \<Rightarrow> ('d, 'i) init_env" where
  "with_files E fs = E\<lparr>ie_read := \<lambda>path. Inr (fs path)\<rparr>"

definition dry_run_init :: "('d, 'i) init_env \<Rightarrow> init_args \<Rightarrow> init_plan result" where
  "dry_run_init E args = init_plan_of E (ia_path args) (ia_name args) (init_selection (ia_agent args)) (ia_force args)"

text \<open>\<open>loom init\<close>: the plan, the registration of the workspace, and the files.\<close>

definition cli_init ::
  "'s connection \<Rightarrow> ('d, 'i) init_env \<Rightarrow> (string \<Rightarrow> write_io) \<Rightarrow> init_args \<Rightarrow> 's \<Rightarrow> (string \<Rightarrow> string option) \<Rightarrow>
   (init_plan \<times> workspace) result \<times> 's \<times> (string \<Rightarrow> string option)" where
  "cli_init N E io args s fs =
     (case init_plan_of (with_files E fs) (ia_path args) (ia_name args) (init_selection (ia_agent args)) (ia_force args) of
        Inl e \<Rightarrow> (Inl e, s, fs)
      | Inr p \<Rightarrow>
          (case cm_add_workspace N 0 (ip_name p) (ip_root p) s of
             (Inl e, s1) \<Rightarrow> (Inl e, s1, fs)
           | (Inr w, s1) \<Rightarrow>
               (case apply_plan io p fs of
                  (Inl e, fs1) \<Rightarrow> (Inl e, s1, fs1)
                | (Inr _, fs1) \<Rightarrow> (Inr (p, w), s1, fs1))))"

section \<open>Before a launch\<close>

fun provider_selection :: "agent_provider_arg \<Rightarrow> agent_selection" where
  "provider_selection ProviderCodex = \<lparr>sel_codex = True, sel_claude = False\<rparr>"
| "provider_selection ProviderClaude = \<lparr>sel_codex = False, sel_claude = True\<rparr>"

fun integration_ready :: "agent_provider_arg \<Rightarrow> init_plan \<Rightarrow> bool" where
  "integration_ready ProviderCodex p \<longleftrightarrow> cp_action (ip_codex p) = CfgUnchanged \<and> cp_action (ip_codex_hooks p) = CfgUnchanged"
| "integration_ready ProviderClaude p \<longleftrightarrow> cp_action (ip_claude p) = CfgUnchanged \<and> cp_action (ip_claude_hooks p) = CfgUnchanged"

definition ensure_agent_integration ::
  "('d, 'i) init_env \<Rightarrow> display_env \<Rightarrow> string \<Rightarrow> agent_provider_arg \<Rightarrow> unit result" where
  "ensure_agent_integration E d root provider =
     (case init_plan_of E root None (provider_selection provider) False of
        Inl e \<Rightarrow> Inl (Config (provider_str provider @ '' integration is not ready: '' @ error_display d e @
          ''; run `loom init --agent '' @ provider_str provider @ ''`''))
      | Inr p \<Rightarrow>
          if integration_ready provider p then Inr ()
          else Inl (Config (provider_str provider @ '' integration is not initialized; run `loom init --agent '' @
            provider_str provider @ ''`'')))"

section \<open>What is written\<close>

definition configs :: "init_plan \<Rightarrow> config_plan list" where
  "configs p = [ip_codex p, ip_codex_hooks p, ip_claude p, ip_claude_hooks p]"

lemma apply_configs_file:
  "apply_configs io cs fs = (r, fs') \<Longrightarrow>
     fs' path = fs path \<or> (\<exists>c \<in> set cs. cp_path c = path \<and> cp_content c \<noteq> None \<and> fs' path = cp_content c)"
proof (induction cs arbitrary: fs)
  case (Cons c cs)
  show ?case
  proof (cases "cp_content c")
    case None
    then show ?thesis using Cons by auto
  next
    case (Some content)
    obtain r1 fs1 where w: "write_atomic io (cp_path c) content fs = (r1, fs1)" by fastforce
    then have fs1: "fs1 = fs \<or> (r1 = Inr () \<and> fs1 = fs(cp_path c \<mapsto> content))"
      by (auto simp: write_atomic_def split: option.split_asm sum.split_asm)
    show ?thesis
    proof (cases r1)
      case (Inl e)
      then show ?thesis using Cons.prems Some w fs1 by (auto split: if_split_asm)
    next
      case (Inr u)
      then have "apply_configs io cs fs1 = (r, fs')" using Cons.prems Some w by simp
      then show ?thesis using Cons.IH Some fs1 by (fastforce split: if_split_asm)
    qed
  qed
qed simp

lemma apply_configs_done:
  assumes "apply_configs io cs fs = (Inr (), fs')" and "distinct (map cp_path cs)" and "c \<in> set cs"
  shows "fs' (cp_path c) = (case cp_content c of Some content \<Rightarrow> Some content | None \<Rightarrow> fs (cp_path c))"
  using assms
proof (induction cs arbitrary: fs)
  case (Cons d cs)
  show ?case
  proof (cases "cp_content d")
    case None
    then have r: "apply_configs io cs fs = (Inr (), fs')" using Cons.prems(1) by simp
    show ?thesis
    proof (cases "c = d")
      case True
      have "fs' (cp_path d) = fs (cp_path d)" using apply_configs_file [OF r, of "cp_path d"] Cons.prems(2) by (force simp: image_iff)
      then show ?thesis using True None by simp
    next
      case False
      then show ?thesis using Cons.IH [OF r] Cons.prems(2,3) by simp
    qed
  next
    case (Some content)
    obtain r1 fs1 where w1: "write_atomic io (cp_path d) content fs = (r1, fs1)" by fastforce
    then have w: "write_atomic io (cp_path d) content fs = (Inr (), fs1)" and r: "apply_configs io cs fs1 = (Inr (), fs')"
      using Cons.prems(1) Some by (cases r1; simp)+
    have fs1: "fs1 = fs(cp_path d \<mapsto> content)" using w by (auto simp: write_atomic_def split: option.split_asm sum.split_asm)
    show ?thesis
    proof (cases "c = d")
      case True
      have "fs' (cp_path d) = fs1 (cp_path d)" using apply_configs_file [OF r, of "cp_path d"] Cons.prems(2) by (force simp: image_iff)
      then show ?thesis using True fs1 Some by simp
    next
      case False
      then have "c \<in> set cs" using Cons.prems(3) by simp
      then have "cp_path c \<noteq> cp_path d" using Cons.prems(2) by (metis distinct.simps(2) image_eqI list.simps(9) set_map)
      then show ?thesis using Cons.IH [OF r] Cons.prems(2) \<open>c \<in> set cs\<close> fs1 by (simp split: option.split)
    qed
  qed
qed simp

end
