(* ===== verification/OnboardingProperties.thy ===== *)
theory OnboardingProperties
  imports Integration StoreDemo "HOL-Library.Countable"
begin

text \<open>
  A project with a codec and an editor that are as simple as their laws allow: a value is printed as its number, and
  a TOML document is nothing but the table of the server.
\<close>

instance json :: countable
  by countable_datatype


















text \<open>
  The properties of setting a project up: what was planned and written makes the project ready for its agents, and
  everything else in the files stays as it was.
\<close>

section \<open>Planning again\<close>

lemma with_files_simps [simp]:
  "ie_read (with_files E fs) path = Inr (fs path)" "ie_parse (with_files E fs) = ie_parse E" "ie_toml (with_files E fs) = ie_toml E"
  "ie_canonicalize (with_files E fs) = ie_canonicalize E" "ie_is_dir (with_files E fs) = ie_is_dir E"
  by (simp_all add: with_files_def)









section \<open>The parts of a plan\<close>







section \<open>The project is ready\<close>





text \<open>The name matters: a project whose directory has a blank name can be set up under another name, but is never
  ready.\<close>

lemma blank_directory_never_ready:
  assumes "find_mcp_command E = Inr command" and "ie_canonicalize E root = Inr root" and "ie_is_dir E root"
    and "trim_is_empty (plan_name None root)"
  shows "ensure_agent_integration E d root provider =
    Inl (Config (provider_str provider @ '' integration is not ready: '' @ error_display d (InvalidRequest ''workspace name must not be empty'') @
      ''; run `loom init --agent '' @ provider_str provider @ ''`''))"
  using assms by (simp add: ensure_agent_integration_def init_plan_of_def plan_with_command_def Let_def)


section \<open>Everything else stays\<close>












end
