(* ===== verification/Screen.thy ===== *)
theory Screen
  imports SessionExport Cli
begin

text \<open>
  What the two screens share (\<open>src/watch.rs\<close>, \<open>src/ui.rs\<close>): the pane that shows the output of the selected execution,
  a window of the last megabyte of it, the loading of its pages, the scrolling of its lines, and the small
  formatting functions; and then the observer. The drawing of widgets is ratatui's.
\<close>

section \<open>Text\<close>

text \<open>The loop over the characters of valid UTF-8.\<close>

function sanitize_output :: "string \<Rightarrow> string" where
  "sanitize_output s =
     (case utf8_next s of
        Utf8_Char w c \<Rightarrow>
          (if c = 10 then [CHR 0x0A] else if c = 9 then '' '' else if is_control c then ''?'' else take w s) @
          sanitize_output (drop w s)
      | _ \<Rightarrow> [])"
  by pat_completeness auto
termination
  by (relation "measure length") (auto dest: utf8_next_Char_width)

definition screen_short_id :: "string \<Rightarrow> string" where
  "screen_short_id i = (if length i \<ge> 12 \<and> (length i = 12 \<or> \<not> is_cont (i ! 12)) then take 12 i else i)"

definition two_digits :: "nat \<Rightarrow> string" where
  "two_digits n = (if n < 10 then ''0'' @ show_nat n else show_nat n)"

definition screen_duration :: "nat \<Rightarrow> string" where
  "screen_duration duration_ms =
     (let seconds = duration_ms div 1000 in
      if seconds < 60 then show_nat seconds @ ''s''
      else show_nat (seconds div 60) @ ''m '' @ two_digits (seconds mod 60) @ ''s'')"

fun execution_label :: "execution_state \<Rightarrow> execution_outcome option \<Rightarrow> string" where
  "execution_label Queued _ = ''queued''"
| "execution_label Running _ = ''running''"
| "execution_label Cancelled _ = ''cancelled''"
| "execution_label _ (Some (OutcomeCancelled _)) = ''cancelled''"
| "execution_label Interrupted _ = ''failed''"
| "execution_label _ (Some (OutcomeInterrupted _)) = ''failed''"
| "execution_label _ (Some (Exited code)) = (if code = 0 then ''passed'' else ''failed'')"
| "execution_label Finished _ = ''failed''"

definition execution_status :: "execution \<Rightarrow> string" where
  "execution_status x = execution_label (ex_state x) (ex_outcome x)"

section \<open>The pane\<close>

definition OUTPUT_PAGE_BYTES :: nat where
  "OUTPUT_PAGE_BYTES = 256 * 1024"

definition OUTPUT_CAP_BYTES :: nat where
  "OUTPUT_CAP_BYTES = 1024 * 1024"

record output_chunk =
  oc_stream :: output_stream
  oc_text :: string
  oc_bytes :: nat

record pane =
  pn_follow :: bool
  pn_scroll :: nat
  pn_cursor :: nat
  pn_output :: "output_chunk list"
  pn_bytes :: nat
  pn_notice :: "string option"
  pn_error :: "string option"

definition reset_output :: "'a pane_scheme \<Rightarrow> 'a pane_scheme" where
  "reset_output st = st\<lparr>pn_output := [], pn_bytes := 0, pn_cursor := 0, pn_scroll := 0, pn_follow := True\<rparr>"

text \<open>The loop that drops the oldest chunks.\<close>

fun evict :: "output_chunk list \<Rightarrow> nat \<Rightarrow> output_chunk list \<times> nat" where
  "evict [] n = ([], n)"
| "evict (c # cs) n = (if OUTPUT_CAP_BYTES < n then evict cs (n - oc_bytes c) else (c # cs, n))"

definition chunk_of :: "output_stream \<Rightarrow> bytes \<Rightarrow> output_chunk" where
  "chunk_of stream data = \<lparr>oc_stream = stream, oc_text = sanitize_output (from_utf8_lossy data), oc_bytes = length data\<rparr>"

definition push_chunk :: "output_chunk \<Rightarrow> 'a pane_scheme \<Rightarrow> 'a pane_scheme" where
  "push_chunk c st =
     (case evict (pn_output st @ [c]) (pn_bytes st + oc_bytes c) of (cs, n) \<Rightarrow> st\<lparr>pn_output := cs, pn_bytes := n\<rparr>)"

text \<open>An event that cannot be decoded ends the loop; what was pushed before it stays.\<close>

fun ingest_events :: "base64 \<Rightarrow> execution_event list \<Rightarrow> 'a pane_scheme \<Rightarrow> unit result \<times> 'a pane_scheme" where
  "ingest_events B [] st = (Inr (), st)"
| "ingest_events B (ev # evs) st =
     (case ev_payload ev of
        EvOutput stream data \<Rightarrow>
          (case b64_decode B data of
             Inl m \<Rightarrow> (Inl (Protocol (''invalid output encoding: '' @ m)), st)
           | Inr bs \<Rightarrow> ingest_events B evs (push_chunk (chunk_of stream bs) st))
      | EvCaptureTruncated limit \<Rightarrow>
          ingest_events B evs (st\<lparr>pn_notice := Some (''capture truncated at '' @ show_nat limit @ '' bytes'')\<rparr>)
      | _ \<Rightarrow> ingest_events B evs st)"

definition ingest :: "base64 \<Rightarrow> execution_event list \<Rightarrow> nat \<Rightarrow> 'a pane_scheme \<Rightarrow> unit result \<times> 'a pane_scheme" where
  "ingest B evs next_seq st =
     (case ingest_events B evs st of
        (Inl e, st1) \<Rightarrow> (Inl e, st1)
      | (Inr _, st1) \<Rightarrow> (Inr (), st1\<lparr>pn_cursor := next_seq\<rparr>))"

text \<open>The answers to the calls of \<open>read_output\<close>, each as a function of the cursor; \<open>None\<close> when they are used up.\<close>

fun load_pages ::
  "display_env \<Rightarrow> base64 \<Rightarrow> (nat \<Rightarrow> read_output_response result) list \<Rightarrow> 'a pane_scheme \<Rightarrow> 'a pane_scheme option" where
  "load_pages d B [] st = None"
| "load_pages d B (read # reads) st =
     (let cursor = pn_cursor st in
      case read cursor of
        Inl e \<Rightarrow> Some (st\<lparr>pn_error := Some (''output read failed; retrying: '' @ error_display d e)\<rparr>)
      | Inr ro \<Rightarrow>
          (case ingest B (ro_events ro) (ro_next_seq ro) st of
             (Inl e, st1) \<Rightarrow> Some (st1\<lparr>pn_error := Some (error_display d e)\<rparr>)
           | (Inr _, st1) \<Rightarrow>
               if \<not> ro_has_more ro \<or> pn_cursor st1 \<le> cursor then Some st1 else load_pages d B reads st1))"

definition load_output ::
  "display_env \<Rightarrow> base64 \<Rightarrow> (string \<Rightarrow> (nat \<Rightarrow> read_output_response result) list) \<Rightarrow> string option \<Rightarrow>
   'a pane_scheme \<Rightarrow> 'a pane_scheme option" where
  "load_output d B reads selected st =
     (case selected of None \<Rightarrow> Some st | Some xid \<Rightarrow> load_pages d B (reads xid) st)"

section \<open>Scrolling\<close>

definition output_lines :: "'a pane_scheme \<Rightarrow> string list" where
  "output_lines st =
     (if pn_output st = [] then [''No captured output'']
      else concat (map (\<lambda>c. split_on (CHR 0x0A) (oc_text c)) (pn_output st)))"

text \<open>Drawing fixes the scroll position; the widget takes it as 16 bits. \<open>height\<close> is the height of the pane.\<close>

definition scroll_pane :: "nat \<Rightarrow> 'a pane_scheme \<Rightarrow> 'a pane_scheme" where
  "scroll_pane height st =
     (let max_scroll = length (output_lines st) - (height - 2) in
      st\<lparr>pn_scroll := (if pn_follow st then max_scroll else min (pn_scroll st) max_scroll)\<rparr>)"

definition shown_from :: "'a pane_scheme \<Rightarrow> nat" where
  "shown_from st = (if pn_scroll st < 2 ^ 16 then pn_scroll st else 2 ^ 16 - 1)"

text \<open>The lines in the window.\<close>

definition shown_lines :: "nat \<Rightarrow> 'a pane_scheme \<Rightarrow> string list" where
  "shown_lines height st = take (height - 2) (drop (shown_from st) (output_lines st))"

section \<open>The window of the output\<close>

definition chunks_bytes :: "output_chunk list \<Rightarrow> nat" where
  "chunks_bytes cs = sum_list (map oc_bytes cs)"

lemma chunks_bytes_simps [simp]:
  "chunks_bytes [] = 0" "chunks_bytes (c # cs) = oc_bytes c + chunks_bytes cs" "chunks_bytes (cs @ ds) = chunks_bytes cs + chunks_bytes ds"
  by (simp_all add: chunks_bytes_def)

text \<open>The longest end of a list of chunks that fits.\<close>

fun fitting_end :: "output_chunk list \<Rightarrow> output_chunk list" where
  "fitting_end [] = []"
| "fitting_end (c # cs) = (if chunks_bytes (c # cs) \<le> OUTPUT_CAP_BYTES then c # cs else fitting_end cs)"

lemma fitting_end_fits: "chunks_bytes (fitting_end cs) \<le> OUTPUT_CAP_BYTES"
  by (induction cs) auto

lemma fitting_end_id: "chunks_bytes cs \<le> OUTPUT_CAP_BYTES \<Longrightarrow> fitting_end cs = cs"
  by (cases cs) auto

lemma fitting_end_suffix: "suffix (fitting_end cs) cs"
  by (induction cs) (auto intro: suffix_ConsI)

lemma fitting_end_longest: "suffix ds cs \<Longrightarrow> chunks_bytes ds \<le> OUTPUT_CAP_BYTES \<Longrightarrow> suffix ds (fitting_end cs)"
  by (induction cs) (auto simp: suffix_Cons)

lemma fitting_end_append: "fitting_end (fitting_end cs @ ds) = fitting_end (cs @ ds)"
  by (induction cs) auto

lemma evict_fitting: "evict cs (chunks_bytes cs) = (fitting_end cs, chunks_bytes (fitting_end cs))"
  by (induction cs) auto

definition pane_ok :: "'a pane_scheme \<Rightarrow> bool" where
  "pane_ok st \<longleftrightarrow> pn_bytes st = chunks_bytes (pn_output st) \<and> pn_bytes st \<le> OUTPUT_CAP_BYTES"

lemma push_chunk_fitting:
  assumes "pane_ok st"
  shows "push_chunk c st = st\<lparr>pn_output := fitting_end (pn_output st @ [c]), pn_bytes := chunks_bytes (fitting_end (pn_output st @ [c]))\<rparr>"
  using evict_fitting [of "pn_output st @ [c]"] assms by (simp add: push_chunk_def pane_ok_def)

lemma push_chunk_ok: "pane_ok st \<Longrightarrow> pane_ok (push_chunk c st)"
  by (simp add: push_chunk_fitting pane_ok_def [of "_\<lparr>pn_output := _, pn_bytes := _\<rparr>"] fitting_end_fits)

lemma reset_output_ok [simp]: "pane_ok (reset_output st)"
  by (simp add: pane_ok_def reset_output_def)

lemma ingest_events_ok: "pane_ok st \<Longrightarrow> pane_ok (snd (ingest_events B evs st))"
proof (induction evs arbitrary: st)
  case (Cons ev evs)
  have "pane_ok (st\<lparr>pn_notice := n\<rparr>)" for n using Cons.prems by (simp add: pane_ok_def)
  then show ?case using Cons push_chunk_ok by (auto split: event_payload.split sum.split)
qed simp

lemma ingest_ok: "pane_ok st \<Longrightarrow> pane_ok (snd (ingest B evs next_seq st))"
  using ingest_events_ok [of st B evs] by (auto simp: ingest_def pane_ok_def split: prod.split sum.split)

lemma load_pages_ok: "pane_ok st \<Longrightarrow> load_pages d B reads st = Some st' \<Longrightarrow> pane_ok st'"
proof (induction reads arbitrary: st)
  case (Cons read reads)
  have e: "pane_ok (st1\<lparr>pn_error := m\<rparr>) = pane_ok st1" for m and st1 :: "'a pane_scheme" by (simp add: pane_ok_def)
  show ?case
  proof (cases "read (pn_cursor st)")
    case (Inl m)
    then show ?thesis using Cons.prems e by (auto simp: Let_def)
  next
    case (Inr ro)
    obtain r st1 where i: "ingest B (ro_events ro) (ro_next_seq ro) st = (r, st1)" by fastforce
    then have "pane_ok st1" using ingest_ok [OF Cons.prems(1)] by (metis snd_conv)
    then show ?thesis using Cons.IH Cons.prems(2) Inr i e by (auto simp: Let_def split: sum.split_asm if_split_asm)
  qed
qed simp

text \<open>What events add.\<close>

definition event_chunk :: "base64 \<Rightarrow> execution_event \<Rightarrow> output_chunk option" where
  "event_chunk B ev =
     (case ev_payload ev of EvOutput stream data \<Rightarrow> Some (chunk_of stream (projr (b64_decode B data))) | _ \<Rightarrow> None)"

definition event_chunks :: "base64 \<Rightarrow> execution_event list \<Rightarrow> output_chunk list" where
  "event_chunks B evs = List.map_filter (event_chunk B) evs"

lemma event_chunks_append: "event_chunks B (evs @ evs') = event_chunks B evs @ event_chunks B evs'"
  by (simp add: event_chunks_def List.map_filter_def)

lemma ingest_events_fitting:
  assumes "\<forall>ev \<in> set evs. \<forall>stream data. ev_payload ev = EvOutput stream data \<longrightarrow> \<not> isl (b64_decode B data)" and "pane_ok st"
  shows "\<exists>notice. ingest_events B evs st = (Inr (), st\<lparr>pn_output := fitting_end (pn_output st @ event_chunks B evs),
    pn_bytes := chunks_bytes (fitting_end (pn_output st @ event_chunks B evs)), pn_notice := notice\<rparr>)"
  using assms
proof (induction evs arbitrary: st)
  case Nil
  then show ?case by (intro exI [of _ "pn_notice st"]) (simp add: event_chunks_def List.map_filter_simps fitting_end_id pane_ok_def)
next
  case (Cons ev evs)
  have IH: "pane_ok st1 \<Longrightarrow> \<exists>notice. ingest_events B evs st1 = (Inr (), st1\<lparr>pn_output := fitting_end (pn_output st1 @ event_chunks B evs),
    pn_bytes := chunks_bytes (fitting_end (pn_output st1 @ event_chunks B evs)), pn_notice := notice\<rparr>)" for st1 :: "'a pane_scheme"
    using Cons.IH Cons.prems(1) by simp
  have chunks: "event_chunks B (ev # evs) = (case event_chunk B ev of None \<Rightarrow> [] | Some c \<Rightarrow> [c]) @ event_chunks B evs"
    by (simp add: event_chunks_def List.map_filter_simps split: option.split)
  show ?case
  proof (cases "ev_payload ev")
    case (EvOutput stream data)
    then obtain bs where bs: "b64_decode B data = Inr bs" using Cons.prems(1) by (cases "b64_decode B data") auto
    let ?c = "chunk_of stream bs"
    obtain notice where n: "ingest_events B evs (push_chunk ?c st) = (Inr (), (push_chunk ?c st)\<lparr>
        pn_output := fitting_end (pn_output (push_chunk ?c st) @ event_chunks B evs),
        pn_bytes := chunks_bytes (fitting_end (pn_output (push_chunk ?c st) @ event_chunks B evs)), pn_notice := notice\<rparr>)"
      using IH [OF push_chunk_ok [OF Cons.prems(2)]] by blast
    have "fitting_end (fitting_end (pn_output st @ [?c]) @ event_chunks B evs) = fitting_end (pn_output st @ event_chunks B (ev # evs))"
      using EvOutput bs by (simp add: fitting_end_append chunks event_chunk_def)
    then show ?thesis using EvOutput bs n by (intro exI [of _ notice]) (simp add: push_chunk_fitting [OF Cons.prems(2)])
  next
    case (EvCaptureTruncated limit)
    let ?st = "st\<lparr>pn_notice := Some (''capture truncated at '' @ show_nat limit @ '' bytes'')\<rparr>"
    have "pane_ok ?st" using Cons.prems(2) by (simp add: pane_ok_def)
    then show ?thesis using IH [of ?st] EvCaptureTruncated by (simp add: chunks event_chunk_def)
  qed (use IH [OF Cons.prems(2)] in \<open>simp_all add: chunks event_chunk_def\<close>)
qed


section \<open>What the pane leaves alone\<close>

text \<open>Loading changes the pane of a larger state only.\<close>

lemma push_chunk_more: "pane.more (push_chunk c st) = pane.more st"
  by (simp add: push_chunk_def split: prod.split)

lemma ingest_events_more: "pane.more (snd (ingest_events B evs st)) = pane.more st"
  by (induction evs arbitrary: st) (auto simp: push_chunk_more split: event_payload.split sum.split)

lemma ingest_more: "ingest B evs next_seq st = (r, st') \<Longrightarrow> pane.more st' = pane.more st"
  using ingest_events_more [of B evs st] by (auto simp: ingest_def split: prod.split_asm sum.split_asm)

lemma load_pages_more: "load_pages d B reads st = Some st' \<Longrightarrow> pane.more st' = pane.more st"
proof (induction reads arbitrary: st)
  case (Cons read reads)
  show ?case
  proof (cases "read (pn_cursor st)")
    case (Inl m)
    then show ?thesis using Cons.prems by (auto simp: Let_def)
  next
    case (Inr ro)
    obtain r st1 where i: "ingest B (ro_events ro) (ro_next_seq ro) st = (r, st1)" by fastforce
    then have "pane.more st1 = pane.more st" by (rule ingest_more)
    then show ?thesis using Cons Inr i by (auto simp: Let_def split: sum.split_asm if_split_asm)
  qed
qed simp

lemma load_output_more: "load_output d B reads selected st = Some st' \<Longrightarrow> pane.more st' = pane.more st"
  using load_pages_more by (auto simp: load_output_def split: option.split_asm)

lemma reset_output_more [simp]: "pane.more (reset_output st) = pane.more st"
  by (simp add: reset_output_def)

lemma scroll_pane_more [simp]: "pane.more (scroll_pane height st) = pane.more st"
  by (simp add: scroll_pane_def Let_def)


text \<open>
  The live observer of a session (\<open>src/watch.rs\<close>): its state, the keys, the refreshing of the session, the commands,
  and the loop over what happens: keys, and the ticks of the poll. The calls of the client, the files and the clock
  answer through parameters.
\<close>

section \<open>State\<close>

datatype watch_focus = WatchExecutions | WatchOutput

datatype confirmation = ConfirmCancelOf string

record watch_state = pane +
  wa_detail :: agent_session_detail
  wa_selected :: "string option"
  wa_focus :: watch_focus
  wa_confirmation :: "confirmation option"

definition detail_ids :: "agent_session_detail \<Rightarrow> string list" where
  "detail_ids d = map ex_id (sd_executions d)"

definition watch_new :: "agent_session_detail \<Rightarrow> watch_state" where
  "watch_new d =
     \<lparr>pn_follow = True, pn_scroll = 0, pn_cursor = 0, pn_output = [], pn_bytes = 0, pn_notice = None, pn_error = None,
      wa_detail = d, wa_selected = last_opt (detail_ids d), wa_focus = WatchExecutions, wa_confirmation = None\<rparr>"

definition watch_selected_index :: "watch_state \<Rightarrow> nat option" where
  "watch_selected_index st =
     (case wa_selected st of None \<Rightarrow> None | Some xid \<Rightarrow> position (\<lambda>x. ex_id x = xid) (sd_executions (wa_detail st)))"

definition watch_selected :: "watch_state \<Rightarrow> execution option" where
  "watch_selected st = map_option (\<lambda>i. sd_executions (wa_detail st) ! i) (watch_selected_index st)"

definition watch_refresh :: "agent_session_detail \<Rightarrow> watch_state \<Rightarrow> bool \<times> watch_state" where
  "watch_refresh d st =
     (let keep = (case wa_selected st of None \<Rightarrow> False | Some xid \<Rightarrow> xid \<in> set (detail_ids d));
          st1 = st\<lparr>wa_detail := d, wa_selected := (if keep then wa_selected st else last_opt (detail_ids d))\<rparr> in
      (wa_selected st \<noteq> wa_selected st1, st1))"

text \<open>The new index, within the list.\<close>

definition move_index :: "nat \<Rightarrow> int \<Rightarrow> nat \<Rightarrow> nat" where
  "move_index current amount count = nat (min (max (int current + amount) 0) (int (count - 1)))"

definition watch_select_relative :: "int \<Rightarrow> watch_state \<Rightarrow> bool \<times> watch_state" where
  "watch_select_relative amount st =
     (let xs = sd_executions (wa_detail st) in
      if xs = [] then (False, st)
      else
        let current = (case watch_selected_index st of Some i \<Rightarrow> i | None \<Rightarrow> 0);
            xid = ex_id (xs ! move_index current amount (length xs)) in
        if wa_selected st = Some xid then (False, st)
        else (True, reset_output (st\<lparr>wa_selected := Some xid\<rparr>)))"

section \<open>Keys\<close>

text \<open>A character key carries its character in UTF-8.\<close>

datatype key_code =
    KChar string | KTab | KBackTab | KUp | KDown | KLeft | KRight | KHome | KEnd | KEnter | KEsc | KBackspace | KOther

record key_event =
  ke_press :: bool
  ke_code :: key_code
  ke_control :: bool
  ke_alt :: bool

datatype watch_command = WcNone | WcQuit | WcReloadOutput | WcCancel | WcOpenReplay | WcExportReplay

definition is_live :: "execution \<Rightarrow> bool" where
  "is_live x \<longleftrightarrow> ex_state x = Queued \<or> ex_state x = Running"

definition confirming_keys :: "key_code set" where
  "confirming_keys = {KChar ''y'', KChar ''Y'', KEnter}"

definition declining_keys :: "key_code set" where
  "declining_keys = {KChar ''n'', KChar ''N'', KEsc}"

definition watch_confirm_key :: "key_code \<Rightarrow> watch_state \<Rightarrow> watch_command \<times> watch_state" where
  "watch_confirm_key code st =
     (if code \<in> confirming_keys then (WcCancel, st\<lparr>wa_confirmation := None\<rparr>)
      else if code \<in> declining_keys then (WcNone, st\<lparr>wa_confirmation := None\<rparr>)
      else (WcNone, st))"

definition watch_ask_cancel :: "watch_state \<Rightarrow> watch_state" where
  "watch_ask_cancel st =
     (case watch_selected st of
        None \<Rightarrow> st
      | Some x \<Rightarrow>
          if \<not> is_live x then st\<lparr>pn_notice := Some ''only queued or running executions can be cancelled''\<rparr>
          else st\<lparr>wa_confirmation := Some (ConfirmCancelOf (ex_id x))\<rparr>)"

definition reload_if :: "bool \<times> watch_state \<Rightarrow> watch_command \<times> watch_state" where
  "reload_if r = (if fst r then WcReloadOutput else WcNone, snd r)"

definition watch_plain_key :: "key_code \<Rightarrow> watch_state \<Rightarrow> watch_command \<times> watch_state" where
  "watch_plain_key code st =
     (let out = (wa_focus st = WatchOutput) in
      case code of
        KChar c \<Rightarrow>
          if c = ''q'' then (WcQuit, st)
          else if c = ''f'' then (WcNone, st\<lparr>pn_follow := \<not> pn_follow st\<rparr>)
          else if c = ''c'' then (WcNone, watch_ask_cancel st)
          else if c = ''o'' then (WcOpenReplay, st)
          else if c = ''e'' then (WcExportReplay, st)
          else (WcNone, st)
      | KTab \<Rightarrow> (WcNone, st\<lparr>wa_focus := (if out then WatchExecutions else WatchOutput)\<rparr>)
      | KUp \<Rightarrow>
          if out then (WcNone, st\<lparr>pn_follow := False, pn_scroll := pn_scroll st - 1\<rparr>)
          else reload_if (watch_select_relative (- 1) st)
      | KDown \<Rightarrow>
          if out then (WcNone, st\<lparr>pn_follow := False, pn_scroll := sat_add (pn_scroll st) 1\<rparr>)
          else reload_if (watch_select_relative 1 st)
      | KHome \<Rightarrow> if out then (WcNone, st\<lparr>pn_follow := False, pn_scroll := 0\<rparr>) else (WcNone, st)
      | KEnd \<Rightarrow> if out then (WcNone, st\<lparr>pn_follow := True\<rparr>) else (WcNone, st)
      | _ \<Rightarrow> (WcNone, st))"

definition watch_key :: "key_event \<Rightarrow> watch_state \<Rightarrow> watch_command \<times> watch_state" where
  "watch_key key st =
     (if \<not> ke_press key then (WcNone, st)
      else if wa_confirmation st \<noteq> None then watch_confirm_key (ke_code key) st
      else watch_plain_key (ke_code key) st)"

section \<open>Commands\<close>

record screen_env =
  sc_display :: display_env
  sc_base64 :: base64
  sc_export :: export_env
  sc_open :: "string \<Rightarrow> unit result"
  sc_exists :: "string \<Rightarrow> bool"
  sc_cwd :: "string result"

definition export_path :: "screen_env \<Rightarrow> string \<Rightarrow> string result" where
  "export_path E sid = bind_res (sc_cwd E) (\<lambda>dir. Inr (path_join dir (''loomterm-session-'' @ sid @ ''.html'')))"

text \<open>What a replay of a session leads to: a notice or an error.\<close>

definition open_replay :: "screen_env \<Rightarrow> agent_session_detail \<Rightarrow> 'a pane_scheme \<Rightarrow> 'a pane_scheme" where
  "open_replay E d st =
     (if as_state (sd_session d) = Recording then st\<lparr>pn_notice := Some ''replay is available after recording finishes''\<rparr>
      else
        let html = as_html_path (sd_session d) in
        (case bind_res (write_replay_html (sc_export E) d (as_cast_path (sd_session d)) html []) (\<lambda>_. sc_open E html) of
           Inr _ \<Rightarrow> st\<lparr>pn_notice := Some (''opened '' @ html)\<rparr>
         | Inl e \<Rightarrow> st\<lparr>pn_error := Some (''open failed: '' @ error_display (sc_display E) e)\<rparr>))"

definition export_replay :: "screen_env \<Rightarrow> agent_session_detail \<Rightarrow> 'a pane_scheme \<Rightarrow> unit result \<times> 'a pane_scheme" where
  "export_replay E d st =
     (if as_state (sd_session d) = Recording
      then (Inr (), st\<lparr>pn_notice := Some ''export is available after recording finishes''\<rparr>)
      else
        (case export_path E (as_id (sd_session d)) of
           Inl e \<Rightarrow> (Inl e, st)
         | Inr output \<Rightarrow>
             (Inr (),
              if sc_exists E output then st\<lparr>pn_error := Some (''refusing to overwrite '' @ output)\<rparr>
              else
                (case write_replay_html (sc_export E) d (as_cast_path (sd_session d)) output [] of
                   Inr _ \<Rightarrow> st\<lparr>pn_notice := Some (''exported '' @ output @ '' (review for sensitive data)'')\<rparr>
                 | Inl e \<Rightarrow> st\<lparr>pn_error := Some (''export failed: '' @ error_display (sc_display E) e)\<rparr>))))"

definition cancel_notice :: "display_env \<Rightarrow> execution result \<Rightarrow> 'a pane_scheme \<Rightarrow> 'a pane_scheme" where
  "cancel_notice d r st =
     (case r of
        Inr _ \<Rightarrow> st\<lparr>pn_notice := Some ''cancel requested''\<rparr>
      | Inl e \<Rightarrow> st\<lparr>pn_error := Some (''cancel failed: '' @ error_display d e)\<rparr>)"

text \<open>The daemon's answers while a command runs.\<close>

record watch_calls =
  wc_cancel :: "string \<Rightarrow> execution result"
  wc_reads :: "string \<Rightarrow> (nat \<Rightarrow> read_output_response result) list"

text \<open>The execution a cancel request is sent for, whether the observer ends, and the state; \<open>None\<close> while the output is
  still being loaded.\<close>

definition watch_command_step ::
  "screen_env \<Rightarrow> watch_calls \<Rightarrow> watch_command \<Rightarrow> watch_state \<Rightarrow> (string option \<times> bool result \<times> watch_state) option" where
  "watch_command_step E A command st =
     (case command of
        WcNone \<Rightarrow> Some (None, Inr False, st)
      | WcQuit \<Rightarrow> Some (None, Inr True, st)
      | WcReloadOutput \<Rightarrow>
          map_option (\<lambda>st1. (None, Inr False, st1)) (load_output (sc_display E) (sc_base64 E) (wc_reads A) (wa_selected st) st)
      | WcCancel \<Rightarrow>
          (case wa_selected st of
             None \<Rightarrow> Some (None, Inr False, st)
           | Some xid \<Rightarrow> Some (Some xid, Inr False, cancel_notice (sc_display E) (wc_cancel A xid) st))
      | WcOpenReplay \<Rightarrow> Some (None, Inr False, open_replay E (wa_detail st) st)
      | WcExportReplay \<Rightarrow>
          (case export_replay E (wa_detail st) st of
             (Inl e, st1) \<Rightarrow> Some (None, Inl e, st1)
           | (Inr _, st1) \<Rightarrow> Some (None, Inr False, st1)))"

section \<open>The loop\<close>

record watch_tick =
  wt_now :: nat
  wt_detail :: "agent_session_detail result"
  wt_reads :: "string \<Rightarrow> (nat \<Rightarrow> read_output_response result) list"
  wt_after :: nat

datatype watch_input =
    WiKey key_event watch_calls
  | WiOther
  | WiBroken string
  | WiEnd
  | WiTick watch_tick

definition RETRY_MS :: nat where
  "RETRY_MS = 1000"

definition watch_tick_step ::
  "screen_env \<Rightarrow> watch_tick \<Rightarrow> watch_state \<Rightarrow> nat \<Rightarrow> (watch_state \<times> nat) option" where
  "watch_tick_step E t st retry_at =
     (if wt_now t < retry_at then Some (st, retry_at)
      else
        (case wt_detail t of
           Inl e \<Rightarrow>
             Some (st\<lparr>pn_error := Some (''daemon read failed; retrying: '' @ error_display (sc_display E) e)\<rparr>, wt_after t + RETRY_MS)
         | Inr d \<Rightarrow>
             (case watch_refresh d st of
                (changed, st1) \<Rightarrow>
                  let st2 = (if changed then reset_output st1 else st1)\<lparr>pn_error := None\<rparr> in
                  map_option (\<lambda>st3. (st3, if pn_error st3 \<noteq> None then wt_after t + RETRY_MS else retry_at))
                    (load_output (sc_display E) (sc_base64 E) (wt_reads t) (wa_selected st2) st2))))"

text \<open>One turn: the request to cancel, whether and how the loop ends, the state and the time of the next poll.\<close>

definition watch_step ::
  "screen_env \<Rightarrow> watch_input \<Rightarrow> watch_state \<times> nat \<Rightarrow> (string option \<times> unit result option \<times> watch_state \<times> nat) option" where
  "watch_step E i s =
     (case s of (st, retry_at) \<Rightarrow>
        case i of
          WiKey key A \<Rightarrow>
            (case watch_key key st of
               (command, st1) \<Rightarrow>
                 map_option (\<lambda>(sent, r, st2). (sent, case r of Inl e \<Rightarrow> Some (Inl e) | Inr True \<Rightarrow> Some (Inr ()) | Inr False \<Rightarrow> None, st2, retry_at))
                   (watch_command_step E A command st1))
        | WiOther \<Rightarrow> Some (None, None, st, retry_at)
        | WiBroken m \<Rightarrow> Some (None, None, st\<lparr>pn_error := Some (''terminal input: '' @ m)\<rparr>, retry_at)
        | WiEnd \<Rightarrow> Some (None, Some (Inr ()), st, retry_at)
        | WiTick t \<Rightarrow> map_option (\<lambda>(st1, r). (None, None, st1, r)) (watch_tick_step E t st retry_at))"

text \<open>Drawing fixes the scroll position when the terminal is large enough; \<open>area\<close> is then the height of the output
  pane.\<close>

definition watch_draw :: "nat option \<Rightarrow> watch_state \<Rightarrow> watch_state" where
  "watch_draw area st = (case area of None \<Rightarrow> st | Some height \<Rightarrow> scroll_pane height st)"

definition watch_turn ::
  "screen_env \<Rightarrow> nat option result \<times> watch_input \<Rightarrow> watch_state \<times> nat \<Rightarrow>
   (string option \<times> unit result option \<times> watch_state \<times> nat) option" where
  "watch_turn E turn s =
     (case turn of
        (Inl e, i) \<Rightarrow> Some (None, Some (Inl e), s)
      | (Inr area, i) \<Rightarrow> watch_step E i (watch_draw area (fst s), snd s))"

text \<open>The states before each turn, with the request it sends.\<close>

fun watch_run ::
  "screen_env \<Rightarrow> (nat option result \<times> watch_input) list \<Rightarrow> watch_state \<times> nat \<Rightarrow> (watch_state \<times> string option) list" where
  "watch_run E [] s = []"
| "watch_run E (turn # turns) s =
     (case watch_turn E turn s of
        None \<Rightarrow> []
      | Some (sent, over, s1) \<Rightarrow> (fst s, sent) # (if over = None then watch_run E turns s1 else []))"

text \<open>What \<open>run_loop\<close> starts with; \<open>started\<close> is the time.\<close>

definition watch_start ::
  "screen_env \<Rightarrow> (string \<Rightarrow> (nat \<Rightarrow> read_output_response result) list) \<Rightarrow> agent_session_detail \<Rightarrow> nat \<Rightarrow> (watch_state \<times> nat) option" where
  "watch_start E reads d started =
     map_option (\<lambda>st. (st, started)) (load_output (sc_display E) (sc_base64 E) reads (wa_selected (watch_new d)) (watch_new d))"

definition watch_active_session_id :: "agent_session list \<Rightarrow> string option" where
  "watch_active_session_id sessions = map_option as_id (find (\<lambda>s. as_state s = Recording) sessions)"

end
