(* ===== verification/Operator.thy ===== *)
theory Operator
  imports Screen
begin

text \<open>
  The operator screen (\<open>src/ui.rs\<close>): its state over the pane of the selected execution, what is selected and visible,
  the keys, the search, the dialogs and the mouse. \<open>OperatorLoop\<close> has the commands, the drawing and the loop.
\<close>

section \<open>Texts\<close>

text \<open>The characters of a text, each with its code.\<close>

function char_pieces :: "string \<Rightarrow> (string \<times> nat) list" where
  "char_pieces s = (case utf8_next s of Utf8_Char w c \<Rightarrow> (take w s, c) # char_pieces (drop w s) | _ \<Rightarrow> [])"
  by pat_completeness auto
termination
  by (relation "measure length") (auto dest: utf8_next_Char_width)

declare char_pieces.simps [simp del]

definition trim_end_pieces :: "(string \<times> nat) list \<Rightarrow> (string \<times> nat) list" where
  "trim_end_pieces ps = rev (dropWhile (is_whitespace \<circ> snd) (rev ps))"

definition trim_text :: "string \<Rightarrow> string" where
  "trim_text s = concat (map fst (trim_end_pieces (dropWhile (is_whitespace \<circ> snd) (char_pieces s))))"

text \<open>\<open>split_whitespace\<close>; the word read so far comes first.\<close>

fun words_of :: "string \<Rightarrow> (string \<times> nat) list \<Rightarrow> string list" where
  "words_of w [] = (if w = [] then [] else [w])"
| "words_of w ((p, c) # ps) =
     (if is_whitespace c then (if w = [] then words_of [] ps else w # words_of [] ps) else words_of (w @ p) ps)"

definition one_line :: "string \<Rightarrow> string" where
  "one_line s = join_with '' '' (words_of [] (char_pieces s))"

text \<open>\<open>String::pop\<close>: the last byte that does not continue a character begins the last character.\<close>

definition pop_char :: "string \<Rightarrow> string" where
  "pop_char s = rev (tl (dropWhile is_cont (rev s)))"

definition ascii_upper :: "char \<Rightarrow> char" where
  "ascii_upper c = (if 97 \<le> bv c \<and> bv c < 123 then char_of (bv c - 32) else c)"

fun format_outcome :: "execution_outcome option \<Rightarrow> string" where
  "format_outcome (Some (Exited code)) = ''exit '' @ show_int code"
| "format_outcome (Some (Signaled signal)) = ''signal '' @ show_int signal"
| "format_outcome (Some (SpawnError message)) = ''spawn error: '' @ message"
| "format_outcome (Some (OutcomeCancelled signal)) =
     (case signal of Some value \<Rightarrow> ''cancelled | signal '' @ show_int value | None \<Rightarrow> ''cancelled'')"
| "format_outcome (Some (OutcomeInterrupted reason)) = ''interrupted: '' @ reason"
| "format_outcome None = ''in progress''"

definition execution_failed :: "execution \<Rightarrow> bool" where
  "execution_failed x \<longleftrightarrow> execution_status x = ''failed''"

fun session_label :: "agent_session_state \<Rightarrow> string" where
  "session_label Recording = ''REC''"
| "session_label SessionFinished = ''DONE''"
| "session_label SessionInterrupted = ''STOP''"

definition provider_label :: "string \<Rightarrow> string" where
  "provider_label provider =
     (if provider = ''codex'' then ''CODEX'' else if provider = ''claude'' then ''CLAUDE'' else map ascii_upper provider)"

text \<open>The age of a timestamp; \<open>i64\<close> subtraction saturates.\<close>

definition format_age :: "int \<Rightarrow> int \<Rightarrow> string" where
  "format_age now timestamp_ms =
     (let seconds = nat (sat_i64 (now - timestamp_ms)) div 1000 in
      if seconds < 60 then show_nat seconds @ ''s''
      else if seconds < 3600 then show_nat (seconds div 60) @ ''m''
      else if seconds < 86400 then show_nat (seconds div 3600) @ ''h''
      else show_nat (seconds div 86400) @ ''d'')"

section \<open>State\<close>

datatype agent_provider = ProviderCodex | ProviderClaude

fun provider_name :: "agent_provider \<Rightarrow> string" where
  "provider_name ProviderCodex = ''codex''"
| "provider_name ProviderClaude = ''claude''"

fun toggled :: "agent_provider \<Rightarrow> agent_provider" where
  "toggled ProviderCodex = ProviderClaude"
| "toggled ProviderClaude = ProviderCodex"

datatype ui_action = UiQuit | UiLaunch agent_provider "string option" | UiHandoff agent_provider string

datatype ui_focus = OnSessions | OnExecutions | OnOutput

fun focus_next :: "ui_focus \<Rightarrow> ui_focus" where
  "focus_next OnSessions = OnExecutions"
| "focus_next OnExecutions = OnOutput"
| "focus_next OnOutput = OnSessions"

fun focus_previous :: "ui_focus \<Rightarrow> ui_focus" where
  "focus_previous OnSessions = OnOutput"
| "focus_previous OnExecutions = OnSessions"
| "focus_previous OnOutput = OnExecutions"

datatype modal_field = FieldProvider | FieldPrompt

datatype modal_purpose = PurposeLaunch | PurposeHandoff string string nat string

datatype palette_action = PaNewAgent | PaHandoff | PaCancel | PaOpenReplay | PaExportReplay | PaToggleFollow | PaRefresh | PaHelp | PaQuit

definition palette_actions :: "palette_action list" where
  "palette_actions = [PaNewAgent, PaHandoff, PaCancel, PaOpenReplay, PaExportReplay, PaToggleFollow, PaRefresh, PaHelp, PaQuit]"

fun palette_label :: "palette_action \<Rightarrow> string" where
  "palette_label PaNewAgent = ''New agent''"
| "palette_label PaHandoff = ''Handoff active work''"
| "palette_label PaCancel = ''Cancel execution''"
| "palette_label PaOpenReplay = ''Open session replay''"
| "palette_label PaExportReplay = ''Export session replay''"
| "palette_label PaToggleFollow = ''Toggle output follow''"
| "palette_label PaRefresh = ''Refresh now''"
| "palette_label PaHelp = ''Keyboard help''"
| "palette_label PaQuit = ''Quit Loomterm''"

fun palette_shortcut :: "palette_action \<Rightarrow> string" where
  "palette_shortcut PaNewAgent = ''n''"
| "palette_shortcut PaHandoff = ''h''"
| "palette_shortcut PaCancel = ''c''"
| "palette_shortcut PaOpenReplay = ''o''"
| "palette_shortcut PaExportReplay = ''e''"
| "palette_shortcut PaToggleFollow = ''f''"
| "palette_shortcut PaRefresh = ''r''"
| "palette_shortcut PaHelp = ''?''"
| "palette_shortcut PaQuit = ''q''"

datatype modal =
    ModalHelp
  | ModalCancel string
  | ModalPalette nat
  | ModalAgent modal_purpose agent_provider modal_field string

record rect =
  re_x :: nat
  re_y :: nat
  re_width :: nat
  re_height :: nat

datatype hit_target = HitAllWork | HitSession string | HitExecution string | HitPane ui_focus

datatype ui_command =
    UcNone
  | UcQuit
  | UcRefresh
  | UcReloadOutput
  | UcCancel string
  | UcOpenReplay string
  | UcExportReplay string
  | UcPrepareHandoff string
  | UcLaunch agent_provider "string option"
  | UcHandoff agent_provider string

record operator_state = pane +
  op_workspace :: workspace
  op_sessions :: "agent_session list"
  op_executions :: "execution list"
  op_detail :: "agent_session_detail option"
  op_session :: "string option"
  op_execution :: "string option"
  op_session_offset :: nat
  op_execution_offset :: nat
  op_focus :: ui_focus
  op_query :: string
  op_searching :: bool
  op_modal :: "modal option"
  op_regions :: "(rect \<times> hit_target) list"

record ui_options =
  uo_workspace :: workspace
  uo_selected_session_id :: "string option"
  uo_notice :: "string option"

definition operator_new :: "ui_options \<Rightarrow> operator_state" where
  "operator_new options =
     \<lparr>pn_follow = True, pn_scroll = 0, pn_cursor = 0, pn_output = [], pn_bytes = 0, pn_notice = uo_notice options, pn_error = None,
      op_workspace = uo_workspace options, op_sessions = [], op_executions = [], op_detail = None,
      op_session = uo_selected_session_id options, op_execution = None, op_session_offset = 0, op_execution_offset = 0,
      op_focus = OnSessions, op_query = [], op_searching = False, op_modal = None, op_regions = []\<rparr>"

section \<open>What is visible\<close>

definition query_matches :: "string \<Rightarrow> string list \<Rightarrow> bool" where
  "query_matches query values \<longleftrightarrow>
     query = [] \<or> list_ex (\<lambda>value. contains_sub (map ascii_lower query) (map ascii_lower value)) values"

definition or_empty :: "string option \<Rightarrow> string" where
  "or_empty name = (case name of None \<Rightarrow> [] | Some s \<Rightarrow> s)"

definition matches_session :: "operator_state \<Rightarrow> agent_session \<Rightarrow> bool" where
  "matches_session st s =
     query_matches (op_query st) [as_id s, as_agent_kind s, session_state_str (as_state s), or_empty (as_name s), as_command_display s]"

definition matches_execution :: "operator_state \<Rightarrow> execution \<Rightarrow> bool" where
  "matches_execution st x =
     query_matches (op_query st) [ex_id x, ex_command_display x, ex_cwd x, state_str (ex_state x), in_kind (ex_initiator x),
       or_empty (in_name (ex_initiator x)), format_outcome (ex_outcome x)]"

definition newest_first :: "execution list \<Rightarrow> execution list" where
  "newest_first xs = sort_key (\<lambda>x. - ex_created_at_ms x) xs"

definition scoped_executions :: "operator_state \<Rightarrow> execution list" where
  "scoped_executions st = (case op_detail st of None \<Rightarrow> op_executions st | Some d \<Rightarrow> sd_executions d)"

definition visible_session_ids :: "operator_state \<Rightarrow> string option list" where
  "visible_session_ids st = None # map (\<lambda>s. Some (as_id s)) (filter (matches_session st) (op_sessions st))"

definition visible_execution_ids :: "operator_state \<Rightarrow> string list" where
  "visible_execution_ids st = map ex_id (newest_first (filter (matches_execution st) (scoped_executions st)))"

section \<open>Selecting\<close>

definition ensure_execution_selection :: "operator_state \<Rightarrow> operator_state" where
  "ensure_execution_selection st =
     (let visible = visible_execution_ids st;
          keep = (case op_execution st of None \<Rightarrow> False | Some selected \<Rightarrow> selected \<in> set visible);
          st1 = (if keep then st else st\<lparr>op_execution := first_opt visible\<rparr>) in
      if op_execution st \<noteq> op_execution st1 then reset_output st1 else st1)"

definition apply_snapshot ::
  "agent_session list \<Rightarrow> execution list \<Rightarrow> agent_session_detail option \<Rightarrow> operator_state \<Rightarrow> bool \<times> operator_state" where
  "apply_snapshot sessions executions detail st =
     (let sessions' = sort_key (\<lambda>s. - as_created_at_ms s) sessions;
          session = (case op_session st of None \<Rightarrow> None | Some i \<Rightarrow> if i \<in> as_id ` set sessions' then Some i else None);
          detail' = (case detail of None \<Rightarrow> None | Some d \<Rightarrow> if session = Some (as_id (sd_session d)) then Some d else None);
          st1 = ensure_execution_selection
            (st\<lparr>op_sessions := sessions', op_executions := newest_first executions, op_session := session, op_detail := detail'\<rparr>) in
      (op_execution st \<noteq> op_execution st1, st1))"

definition selected_execution :: "operator_state \<Rightarrow> execution option" where
  "selected_execution st =
     (case op_execution st of None \<Rightarrow> None | Some selected \<Rightarrow> find (\<lambda>x. ex_id x = selected) (scoped_executions st))"

definition selected_session :: "operator_state \<Rightarrow> agent_session option" where
  "selected_session st =
     (case op_session st of None \<Rightarrow> None | Some selected \<Rightarrow> find (\<lambda>s. as_id s = selected) (op_sessions st))"

definition selected_source_session_id :: "operator_state \<Rightarrow> string option" where
  "selected_source_session_id st =
     (case op_session st of
        Some i \<Rightarrow> Some i
      | None \<Rightarrow> (case selected_execution st of None \<Rightarrow> None | Some x \<Rightarrow> in_session_id (ex_initiator x)))"

definition index_of :: "'a \<Rightarrow> 'a list \<Rightarrow> nat" where
  "index_of x xs = (case position (\<lambda>y. y = x) xs of Some i \<Rightarrow> i | None \<Rightarrow> 0)"

definition select_session :: "string option \<Rightarrow> operator_state \<Rightarrow> bool \<times> operator_state" where
  "select_session i st =
     (if op_session st = i then (False, st)
      else (True, reset_output (st\<lparr>op_session := i, op_execution := None, op_execution_offset := 0, op_detail := None\<rparr>)))"

definition select_session_relative :: "int \<Rightarrow> operator_state \<Rightarrow> bool \<times> operator_state" where
  "select_session_relative amount st =
     (let visible = visible_session_ids st in
      select_session (visible ! move_index (index_of (op_session st) visible) amount (length visible)) st)"

definition select_execution :: "string \<Rightarrow> operator_state \<Rightarrow> bool \<times> operator_state" where
  "select_execution i st =
     (if op_execution st = Some i then (False, st) else (True, reset_output (st\<lparr>op_execution := Some i\<rparr>)))"

definition select_execution_relative :: "int \<Rightarrow> operator_state \<Rightarrow> bool \<times> operator_state" where
  "select_execution_relative amount st =
     (let visible = visible_execution_ids st in
      if visible = [] then (False, st)
      else
        let current = (case op_execution st of None \<Rightarrow> 0 | Some selected \<Rightarrow> index_of selected visible) in
        select_execution (visible ! move_index current amount (length visible)) st)"


section \<open>Keys\<close>

definition invoke_action :: "palette_action \<Rightarrow> operator_state \<Rightarrow> ui_command \<times> operator_state" where
  "invoke_action action st =
     (case action of
        PaNewAgent \<Rightarrow> (UcNone, st\<lparr>op_modal := Some (ModalAgent PurposeLaunch ProviderCodex FieldProvider [])\<rparr>)
      | PaHandoff \<Rightarrow>
          (case selected_source_session_id st of
             Some i \<Rightarrow> (UcPrepareHandoff i, st)
           | None \<Rightarrow> (UcNone, st\<lparr>pn_notice := Some ''select a recorded session before handoff''\<rparr>))
      | PaCancel \<Rightarrow>
          (case selected_execution st of
             Some x \<Rightarrow>
               if is_live x then (UcNone, st\<lparr>op_modal := Some (ModalCancel (ex_id x))\<rparr>)
               else (UcNone, st\<lparr>pn_notice := Some ''only queued or running executions can be cancelled''\<rparr>)
           | None \<Rightarrow> (UcNone, st\<lparr>pn_notice := Some ''select an execution first''\<rparr>))
      | PaOpenReplay \<Rightarrow>
          (case selected_source_session_id st of
             None \<Rightarrow> (UcNone, st\<lparr>pn_notice := Some ''select a recorded session first''\<rparr>)
           | Some i \<Rightarrow> (UcOpenReplay i, st))
      | PaExportReplay \<Rightarrow>
          (case selected_source_session_id st of
             None \<Rightarrow> (UcNone, st\<lparr>pn_notice := Some ''select a recorded session first''\<rparr>)
           | Some i \<Rightarrow> (UcExportReplay i, st))
      | PaToggleFollow \<Rightarrow> (UcNone, st\<lparr>pn_follow := \<not> pn_follow st\<rparr>)
      | PaRefresh \<Rightarrow> (UcRefresh, st)
      | PaHelp \<Rightarrow> (UcNone, st\<lparr>op_modal := Some ModalHelp\<rparr>)
      | PaQuit \<Rightarrow> (UcQuit, st))"

definition command_if :: "ui_command \<Rightarrow> bool \<times> operator_state \<Rightarrow> ui_command \<times> operator_state" where
  "command_if command r = (if fst r then command else UcNone, snd r)"

definition navigate :: "int \<Rightarrow> operator_state \<Rightarrow> ui_command \<times> operator_state" where
  "navigate amount st =
     (case op_focus st of
        OnSessions \<Rightarrow> command_if UcRefresh (select_session_relative amount st)
      | OnExecutions \<Rightarrow> command_if UcReloadOutput (select_execution_relative amount st)
      | OnOutput \<Rightarrow>
          (UcNone, st\<lparr>pn_follow := False,
             pn_scroll := (if amount < 0 then pn_scroll st - nat (- amount) else sat_add (pn_scroll st) (nat amount))\<rparr>))"

definition reselect :: "operator_state \<Rightarrow> ui_command \<times> operator_state" where
  "reselect st = (UcReloadOutput, ensure_execution_selection st)"

definition plain_char :: "key_event \<Rightarrow> bool" where
  "plain_char key \<longleftrightarrow> \<not> ke_control key \<and> \<not> ke_alt key"

definition handle_search_key :: "key_event \<Rightarrow> operator_state \<Rightarrow> ui_command \<times> operator_state" where
  "handle_search_key key st =
     (case ke_code key of
        KEsc \<Rightarrow> reselect (st\<lparr>op_searching := False\<rparr>)
      | KEnter \<Rightarrow> reselect (st\<lparr>op_searching := False\<rparr>)
      | KBackspace \<Rightarrow> reselect (st\<lparr>op_query := pop_char (op_query st)\<rparr>)
      | KChar c \<Rightarrow> if plain_char key then reselect (st\<lparr>op_query := op_query st @ c\<rparr>) else (UcNone, st)
      | _ \<Rightarrow> (UcNone, st))"

definition palette_key :: "key_code \<Rightarrow> nat \<Rightarrow> operator_state \<Rightarrow> ui_command \<times> operator_state" where
  "palette_key code selected st =
     (let stay = (\<lambda>n. (UcNone, st\<lparr>op_modal := Some (ModalPalette n)\<rparr>));
          up = stay (selected - 1);
          down = stay (min (selected + 1) (length palette_actions - 1)) in
      case code of
        KEsc \<Rightarrow> (UcNone, st)
      | KUp \<Rightarrow> up
      | KDown \<Rightarrow> down
      | KChar c \<Rightarrow> if c = ''k'' then up else if c = ''j'' then down else stay selected
      | KEnter \<Rightarrow> invoke_action (palette_actions ! selected) st
      | _ \<Rightarrow> stay selected)"

definition entered_prompt :: "string \<Rightarrow> string option" where
  "entered_prompt prompt = (if trim_text prompt = [] then None else Some (trim_text prompt))"

definition agent_key ::
  "key_event \<Rightarrow> modal_purpose \<Rightarrow> agent_provider \<Rightarrow> modal_field \<Rightarrow> string \<Rightarrow> operator_state \<Rightarrow> ui_command \<times> operator_state" where
  "agent_key key purpose provider field prompt st =
     (let stay = (\<lambda>provider field prompt. (UcNone, st\<lparr>op_modal := Some (ModalAgent purpose provider field prompt)\<rparr>));
          same = stay provider field prompt;
          switched = (if field = FieldProvider then stay (toggled provider) field prompt else same) in
      case ke_code key of
        KEsc \<Rightarrow> (UcNone, st)
      | KLeft \<Rightarrow> switched
      | KRight \<Rightarrow> switched
      | KTab \<Rightarrow>
          if purpose = PurposeLaunch
          then stay provider (case field of FieldProvider \<Rightarrow> FieldPrompt | FieldPrompt \<Rightarrow> FieldProvider) prompt
          else same
      | KBackspace \<Rightarrow> if field = FieldPrompt then stay provider field (pop_char prompt) else same
      | KChar c \<Rightarrow> if field = FieldPrompt \<and> plain_char key then stay provider field (prompt @ c) else same
      | KEnter \<Rightarrow>
          (case purpose of
             PurposeLaunch \<Rightarrow> (UcLaunch provider (entered_prompt prompt), st)
           | PurposeHandoff source _ _ _ \<Rightarrow> (UcHandoff provider source, st))
      | _ \<Rightarrow> same)"

text \<open>The dialog is taken out of the state first; a key that leaves it open puts it back.\<close>

definition handle_modal_key :: "key_event \<Rightarrow> modal \<Rightarrow> operator_state \<Rightarrow> ui_command \<times> operator_state" where
  "handle_modal_key key m st0 =
     (let st = st0\<lparr>op_modal := None\<rparr>; stay = (UcNone, st\<lparr>op_modal := Some m\<rparr>) in
      case m of
        ModalHelp \<Rightarrow> if ke_code key = KEsc \<or> ke_code key = KChar ''?'' then (UcNone, st) else stay
      | ModalCancel xid \<Rightarrow>
          if ke_code key \<in> confirming_keys then (UcCancel xid, st)
          else if ke_code key \<in> declining_keys then (UcNone, st)
          else stay
      | ModalPalette selected \<Rightarrow> palette_key (ke_code key) selected st
      | ModalAgent purpose provider field prompt \<Rightarrow> agent_key key purpose provider field prompt st)"

definition open_search :: "operator_state \<Rightarrow> operator_state" where
  "open_search st =
     ensure_execution_selection
       (st\<lparr>op_searching := True, op_session := None, op_detail := None, op_execution := None,
          op_session_offset := 0, op_execution_offset := 0\<rparr>)"

fun char_action :: "string \<Rightarrow> palette_action option" where
  "char_action c =
     (if c = ''n'' then Some PaNewAgent else if c = ''h'' then Some PaHandoff else if c = ''c'' then Some PaCancel
      else if c = ''o'' then Some PaOpenReplay else if c = ''e'' then Some PaExportReplay else if c = ''f'' then Some PaToggleFollow
      else None)"

definition operator_char :: "string \<Rightarrow> operator_state \<Rightarrow> ui_command \<times> operator_state" where
  "operator_char c st =
     (if c = ''q'' then (UcQuit, st)
      else if c = ''/'' then (UcReloadOutput, open_search st)
      else if c = '':'' then (UcNone, st\<lparr>op_modal := Some (ModalPalette 0)\<rparr>)
      else if c = ''?'' then (UcNone, st\<lparr>op_modal := Some ModalHelp\<rparr>)
      else if c = ''k'' then navigate (- 1) st
      else if c = ''j'' then navigate 1 st
      else if c = ''r'' then (UcRefresh, st)
      else (case char_action c of Some action \<Rightarrow> invoke_action action st | None \<Rightarrow> (UcNone, st)))"

definition operator_plain_key :: "key_code \<Rightarrow> operator_state \<Rightarrow> ui_command \<times> operator_state" where
  "operator_plain_key code st =
     (case code of
        KChar c \<Rightarrow> operator_char c st
      | KTab \<Rightarrow> (UcNone, st\<lparr>op_focus := focus_next (op_focus st)\<rparr>)
      | KBackTab \<Rightarrow> (UcNone, st\<lparr>op_focus := focus_previous (op_focus st)\<rparr>)
      | KUp \<Rightarrow> navigate (- 1) st
      | KDown \<Rightarrow> navigate 1 st
      | KHome \<Rightarrow> if op_focus st = OnOutput then (UcNone, st\<lparr>pn_follow := False, pn_scroll := 0\<rparr>) else (UcNone, st)
      | KEnd \<Rightarrow> if op_focus st = OnOutput then (UcNone, st\<lparr>pn_follow := True\<rparr>) else (UcNone, st)
      | KEnter \<Rightarrow>
          (UcNone, st\<lparr>op_focus := (case op_focus st of OnSessions \<Rightarrow> OnExecutions | OnExecutions \<Rightarrow> OnOutput | OnOutput \<Rightarrow> OnOutput)\<rparr>)
      | KEsc \<Rightarrow> if op_query st \<noteq> [] then reselect (st\<lparr>op_query := []\<rparr>) else (UcNone, st)
      | _ \<Rightarrow> (UcNone, st))"

definition handle_key :: "key_event \<Rightarrow> operator_state \<Rightarrow> ui_command \<times> operator_state" where
  "handle_key key st =
     (if \<not> ke_press key then (UcNone, st)
      else if ke_control key \<and> (ke_code key = KChar ''c'' \<or> ke_code key = KChar ''C'') then (UcQuit, st)
      else if op_searching st then handle_search_key key st
      else
        (case op_modal st of
           Some m \<Rightarrow> handle_modal_key key m st
         | None \<Rightarrow>
             if ke_control key \<and> (ke_code key = KChar ''p'' \<or> ke_code key = KChar ''P'')
             then (UcNone, st\<lparr>op_modal := Some (ModalPalette 0)\<rparr>)
             else operator_plain_key (ke_code key) st))"

section \<open>The mouse\<close>

definition rect_contains :: "rect \<Rightarrow> nat \<Rightarrow> nat \<Rightarrow> bool" where
  "rect_contains area x y \<longleftrightarrow>
     re_x area \<le> x \<and> x < min (re_x area + re_width area) (2 ^ 16 - 1) \<and>
     re_y area \<le> y \<and> y < min (re_y area + re_height area) (2 ^ 16 - 1)"

datatype mouse_kind = MouseLeft | MouseScrollUp | MouseScrollDown | MouseOther

record mouse_event =
  me_kind :: mouse_kind
  me_column :: nat
  me_row :: nat

definition hit_pane :: "mouse_event \<Rightarrow> (rect \<times> hit_target) list \<Rightarrow> ui_focus option" where
  "hit_pane e regions =
     first_opt (List.map_filter
       (\<lambda>(area, t). case t of HitPane f \<Rightarrow> if rect_contains area (me_column e) (me_row e) then Some f else None | _ \<Rightarrow> None) regions)"

definition hit_at :: "mouse_event \<Rightarrow> (rect \<times> hit_target) list \<Rightarrow> hit_target option" where
  "hit_at e regions = map_option snd (find (\<lambda>(area, _). rect_contains area (me_column e) (me_row e)) (rev regions))"

definition scroll_mouse :: "int \<Rightarrow> mouse_event \<Rightarrow> operator_state \<Rightarrow> ui_command \<times> operator_state" where
  "scroll_mouse amount e st =
     navigate amount (case hit_pane e (op_regions st) of Some f \<Rightarrow> st\<lparr>op_focus := f\<rparr> | None \<Rightarrow> st)"

definition handle_mouse :: "mouse_event \<Rightarrow> operator_state \<Rightarrow> ui_command \<times> operator_state" where
  "handle_mouse e st =
     (case me_kind e of
        MouseLeft \<Rightarrow>
          (case hit_at e (op_regions st) of
             Some HitAllWork \<Rightarrow> command_if UcRefresh (select_session None (st\<lparr>op_focus := OnSessions\<rparr>))
           | Some (HitSession i) \<Rightarrow> command_if UcRefresh (select_session (Some i) (st\<lparr>op_focus := OnSessions\<rparr>))
           | Some (HitExecution i) \<Rightarrow> command_if UcReloadOutput (select_execution i (st\<lparr>op_focus := OnExecutions\<rparr>))
           | Some (HitPane f) \<Rightarrow> (UcNone, st\<lparr>op_focus := f\<rparr>)
           | None \<Rightarrow> (UcNone, st))
      | MouseScrollUp \<Rightarrow> scroll_mouse (- 1) e st
      | MouseScrollDown \<Rightarrow> scroll_mouse 1 e st
      | MouseOther \<Rightarrow> (UcNone, st))"

end
