(* ===== verification/OperatorLoop.thy ===== *)
theory OperatorLoop
  imports Operator
begin

text \<open>
  The operator screen's drawing, commands and loop (\<open>src/ui.rs\<close>). The daemon answers each turn through a record of
  answers; how ratatui divides an area is a parameter of the drawing.
\<close>

section \<open>Drawing\<close>

definition selection_offset :: "nat \<Rightarrow> nat \<Rightarrow> nat \<Rightarrow> nat \<Rightarrow> nat" where
  "selection_offset current selected capacity item_count =
     (let offset = min current (item_count - capacity) in
      if selected < offset then selected
      else if sat_add offset capacity \<le> selected then sat_add selected 1 - capacity
      else offset)"

definition list_capacity :: "rect \<Rightarrow> nat" where
  "list_capacity area = max (re_height area - 2) 1"

definition row_rect :: "rect \<Rightarrow> nat \<Rightarrow> rect" where
  "row_rect area row = \<lparr>re_x = re_x area + 1, re_y = re_y area + 1 + row, re_width = re_width area - 2, re_height = 1\<rparr>"

text \<open>The rows of a list, with what a click on each selects.\<close>

definition row_regions :: "rect \<Rightarrow> hit_target list \<Rightarrow> (rect \<times> hit_target) list" where
  "row_regions area targets = map (\<lambda>(row, t). (row_rect area row, t)) (List.enumerate 0 targets)"

definition displayed_rows :: "nat \<Rightarrow> rect \<Rightarrow> 'a list \<Rightarrow> 'a list" where
  "displayed_rows offset area ids = take (list_capacity area) (drop offset ids)"

definition session_target :: "string option \<Rightarrow> hit_target" where
  "session_target i = (case i of None \<Rightarrow> HitAllWork | Some s \<Rightarrow> HitSession s)"

definition draw_sessions :: "rect \<Rightarrow> operator_state \<Rightarrow> operator_state" where
  "draw_sessions area st =
     (let ids = visible_session_ids st;
          offset = selection_offset (op_session_offset st) (index_of (op_session st) ids) (list_capacity area) (length ids) in
      st\<lparr>op_session_offset := offset,
         op_regions := op_regions st @ [(area, HitPane OnSessions)] @
           row_regions area (map session_target (displayed_rows offset area ids))\<rparr>)"

definition draw_executions :: "rect \<Rightarrow> operator_state \<Rightarrow> operator_state" where
  "draw_executions area st =
     (let ids = visible_execution_ids st;
          selected = (case op_execution st of None \<Rightarrow> 0 | Some i \<Rightarrow> index_of i ids);
          offset = selection_offset (op_execution_offset st) selected (list_capacity area) (length ids) in
      st\<lparr>op_execution_offset := offset,
         op_regions := op_regions st @ [(area, HitPane OnExecutions)] @
           row_regions area (map HitExecution (displayed_rows offset area ids))\<rparr>)"

text \<open>ratatui's division of an area: the middle section, three columns, two columns, and the output below the inspector.\<close>

record screen_layout =
  ly_middle :: "rect \<Rightarrow> rect"
  ly_three :: "rect \<Rightarrow> rect \<times> rect \<times> rect"
  ly_two :: "rect \<Rightarrow> rect \<times> rect"
  ly_output :: "rect \<Rightarrow> rect"

definition draw_output :: "screen_layout \<Rightarrow> rect \<Rightarrow> operator_state \<Rightarrow> operator_state" where
  "draw_output Y area st =
     scroll_pane (re_height (ly_output Y area)) (st\<lparr>op_regions := op_regions st @ [(area, HitPane OnOutput)]\<rparr>)"

definition draw_operator :: "screen_layout \<Rightarrow> rect \<Rightarrow> operator_state \<Rightarrow> operator_state" where
  "draw_operator Y area st0 =
     (let st = st0\<lparr>op_regions := []\<rparr>; middle = ly_middle Y area in
      if re_width area < 60 \<or> re_height area < 20 then st
      else if 140 \<le> re_width area then
        (case ly_three Y middle of (a, b, c) \<Rightarrow> draw_output Y c (draw_executions b (draw_sessions a st)))
      else if 100 \<le> re_width area then
        (case ly_two Y middle of (a, b) \<Rightarrow>
           if op_focus st = OnOutput then draw_output Y b (draw_sessions a st) else draw_executions b (draw_sessions a st))
      else
        (case op_focus st of
           OnSessions \<Rightarrow> draw_sessions middle st
         | OnExecutions \<Rightarrow> draw_executions middle st
         | OnOutput \<Rightarrow> draw_output Y middle st))"

text \<open>The texts of the rows and of the last line. \<open>{:<n}\<close> pads to \<open>n\<close> characters.\<close>

definition pad_right :: "nat \<Rightarrow> string \<Rightarrow> string" where
  "pad_right n s = s @ replicate (n - length (chars_of s)) (CHR '' '')"

definition marker :: "bool \<Rightarrow> string" where
  "marker selected = (if selected then ''>'' else '' '')"

definition session_row_text :: "int \<Rightarrow> operator_state \<Rightarrow> string option \<Rightarrow> string option" where
  "session_row_text now st i =
     (case i of
        None \<Rightarrow> Some (marker (op_session st = None) @ '' ALL WORK'' @ ''  '' @ show_nat (length (op_executions st)))
      | Some sid \<Rightarrow>
          (case find (\<lambda>s. as_id s = sid) (op_sessions st) of
             None \<Rightarrow> None
           | Some s \<Rightarrow>
               Some (marker (op_session st = i) @ '' '' @ pad_right 6 (provider_label (as_agent_kind s)) @ '' '' @
                 pad_right 4 (session_label (as_state s)) @ '' '' @
                 bounded_text (case as_name s of Some n \<Rightarrow> n | None \<Rightarrow> as_command_display s) 24 @
                 ''  '' @ format_age now (as_created_at_ms s))))"

definition is_handoff :: "operator_state \<Rightarrow> execution \<Rightarrow> bool" where
  "is_handoff st x \<longleftrightarrow> op_session st \<noteq> None \<and> in_session_id (ex_initiator x) \<noteq> op_session st"

definition execution_row_text :: "operator_state \<Rightarrow> string \<Rightarrow> string option" where
  "execution_row_text st i =
     (case find (\<lambda>x. ex_id x = i) (scoped_executions st) of
        None \<Rightarrow> None
      | Some x \<Rightarrow>
          let source = (if is_handoff st x then ''handoff''
                        else case in_name (ex_initiator x) of Some n \<Rightarrow> n | None \<Rightarrow> in_kind (ex_initiator x)) in
          Some (marker (op_execution st = Some i) @ '' '' @ pad_right 9 (execution_status x) @ '' '' @
            pad_right 7 (bounded_text source 7) @ '' '' @ ex_command_display x))"

definition header_counts :: "operator_state \<Rightarrow> nat \<times> nat \<times> nat" where
  "header_counts st =
     (length (filter (\<lambda>s. as_state s = Recording) (op_sessions st)),
      length (filter (\<lambda>x. ex_state x = Running) (op_executions st)),
      length (filter execution_failed (op_executions st)))"

definition inspector_lines :: "int \<Rightarrow> operator_state \<Rightarrow> string list" where
  "inspector_lines now st =
     (case selected_execution st of
        None \<Rightarrow> [''No execution selected'']
      | Some x \<Rightarrow>
          let request = (case op_detail st of None \<Rightarrow> None
                         | Some d \<Rightarrow> map_option (\<lambda>t. bounded_text (one_line (tn_prompt t)) 72) (last_opt (sd_turns d)));
              since = (case ex_started_at_ms x of Some t \<Rightarrow> t | None \<Rightarrow> ex_created_at_ms x);
              duration = (case ex_duration_ms x of Some n \<Rightarrow> n | None \<Rightarrow> nat (sat_i64 (now - since))) in
          [ex_command_display x,
           execution_status x @ ''  '' @ format_outcome (ex_outcome x) @ ''  '' @ screen_duration duration,
           ''cwd  '' @ ex_cwd x,
           ''source  '' @ (if is_handoff st x then ''handoff'' else in_kind (ex_initiator x)) @
             (case in_session_id (ex_initiator x) of Some i \<Rightarrow> '' | '' @ screen_short_id i | None \<Rightarrow> []),
           ''id  '' @ ex_id x,
           (case request of None \<Rightarrow> ''request  unavailable'' | Some r \<Rightarrow> ''request  '' @ r)])"

definition footer_message :: "operator_state \<Rightarrow> string" where
  "footer_message st =
     (if op_searching st then ''/'' @ op_query st @ ''_  Enter apply  Esc close''
      else case pn_error st of
        Some e \<Rightarrow> e
      | None \<Rightarrow>
          (case pn_notice st of
             Some n \<Rightarrow> n
           | None \<Rightarrow>
               if op_query st \<noteq> [] then ''filter: '' @ op_query st @ ''  Esc clear  / edit''
               else ''Tab focus  / search  Ctrl-P actions  n new  h handoff  ? help  q quit''))"

definition centered_rect :: "nat \<Rightarrow> nat \<Rightarrow> rect \<Rightarrow> rect" where
  "centered_rect width height area =
     (let w = min width (re_width area); h = min height (re_height area) in
      \<lparr>re_x = re_x area + (re_width area - w) div 2, re_y = re_y area + (re_height area - h) div 2, re_width = w, re_height = h\<rparr>)"

section \<open>The daemon's answers\<close>

text \<open>\<open>oa_lists\<close> is the outcome of the two lists that are asked for together; \<open>oa_subscribe\<close> the execution that the answer to a
  subscription carries.\<close>

record operator_answers =
  oa_lists :: "(agent_session list \<times> execution list) result"
  oa_detail :: "string \<Rightarrow> agent_session_detail result"
  oa_cancel :: "string \<Rightarrow> execution result"
  oa_reads :: "string \<Rightarrow> (nat \<Rightarrow> read_output_response result) list"
  oa_subscribe :: "string \<Rightarrow> nat \<Rightarrow> execution result"

definition operator_refresh :: "operator_answers \<Rightarrow> operator_state \<Rightarrow> bool result \<times> operator_state" where
  "operator_refresh A st =
     (case oa_lists A of
        Inl e \<Rightarrow> (Inl e, st)
      | Inr (sessions, executions) \<Rightarrow>
          let st1 = (case op_session st of
                       Some i \<Rightarrow> if i \<in> as_id ` set sessions then st else st\<lparr>op_session := None\<rparr>
                     | None \<Rightarrow> st) in
          (case op_session st1 of
             None \<Rightarrow> (case apply_snapshot sessions executions None st1 of (c, st2) \<Rightarrow> (Inr c, st2))
           | Some i \<Rightarrow>
               (case oa_detail A i of
                  Inl e \<Rightarrow> (Inl e, st1)
                | Inr d \<Rightarrow> (case apply_snapshot sessions executions (Some d) st1 of (c, st2) \<Rightarrow> (Inr c, st2)))))"

definition operator_load :: "screen_env \<Rightarrow> operator_answers \<Rightarrow> operator_state \<Rightarrow> operator_state option" where
  "operator_load E A st = load_output (sc_display E) (sc_base64 E) (oa_reads A) (op_execution st) st"

definition subscribe_output :: "screen_env \<Rightarrow> operator_answers \<Rightarrow> operator_state \<Rightarrow> execution option \<times> operator_state" where
  "subscribe_output E A st =
     (case op_execution st of
        None \<Rightarrow> (None, st)
      | Some i \<Rightarrow>
          (case oa_subscribe A i (pn_cursor st) of
             Inr x \<Rightarrow> (Some x, st)
           | Inl e \<Rightarrow> (None, st\<lparr>pn_error := Some (''output stream unavailable; retrying: '' @ error_display (sc_display E) e)\<rparr>)))"

definition load_and_subscribe ::
  "screen_env \<Rightarrow> operator_answers \<Rightarrow> operator_state \<Rightarrow> (execution option \<times> operator_state) option" where
  "load_and_subscribe E A st = map_option (subscribe_output E A) (operator_load E A st)"

definition sync_subscription ::
  "screen_env \<Rightarrow> operator_answers \<Rightarrow> execution option \<times> operator_state \<Rightarrow> (execution option \<times> operator_state) option" where
  "sync_subscription E A s =
     (if op_execution (snd s) = map_option ex_id (fst s) then Some s else load_and_subscribe E A (snd s))"

section \<open>Commands\<close>

definition handoff_provider :: "string \<Rightarrow> agent_provider" where
  "handoff_provider kind = (if kind = ''codex'' then ProviderClaude else ProviderCodex)"

definition prepare_handoff :: "string \<Rightarrow> agent_session_detail \<Rightarrow> operator_state \<Rightarrow> operator_state" where
  "prepare_handoff sid d st =
     (let active = filter (\<lambda>x. \<not> is_terminal (ex_state x)) (sd_executions d) in
      if as_state (sd_session d) = Recording then st\<lparr>pn_notice := Some ''exit the source agent before handoff''\<rparr>
      else if active = [] then st\<lparr>pn_notice := Some ''this session has no active durable work to hand off''\<rparr>
      else st\<lparr>op_modal := Some (ModalAgent
          (PurposeHandoff sid (as_agent_kind (sd_session d)) (length active)
            (case first_opt active of Some x \<Rightarrow> bounded_text (ex_command_display x) 56 | None \<Rightarrow> []))
          (handoff_provider (as_agent_kind (sd_session d))) FieldProvider [])\<rparr>)"

text \<open>The execution a cancel request is sent for, the action or error that ends the screen, and the state.\<close>

definition operator_command ::
  "screen_env \<Rightarrow> operator_answers \<Rightarrow> ui_command \<Rightarrow> operator_state \<Rightarrow> string option \<times> ui_action option result \<times> operator_state" where
  "operator_command E A command st =
     (case command of
        UcNone \<Rightarrow> (None, Inr None, st)
      | UcQuit \<Rightarrow> (None, Inr (Some UiQuit), st)
      | UcRefresh \<Rightarrow>
          (case operator_refresh A st of
             (Inl e, st1) \<Rightarrow> (None, Inl e, st1)
           | (Inr changed, st1) \<Rightarrow> (None, Inr None, if changed then reset_output st1 else st1))
      | UcReloadOutput \<Rightarrow> (None, Inr None, st)
      | UcCancel i \<Rightarrow> (Some i, Inr None, cancel_notice (sc_display E) (oa_cancel A i) st)
      | UcOpenReplay i \<Rightarrow>
          (case oa_detail A i of Inl e \<Rightarrow> (None, Inl e, st) | Inr d \<Rightarrow> (None, Inr None, open_replay E d st))
      | UcExportReplay i \<Rightarrow>
          (case oa_detail A i of
             Inl e \<Rightarrow> (None, Inl e, st)
           | Inr d \<Rightarrow>
               (case export_replay E d st of (Inl e, st1) \<Rightarrow> (None, Inl e, st1) | (Inr _, st1) \<Rightarrow> (None, Inr None, st1)))
      | UcPrepareHandoff i \<Rightarrow>
          (case oa_detail A i of Inl e \<Rightarrow> (None, Inl e, st) | Inr d \<Rightarrow> (None, Inr None, prepare_handoff i d st))
      | UcLaunch provider prompt \<Rightarrow> (None, Inr (Some (UiLaunch provider prompt)), st)
      | UcHandoff provider i \<Rightarrow> (None, Inr (Some (UiHandoff provider i)), st))"

section \<open>The loop\<close>

text \<open>What a turn waits for. An event of the stream can only come while one is open. \<open>now\<close> is the time when an input has been
  handled.\<close>

datatype operator_input =
    OiKey key_event operator_answers
  | OiMouse mouse_event operator_answers
  | OiOther operator_answers
  | OiBroken string operator_answers
  | OiEnd operator_answers
  | OiStream "execution_event option result" nat
  | OiPoll operator_answers nat

type_synonym operator_run_state = "(execution option \<times> operator_state) \<times> nat"

definition after_command ::
  "screen_env \<Rightarrow> operator_answers \<Rightarrow> ui_command \<times> operator_state \<Rightarrow> execution option \<Rightarrow> nat \<Rightarrow>
   (string option \<times> ui_action result option \<times> operator_run_state) option" where
  "after_command E A c subscription retry_at =
     (case operator_command E A (fst c) (snd c) of
        (asked, Inl e, st) \<Rightarrow> Some (asked, Some (Inl e), (subscription, st), retry_at)
      | (asked, Inr (Some action), st) \<Rightarrow> Some (asked, Some (Inr action), (subscription, st), retry_at)
      | (asked, Inr None, st) \<Rightarrow> map_option (\<lambda>s. (asked, None, s, retry_at)) (sync_subscription E A (subscription, st)))"

definition stream_step ::
  "screen_env \<Rightarrow> execution_event option result \<Rightarrow> nat \<Rightarrow> execution option \<times> operator_state \<Rightarrow> nat \<Rightarrow> operator_run_state" where
  "stream_step E r now s retry_at =
     (case r of
        Inr (Some ev) \<Rightarrow>
          (case ingest (sc_base64 E) [ev] (ev_seq ev) (snd s) of
             (Inl e, st) \<Rightarrow> ((fst s, st\<lparr>pn_error := Some (error_display (sc_display E) e)\<rparr>), retry_at)
           | (Inr _, st) \<Rightarrow> ((fst s, st), retry_at))
      | Inr None \<Rightarrow> ((None, snd s), now + RETRY_MS)
      | Inl e \<Rightarrow>
          ((None, snd s\<lparr>pn_error := Some (''output stream disconnected; retrying: '' @ error_display (sc_display E) e)\<rparr>), now + RETRY_MS))"

definition poll_step ::
  "screen_env \<Rightarrow> operator_answers \<Rightarrow> nat \<Rightarrow> execution option \<times> operator_state \<Rightarrow> nat \<Rightarrow> operator_run_state option" where
  "poll_step E A now s retry_at =
     (case operator_refresh A (snd s) of
        (Inl e, st) \<Rightarrow>
          Some ((fst s, st\<lparr>pn_error := Some (''daemon unavailable; retrying: '' @ error_display (sc_display E) e)\<rparr>), now + RETRY_MS)
      | (Inr changed, st) \<Rightarrow>
          let st1 = st\<lparr>pn_error := None\<rparr>;
              s1 = (if changed then (None, reset_output st1) else (fst s, st1)) in
          if fst s1 = None \<and> retry_at \<le> now then map_option (\<lambda>s2. (s2, retry_at)) (load_and_subscribe E A (snd s1))
          else Some (s1, retry_at))"

text \<open>A turn after drawing; \<open>None\<close> for an input that cannot come, or while the output is still being loaded.\<close>

definition operator_step ::
  "screen_env \<Rightarrow> operator_input \<Rightarrow> operator_run_state \<Rightarrow> (string option \<times> ui_action result option \<times> operator_run_state) option" where
  "operator_step E i r =
     (case r of ((subscription, st), retry_at) \<Rightarrow>
        case i of
          OiKey key A \<Rightarrow> after_command E A (handle_key key st) subscription retry_at
        | OiMouse e A \<Rightarrow> after_command E A (handle_mouse e st) subscription retry_at
        | OiOther A \<Rightarrow> after_command E A (UcNone, st) subscription retry_at
        | OiBroken m A \<Rightarrow> after_command E A (UcNone, st\<lparr>pn_error := Some (''terminal input: '' @ m)\<rparr>) subscription retry_at
        | OiEnd A \<Rightarrow> after_command E A (UcQuit, st) subscription retry_at
        | OiStream ev now \<Rightarrow>
            if subscription = None then None else Some (None, None, stream_step E ev now (subscription, st) retry_at)
        | OiPoll A now \<Rightarrow> map_option (\<lambda>r'. (None, None, r')) (poll_step E A now (subscription, st) retry_at))"

text \<open>What the user has seen before each input, the stream that is open, and the cancellation the input sends. A terminal that
  cannot be drawn to ends the loop.\<close>

fun operator_run ::
  "screen_env \<Rightarrow> screen_layout \<Rightarrow> (rect result \<times> operator_input) list \<Rightarrow> operator_run_state \<Rightarrow>
   (execution option \<times> operator_state \<times> string option) list" where
  "operator_run E Y [] r = []"
| "operator_run E Y ((Inl e, i) # turns) r = []"
| "operator_run E Y ((Inr area, i) # turns) r =
     (let drawn = draw_operator Y area (snd (fst r)) in
      case operator_step E i ((fst (fst r), drawn), snd r) of
        None \<Rightarrow> []
      | Some (asked, over, r1) \<Rightarrow>
          (fst (fst r), drawn, asked) # (if over = None then operator_run E Y turns r1 else []))"

definition operator_start ::
  "screen_env \<Rightarrow> operator_answers \<Rightarrow> ui_options \<Rightarrow> nat \<Rightarrow> operator_run_state option result" where
  "operator_start E A options now =
     (case operator_refresh A (operator_new options) of
        (Inl e, _) \<Rightarrow> Inl e
      | (Inr _, st) \<Rightarrow> Inr (map_option (\<lambda>s. (s, now)) (load_and_subscribe E A st)))"

end
