(* ===== verification/CliRun.thy ===== *)
theory CliRun
  imports Cli
begin

text \<open>
  Running a command from the command line and following its output (\<open>src/bin/loom.rs\<close>): the request, the stream
  of events up to the end, the pages of a log, and the exit code. What is printed is listed; a write that fails
  ends the command.
\<close>

section \<open>Printing events\<close>

datatype printed =
    OutBytes output_stream bytes
  | TruncationNotice nat
  | EventLine execution_event
  | ExecutionLine string execution
  | ExecutionValue execution

definition emit :: "(printed \<Rightarrow> unit result) \<Rightarrow> printed \<Rightarrow> printed list \<times> unit result" where
  "emit w p = (case w p of Inl e \<Rightarrow> ([], Inl e) | Inr _ \<Rightarrow> ([p], Inr ()))"

definition render_event :: "(printed \<Rightarrow> unit result) \<Rightarrow> base64 \<Rightarrow> bool \<Rightarrow> execution_event \<Rightarrow> printed list \<times> unit result" where
  "render_event w B json ev =
     (if json then emit w (EventLine ev)
      else
        (case ev_payload ev of
           EvOutput stream data \<Rightarrow>
             (case b64_decode B data of
                Inl m \<Rightarrow> ([], Inl (Protocol (''invalid output encoding: '' @ m)))
              | Inr bs \<Rightarrow> emit w (OutBytes stream bs))
         | EvCaptureTruncated limit \<Rightarrow> emit w (TruncationNotice limit)
         | _ \<Rightarrow> ([], Inr ())))"

fun render_events :: "(printed \<Rightarrow> unit result) \<Rightarrow> base64 \<Rightarrow> bool \<Rightarrow> execution_event list \<Rightarrow> printed list \<times> unit result" where
  "render_events w B json [] = ([], Inr ())"
| "render_events w B json (ev # evs) =
     (case render_event w B json ev of
        (out, Inl e) \<Rightarrow> (out, Inl e)
      | (out, Inr _) \<Rightarrow> (case render_events w B json evs of (out', r) \<Rightarrow> (out @ out', r)))"

section \<open>Following an execution\<close>

definition ends_execution :: "execution_event \<Rightarrow> bool" where
  "ends_execution ev = (case ev_payload ev of EvFinished _ \<Rightarrow> True | _ \<Rightarrow> False)"

datatype stream_end = SawEnd | Disconnected | StreamFailed error

text \<open>The loop over the frames of the subscription; the connection is closed after the last one.\<close>

fun stream_events ::
  "(printed \<Rightarrow> unit result) \<Rightarrow> base64 \<Rightarrow> bool \<Rightarrow> (error + wire_message) list \<Rightarrow> subscription \<Rightarrow> printed list \<times> stream_end" where
  "stream_events w B json [] sb = ([], Disconnected)"
| "stream_events w B json (f # fs) sb =
     (case next_event (Some f) sb of
        (Inl e, _) \<Rightarrow> ([], StreamFailed e)
      | (Inr None, _) \<Rightarrow> ([], Disconnected)
      | (Inr (Some ev), sb') \<Rightarrow>
          (case render_event w B json ev of
             (out, Inl e) \<Rightarrow> (out, StreamFailed e)
           | (out, Inr _) \<Rightarrow>
               if ends_execution ev then (out, SawEnd)
               else (case stream_events w B json fs sb' of (out', r) \<Rightarrow> (out @ out', r))))"

definition stream_until_finished ::
  "'s connection \<Rightarrow> (printed \<Rightarrow> unit result) \<Rightarrow> base64 \<Rightarrow> bool \<Rightarrow> (error + wire_message) list \<Rightarrow> string \<Rightarrow> nat \<Rightarrow> 's \<Rightarrow>
   printed list \<times> execution result \<times> 's" where
  "stream_until_finished N w B json frames xid cursor s =
     (case cm_subscribe N 1 xid cursor s of
        (Inl e, s1) \<Rightarrow> ([], Inl e, s1)
      | (Inr sb, s1) \<Rightarrow>
          (case stream_events w B json frames sb of
             (out, StreamFailed e) \<Rightarrow> (out, Inl e, s1)
           | (out, SawEnd) \<Rightarrow> (out, cm_get N 2 xid s1)
           | (out, Disconnected) \<Rightarrow>
               (out, seq_res (cm_get N 2 xid) (\<lambda>x. pure_res
                  (if is_terminal (ex_state x) then Inr x
                   else Inl (Protocol ''execution subscription closed before completion''))) s1)))"

definition process_exit_code :: "execution \<Rightarrow> int" where
  "process_exit_code x =
     (case ex_outcome x of
        Some (Exited code) \<Rightarrow> code
      | Some (Signaled signal) \<Rightarrow> 128 + signal
      | Some (OutcomeCancelled signal) \<Rightarrow> 128 + (case signal of Some n \<Rightarrow> n | None \<Rightarrow> 15)
      | Some (SpawnError _) \<Rightarrow> 126
      | Some (OutcomeInterrupted _) \<Rightarrow> 1
      | None \<Rightarrow> 1)"

section \<open>Running a command\<close>

record run_args =
  ua_workspace :: "string option"
  ua_cwd :: "string option"
  ua_shell :: "string option"
  ua_shell_program :: "string option"
  ua_argv :: "string list"
  ua_env :: "(string \<times> string) list"
  ua_stdin_file :: "string option"
  ua_capture_limit_bytes :: "nat option"
  ua_detach :: bool

record run_env =
  ue_cwd :: "string result"
  ue_read_file :: "string \<Rightarrow> bytes result"
  ue_stdin :: "bytes result"
  ue_session_id :: "string option"
  ue_base64 :: base64
  ue_write :: "printed \<Rightarrow> unit result"

definition read_stdin :: "run_env \<Rightarrow> string \<Rightarrow> bytes result" where
  "read_stdin E path = (if path_eq path ''-'' then ue_stdin E else ue_read_file E path)"

definition run_args_command :: "run_args \<Rightarrow> command_spec result" where
  "run_args_command args =
     (case ua_shell args of
        Some command \<Rightarrow> Inr (Shell command (ua_shell_program args))
      | None \<Rightarrow>
          (case ua_argv args of
             [] \<Rightarrow> Inl (InvalidRequest ''missing command'')
           | program # rest \<Rightarrow> Inr (Argv program rest)))"

definition run_stdin :: "run_env \<Rightarrow> run_args \<Rightarrow> string option result" where
  "run_stdin E args =
     (case ua_stdin_file args of
        None \<Rightarrow> Inr None
      | Some path \<Rightarrow> bind_res (read_stdin E path) (\<lambda>bs. Inr (Some (b64_encode (ue_base64 E) bs))))"

definition cli_run_request :: "run_env \<Rightarrow> run_args \<Rightarrow> string \<Rightarrow> command_spec \<Rightarrow> string option \<Rightarrow> execution_request" where
  "cli_run_request E args workspace_id command stdin =
     \<lparr>rq_workspace_id = workspace_id, rq_cwd = ua_cwd args, rq_command = command, rq_env = btree_collect (ua_env args),
      rq_stdin_base64 = stdin,
      rq_initiator = \<lparr>in_kind = ''cli'', in_name = Some ''loom'',
        in_session_id = (case ue_session_id E of Some v \<Rightarrow> if v \<noteq> [] then Some v else None | None \<Rightarrow> None)\<rparr>,
      rq_capture_limit_bytes = ua_capture_limit_bytes args\<rparr>"

text \<open>Up to the accepted execution; then what is printed and the exit code.\<close>

definition submit_run :: "'s connection \<Rightarrow> run_env \<Rightarrow> run_args \<Rightarrow> ('s, execution) action" where
  "submit_run N E args =
     seq_res (resolve_workspace N (ue_cwd E) (ua_workspace args)) (\<lambda>workspace_id.
     seq_res (pure_res (run_args_command args)) (\<lambda>command.
     seq_res (pure_res (run_stdin E args)) (\<lambda>stdin.
       cm_execute N 3 (cli_run_request E args workspace_id command stdin))))"

definition cli_run ::
  "'s connection \<Rightarrow> run_env \<Rightarrow> (error + wire_message) list \<Rightarrow> run_args \<Rightarrow> bool \<Rightarrow> 's \<Rightarrow> printed list \<times> int result \<times> 's" where
  "cli_run N E frames args json s =
     (case submit_run N E args s of
        (Inl e, s1) \<Rightarrow> ([], Inl e, s1)
      | (Inr x, s1) \<Rightarrow>
          if ua_detach args then (case emit (ue_write E) (ExecutionValue x) of (out, r) \<Rightarrow> (out, bind_res r (\<lambda>_. Inr 0), s1))
          else
            (case (if json then emit (ue_write E) (ExecutionLine ''execution'' x) else ([], Inr ())) of
               (out0, Inl e) \<Rightarrow> (out0, Inl e, s1)
             | (out0, Inr _) \<Rightarrow>
                 (case stream_until_finished N (ue_write E) (ue_base64 E) json frames (ex_id x) 0 s1 of
                    (out, Inl e, s2) \<Rightarrow> (out0 @ out, Inl e, s2)
                  | (out, Inr final, s2) \<Rightarrow>
                      (case (if json then emit (ue_write E) (ExecutionLine ''result'' final) else ([], Inr ())) of
                         (out', r) \<Rightarrow> (out0 @ out @ out', bind_res r (\<lambda>_. Inr (process_exit_code final)), s2)))))"

section \<open>Reading a log\<close>

record logs_args =
  lo_execution_id :: string
  lo_follow :: bool
  lo_after_seq :: nat
  lo_max_bytes :: nat

text \<open>Each call draws an identifier; the result is \<open>None\<close> when they are used up.\<close>

fun read_log_pages ::
  "'s connection \<Rightarrow> (printed \<Rightarrow> unit result) \<Rightarrow> base64 \<Rightarrow> bool \<Rightarrow> string \<Rightarrow> nat \<Rightarrow> nat list \<Rightarrow> nat \<Rightarrow> 's \<Rightarrow>
   printed list \<times> unit result option \<times> 's" where
  "read_log_pages N w B json xid max_bytes [] cursor s = ([], None, s)"
| "read_log_pages N w B json xid max_bytes (k # ks) cursor s =
     (case cm_read_output N k xid cursor max_bytes s of
        (Inl e, s1) \<Rightarrow> ([], Some (Inl e), s1)
      | (Inr ro, s1) \<Rightarrow>
          (case render_events w B json (ro_events ro) of
             (out, Inl e) \<Rightarrow> (out, Some (Inl e), s1)
           | (out, Inr _) \<Rightarrow>
               if \<not> ro_has_more ro then (out, Some (Inr ()), s1)
               else (case read_log_pages N w B json xid max_bytes ks (ro_next_seq ro) s1 of
                       (out', r, s2) \<Rightarrow> (out @ out', r, s2))))"

fun follow_events ::
  "(printed \<Rightarrow> unit result) \<Rightarrow> base64 \<Rightarrow> bool \<Rightarrow> (error + wire_message) list \<Rightarrow> subscription \<Rightarrow> printed list \<times> unit result" where
  "follow_events w B json [] sb = ([], Inr ())"
| "follow_events w B json (f # fs) sb =
     (case next_event (Some f) sb of
        (Inl e, _) \<Rightarrow> ([], Inl e)
      | (Inr None, _) \<Rightarrow> ([], Inr ())
      | (Inr (Some ev), sb') \<Rightarrow>
          (case render_event w B json ev of
             (out, Inl e) \<Rightarrow> (out, Inl e)
           | (out, Inr _) \<Rightarrow> (case follow_events w B json fs sb' of (out', r) \<Rightarrow> (out @ out', r))))"

definition follow_logs ::
  "'s connection \<Rightarrow> (printed \<Rightarrow> unit result) \<Rightarrow> base64 \<Rightarrow> (error + wire_message) list \<Rightarrow> nat list \<Rightarrow> logs_args \<Rightarrow> bool \<Rightarrow> 's \<Rightarrow>
   printed list \<times> unit result option \<times> 's" where
  "follow_logs N w B frames calls args json s =
     (if lo_follow args then
        (case cm_subscribe N 0 (lo_execution_id args) (lo_after_seq args) s of
           (Inl e, s1) \<Rightarrow> ([], Some (Inl e), s1)
         | (Inr sb, s1) \<Rightarrow> (case follow_events w B json frames sb of (out, r) \<Rightarrow> (out, Some r, s1)))
      else read_log_pages N w B json (lo_execution_id args) (lo_max_bytes args) calls (lo_after_seq args) s)"

end
