(* ===== verification/CliRunProperties.thy ===== *)
theory CliRunProperties
  imports CliRun LaunchDaemon ClientProperties
begin

text \<open>
  What a user sees of an execution: the pages of \<open>loom logs\<close> and the stream of \<open>loom run\<close>, against the daemon of this
  development.
\<close>

section \<open>Events as they are shown\<close>

definition shown :: "base64 \<Rightarrow> bool \<Rightarrow> execution_event \<Rightarrow> printed list" where
  "shown B json ev =
     (if json then [EventLine ev]
      else (case ev_payload ev of
          EvOutput stream data \<Rightarrow> [OutBytes stream (projr (b64_decode B data))]
        | EvCaptureTruncated limit \<Rightarrow> [TruncationNotice limit]
        | _ \<Rightarrow> []))"

definition readable :: "base64 \<Rightarrow> execution_event \<Rightarrow> bool" where
  "readable B ev \<longleftrightarrow> (\<forall>stream data. ev_payload ev = EvOutput stream data \<longrightarrow> \<not> isl (b64_decode B data))"

abbreviation always :: "printed \<Rightarrow> unit result" where
  "always \<equiv> (\<lambda>_. Inr ())"

lemma render_shown: "readable B ev \<Longrightarrow> render_event always B json ev = (shown B json ev, Inr ())"
  by (auto simp: render_event_def emit_def shown_def readable_def isl_def split: event_payload.split sum.split)

lemma render_all_shown:
  "\<forall>ev \<in> set evs. readable B ev \<Longrightarrow> render_events always B json evs = (concat (map (shown B json) evs), Inr ())"
  by (induction evs) (simp_all add: render_shown)

lemma row_readable: "b64_ok B \<Longrightarrow> event_row_ok r \<Longrightarrow> readable B (decode_event B xid r)"
  by (auto simp: event_row_ok_def decode_event_def event_from_row_def output_event_def readable_def b64_ok_def Let_def)

lemma log_readable: "b64_ok B \<Longrightarrow> db_inv db \<Longrightarrow> ev \<in> set (event_log B xid db) \<Longrightarrow> readable B ev"
  using row_readable events_ok by (auto simp: event_log_def)

text \<open>The bytes of a stream among what was printed.\<close>

fun printed_bytes :: "output_stream \<Rightarrow> printed \<Rightarrow> bytes" where
  "printed_bytes stream (OutBytes s bs) = (if s = stream then bs else [])"
| "printed_bytes stream _ = []"

lemma shown_bytes:
  assumes "b64_ok B" and "event_row_ok r"
  shows "concat (map (printed_bytes stream) (shown B False (decode_event B xid r))) = row_bytes stream r"
  using assms by (cases stream) (auto simp: event_row_ok_def decode_event_def event_from_row_def output_event_def shown_def b64_ok_def
      row_bytes_def Let_def)

lemma shown_log_bytes:
  assumes "b64_ok B" and "\<forall>r \<in> set rs. event_row_ok r"
  shows "concat (map (printed_bytes stream) (concat (map (shown B False) (map (decode_event B xid) rs)))) = concat (map (row_bytes stream) rs)"
  using assms(2) by (induction rs) (simp_all add: shown_bytes [OF assms(1)])

section \<open>The pages of a log\<close>

lemma read_call:
  assumes "cn_transport N = daemon_transport K V" and "db_inv (en_db (dm_engine dm))"
    and "find_execution xid (en_db (dm_engine dm)) = Some x" and "cursor < 2 ^ 63"
  obtains ro k where "cm_read_output N i xid cursor max_bytes dm = (Inr ro, dm)"
    and "ro_events ro = take k (drop cursor (event_log (e_base64 (de_store V)) xid (en_db (dm_engine dm))))"
    and "k \<le> xr_last_seq x - cursor" and "cursor < xr_last_seq x \<longrightarrow> 0 < k"
    and "ro_next_seq ro = cursor + k" and "ro_has_more ro \<longleftrightarrow> cursor + k < xr_last_seq x"
proof -
  have "clamp 1 MAX_REQUEST_BYTES max_bytes < u64_max" by (simp add: clamp_def MAX_REQUEST_BYTES_def)
  then obtain ro k where r: "read_output (e_base64 (de_store V)) (e_clock (de_store V) 0) xid cursor (clamp 1 MAX_REQUEST_BYTES max_bytes) (en_db (dm_engine dm)) = Inr ro"
    "ro_events ro = take k (drop cursor (event_log (e_base64 (de_store V)) xid (en_db (dm_engine dm))))"
    "k \<le> xr_last_seq x - cursor" "cursor < xr_last_seq x \<Longrightarrow> 0 < k" "ro_next_seq ro = cursor + k" "ro_has_more ro \<longleftrightarrow> cursor + k < xr_last_seq x"
    using read_output_page [OF assms(2,3,4), of "clamp 1 MAX_REQUEST_BYTES max_bytes" "e_base64 (de_store V)" "e_clock (de_store V) 0"] by metis
  have "cm_read_output N i xid cursor max_bytes dm = (Inr ro, dm)"
    using r(1) by (simp add: cm_read_output_def plain_call_def assms(1) daemon_call_expect on_engine_def read_store_def expect_output_def)
  then show thesis using that r by blast
qed

lemma pages_print_rest:
  assumes "cn_transport N = daemon_transport K V" and "db_inv (en_db (dm_engine dm))" and "b64_ok (e_base64 (de_store V))"
    and "find_execution xid (en_db (dm_engine dm)) = Some x" and "xr_last_seq x < 2 ^ 63"
    and "cursor < 2 ^ 63" and "xr_last_seq x - cursor < length calls"
  shows "read_log_pages N always (e_base64 (de_store V)) json xid max_bytes calls cursor dm =
    (concat (map (shown (e_base64 (de_store V)) json) (drop cursor (event_log (e_base64 (de_store V)) xid (en_db (dm_engine dm))))), Some (Inr ()), dm)"
  using assms(6,7)
proof (induction calls arbitrary: cursor)
  case (Cons i calls)
  let ?B = "e_base64 (de_store V)" and ?db = "en_db (dm_engine dm)"
  let ?L = "event_log ?B xid ?db"
  obtain ro k where r: "cm_read_output N i xid cursor max_bytes dm = (Inr ro, dm)" "ro_events ro = take k (drop cursor ?L)"
    "k \<le> xr_last_seq x - cursor" "cursor < xr_last_seq x \<longrightarrow> 0 < k" "ro_next_seq ro = cursor + k" "ro_has_more ro \<longleftrightarrow> cursor + k < xr_last_seq x"
    using read_call [OF assms(1,2,4) Cons.prems(1)] by blast
  have len: "length ?L = xr_last_seq x" using length_event_log [OF assms(2,4)] by blast
  have "\<forall>ev \<in> set (ro_events ro). readable ?B ev"
    using log_readable [OF assms(3,2)] r(2) by (metis in_set_dropD in_set_takeD)
  then have p: "render_events always ?B json (ro_events ro) = (concat (map (shown ?B json) (take k (drop cursor ?L))), Inr ())"
    using render_all_shown r(2) by simp
  show ?case
  proof (cases "ro_has_more ro")
    case False
    then have "take k (drop cursor ?L) = drop cursor ?L" using r(6) len by simp
    then show ?thesis using False r(1) p by simp
  next
    case True
    then have "cursor + k < 2 ^ 63" "xr_last_seq x - (cursor + k) < length calls"
      using r(3,4,6) Cons.prems assms(5) by auto
    then have "read_log_pages N always ?B json xid max_bytes calls (cursor + k) dm =
        (concat (map (shown ?B json) (drop (cursor + k) ?L)), Some (Inr ()), dm)" by (rule Cons.IH)
    moreover have rest: "take k (drop cursor ?L) @ drop (cursor + k) ?L = drop cursor ?L" by (metis append_take_drop_id drop_drop add.commute)
    have "concat (map (shown ?B json) (take k (drop cursor ?L))) @ concat (map (shown ?B json) (drop (cursor + k) ?L)) =
        concat (map (shown ?B json) (drop cursor ?L))" using arg_cong [OF rest, of "\<lambda>L. concat (map (shown ?B json) L)"] by simp
    ultimately show ?thesis using True r(1,5) p by simp
  qed
qed simp

text \<open>C39: \<open>loom logs\<close> ends and shows every event of the log after the cursor, once and in order, however the daemon cuts
  the log into pages; without \<open>--json\<close> the bytes it writes to each stream are exactly those the store holds for it.\<close>

theorem logs_print_everything:
  assumes "cn_transport N = daemon_transport K V" and "db_inv (en_db (dm_engine dm))" and "b64_ok (e_base64 (de_store V))"
    and "find_execution (lo_execution_id args) (en_db (dm_engine dm)) = Some x" and "xr_last_seq x < 2 ^ 63"
    and "lo_after_seq args < 2 ^ 63" and "\<not> lo_follow args" and "xr_last_seq x - lo_after_seq args < length calls"
  shows "\<exists>out. follow_logs N always (e_base64 (de_store V)) frames calls args json dm = (out, Some (Inr ()), dm) \<and>
    out = concat (map (shown (e_base64 (de_store V)) json)
      (drop (lo_after_seq args) (event_log (e_base64 (de_store V)) (lo_execution_id args) (en_db (dm_engine dm))))) \<and>
    (\<not> json \<longrightarrow> (\<forall>stream. concat (map (printed_bytes stream) out) =
       concat (map (row_bytes stream) (drop (lo_after_seq args) (events_of (en_db (dm_engine dm)) (lo_execution_id args))))))"
proof -
  have "\<forall>r \<in> set (drop (lo_after_seq args) (events_of (en_db (dm_engine dm)) (lo_execution_id args))). event_row_ok r"
    using events_ok [OF assms(2)] in_set_dropD by metis
  then show ?thesis
    using pages_print_rest [OF assms(1-6,8), of json "lo_max_bytes args"] shown_log_bytes [OF assms(3)] assms(7)
    by (simp add: follow_logs_def event_log_def drop_map)
qed


theorem logs_print_everything_witness:
  "\<exists>out. follow_logs demo_connection always demo_b64 [] [0, 1, 2, 3, 4, 5] \<lparr>lo_execution_id = ''a'', lo_follow = False, lo_after_seq = 1, lo_max_bytes = 1\<rparr> False demo_daemon =
     (out, Some (Inr ()), demo_daemon) \<and>
     (\<forall>stream. concat (map (printed_bytes stream) out) = concat (map (row_bytes stream) (drop 1 (events_of demo_db ''a''))))"
proof -
  have B: "b64_ok (e_base64 (de_store demo_daemon_env))" "e_base64 (de_store demo_daemon_env) = demo_b64"
    by (simp_all add: b64_ok_def demo_b64_def demo_daemon_env_def demo_env_def)
  have x: "db_inv (en_db (dm_engine demo_daemon))" "find_execution ''a'' (en_db (dm_engine demo_daemon)) = Some demo_a"
    by (simp_all add: demo_inv demo_lookups)
  have l: "xr_last_seq demo_a < 2 ^ 63" "xr_last_seq demo_a - 1 < length [0, 1, 2, 3, 4, 5 :: nat]" by (simp_all add: demo_rows)
  have N: "cn_transport demo_connection = daemon_transport demo_config demo_daemon_env" by (simp add: demo_connection_def)
  show ?thesis
    using logs_print_everything [OF N x(1) B(1), of "\<lparr>lo_execution_id = ''a'', lo_follow = False, lo_after_seq = 1, lo_max_bytes = 1\<rparr>" demo_a
        "[0, 1, 2, 3, 4, 5]" "[]" False] x l B(2) by simp
qed

section \<open>The stream of a run\<close>

lemma ends_execution_finished: "ends_execution ev = is_finished ev"
  by (simp add: ends_execution_def is_finished_def)

lemma stream_numbered:
  assumes "map ev_seq events = [Suc c..<Suc c + length events]" and "\<forall>ev \<in> set events. readable B ev" and "upto_finished events = events"
  shows "stream_events always B json (map (Inr \<circ> wire_event sub_id) events) \<lparr>sb_id = sub_id, sb_next_seq = c\<rparr> =
    (concat (map (shown B json) events), if list_ex is_finished events then SawEnd else Disconnected)"
  using assms
proof (induction events arbitrary: c)
  case (Cons ev events)
  have "[Suc c..<Suc c + length (ev # events)] = Suc c # [Suc (Suc c)..<Suc (Suc c) + length events]"
    by (simp add: upt_rec)
  then have e: "ev_seq ev = Suc c" "map ev_seq events = [Suc (Suc c)..<Suc (Suc c) + length events]"
    using Cons.prems(1) by simp_all
  have next_ev: "next_event (Some (Inr (wire_event sub_id ev))) \<lparr>sb_id = sub_id, sb_next_seq = c\<rparr> =
      (Inr (Some ev), \<lparr>sb_id = sub_id, sb_next_seq = Suc c\<rparr>)"
    using e(1) by (simp add: wire_event_def)
  show ?case
  proof (cases "is_finished ev")
    case True
    then have "events = []" using Cons.prems(3) by simp
    then show ?thesis using next_ev True render_shown Cons.prems(2) by (simp add: ends_execution_finished)
  next
    case False
    then have "upto_finished events = events" using Cons.prems(3) by simp
    then show ?thesis using Cons.IH [OF e(2)] Cons.prems(2) next_ev render_shown False by (simp add: ends_execution_finished)
  qed
qed simp

text \<open>C40: While it is served by the daemon, \<open>loom run\<close> shows consecutive events of the execution's log from the first on,
  each as it is stored. When it has seen the end, it has shown the log up to the terminal event and ends with what the
  daemon says of the execution. When the connection ends before, it ends without an error only if the execution is over.\<close>

theorem run_shows_log:
  fixes inputs :: "database sub_input list" and final :: database
  assumes "db_inv final" and "find_execution xid final = Some x" and "xr_last_seq x < 2 ^ 63"
    and "\<forall>db \<in> set ss \<union> \<Union> (states_read ` set inputs).
           db_inv db \<and> find_execution xid db \<noteq> None \<and> db_advances db final"
    and "\<forall>ev ss. Received (Recv ev) ss \<in> set inputs \<longrightarrow> ev_execution_id ev = xid \<longrightarrow> ev \<in> set (event_log B xid final)"
    and "PeerMessage \<notin> set inputs" and "ex_last_seq ex \<le> xr_last_seq x" and "b64_ok B"
    and "handle_subscription d (replay_page B now xid) (Inr ex) (cn_ids N 1) xid 0 ss inputs = (first # rest, st)"
    and "cn_transport N (wire_request (cn_ids N 1) (OpSubscribe xid 0)) s = (ReplyFrame (Inr first), s1)"
  shows "\<exists>events r s2. stream_until_finished N always B json (map Inr rest) xid 0 s = (concat (map (shown B json) events), r, s2) \<and>
    prefix events (event_log B xid final) \<and>
    (if list_ex is_finished events
     then events = upto_finished (event_log B xid final) \<and> (r, s2) = cm_get N 2 xid s1
     else (\<forall>result. r = Inr result \<longrightarrow> cm_get N 2 xid s1 = (Inr result, s2) \<and> is_terminal (ex_state result)))"
proof -
  let ?L = "event_log B xid final"
  obtain events where e: "first # rest = wire_ok (cn_ids N 1) (PSubscription \<lparr>su_execution = ex, su_next_seq = 0\<rparr>) # map (wire_event (cn_ids N 1)) events"
    and p: "prefix events ?L" "upto_finished events = events"
    using subscription_served [OF assms(1-6), of 0 ex d now "cn_ids N 1"] assms(7,9) by auto
  have seqs: "map ev_seq ?L = [1..<Suc (length ?L)]"
    using store_pages.numbered [of xid final B] assms(1-3) by (auto simp: logged_def)
  have "events = take (length events) (drop 0 ?L)" using p(1) by (auto simp: prefix_def)
  then have n: "map ev_seq events = [Suc 0..<Suc 0 + length events]" using numbered_slice [OF seqs] by metis
  have "\<forall>ev \<in> set events. readable B ev" using log_readable [OF assms(8,1)] p(1) set_mono_prefix by blast
  then have "stream_events always B json (map (Inr \<circ> wire_event (cn_ids N 1)) events) \<lparr>sb_id = cn_ids N 1, sb_next_seq = 0\<rparr> =
      (concat (map (shown B json) events), if list_ex is_finished events then SawEnd else Disconnected)"
    using stream_numbered [OF n _ p(2)] by blast
  moreover have "rest = map (wire_event (cn_ids N 1)) events" using e by simp
  ultimately have str: "stream_events always B json (map Inr rest) \<lparr>sb_id = cn_ids N 1, sb_next_seq = 0\<rparr> =
      (concat (map (shown B json) events), if list_ex is_finished events then SawEnd else Disconnected)"
    by (simp add: comp_def)
  have sub: "cm_subscribe N 1 xid 0 s = (Inr \<lparr>sb_id = cn_ids N 1, sb_next_seq = 0\<rparr>, s1)"
    using assms(10) e by (simp add: cm_subscribe_def wire_ok_def expect_subscription_def)
  have full: "events = upto_finished ?L" if "list_ex is_finished events"
    using p that by (auto simp: prefix_def upto_finished_append)
  show ?thesis
  proof (cases "list_ex is_finished events")
    case True
    then show ?thesis using str sub p(1) full [OF True]
      by (intro exI [of _ events] exI [of _ "fst (cm_get N 2 xid s1)"] exI [of _ "snd (cm_get N 2 xid s1)"]) (simp add: stream_until_finished_def)
  next
    case False
    obtain g s2 where g: "cm_get N 2 xid s1 = (g, s2)" by fastforce
    let ?r = "case g of Inl e \<Rightarrow> Inl e
      | Inr y \<Rightarrow> if is_terminal (ex_state y) then Inr y else Inl (Protocol ''execution subscription closed before completion'')"
    have "seq_res (cm_get N 2 xid) (\<lambda>y. pure_res (if is_terminal (ex_state y) then Inr y
       else Inl (Protocol ''execution subscription closed before completion''))) s1 = (?r, s2)"
      using g by (cases g) (simp_all add: seq_res_def pure_res_def)
    then have u: "stream_until_finished N always B json (map Inr rest) xid 0 s = (concat (map (shown B json) events), ?r, s2)"
      using str sub False by (simp add: stream_until_finished_def)
    have "\<forall>result. ?r = Inr result \<longrightarrow> g = Inr result \<and> is_terminal (ex_state result)" by (cases g) auto
    then show ?thesis using u p(1) False g by auto
  qed
qed

theorem run_shows_log_witness:
  "\<exists>N ss events r s2. stream_until_finished N always demo_b64 False (map Inr (tl (fst (handle_subscription demo_display (replay_page demo_b64 80 ''b'')
        (get_execution 80 ''b'' demo_db) ''q'' ''b'' 0 ss [PeerClosed])))) ''b'' 0 () =
      (concat (map (shown demo_b64 False) events), r, s2) \<and> prefix events (event_log demo_b64 ''b'' demo_db)"
proof -
  obtain ex where ex: "get_execution 80 ''b'' demo_db = Inr ex" "ex_last_seq ex = xr_last_seq demo_b"
    using get_execution_some [OF demo_inv demo_lookups(2)] by blast
  obtain messages st where h: "handle_subscription demo_display (replay_page demo_b64 80 ''b'') (Inr ex) ''q'' ''b'' 0
      [demo_db] [PeerClosed] = (messages, st)"
    by (cases "handle_subscription demo_display (replay_page demo_b64 80 ''b'') (Inr ex) ''q'' ''b'' 0 [demo_db] [PeerClosed]")
  then obtain first rest where m: "messages = first # rest"
    by (auto simp: handle_subscription_def split: if_split_asm prod.split_asm)
  let ?N = "\<lparr>cn_client = \<lparr>cl_socket = ''/r/loomd.sock'', cl_show_result = (\<lambda>_. ''?'')\<rparr>,
      cn_transport = (\<lambda>_ u. (ReplyFrame (Inr first), u)), cn_ids = (\<lambda>_. ''q'')\<rparr> :: unit connection"
  have a: "\<forall>db \<in> set [demo_db] \<union> \<Union> (states_read ` set [PeerClosed]).
      db_inv db \<and> find_execution ''b'' db \<noteq> None \<and> db_advances db demo_db"
    by (simp add: demo_inv demo_lookups)
  have l: "xr_last_seq demo_b < 2 ^ 63" by (simp add: demo_rows)
  have B: "b64_ok demo_b64" by (simp add: b64_ok_def demo_b64_def)
  from run_shows_log [OF demo_inv demo_lookups(2) l a _ _ _ B, where N = ?N and ex = ex and d = demo_display and now = 80 and first = first
      and rest = rest and st = st and s = "()" and ?s1.0 = "()" and json = False] ex h m
  obtain events r s2 where "stream_until_finished ?N always demo_b64 False (map Inr rest) ''b'' 0 () =
      (concat (map (shown demo_b64 False) events), r, s2)" "prefix events (event_log demo_b64 ''b'' demo_db)"
    by auto
  then show ?thesis using ex(1) h m
    by (intro exI [of _ ?N] exI [of _ "[demo_db]"] exI [of _ events] exI [of _ r] exI [of _ s2]) simp
qed

text \<open>A connection that ends early is not noticed when the execution is over: the rest of the output is missing.\<close>

lemma lost_stream_unnoticed:
  assumes "cm_subscribe N 1 xid 0 s = (Inr sb, s1)" and "cm_get N 2 xid s1 = (Inr x, s2)" and "is_terminal (ex_state x)"
  shows "stream_until_finished N w B json [] xid 0 s = ([], Inr x, s2)"
  using assms by (simp add: stream_until_finished_def)

end
