(* ===== verification/ScreenProperties.thy ===== *)
theory ScreenProperties
  imports Screen CliRunProperties
begin

text \<open>
  The properties of the screens' pane and of the observer: what is shown of the output, and which execution a
  confirmed cancellation reaches.
\<close>

section \<open>The output of the selected execution\<close>

lemma readable_decodes: "readable B ev \<Longrightarrow> ev_payload ev = EvOutput stream data \<Longrightarrow> \<not> isl (b64_decode B data)"
  by (simp add: readable_def)

text \<open>The pane holds the end of a log up to its cursor.\<close>

definition pane_shows :: "base64 \<Rightarrow> execution_event list \<Rightarrow> 'a pane_scheme \<Rightarrow> bool" where
  "pane_shows B L st \<longleftrightarrow> pane_ok st \<and> pn_cursor st \<le> length L \<and> pn_output st = fitting_end (event_chunks B (take (pn_cursor st) L))"

lemma pane_shows_reset [simp]: "pane_shows B L (reset_output st)"
  by (simp add: pane_shows_def reset_output_def pane_ok_def event_chunks_def List.map_filter_simps)

lemma ingest_page:
  assumes "pane_shows B L st" and "\<forall>ev \<in> set L. readable B ev" and "k \<le> length L - pn_cursor st"
  shows "\<exists>st1. ingest B (take k (drop (pn_cursor st) L)) (pn_cursor st + k) st = (Inr (), st1) \<and> pane_shows B L st1 \<and>
    pn_cursor st1 = pn_cursor st + k \<and> pn_error st1 = pn_error st"
proof -
  let ?c = "pn_cursor st" and ?evs = "take k (drop (pn_cursor st) L)"
  have sh: "pane_ok st" "?c \<le> length L" "pn_output st = fitting_end (event_chunks B (take ?c L))" using assms(1) by (simp_all add: pane_shows_def)
  have "\<forall>ev \<in> set ?evs. \<forall>stream data. ev_payload ev = EvOutput stream data \<longrightarrow> \<not> isl (b64_decode B data)"
    using assms(2) readable_decodes in_set_dropD in_set_takeD by metis
  then obtain notice where i: "ingest_events B ?evs st = (Inr (), st\<lparr>pn_output := fitting_end (pn_output st @ event_chunks B ?evs),
    pn_bytes := chunks_bytes (fitting_end (pn_output st @ event_chunks B ?evs)), pn_notice := notice\<rparr>)"
    using ingest_events_fitting [OF _ sh(1)] by blast
  have f: "fitting_end (pn_output st @ event_chunks B ?evs) = fitting_end (event_chunks B (take (?c + k) L))"
    by (simp add: sh(3) fitting_end_append take_add event_chunks_append)
  show ?thesis using i f sh(2) assms(3)
    by (simp add: ingest_def pane_shows_def pane_ok_def [of "_\<lparr>pn_cursor := _\<rparr>"] fitting_end_fits)
qed

lemma load_pages_shows:
  assumes "cn_transport N = daemon_transport K V" and "db_inv (en_db (dm_engine dm))" and "b64_ok (e_base64 (de_store V))"
    and "find_execution xid (en_db (dm_engine dm)) = Some x" and "xr_last_seq x < 2 ^ 63"
    and "pane_shows (e_base64 (de_store V)) (event_log (e_base64 (de_store V)) xid (en_db (dm_engine dm))) st"
    and "xr_last_seq x - pn_cursor st < length ks"
  shows "\<exists>st'. load_pages d (e_base64 (de_store V)) (map (\<lambda>k c. fst (cm_read_output N k xid c OUTPUT_PAGE_BYTES dm)) ks) st = Some st' \<and>
    pane_shows (e_base64 (de_store V)) (event_log (e_base64 (de_store V)) xid (en_db (dm_engine dm))) st' \<and>
    pn_cursor st' = xr_last_seq x \<and> pn_error st' = pn_error st"
  using assms(6,7)
proof (induction ks arbitrary: st)
  case (Cons i ks)
  let ?B = "e_base64 (de_store V)" and ?L = "event_log (e_base64 (de_store V)) xid (en_db (dm_engine dm))" and ?c = "pn_cursor st"
  have len: "length ?L = xr_last_seq x" using length_event_log [OF assms(2,4)] by blast
  have c: "?c \<le> xr_last_seq x" using Cons.prems(1) len by (simp add: pane_shows_def)
  then have "?c < 2 ^ 63" using assms(5) by simp
  from read_call [OF assms(1,2,4) this, of i OUTPUT_PAGE_BYTES] obtain ro k where r: "cm_read_output N i xid ?c OUTPUT_PAGE_BYTES dm = (Inr ro, dm)"
    "ro_events ro = take k (drop ?c ?L)" "k \<le> xr_last_seq x - ?c" "?c < xr_last_seq x \<longrightarrow> 0 < k"
    "ro_next_seq ro = ?c + k" "ro_has_more ro \<longleftrightarrow> ?c + k < xr_last_seq x" by blast
  have "\<forall>ev \<in> set ?L. readable ?B ev" using log_readable [OF assms(3,2)] by blast
  then obtain st1 where s: "ingest ?B (ro_events ro) (ro_next_seq ro) st = (Inr (), st1)" "pane_shows ?B ?L st1"
    "pn_cursor st1 = ?c + k" "pn_error st1 = pn_error st"
    using ingest_page [OF Cons.prems(1)] r(2,3,5) len by metis
  show ?case
  proof (cases "ro_has_more ro")
    case False
    then show ?thesis using r(1,3,6) s c by (simp add: Let_def)
  next
    case True
    then have "0 < k" using r(3,4,6) by simp
    moreover have "xr_last_seq x - ?c < Suc (length ks)" using Cons.prems(2) by simp
    ultimately have "xr_last_seq x - pn_cursor st1 < length ks" using s(3) True r(6) by simp
    then obtain st' where "load_pages d ?B (map (\<lambda>k c. fst (cm_read_output N k xid c OUTPUT_PAGE_BYTES dm)) ks) st1 = Some st'"
      "pane_shows ?B ?L st'" "pn_cursor st' = xr_last_seq x" "pn_error st' = pn_error st1"
      using Cons.IH [OF s(2)] by blast
    then show ?thesis using True r(1) s \<open>0 < k\<close> by (simp add: Let_def)
  qed
qed simp

text \<open>C36: Loading the output of the selected execution ends, and the pane then holds the longest end of the execution's log
  that fits into its megabyte, in order and without a gap, whatever part of the log it held before and however the daemon
  cuts the rest into pages.\<close>

theorem pane_shows_tail:
  assumes "cn_transport N = daemon_transport K V" and "db_inv (en_db (dm_engine dm))" and "b64_ok (e_base64 (de_store V))"
    and "find_execution xid (en_db (dm_engine dm)) = Some x" and "xr_last_seq x < 2 ^ 63"
    and "pane_shows (e_base64 (de_store V)) (event_log (e_base64 (de_store V)) xid (en_db (dm_engine dm))) st"
    and "xr_last_seq x - pn_cursor st < n"
  shows "\<exists>st'. load_output d (e_base64 (de_store V)) (\<lambda>xid. map (\<lambda>k c. fst (cm_read_output N k xid c OUTPUT_PAGE_BYTES dm)) [0..<n]) (Some xid) st = Some st' \<and>
    pn_cursor st' = xr_last_seq x \<and> pn_error st' = pn_error st \<and>
    (let all = event_chunks (e_base64 (de_store V)) (event_log (e_base64 (de_store V)) xid (en_db (dm_engine dm))) in
     suffix (pn_output st') all \<and> chunks_bytes (pn_output st') \<le> OUTPUT_CAP_BYTES \<and>
     (\<forall>cs. suffix cs all \<longrightarrow> chunks_bytes cs \<le> OUTPUT_CAP_BYTES \<longrightarrow> suffix cs (pn_output st')))"
proof -
  let ?L = "event_log (e_base64 (de_store V)) xid (en_db (dm_engine dm))"
  have "xr_last_seq x - pn_cursor st < length [0..<n]" using assms(7) by simp
  from load_pages_shows [OF assms(1-6) this] obtain st' where s:
    "load_pages d (e_base64 (de_store V)) (map (\<lambda>k c. fst (cm_read_output N k xid c OUTPUT_PAGE_BYTES dm)) [0..<n]) st = Some st'"
    "pane_shows (e_base64 (de_store V)) ?L st'" "pn_cursor st' = xr_last_seq x" "pn_error st' = pn_error st" by blast
  have "take (pn_cursor st') ?L = ?L" using s(3) length_event_log(1) [OF assms(2,4)] by simp
  then have "pn_output st' = fitting_end (event_chunks (e_base64 (de_store V)) ?L)" using s(2) by (simp add: pane_shows_def)
  then show ?thesis using s fitting_end_suffix fitting_end_fits fitting_end_longest by (auto simp: load_output_def Let_def)
qed


definition demo_pane :: pane where
  "demo_pane = \<lparr>pn_follow = True, pn_scroll = 0, pn_cursor = 0, pn_output = [], pn_bytes = 0, pn_notice = None, pn_error = None\<rparr>"

theorem pane_shows_tail_witness:
  "\<exists>st'. load_output demo_display demo_b64 (\<lambda>xid. map (\<lambda>k c. fst (cm_read_output demo_connection k xid c OUTPUT_PAGE_BYTES demo_daemon)) [0..<9]) (Some ''a'')
      (reset_output demo_pane) = Some st' \<and> pn_cursor st' = xr_last_seq demo_a"
proof -
  have B: "b64_ok (e_base64 (de_store demo_daemon_env))" "e_base64 (de_store demo_daemon_env) = demo_b64"
    by (simp_all add: b64_ok_def demo_b64_def demo_daemon_env_def demo_env_def)
  have x: "db_inv (en_db (dm_engine demo_daemon))" "find_execution ''a'' (en_db (dm_engine demo_daemon)) = Some demo_a"
    by (simp_all add: demo_inv demo_lookups)
  have l: "xr_last_seq demo_a < 2 ^ 63" "xr_last_seq demo_a - pn_cursor (reset_output demo_pane) < 9" by (simp_all add: demo_rows)
  have N: "cn_transport demo_connection = daemon_transport demo_config demo_daemon_env" by (simp add: demo_connection_def)
  show ?thesis
    using pane_shows_tail [OF N x(1) B(1) x(2) l(1) pane_shows_reset l(2), of demo_display] B(2) by (auto simp del: upt.simps)
qed

section \<open>Following the output\<close>

text \<open>A pane that follows the output shows its last line exactly when the lines above its window number at most 65535, which
  is the largest position the widget can be given; beyond that the window stays where it is while the output goes on.\<close>

theorem follow_reaches_end:
  assumes "pn_follow st"
  shows "length (output_lines (scroll_pane height st)) \<le> shown_from (scroll_pane height st) + (height - 2) \<longleftrightarrow>
    length (output_lines st) \<le> 65535 + (height - 2)"
  using assms by (auto simp: scroll_pane_def shown_from_def output_lines_def Let_def)

theorem follow_reaches_end_witness: "shown_lines 3 (scroll_pane 3 demo_pane) = [''No captured output'']"
  using follow_reaches_end [of demo_pane 3]
  by (simp add: demo_pane_def shown_lines_def scroll_pane_def shown_from_def output_lines_def Let_def)

lemma split_newlines: "split_on (CHR 0x0A) (replicate n (CHR 0x0A)) = replicate (Suc n) []"
  by (induction n) auto

text \<open>A megabyte holds more lines than that, on every terminal.\<close>

lemma follow_falls_behind:
  assumes "height < 2 ^ 16"
  shows "\<exists>st :: pane. pane_ok st \<and> pn_follow st \<and>
    shown_from (scroll_pane height st) + (height - 2) < length (output_lines (scroll_pane height st))"
proof -
  have "\<exists>st :: pane. pane_ok st \<and> pn_follow st \<and> length (output_lines st) = Suc n" if "n \<le> OUTPUT_CAP_BYTES" for n
    using that by (intro exI [of _ "demo_pane\<lparr>pn_output := [\<lparr>oc_stream = Stdout, oc_text = replicate n (CHR 0x0A), oc_bytes = n\<rparr>], pn_bytes := n\<rparr>"])
      (simp add: pane_ok_def demo_pane_def output_lines_def split_newlines)
  from this [of 200000] obtain st :: pane where st: "pane_ok st" "pn_follow st" "length (output_lines st) = Suc 200000"
    by (auto simp: OUTPUT_CAP_BYTES_def)
  have "output_lines (scroll_pane height st) = output_lines st" by (simp add: scroll_pane_def output_lines_def Let_def)
  moreover have "height - 2 < 65536" using assms by simp
  then have "65536 \<le> 200001 - (height - 2)" "height - 2 < 134466" by linarith+
  ultimately show ?thesis using st
    by (intro exI [of _ st]) (simp add: scroll_pane_def shown_from_def Let_def)
qed

section \<open>Confirming a cancellation\<close>

text \<open>The sessions the observer is given, in order.\<close>

fun tick_details :: "(nat option result \<times> watch_input) list \<Rightarrow> agent_session_detail list" where
  "tick_details [] = []"
| "tick_details ((_, i) # turns) =
     (case i of WiTick t \<Rightarrow> (case wt_detail t of Inr d \<Rightarrow> d # tick_details turns | Inl e \<Rightarrow> tick_details turns) | _ \<Rightarrow> tick_details turns)"

text \<open>A session keeps its executions.\<close>

definition keeps_executions :: "agent_session_detail list \<Rightarrow> bool" where
  "keeps_executions ds \<longleftrightarrow> sorted_wrt (\<lambda>a b. set (detail_ids a) \<subseteq> set (detail_ids b)) ds"

text \<open>The execution a question is about is the selected one.\<close>

definition asks_selected :: "watch_state \<Rightarrow> bool" where
  "asks_selected st \<longleftrightarrow>
     (\<forall>xid. wa_confirmation st = Some (ConfirmCancelOf xid) \<longrightarrow> wa_selected st = Some xid \<and> xid \<in> set (detail_ids (wa_detail st)))"

lemma same_watch:
  fixes st st' :: watch_state
  assumes "pane.more st' = pane.more st"
  shows "wa_confirmation st' = wa_confirmation st" "wa_selected st' = wa_selected st" "wa_detail st' = wa_detail st"
  using assms unfolding watch_state.select_defs pane.select_defs o_apply id_apply by (simp_all only:)

lemma asks_selected_more:
  assumes "pane.more st' = pane.more st"
  shows "asks_selected st' = asks_selected st"
  by (simp add: asks_selected_def same_watch [OF assms])

lemma no_question: "wa_confirmation st = None \<Longrightarrow> asks_selected st"
  by (simp add: asks_selected_def)

lemma watch_selected_id: "watch_selected st = Some x \<Longrightarrow> wa_selected st = Some (ex_id x) \<and> ex_id x \<in> set (detail_ids (wa_detail st))"
  by (auto simp: watch_selected_def watch_selected_index_def detail_ids_def position_Some_iff split: option.split_asm)

lemma ask_cancel_asks: "wa_confirmation st = None \<Longrightarrow> asks_selected (watch_ask_cancel st)"
  using watch_selected_id by (auto simp: watch_ask_cancel_def asks_selected_def split: option.split)

text \<open>Keys keep it, and a cancellation is the answer to the question.\<close>

lemma watch_key_asks:
  assumes "asks_selected st" and "watch_key key st = (command, st1)"
  shows "asks_selected st1 \<and> wa_detail st1 = wa_detail st \<and>
    (command = WcCancel \<longrightarrow> wa_confirmation st = map_option ConfirmCancelOf (wa_selected st1))"
proof (cases "ke_press key \<and> wa_confirmation st = None")
  case True
  then show ?thesis
    using assms(2) ask_cancel_asks [of st]
    by (auto simp: watch_key_def watch_plain_key_def reload_if_def watch_select_relative_def reset_output_def watch_ask_cancel_def Let_def
        no_question split: key_code.split_asm if_split_asm option.split_asm)
next
  case False
  then show ?thesis using assms
    by (cases "wa_confirmation st"; cases "the (wa_confirmation st)")
      (auto simp: watch_key_def watch_confirm_key_def asks_selected_def split: if_split_asm)
qed

lemma cancel_notice_more: "pane.more (cancel_notice d r st) = pane.more st"
  by (simp add: cancel_notice_def split: sum.split)

lemma replay_more:
  "pane.more (open_replay E d st) = pane.more st" "pane.more (snd (export_replay E d st)) = pane.more st"
  by (simp_all add: open_replay_def export_replay_def Let_def split: sum.split)

lemma watch_command_more:
  assumes "watch_command_step E A command st = Some (rq, r, st1)"
  shows "pane.more st1 = pane.more st \<and> (rq \<noteq> None \<longrightarrow> command = WcCancel \<and> rq = wa_selected st)"
  using assms load_output_more replay_more(2) [of E "wa_detail st" st]
  by (cases command) (auto simp: watch_command_step_def cancel_notice_more replay_more(1) split: option.split_asm prod.split_asm sum.split_asm)

lemma watch_refresh_asks:
  assumes "asks_selected st" and "set (detail_ids (wa_detail st)) \<subseteq> set (detail_ids d)" and "watch_refresh d st = (changed, st1)"
  shows "asks_selected st1 \<and> wa_detail st1 = d"
  using assms by (auto simp: asks_selected_def watch_refresh_def Let_def split: option.split_asm if_split_asm)

text \<open>One turn.\<close>

lemma watch_turn_asks:
  assumes "asks_selected st" and "keeps_executions (wa_detail st # tick_details (turn # turns))"
    and "watch_turn E turn (st, retry_at) = Some (rq, stop, st1, retry1)"
  shows "asks_selected st1 \<and> keeps_executions (wa_detail st1 # tick_details turns) \<and> (rq \<noteq> None \<longrightarrow> wa_confirmation st = map_option ConfirmCancelOf rq)"
proof -
  obtain a i where t: "turn = (a, i)" by fastforce
  have tail: "keeps_executions (wa_detail st # tick_details turns)"
    using assms(2) by (auto simp: t keeps_executions_def split: watch_input.split_asm sum.split_asm)
  show ?thesis
  proof (cases a)
    case (Inl e)
    then show ?thesis using assms(1,3) tail by (simp add: watch_turn_def t)
  next
    case (Inr area)
    let ?st = "watch_draw area st"
    have m: "pane.more ?st = pane.more st" by (simp add: watch_draw_def split: option.split)
    have a: "asks_selected ?st" using assms(1) asks_selected_more [OF m] by simp
    have step: "watch_step E i (?st, retry_at) = Some (rq, stop, st1, retry1)" using assms(3) by (simp add: watch_turn_def t Inr)
    show ?thesis
    proof (cases i)
      case (WiKey key A)
      obtain command st2 where k: "watch_key key ?st = (command, st2)" by fastforce
      then obtain r where c: "watch_command_step E A command st2 = Some (rq, r, st1)" using step by (auto simp: watch_step_def WiKey)
      have m2: "pane.more st1 = pane.more st2" and q: "rq \<noteq> None \<longrightarrow> command = WcCancel \<and> rq = wa_selected st2"
        using watch_command_more [OF c] by auto
      from watch_key_asks [OF a k] q show ?thesis
        using tail asks_selected_more [OF m2] same_watch [OF m] same_watch(3) [OF m2] by simp
    next
      case (WiTick k)
      show ?thesis
      proof (cases "wt_now k < retry_at \<or> isl (wt_detail k)")
        case True
        then have "pane.more st1 = pane.more ?st" "rq = None"
          using step by (auto simp: watch_step_def watch_tick_step_def WiTick isl_def split: if_split_asm)
        then show ?thesis using a tail asks_selected_more same_watch m by metis
      next
        case False
        then obtain d where d: "wt_detail k = Inr d" by (cases "wt_detail k") auto
        obtain changed st2 where r: "watch_refresh d ?st = (changed, st2)" by fastforce
        have "pane.more st1 = pane.more st2" "rq = None"
          using step False d r load_output_more by (auto simp: watch_step_def watch_tick_step_def WiTick Let_def reset_output_def split: if_split_asm) fastforce+
        moreover have "asks_selected st2 \<and> wa_detail st2 = d"
          using watch_refresh_asks [OF a _ r] assms(2) same_watch [OF m] by (simp add: t WiTick d keeps_executions_def)
        moreover have "keeps_executions (d # tick_details turns)" using assms(2) by (simp add: t WiTick d keeps_executions_def)
        ultimately show ?thesis using asks_selected_more same_watch by metis
      qed
    next
      case (WiBroken m')
      then have "pane.more st1 = pane.more ?st" "rq = None" using step by (auto simp: watch_step_def)
      then show ?thesis using a tail asks_selected_more same_watch m by metis
    qed (use step a tail same_watch(3) [OF m] in \<open>auto simp: watch_step_def\<close>)
  qed
qed

lemma watch_run_asks:
  assumes "asks_selected (fst s)" and "keeps_executions (wa_detail (fst s) # tick_details turns)"
    and "(st, Some xid) \<in> set (watch_run E turns s)"
  shows "wa_confirmation st = Some (ConfirmCancelOf xid)"
  using assms
proof (induction turns arbitrary: s)
  case (Cons turn turns)
  obtain st0 retry where s: "s = (st0, retry)" by fastforce
  obtain rq stop st1 retry1 where t: "watch_turn E turn (st0, retry) = Some (rq, stop, st1, retry1)"
    using Cons.prems(3) by (cases "watch_turn E turn (st0, retry)") (auto simp: s)
  from watch_turn_asks [OF _ _ t, of turns] Cons.prems Cons.IH [of "(st1, retry1)"] show ?case
    by (auto simp: s t split: if_split_asm)
qed simp

text \<open>C37: In a run of the observer on a session that keeps its executions, every cancellation that is sent is for the execution
  the user was asked about: the question on the screen at that moment names it, whatever keys, polls, failures and
  drawings lie between the question and the answer.\<close>

theorem watch_cancels_asked:
  assumes "watch_start E reads d started = Some s" and "keeps_executions (d # tick_details turns)"
    and "(st, Some xid) \<in> set (watch_run E turns s)"
  shows "wa_confirmation st = Some (ConfirmCancelOf xid)"
proof -
  obtain st0 where l: "load_output (sc_display E) (sc_base64 E) reads (wa_selected (watch_new d)) (watch_new d) = Some st0" "s = (st0, started)"
    using assms(1) by (auto simp: watch_start_def)
  from same_watch [OF load_output_more [OF l(1)]] have "wa_confirmation st0 = None" "wa_detail st0 = d" by (simp_all add: watch_new_def)
  then show ?thesis using watch_run_asks [OF _ _ assms(3)] assms(2) l(2) no_question by simp
qed


definition demo_listed :: execution where
  "demo_listed = \<lparr>ex_id = ''a'', ex_workspace_id = ''w0'', ex_state = Running, ex_command = Argv ''make'' [], ex_command_display = ''make'',
     ex_cwd = ''/w'', ex_env_keys = [], ex_initiator = \<lparr>in_kind = ''codex'', in_name = None, in_session_id = Some ''s1''\<rparr>,
     ex_created_at_ms = 10, ex_started_at_ms = Some 11, ex_ended_at_ms = None, ex_duration_ms = None, ex_pid = Some 9,
     ex_pgid = Some 9, ex_outcome = None, ex_captured_bytes = 0, ex_output_truncated = False, ex_last_seq = 1\<rparr>"

definition demo_recorded :: agent_session where
  "demo_recorded = \<lparr>as_id = ''s1'', as_workspace_id = ''w0'', as_state = Recording, as_agent_kind = ''codex'', as_name = None,
     as_command = Argv ''codex'' [], as_command_display = ''codex'', as_cwd = ''/w'', as_created_at_ms = 5, as_ended_at_ms = None,
     as_duration_ms = None, as_recorder_pid = 7, as_outcome = None, as_captured_bytes = 0, as_output_truncated = False,
     as_initial_cols = 80, as_initial_rows = 24, as_cast_path = ''/s/s1/a.cast'', as_html_path = ''/s/s1/a.html''\<rparr>"

definition demo_shown_session :: agent_session_detail where
  "demo_shown_session = \<lparr>sd_session = demo_recorded, sd_executions = [demo_listed, demo_listed\<lparr>ex_id := ''b''\<rparr>], sd_turns = [], sd_actions = []\<rparr>"

definition demo_screen :: screen_env where
  "demo_screen = \<lparr>sc_display = demo_display, sc_base64 = demo_b64, sc_export = demo_export, sc_open = (\<lambda>_. Inr ()),
     sc_exists = (\<lambda>_. False), sc_cwd = Inr ''/w''\<rparr>"

definition demo_calls :: watch_calls where
  "demo_calls = \<lparr>wc_cancel = (\<lambda>_. Inl DaemonDraining), wc_reads = (\<lambda>_. [\<lambda>_. Inl DaemonDraining])\<rparr>"

definition demo_press :: "string \<Rightarrow> nat option result \<times> watch_input" where
  "demo_press c = (Inr None, WiKey \<lparr>ke_press = True, ke_code = KChar c, ke_control = False, ke_alt = False\<rparr> demo_calls)"

definition demo_tick :: "agent_session_detail \<Rightarrow> nat option result \<times> watch_input" where
  "demo_tick d = (Inr (Some 9), WiTick \<lparr>wt_now = 5, wt_detail = Inr d, wt_reads = (\<lambda>_. [\<lambda>_. Inl DaemonDraining]), wt_after = 5\<rparr>)"

lemmas demo_watch_defs = watch_start_def watch_turn_def watch_draw_def watch_step_def watch_key_def watch_plain_key_def watch_ask_cancel_def
  watch_confirm_key_def watch_command_step_def watch_tick_step_def watch_refresh_def load_output_def watch_new_def watch_selected_def
  watch_selected_index_def detail_ids_def is_live_def confirming_keys_def cancel_notice_def last_opt_def scroll_pane_def output_lines_def
  demo_press_def demo_tick_def demo_calls_def demo_shown_session_def demo_listed_def

theorem watch_cancels_asked_witness:
  "\<exists>st s. watch_start demo_screen (\<lambda>_. [\<lambda>_. Inl DaemonDraining]) demo_shown_session 5 = Some s \<and>
     (st, Some ''b'') \<in> set (watch_run demo_screen [demo_press ''c'', demo_tick demo_shown_session, demo_press ''y''] s) \<and>
     wa_confirmation st = Some (ConfirmCancelOf ''b'')"
proof -
  obtain s where s: "watch_start demo_screen (\<lambda>_. [\<lambda>_. Inl DaemonDraining]) demo_shown_session 5 = Some s"
    by (simp add: demo_watch_defs Let_def)
  have "map snd (watch_run demo_screen [demo_press ''c'', demo_tick demo_shown_session, demo_press ''y''] s) = [None, None, Some ''b'']"
    using s by (auto simp: demo_watch_defs Let_def reset_output_def)
  then have "Some ''b'' \<in> snd ` set (watch_run demo_screen [demo_press ''c'', demo_tick demo_shown_session, demo_press ''y''] s)"
    by (metis list.set_intros set_map)
  then have "\<exists>st. (st, Some ''b'') \<in> set (watch_run demo_screen [demo_press ''c'', demo_tick demo_shown_session, demo_press ''y''] s)"
    by fastforce
  moreover have "keeps_executions (demo_shown_session # tick_details [demo_press ''c'', demo_tick demo_shown_session, demo_press ''y''])"
    by (simp add: keeps_executions_def demo_press_def demo_tick_def)
  ultimately show ?thesis using watch_cancels_asked [OF s] s by blast
qed

text \<open>The answer does not carry the execution: when the session no longer lists it, another one is cancelled.\<close>

lemma another_is_cancelled:
  "\<exists>s. watch_start demo_screen (\<lambda>_. [\<lambda>_. Inl DaemonDraining]) demo_shown_session 5 = Some s \<and>
     map (\<lambda>(st, rq). (wa_confirmation st, rq))
       (watch_run demo_screen [demo_press ''c'', demo_tick (demo_shown_session\<lparr>sd_executions := [demo_listed]\<rparr>), demo_press ''y''] s) =
     [(None, None), (Some (ConfirmCancelOf ''b''), None), (Some (ConfirmCancelOf ''b''), Some ''a'')]"
  by (simp add: demo_watch_defs Let_def reset_output_def)

end
