(* ===== verification/OperatorProperties.thy ===== *)
theory OperatorProperties
  imports OperatorLoop ScreenProperties
begin

text \<open>
  The properties of the operator screen: what is selected is always visible, the stream that is open is the selected
  execution's, a cancellation was asked for, and a click selects the row it hits.
\<close>

section \<open>The selection\<close>

definition selection_visible :: "operator_state \<Rightarrow> bool" where
  "selection_visible st \<longleftrightarrow>
     (case op_execution st of None \<Rightarrow> visible_execution_ids st = [] | Some i \<Rightarrow> i \<in> set (visible_execution_ids st))"

text \<open>What decides it.\<close>

definition view_of :: "operator_state \<Rightarrow> string option \<times> agent_session_detail option \<times> execution list \<times> string" where
  "view_of st = (op_execution st, op_detail st, op_executions st, op_query st)"

lemma same_visible:
  assumes "op_detail st' = op_detail st" and "op_executions st' = op_executions st" and "op_query st' = op_query st"
  shows "visible_execution_ids st' = visible_execution_ids st"
proof -
  have "matches_execution st' = matches_execution st" by (rule ext) (simp add: matches_execution_def assms)
  then show ?thesis by (cases "op_detail st") (simp_all add: visible_execution_ids_def scoped_executions_def assms)
qed

lemma same_view_visible:
  assumes "view_of st' = view_of st"
  shows "selection_visible st' = selection_visible st"
  using same_visible [of st' st] assms by (cases "op_execution st") (simp_all add: view_of_def selection_visible_def)

lemma same_operator:
  fixes st st' :: operator_state
  assumes "pane.more st' = pane.more st"
  shows "op_execution st' = op_execution st" "op_detail st' = op_detail st" "op_executions st' = op_executions st"
    "op_query st' = op_query st" "op_modal st' = op_modal st" "op_session st' = op_session st"
    "op_regions st' = op_regions st" "op_sessions st' = op_sessions st" "op_focus st' = op_focus st"
    "op_execution_offset st' = op_execution_offset st"
  using assms unfolding operator_state.select_defs pane.select_defs o_apply id_apply by (simp_all only:)

lemma same_more_view: "pane.more st' = pane.more st \<Longrightarrow> view_of st' = view_of st"
  by (simp add: view_of_def same_operator [of st' st])

lemma same_more_visible: "pane.more st' = pane.more st \<Longrightarrow> selection_visible st' = selection_visible st"
  by (rule same_view_visible) (rule same_more_view)

lemma first_opt_simps [simp]: "first_opt [] = None" "first_opt (x # xs) = Some x"
  by (simp_all add: first_opt_def)

lemma ensure_visible [simp]: "selection_visible (ensure_execution_selection st)"
proof -
  have v: "visible_execution_ids (st\<lparr>op_execution := i\<rparr>) = visible_execution_ids st"
    "visible_execution_ids (reset_output (st\<lparr>op_execution := i\<rparr>)) = visible_execution_ids st"
    "op_execution (reset_output (st\<lparr>op_execution := i\<rparr>)) = i" for i
    by (rule same_visible; simp add: reset_output_def)+ (simp add: reset_output_def)
  show ?thesis
    by (cases "visible_execution_ids st")
      (auto simp: ensure_execution_selection_def Let_def selection_visible_def v split: option.splits)
qed

lemma snapshot_visible: "selection_visible (snd (apply_snapshot sessions executions detail st))"
  by (simp add: apply_snapshot_def Let_def)

lemma refresh_visible: "operator_refresh A st = (Inr changed, st') \<Longrightarrow> selection_visible st'"
  using snapshot_visible [of "fst (projr (oa_lists A))" "snd (projr (oa_lists A))"]
  by (auto simp: operator_refresh_def Let_def split: sum.split_asm option.split_asm prod.split_asm) (metis snd_conv)+

text \<open>A key keeps the selection visible, or leads to a refresh.\<close>

lemma index_of_bound: "xs \<noteq> [] \<Longrightarrow> index_of x xs < length xs"
  by (auto simp: index_of_def position_Some_iff split: option.split)

lemma move_index_bound: "0 < n \<Longrightarrow> move_index i amount n < n"
  by (auto simp: move_index_def)

lemma select_execution_visible:
  assumes "i \<in> set (visible_execution_ids st)" and "select_execution i st = (b, st')" and "selection_visible st"
  shows "selection_visible st'"
proof (cases b)
  case True
  then have "st' = reset_output (st\<lparr>op_execution := Some i\<rparr>)" using assms(2) by (auto simp: select_execution_def split: if_split_asm)
  moreover from this have "visible_execution_ids st' = visible_execution_ids st" by (intro same_visible) (simp_all add: reset_output_def)
  ultimately show ?thesis using assms(1) by (simp add: selection_visible_def reset_output_def)
next
  case False
  then show ?thesis using assms(2,3) by (auto simp: select_execution_def split: if_split_asm)
qed

lemma navigate_visible:
  assumes "selection_visible st" and "navigate amount st = (c, st')"
  shows "selection_visible st' \<or> c = UcRefresh"
proof (cases "op_focus st")
  case OnSessions
  then show ?thesis using assms
    by (auto simp: navigate_def command_if_def select_session_relative_def select_session_def Let_def split: if_split_asm)
next
  case OnExecutions
  let ?v = "visible_execution_ids st"
  show ?thesis
  proof (cases "?v = []")
    case True
    then show ?thesis using OnExecutions assms by (simp add: navigate_def command_if_def select_execution_relative_def)
  next
    case False
    then have "?v ! move_index (case op_execution st of None \<Rightarrow> 0 | Some s \<Rightarrow> index_of s ?v) amount (length ?v) \<in> set ?v"
      by (simp add: move_index_bound)
    moreover obtain b where "select_execution (?v ! move_index (case op_execution st of None \<Rightarrow> 0 | Some s \<Rightarrow> index_of s ?v) amount (length ?v)) st = (b, st')"
      using OnExecutions False assms(2)
      by (cases "select_execution_relative amount st") (auto simp: navigate_def command_if_def select_execution_relative_def Let_def)
    ultimately show ?thesis using select_execution_visible assms(1) by blast
  qed
next
  case OnOutput
  then have "view_of st' = view_of st" using assms(2) by (auto simp: navigate_def view_of_def)
  then show ?thesis using assms(1) same_view_visible by blast
qed

lemma invoke_view: "invoke_action action st = (c, st') \<Longrightarrow> view_of st' = view_of st"
  by (auto simp: invoke_action_def view_of_def split: palette_action.split_asm option.split_asm if_split_asm)

lemma modal_key_view: "handle_modal_key key m st = (c, st') \<Longrightarrow> view_of st' = view_of st"
  using invoke_view [of _ "st\<lparr>op_modal := None\<rparr>" c st']
  by (auto simp: handle_modal_key_def palette_key_def agent_key_def Let_def view_of_def
      split: modal.split_asm key_code.split_asm if_split_asm modal_purpose.split_asm)

lemma search_key_visible:
  "selection_visible st \<Longrightarrow> handle_search_key key st = (c, st') \<Longrightarrow> selection_visible st'"
  by (auto simp: handle_search_key_def reselect_def split: key_code.split_asm if_split_asm)

lemma char_visible:
  assumes "selection_visible st" and "operator_char c st = (command, st')"
  shows "selection_visible st' \<or> command = UcRefresh"
proof -
  have m: "selection_visible (st\<lparr>op_modal := m\<rparr>)" for m
    using assms(1) same_view_visible [of "st\<lparr>op_modal := m\<rparr>" st] by (simp add: view_of_def)
  have i: "selection_visible st''" if "invoke_action action st = (command', st'')" for action command' st''
    using invoke_view [OF that] same_view_visible assms(1) by blast
  show ?thesis
    using assms navigate_visible [OF assms(1)] m i
    by (auto simp: operator_char_def open_search_def simp del: char_action.simps split: if_split_asm option.split_asm)
qed

lemma plain_key_visible:
  assumes "selection_visible st" and "operator_plain_key code st = (c, st')"
  shows "selection_visible st' \<or> c = UcRefresh"
proof (cases "code = KUp \<or> code = KDown")
  case True
  then show ?thesis using assms(2) navigate_visible [OF assms(1), of "- 1"] navigate_visible [OF assms(1), of 1]
    by (auto simp: operator_plain_key_def)
next
  case False
  consider "view_of st' = view_of st" | ch where "operator_char ch st = (c, st')" | "selection_visible st'"
    using assms(2) False by (cases code) (auto simp: operator_plain_key_def view_of_def reselect_def split: if_split_asm)
  then show ?thesis using assms(1) same_view_visible char_visible by cases blast+
qed

lemma key_visible:
  assumes "selection_visible st" and "handle_key key st = (c, st')"
  shows "selection_visible st' \<or> c = UcRefresh"
proof -
  have "selection_visible (st\<lparr>op_modal := m\<rparr>)" for m
    using assms(1) same_view_visible [of "st\<lparr>op_modal := m\<rparr>" st] by (simp add: view_of_def)
  moreover have "selection_visible st''" if "handle_modal_key key m st = (c', st'')" for m c' st''
    using modal_key_view [OF that] same_view_visible assms(1) by blast
  ultimately show ?thesis
    using assms search_key_visible plain_key_visible by (auto simp: handle_key_def split: if_split_asm option.split_asm)
qed

text \<open>The rows of the screen are visible executions.\<close>

definition rows_visible :: "operator_state \<Rightarrow> bool" where
  "rows_visible st \<longleftrightarrow> (\<forall>(area, t) \<in> set (op_regions st). \<forall>i. t = HitExecution i \<longrightarrow> i \<in> set (visible_execution_ids st))"

lemma hit_at_mem: "hit_at e regions = Some t \<Longrightarrow> \<exists>area. (area, t) \<in> set regions \<and> rect_contains area (me_column e) (me_row e)"
  using find_Some_mem by (fastforce simp: hit_at_def)

lemma mouse_visible:
  assumes "selection_visible st" and "rows_visible st" and "handle_mouse e st = (c, st')"
  shows "selection_visible st' \<or> c = UcRefresh"
proof -
  have f: "selection_visible (st\<lparr>op_focus := f\<rparr>)" for f
    using assms(1) same_view_visible [of "st\<lparr>op_focus := f\<rparr>" st] by (simp add: view_of_def)
  have r: "selection_visible st' \<or> c = UcRefresh" if "command_if UcRefresh (select_session i (st\<lparr>op_focus := g\<rparr>)) = (c, st')" for i g
    using that f by (auto simp: command_if_def select_session_def split: if_split_asm)
  have x: "selection_visible st'" if h: "hit_at e (op_regions st) = Some (HitExecution i)"
    and q: "command_if command (select_execution i (st\<lparr>op_focus := OnExecutions\<rparr>)) = (c, st')" for i command
  proof -
    have "i \<in> set (visible_execution_ids st)"
      using hit_at_mem [OF h] assms(2) by (auto simp: rows_visible_def)
    moreover have "visible_execution_ids (st\<lparr>op_focus := OnExecutions\<rparr>) = visible_execution_ids st" by (rule same_visible) simp_all
    moreover obtain b where "select_execution i (st\<lparr>op_focus := OnExecutions\<rparr>) = (b, st')"
      using q by (cases "select_execution i (st\<lparr>op_focus := OnExecutions\<rparr>)") (auto simp: command_if_def)
    ultimately show ?thesis using select_execution_visible [OF _ _ f] by metis
  qed
  have n: "selection_visible st' \<or> c = UcRefresh" if "scroll_mouse amount e st = (c, st')" for amount
    using that by (auto simp: scroll_mouse_def split: option.split_asm dest: navigate_visible [OF f] navigate_visible [OF assms(1)])
  show ?thesis
  proof (cases "me_kind e")
    case MouseLeft
    show ?thesis
    proof (cases "hit_at e (op_regions st)")
      case None
      then show ?thesis using assms(1,3) MouseLeft by (simp add: handle_mouse_def)
    next
      case (Some t)
      then show ?thesis using assms(3) MouseLeft f r x by (cases t) (auto simp: handle_mouse_def)
    qed
  qed (use assms(1,3) n [of "- 1"] n [of 1] in \<open>simp_all add: handle_mouse_def\<close>)
qed


section \<open>Drawing\<close>

lemma draw_sessions_keeps [simp]:
  "view_of (draw_sessions area st) = view_of st" "op_modal (draw_sessions area st) = op_modal st"
  "op_execution_offset (draw_sessions area st) = op_execution_offset st"
  by (simp_all add: draw_sessions_def Let_def view_of_def)

lemma draw_executions_keeps [simp]:
  "view_of (draw_executions area st) = view_of st" "op_modal (draw_executions area st) = op_modal st"
  by (simp_all add: draw_executions_def Let_def view_of_def)

lemma draw_output_keeps [simp]:
  "view_of (draw_output Y area st) = view_of st" "op_modal (draw_output Y area st) = op_modal st"
  "op_execution_offset (draw_output Y area st) = op_execution_offset st"
  "op_regions (draw_output Y area st) = op_regions st @ [(area, HitPane OnOutput)]"
  by (simp_all add: draw_output_def scroll_pane_def Let_def view_of_def)

lemma draw_keeps: "view_of (draw_operator Y area st) = view_of st" "op_modal (draw_operator Y area st) = op_modal st"
  by (simp_all add: draw_operator_def Let_def view_of_def [of "_\<lparr>op_regions := _\<rparr>"] flip: view_of_def split: prod.split ui_focus.split)

lemma view_visible: "view_of st' = view_of st \<Longrightarrow> visible_execution_ids st' = visible_execution_ids st"
  by (rule same_visible) (simp_all add: view_of_def)

lemma row_regions_targets: "(r, t) \<in> set (row_regions area ts) \<Longrightarrow> t \<in> set ts"
  by (auto simp: row_regions_def dest: in_set_enumerate_eq [THEN iffD1] in_set_zipE simp: enumerate_eq_zip elim: in_set_zipE)

definition execution_regions :: "operator_state \<Rightarrow> rect \<Rightarrow> (rect \<times> hit_target) list" where
  "execution_regions st area =
     (area, HitPane OnExecutions) # row_regions area (map HitExecution (displayed_rows (op_execution_offset st) area (visible_execution_ids st)))"

definition session_regions :: "operator_state \<Rightarrow> rect \<Rightarrow> (rect \<times> hit_target) list" where
  "session_regions st area =
     (area, HitPane OnSessions) # row_regions area (map session_target (displayed_rows (op_session_offset st) area (visible_session_ids st)))"

lemma window_shows:
  fixes selected offset capacity m :: nat
  assumes "selected < m" and "0 < capacity"
    and w: "w = (if selected < offset then selected else if min (offset + capacity) m \<le> selected then min (selected + 1) m - capacity else offset)"
  shows "w \<le> selected \<and> selected < w + capacity"
proof (cases "selected < offset")
  case False
  show ?thesis
  proof (cases "offset + capacity \<le> selected")
    case True
    then have "w = Suc selected - capacity" using assms(1) False by (simp add: w)
    then show ?thesis using True assms(2) by linarith
  next
    case less: False
    then have "\<not> min (offset + capacity) m \<le> selected" using assms(1) by simp
    then have "w = offset" using False by (simp add: w)
    then show ?thesis using less False by linarith
  qed
qed (use assms(2) in \<open>simp add: w\<close>)

lemma selection_offset_shows:
  assumes "selected < n" and "0 < capacity" and "n < 2 ^ 64"
  shows "selection_offset current selected capacity n \<le> selected \<and> selected < selection_offset current selected capacity n + capacity"
proof -
  have "selected < u64_max" using assms by simp
  then show ?thesis using assms(2) by (rule window_shows) (simp only: selection_offset_def sat_add_def Let_def)
qed

definition row_offset_ok :: "operator_state \<Rightarrow> rect \<Rightarrow> bool" where
  "row_offset_ok st b \<longleftrightarrow> (\<exists>current. op_execution_offset st = selection_offset current
     (case op_execution st of None \<Rightarrow> 0 | Some i \<Rightarrow> index_of i (visible_execution_ids st)) (list_capacity b) (length (visible_execution_ids st)))"

lemma row_offset_view: "view_of st' = view_of st \<Longrightarrow> op_execution_offset st' = op_execution_offset st \<Longrightarrow> row_offset_ok st' b = row_offset_ok st b"
  using view_visible [of st' st] by (cases "op_execution st") (simp_all add: row_offset_ok_def view_of_def)

lemma draw_executions_offset: "row_offset_ok (draw_executions b st) b"
proof -
  have "op_execution (draw_executions b st) = op_execution st" by (simp add: draw_executions_def Let_def)
  then show ?thesis using view_visible [OF draw_executions_keeps(1), of b st]
    unfolding row_offset_ok_def
    by (intro exI [of _ "op_execution_offset st"]; cases "op_execution st") (simp_all add: draw_executions_def Let_def)
qed

text \<open>The row of the selected execution is on the screen.\<close>

lemma selected_row_shown:
  assumes "row_offset_ok st b" and "op_execution st = Some i" and "i \<in> set (visible_execution_ids st)"
    and "length (visible_execution_ids st) < 2 ^ 64"
  shows "i \<in> set (displayed_rows (op_execution_offset st) b (visible_execution_ids st))"
proof -
  let ?v = "visible_execution_ids st" and ?o = "op_execution_offset st"
  have x: "index_of i ?v < length ?v" "?v ! index_of i ?v = i"
    using assms(3) by (auto simp: index_of_def position_Some_iff position_None_iff split: option.split)
  obtain current where o: "?o = selection_offset current (index_of i ?v) (list_capacity b) (length ?v)"
    using assms(1,2) by (auto simp: row_offset_ok_def)
  have "?o \<le> index_of i ?v \<and> index_of i ?v < ?o + list_capacity b"
    unfolding o by (rule selection_offset_shows [OF x(1) _ assms(4)]) (simp add: list_capacity_def)
  then have "index_of i ?v - ?o < length (displayed_rows ?o b ?v)" "displayed_rows ?o b ?v ! (index_of i ?v - ?o) = i"
    using x by (auto simp: displayed_rows_def)
  then show ?thesis by (metis nth_mem)
qed

definition no_executions :: "(rect \<times> hit_target) list \<Rightarrow> bool" where
  "no_executions regions \<longleftrightarrow> (\<forall>(r, t) \<in> set regions. t \<noteq> HitPane OnExecutions \<and> (\<forall>i. t \<noteq> HitExecution i))"

lemma draw_sessions_regions: "op_regions st = [] \<Longrightarrow> no_executions (op_regions (draw_sessions area st))"
  using row_regions_targets by (fastforce simp: draw_sessions_def Let_def no_executions_def session_target_def split: option.split_asm)

lemma draw_executions_regions:
  "op_regions (draw_executions area st) = op_regions st @ execution_regions (draw_executions area st) area"
  using view_visible [OF draw_executions_keeps(1), of area st] by (simp add: draw_executions_def execution_regions_def Let_def)

lemma execution_regions_view:
  "view_of st' = view_of st \<Longrightarrow> op_execution_offset st' = op_execution_offset st \<Longrightarrow> execution_regions st' area = execution_regions st area"
  using view_visible [of st' st] by (simp add: execution_regions_def)

lemma no_executions_simps [simp]:
  "no_executions []" "no_executions (p # ps) \<longleftrightarrow> no_executions [p] \<and> no_executions ps" "no_executions [(c, HitPane OnOutput)]"
  by (auto simp: no_executions_def)

text \<open>The regions of a screen: those of the executions, if they are drawn, between others.\<close>

lemma draw_regions:
  "no_executions (op_regions (draw_operator Y area st)) \<or>
   (\<exists>pre b post. op_regions (draw_operator Y area st) = pre @ execution_regions (draw_operator Y area st) b @ post \<and>
      no_executions pre \<and> (post = [] \<or> (\<exists>c. post = [(c, HitPane OnOutput)])) \<and> row_offset_ok (draw_operator Y area st) b)"
proof -
  let ?st = "st\<lparr>op_regions := []\<rparr>" and ?D = "draw_operator Y area st"
  have s: "no_executions (op_regions (draw_sessions a ?st))" for a by (rule draw_sessions_regions) simp
  have o: "execution_regions (draw_output Y c st') b = execution_regions st' b" for c st' b
    by (rule execution_regions_view) simp_all
  have x: "op_regions (draw_executions b st') = op_regions st' @ execution_regions (draw_executions b st') b @ [] \<and>
      row_offset_ok (draw_executions b st') b" for b st'
    by (simp add: draw_executions_regions draw_executions_offset)
  obtain a b c where three: "ly_three Y (ly_middle Y area) = (a, b, c)" by (cases "ly_three Y (ly_middle Y area)") auto
  obtain a2 b2 where two: "ly_two Y (ly_middle Y area) = (a2, b2)" by fastforce
  define small wide medium where "small \<longleftrightarrow> re_width area < 60 \<or> re_height area < 20" and "wide \<longleftrightarrow> 140 \<le> re_width area"
    and "medium \<longleftrightarrow> 100 \<le> re_width area"
  have D: "?D = (if small then ?st else if wide then draw_output Y c (draw_executions b (draw_sessions a ?st))
      else if medium then (if op_focus st = OnOutput then draw_output Y b2 (draw_sessions a2 ?st) else draw_executions b2 (draw_sessions a2 ?st))
      else (case op_focus st of OnSessions \<Rightarrow> draw_sessions (ly_middle Y area) ?st
        | OnExecutions \<Rightarrow> draw_executions (ly_middle Y area) ?st | OnOutput \<Rightarrow> draw_output Y (ly_middle Y area) ?st))"
    by (simp add: draw_operator_def Let_def three two small_def wide_def medium_def)
  consider "small" | "\<not> small" "wide" | "\<not> small" "\<not> wide" "medium" "op_focus st = OnOutput" | "\<not> small" "\<not> wide" "medium" "op_focus st \<noteq> OnOutput"
    | "\<not> small" "\<not> wide" "\<not> medium" by blast
  then show ?thesis
  proof cases
    case 2
    then have e: "?D = draw_output Y c (draw_executions b (draw_sessions a ?st))" using D by simp
    then have "op_regions ?D = op_regions (draw_sessions a ?st) @ execution_regions ?D b @ [(c, HitPane OnOutput)]"
      by (simp add: draw_executions_regions o)
    moreover have "row_offset_ok ?D b"
      unfolding e using draw_executions_offset row_offset_view [OF draw_output_keeps(1,3)] by blast
    ultimately show ?thesis using s by blast
  next
    case 4
    then have "?D = draw_executions b2 (draw_sessions a2 ?st)" using D by simp
    then show ?thesis using s x by metis
  next
    case 5
    show ?thesis
    proof (cases "op_focus st")
      case OnExecutions
      then have "?D = draw_executions (ly_middle Y area) ?st" using D 5 by simp
      moreover have "no_executions (op_regions ?st)" by simp
      ultimately show ?thesis using x by metis
    qed (use D 5 s in \<open>simp_all add: no_executions_def\<close>)
  qed (use D s in \<open>simp_all add: no_executions_def\<close>)
qed

lemma pane_region_unique:
  assumes "op_regions st = pre @ execution_regions st b' @ post" and "no_executions pre" and "post = [] \<or> (\<exists>c. post = [(c, HitPane OnOutput)])"
    and "(b, HitPane OnExecutions) \<in> set (op_regions st)"
  shows "b' = b"
proof -
  have "(b, HitPane OnExecutions) \<notin> set pre" using assms(2) by (auto simp: no_executions_def)
  moreover have "(b, HitPane OnExecutions) \<notin> set (row_regions b' (map HitExecution ys))" for ys using row_regions_targets by fastforce
  ultimately show ?thesis using assms(1,3,4) by (auto simp: execution_regions_def)
qed

lemma drawn_offset:
  assumes "(b, HitPane OnExecutions) \<in> set (op_regions (draw_operator Y area st))"
  shows "row_offset_ok (draw_operator Y area st) b"
proof -
  have "\<not> no_executions (op_regions (draw_operator Y area st))" using assms by (auto simp: no_executions_def)
  then show ?thesis using draw_regions [of Y area st] pane_region_unique [OF _ _ _ assms] by blast
qed

lemma displayed_rows_subset: "set (displayed_rows n area ids) \<subseteq> set ids"
  by (auto simp: displayed_rows_def dest!: in_set_takeD in_set_dropD)

lemma drawn_rows_visible: "rows_visible (draw_operator Y area st)"
proof -
  let ?D = "draw_operator Y area st"
  have "i \<in> set (visible_execution_ids ?D)" if "(r, HitExecution i) \<in> set (execution_regions ?D b)" for r i b
    using that row_regions_targets displayed_rows_subset by (fastforce simp: execution_regions_def)
  then show ?thesis using draw_regions [of Y area st]
    by (fastforce simp: rows_visible_def no_executions_def)
qed

lemma drawn_visible: "selection_visible st \<Longrightarrow> selection_visible (draw_operator Y area st)"
  using same_view_visible [OF draw_keeps(1)] by blast

text \<open>The rows of the two lists always have a text.\<close>

lemma rows_have_texts:
  "i \<in> set (visible_session_ids st) \<Longrightarrow> session_row_text now st i \<noteq> None"
  "xid \<in> set (visible_execution_ids st) \<Longrightarrow> execution_row_text st xid \<noteq> None"
  by (auto simp: session_row_text_def execution_row_text_def visible_session_ids_def visible_execution_ids_def newest_first_def Let_def
      find_None_iff split: option.split)

section \<open>A run\<close>

text \<open>A command after which the screen goes on leaves the selection visible.\<close>

lemma operator_command_view:
  assumes "operator_command E A command st = (asked, Inr r, st')" and "command \<noteq> UcRefresh"
  shows "view_of st' = view_of st"
proof -
  have p: "view_of (prepare_handoff i d st) = view_of st" for i d by (simp add: prepare_handoff_def Let_def view_of_def)
  have e: "view_of st1 = view_of st" if "export_replay E d st = (q, st1)" for d q st1
    using replay_more(2) [of E d st] that by (intro same_more_view) simp
  have o: "view_of (open_replay E d st) = view_of st" for d by (rule same_more_view) (rule replay_more(1))
  have c: "view_of (cancel_notice d q st) = view_of st" for d q by (rule same_more_view) (rule cancel_notice_more)
  show ?thesis using assms p e o c
    by (cases command) (auto simp: operator_command_def split: sum.split_asm prod.split_asm)
qed

lemma operator_command_visible:
  assumes "operator_command E A command st = (asked, Inr r, st')" and "selection_visible st \<or> command = UcRefresh"
  shows "selection_visible st'"
proof (cases "command = UcRefresh")
  case True
  then obtain changed st1 where r: "operator_refresh A st = (Inr changed, st1)" "st' = (if changed then reset_output st1 else st1)"
    using assms(1) by (auto simp: operator_command_def split: sum.split_asm prod.split_asm)
  have "selection_visible (reset_output st1) = selection_visible st1" by (rule same_more_visible) simp
  then show ?thesis using refresh_visible [OF r(1)] r(2) by simp
next
  case False
  then show ?thesis using assms same_view_visible operator_command_view by blast
qed

lemma subscribe_more: "pane.more (snd (subscribe_output E A st)) = pane.more st"
  by (simp add: subscribe_output_def split: option.split sum.split)

lemma load_and_subscribe_more:
  assumes "load_and_subscribe E A st = Some (subscription, st')"
  shows "pane.more st' = pane.more st"
proof -
  obtain st1 where "operator_load E A st = Some st1" "subscribe_output E A st1 = (subscription, st')"
    using assms by (auto simp: load_and_subscribe_def)
  then show ?thesis using load_output_more subscribe_more [of E A st1] by (simp add: operator_load_def)
qed

lemma sync_more: "sync_subscription E A (subscription, st) = Some (subscription', st') \<Longrightarrow> pane.more st' = pane.more st"
  using load_and_subscribe_more by (auto simp: sync_subscription_def split: if_split_asm)

lemma after_command_visible:
  assumes "after_command E A (command, st) subscription retry_at = Some (asked, None, (subscription', st'), retry')"
    and "selection_visible st \<or> command = UcRefresh"
  shows "selection_visible st'"
proof -
  obtain a st1 where c: "operator_command E A command st = (a, Inr None, st1)" and s: "sync_subscription E A (subscription, st1) = Some (subscription', st')"
    using assms(1) by (cases "operator_command E A command st") (auto simp: after_command_def split: sum.split_asm option.split_asm)
  show ?thesis using operator_command_visible [OF c assms(2)] same_more_visible [OF sync_more [OF s]] by blast
qed


lemma refresh_error: "operator_refresh A st = (Inl e, st') \<Longrightarrow> st' = st"
  by (auto simp: operator_refresh_def Let_def split: sum.split_asm option.split_asm prod.split_asm if_split_asm)

lemma snapshot_execution: "apply_snapshot ss xs d st = (False, st') \<Longrightarrow> op_execution st' = op_execution st"
  by (simp add: apply_snapshot_def Let_def)

lemma refresh_unchanged:
  assumes "operator_refresh A st = (Inr False, st')"
  shows "op_execution st' = op_execution st"
proof -
  obtain ss xs where l: "oa_lists A = Inr (ss, xs)" using assms by (auto simp: operator_refresh_def split: sum.split_asm)
  define st1 where "st1 = (case op_session st of Some i \<Rightarrow> if i \<in> as_id ` set ss then st else st\<lparr>op_session := None\<rparr> | None \<Rightarrow> st)"
  have "operator_refresh A st = (case op_session st1 of None \<Rightarrow> (case apply_snapshot ss xs None st1 of (c, st2) \<Rightarrow> (Inr c, st2))
      | Some i \<Rightarrow> (case oa_detail A i of Inl e \<Rightarrow> (Inl e, st1)
          | Inr d \<Rightarrow> (case apply_snapshot ss xs (Some d) st1 of (c, st2) \<Rightarrow> (Inr c, st2))))"
    unfolding operator_refresh_def l Let_def st1_def by simp
  then obtain d where "apply_snapshot ss xs d st1 = (False, st')"
    using assms by (auto split: option.split_asm sum.split_asm prod.split_asm)
  then have "op_execution st' = op_execution st1" by (rule snapshot_execution)
  then show ?thesis by (simp add: st1_def split: option.split_asm if_split_asm)
qed

lemma poll_cases:
  assumes "poll_step E A now (subscription, st) retry_at = Some ((subscription', st'), retry')"
  obtains (failed) "view_of st' = view_of st" "op_modal st' = op_modal st" "subscription' = subscription"
  | (kept) st1 where "operator_refresh A st = (Inr False, st1)" "pane.more st' = pane.more st1" "subscription' = subscription"
  | (opened) changed st1 st2 where "operator_refresh A st = (Inr changed, st1)" "pane.more st' = pane.more st1"
      "pane.more st2 = pane.more st1" "load_and_subscribe E A st2 = Some (subscription', st')"
  | (closed) st1 where "operator_refresh A st = (Inr True, st1)" "pane.more st' = pane.more st1" "subscription' = None"
proof -
  obtain r st1 where r: "operator_refresh A st = (r, st1)" by fastforce
  have m: "pane.more (st1\<lparr>pn_error := None\<rparr>) = pane.more st1" by simp
  show thesis
  proof (cases r)
    case (Inl e)
    then show thesis using assms r refresh_error [of A st] failed by (auto simp: poll_step_def view_of_def)
  next
    case (Inr changed)
    let ?s = "if changed then (None, reset_output (st1\<lparr>pn_error := None\<rparr>)) else (subscription, st1\<lparr>pn_error := None\<rparr>)"
    show thesis
    proof (cases "fst ?s = None \<and> retry_at \<le> now")
      case True
      then have l: "load_and_subscribe E A (snd ?s) = Some (subscription', st')" using assms r Inr by (auto simp: poll_step_def Let_def split: if_split_asm)
      moreover have "pane.more (snd ?s) = pane.more st1" by simp
      ultimately show thesis using opened [of changed st1 "snd ?s"] r Inr load_and_subscribe_more by metis
    next
      case False
      then have "?s = (subscription', st')" using assms r Inr by (auto simp: poll_step_def Let_def split: if_split_asm)
      then show thesis using kept closed r Inr by (cases changed) auto
    qed
  qed
qed

lemma poll_visible:
  assumes "poll_step E A now (subscription, st) retry_at = Some ((subscription', st'), retry')" and "selection_visible st"
  shows "selection_visible st'"
  using assms(1)
proof (cases rule: poll_cases)
  case failed
  then show ?thesis using assms(2) same_view_visible by blast
qed (use refresh_visible same_more_visible in blast)+

lemma stream_more: "stream_step E r now (subscription, st) retry_at = ((subscription', st'), retry') \<Longrightarrow>
    pane.more st' = pane.more st \<and> (subscription' = subscription \<or> subscription' = None)"
  using ingest_more by (fastforce simp: stream_step_def split: sum.split_asm option.split_asm prod.split_asm)

lemma operator_step_visible:
  assumes "operator_step E i ((subscription, st), retry_at) = Some (asked, None, ((subscription', st'), retry'))"
    and "selection_visible st" and "rows_visible st"
  shows "selection_visible st'"
proof -
  have e: "selection_visible (st\<lparr>pn_error := e\<rparr>)" for e
    using assms(2) same_view_visible [of "st\<lparr>pn_error := e\<rparr>" st] by (simp add: view_of_def)
  show ?thesis
  proof (cases i)
    case (OiKey key A)
    obtain command st1 where k: "handle_key key st = (command, st1)" by fastforce
    then have "after_command E A (command, st1) subscription retry_at = Some (asked, None, (subscription', st'), retry')"
      using assms(1) OiKey by (simp add: operator_step_def)
    then show ?thesis using after_command_visible key_visible [OF assms(2) k] by blast
  next
    case (OiMouse ev A)
    obtain command st1 where k: "handle_mouse ev st = (command, st1)" by fastforce
    then have "after_command E A (command, st1) subscription retry_at = Some (asked, None, (subscription', st'), retry')"
      using assms(1) OiMouse by (simp add: operator_step_def)
    then show ?thesis using after_command_visible mouse_visible [OF assms(2,3) k] by blast
  next
    case (OiStream r now)
    then have "stream_step E r now (subscription, st) retry_at = ((subscription', st'), retry')"
      using assms(1) by (auto simp: operator_step_def split: if_split_asm)
    then show ?thesis using stream_more same_more_visible assms(2) by blast
  next
    case (OiPoll A now)
    then have "poll_step E A now (subscription, st) retry_at = Some ((subscription', st'), retry')"
      using assms(1) by (auto simp: operator_step_def)
    then show ?thesis using poll_visible assms(2) by blast
  qed (use assms(1,2) after_command_visible e in \<open>fastforce simp: operator_step_def\<close>)+
qed

section \<open>The stream\<close>

definition stream_selected :: "execution option \<Rightarrow> operator_state \<Rightarrow> bool" where
  "stream_selected subscription st \<longleftrightarrow> (\<forall>x. subscription = Some x \<longrightarrow> op_execution st = Some (ex_id x))"

text \<open>The daemon answers a subscription with the execution it was asked for.\<close>

definition answers_right :: "operator_answers \<Rightarrow> bool" where
  "answers_right A \<longleftrightarrow> (\<forall>i c x. oa_subscribe A i c = Inr x \<longrightarrow> ex_id x = i)"

fun input_right :: "operator_input \<Rightarrow> bool" where
  "input_right (OiKey _ A) = answers_right A"
| "input_right (OiMouse _ A) = answers_right A"
| "input_right (OiOther A) = answers_right A"
| "input_right (OiBroken _ A) = answers_right A"
| "input_right (OiEnd A) = answers_right A"
| "input_right (OiStream _ _) = True"
| "input_right (OiPoll A _) = answers_right A"

lemma subscribe_selected: "answers_right A \<Longrightarrow> subscribe_output E A st = (subscription, st') \<Longrightarrow> stream_selected subscription st'"
  by (auto simp: subscribe_output_def stream_selected_def answers_right_def split: option.split_asm sum.split_asm)

lemma load_selected: "answers_right A \<Longrightarrow> load_and_subscribe E A st = Some (subscription, st') \<Longrightarrow> stream_selected subscription st'"
  using subscribe_selected by (fastforce simp: load_and_subscribe_def)

lemma sync_selected:
  "answers_right A \<Longrightarrow> sync_subscription E A (subscription, st) = Some (subscription', st') \<Longrightarrow> stream_selected subscription' st'"
  using load_selected by (auto simp: sync_subscription_def stream_selected_def split: if_split_asm)

lemma after_command_selected:
  assumes "after_command E A c subscription retry_at = Some (asked, None, (subscription', st'), retry')" and "answers_right A"
  shows "stream_selected subscription' st'"
proof -
  obtain a st1 where "operator_command E A (fst c) (snd c) = (a, Inr None, st1)" and s: "sync_subscription E A (subscription, st1) = Some (subscription', st')"
    using assms(1) by (cases "operator_command E A (fst c) (snd c)") (auto simp: after_command_def split: sum.split_asm option.split_asm)
  then show ?thesis using sync_selected assms(2) by blast
qed

lemma poll_selected:
  assumes "poll_step E A now (subscription, st) retry_at = Some ((subscription', st'), retry')" and "answers_right A"
    and "stream_selected subscription st"
  shows "stream_selected subscription' st'"
  using assms(1)
proof (cases rule: poll_cases)
  case failed
  then show ?thesis using assms(3) by (simp add: stream_selected_def view_of_def)
next
  case (kept st1)
  then have "op_execution st' = op_execution st" using refresh_unchanged same_operator(1) by metis
  then show ?thesis using assms(3) kept(3) by (simp add: stream_selected_def)
next
  case (opened changed st1 st2)
  then show ?thesis using load_selected assms(2) by blast
next
  case (closed st1)
  then show ?thesis by (simp add: stream_selected_def)
qed

lemma operator_step_selected:
  assumes "operator_step E i ((subscription, st), retry_at) = Some (asked, None, ((subscription', st'), retry'))"
    and "input_right i" and "stream_selected subscription st"
  shows "stream_selected subscription' st'"
proof (cases i)
  case (OiStream r now)
  then have "stream_step E r now (subscription, st) retry_at = ((subscription', st'), retry')"
    using assms(1) by (auto simp: operator_step_def split: if_split_asm)
  from stream_more [OF this] have m: "pane.more st' = pane.more st" and n: "subscription' = subscription \<or> subscription' = None" by auto
  show ?thesis using same_operator(1) [OF m] n assms(3) by (auto simp: stream_selected_def)
next
  case (OiPoll A now)
  then have "poll_step E A now (subscription, st) retry_at = Some ((subscription', st'), retry')"
    using assms(1) by (auto simp: operator_step_def)
  then show ?thesis using poll_selected assms(2,3) OiPoll by simp
qed (use assms(1,2) after_command_selected in \<open>auto simp: operator_step_def\<close>)


section \<open>Asking before cancelling\<close>

definition live_selected :: "operator_state \<Rightarrow> string \<Rightarrow> bool" where
  "live_selected st xid \<longleftrightarrow> (\<exists>x. selected_execution st = Some x \<and> ex_id x = xid \<and> is_live x)"

definition asks_about :: "string \<Rightarrow> operator_state \<Rightarrow> bool" where
  "asks_about xid st \<longleftrightarrow> op_modal st = Some (ModalCancel xid)"

lemma same_modal: "op_modal st' = op_modal st \<Longrightarrow> asks_about xid st' = asks_about xid st"
  by (simp add: asks_about_def)

lemma live_selected_modal [simp]: "live_selected (st\<lparr>op_modal := m\<rparr>) xid = live_selected st xid"
proof -
  have "scoped_executions (st\<lparr>op_modal := m\<rparr>) = scoped_executions st" by (cases "op_detail st") (simp_all add: scoped_executions_def)
  then show ?thesis by (cases "op_execution st") (simp_all add: live_selected_def selected_execution_def)
qed

lemma invoke_modal:
  assumes "invoke_action action st = (c, st')"
  shows "c \<noteq> UcCancel xid" and "asks_about xid st' \<Longrightarrow> asks_about xid st \<or> live_selected st xid"
  using assms by (cases action; auto simp: invoke_action_def asks_about_def live_selected_def split: option.split_asm if_split_asm)+

lemma pane_modal:
  "op_modal (reset_output st) = op_modal st" "op_modal (ensure_execution_selection st) = op_modal st"
  by (simp_all add: reset_output_def ensure_execution_selection_def Let_def)

lemma select_modal:
  "op_modal (snd (select_session i st)) = op_modal st" "op_modal (snd (select_execution x st)) = op_modal st"
  by (simp_all add: select_session_def select_execution_def pane_modal)

lemma navigate_modal: "navigate amount st = (c, st') \<Longrightarrow> op_modal st' = op_modal st \<and> c \<noteq> UcCancel xid"
  using select_modal
  by (auto simp: navigate_def command_if_def select_session_relative_def select_execution_relative_def Let_def split: ui_focus.split_asm if_split_asm)

lemma modal_key_modal:
  assumes "handle_modal_key key m st = (c, st')" and "op_modal st = Some m"
  shows "c = UcCancel xid \<Longrightarrow> asks_about xid st" and "asks_about xid st' \<Longrightarrow> asks_about xid st \<or> live_selected st xid"
proof -
  have i: "c' \<noteq> UcCancel xid" "asks_about xid st'' \<Longrightarrow> live_selected st xid"
    if "invoke_action action (st\<lparr>op_modal := None\<rparr>) = (c', st'')" for action c' st''
    using invoke_modal [OF that, of xid] by (auto simp: asks_about_def)
  show "c = UcCancel xid \<Longrightarrow> asks_about xid st"
    using assms i(1)
    by (cases m) (auto simp: handle_modal_key_def palette_key_def agent_key_def Let_def asks_about_def split: key_code.split_asm if_split_asm modal_purpose.split_asm)
  show "asks_about xid st' \<Longrightarrow> asks_about xid st \<or> live_selected st xid"
    using assms i(2)
    by (cases m) (auto simp: handle_modal_key_def palette_key_def agent_key_def Let_def asks_about_def split: key_code.split_asm if_split_asm modal_purpose.split_asm)
qed

lemma search_key_modal: "handle_search_key key st = (c, st') \<Longrightarrow> op_modal st' = op_modal st \<and> c \<noteq> UcCancel xid"
  by (auto simp: handle_search_key_def reselect_def pane_modal split: key_code.split_asm if_split_asm)

lemma char_modal:
  assumes "operator_char ch st = (c, st')"
  shows "c \<noteq> UcCancel xid" and "asks_about xid st' \<Longrightarrow> asks_about xid st \<or> live_selected st xid"
  using assms invoke_modal [of _ st c st' xid] navigate_modal [of _ st c st' xid] same_modal [of st' st xid]
  by (auto simp: operator_char_def open_search_def pane_modal asks_about_def simp del: char_action.simps split: if_split_asm option.split_asm)

lemma plain_key_modal:
  assumes "operator_plain_key code st = (c, st')"
  shows "c \<noteq> UcCancel xid" and "asks_about xid st' \<Longrightarrow> asks_about xid st \<or> live_selected st xid"
proof -
  consider ch where "operator_char ch st = (c, st')" | "op_modal st' = op_modal st" "c \<noteq> UcCancel xid"
    using assms navigate_modal [of _ st c st' xid]
    by (cases code) (auto simp: operator_plain_key_def reselect_def pane_modal split: if_split_asm)
  then have "c \<noteq> UcCancel xid \<and> (asks_about xid st' \<longrightarrow> asks_about xid st \<or> live_selected st xid)"
    using char_modal same_modal by cases blast+
  then show "c \<noteq> UcCancel xid" and "asks_about xid st' \<Longrightarrow> asks_about xid st \<or> live_selected st xid" by blast+
qed

lemma key_modal:
  assumes "handle_key key st = (c, st')"
  shows "c = UcCancel xid \<Longrightarrow> asks_about xid st" and "asks_about xid st' \<Longrightarrow> asks_about xid st \<or> live_selected st xid"
proof -
  consider "c \<in> {UcNone, UcQuit}" "op_modal st' = op_modal st \<or> op_modal st' = Some (ModalPalette 0)"
    | "handle_search_key key st = (c, st')" | m where "op_modal st = Some m" "handle_modal_key key m st = (c, st')"
    | "operator_plain_key (ke_code key) st = (c, st')"
    using assms by (auto simp: handle_key_def split: if_split_asm option.split_asm)
  then have "(c = UcCancel xid \<longrightarrow> asks_about xid st) \<and> (asks_about xid st' \<longrightarrow> asks_about xid st \<or> live_selected st xid)"
  proof cases
    case 2
    then show ?thesis using search_key_modal same_modal by blast
  next
    case (3 m)
    then show ?thesis using modal_key_modal by blast
  next
    case 4
    then show ?thesis using plain_key_modal by blast
  qed (auto simp: asks_about_def)
  then show "c = UcCancel xid \<Longrightarrow> asks_about xid st" and "asks_about xid st' \<Longrightarrow> asks_about xid st \<or> live_selected st xid" by blast+
qed

lemma mouse_modal: "handle_mouse e st = (c, st') \<Longrightarrow> op_modal st' = op_modal st \<and> c \<noteq> UcCancel xid"
proof -
  assume a: "handle_mouse e st = (c, st')"
  have s: "op_modal st' = op_modal st \<and> c \<noteq> UcCancel xid" if "scroll_mouse amount e st = (c, st')" for amount
    using that navigate_modal by (fastforce simp: scroll_mouse_def split: option.split_asm)
  have k: "op_modal st' = op_modal st \<and> c \<noteq> UcCancel xid" if "command_if k r = (c, st')" and "op_modal (snd r) = op_modal st" and "k \<noteq> UcCancel xid" for k r
    using that by (auto simp: command_if_def split: if_split_asm)
  have m: "op_modal (snd (select_session i (st\<lparr>op_focus := f\<rparr>))) = op_modal st"
    "op_modal (snd (select_execution x (st\<lparr>op_focus := f\<rparr>))) = op_modal st" for i f x
    by (simp_all add: select_modal)
  show ?thesis
  proof (cases "me_kind e")
    case MouseLeft
    show ?thesis
    proof (cases "hit_at e (op_regions st)")
      case None
      then show ?thesis using a MouseLeft by (simp add: handle_mouse_def)
    next
      case (Some t)
      then show ?thesis using a MouseLeft k [OF _ m(1)] k [OF _ m(2)] by (cases t) (auto simp: handle_mouse_def)
    qed
  qed (use a s [of "- 1"] s [of 1] in \<open>simp_all add: handle_mouse_def\<close>)
qed

lemma refresh_modal: "operator_refresh A st = (r, st') \<Longrightarrow> op_modal st' = op_modal st"
  by (auto simp: operator_refresh_def apply_snapshot_def Let_def pane_modal split: sum.split_asm option.split_asm prod.split_asm if_split_asm)

lemma command_modal:
  assumes "operator_command E A c st = (asked, r, st')"
  shows "asked = Some xid \<Longrightarrow> c = UcCancel xid" and "asks_about xid st' \<Longrightarrow> asks_about xid st"
proof -
  have e: "op_modal st1 = op_modal st" if "export_replay E d st = (q, st1)" for d q st1
    using same_operator(5) [OF replay_more(2) [of E d st]] that by simp
  have m: "op_modal (open_replay E d st) = op_modal st" "op_modal (cancel_notice k q st) = op_modal st" for d k q
    by (rule same_operator(5), rule replay_more(1), rule same_operator(5), rule cancel_notice_more)
  have p: "asks_about xid (prepare_handoff i d st) \<Longrightarrow> asks_about xid st" for i d
    by (auto simp: prepare_handoff_def asks_about_def Let_def split: if_split_asm)
  show "asked = Some xid \<Longrightarrow> c = UcCancel xid"
    using assms by (cases c) (auto simp: operator_command_def split: sum.split_asm prod.split_asm)
  show "asks_about xid st' \<Longrightarrow> asks_about xid st"
  proof (cases c)
    case UcRefresh
    then show "asks_about xid st' \<Longrightarrow> asks_about xid st"
      using assms refresh_modal by (auto simp: operator_command_def asks_about_def pane_modal split: sum.split_asm prod.split_asm if_split_asm)
  next
    case (UcPrepareHandoff i)
    then show "asks_about xid st' \<Longrightarrow> asks_about xid st" using assms p by (auto simp: operator_command_def split: sum.split_asm)
  qed (use assms e m in \<open>auto simp: operator_command_def asks_about_def split: sum.split_asm prod.split_asm\<close>)
qed


lemma after_command_modal:
  assumes "after_command E A (c, st) subscription retry_at = Some (asked, stop, ((subscription', st'), retry'))"
  shows "asked = Some xid \<Longrightarrow> c = UcCancel xid" and "asks_about xid st' \<Longrightarrow> asks_about xid st"
proof -
  obtain r st1 where c: "operator_command E A c st = (asked, r, st1)" "pane.more st' = pane.more st1"
    using assms sync_more
    by (cases "operator_command E A c st") (fastforce simp: after_command_def split: sum.split_asm option.split_asm)
  show "asked = Some xid \<Longrightarrow> c = UcCancel xid" using command_modal(1) [OF c(1)] by blast
  show "asks_about xid st' \<Longrightarrow> asks_about xid st"
    using command_modal(2) [OF c(1)] same_modal [OF same_operator(5) [OF c(2)]] by blast
qed

lemma operator_step_modal:
  assumes "operator_step E i ((subscription, st), retry_at) = Some (asked, stop, ((subscription', st'), retry'))"
  shows "(asked = Some xid \<longrightarrow> asks_about xid st) \<and> (asks_about xid st' \<longrightarrow> asks_about xid st \<or> live_selected st xid)"
proof (cases i)
  case (OiKey key A)
  obtain command st1 where k: "handle_key key st = (command, st1)" by fastforce
  then have "after_command E A (command, st1) subscription retry_at = Some (asked, stop, (subscription', st'), retry')"
    using assms OiKey by (simp add: operator_step_def)
  from after_command_modal [OF this, of xid] key_modal [OF k, of xid] show ?thesis by blast
next
  case (OiMouse ev A)
  obtain command st1 where k: "handle_mouse ev st = (command, st1)" by fastforce
  then have "after_command E A (command, st1) subscription retry_at = Some (asked, stop, (subscription', st'), retry')"
    using assms OiMouse by (simp add: operator_step_def)
  from after_command_modal [OF this, of xid] mouse_modal [OF k] same_modal [of st1 st xid] show ?thesis by blast
next
  case (OiStream r now)
  then have "stream_step E r now (subscription, st) retry_at = ((subscription', st'), retry')" "asked = None"
    using assms by (auto simp: operator_step_def split: if_split_asm)
  from stream_more [OF this(1)] same_operator(5) same_modal this(2) show ?thesis by blast
next
  case (OiPoll A now)
  then have p: "poll_step E A now (subscription, st) retry_at = Some ((subscription', st'), retry')" "asked = None"
    using assms by (auto simp: operator_step_def)
  from p(1) have "op_modal st' = op_modal st"
  proof (cases rule: poll_cases)
    case (opened changed st1 st2)
    then show ?thesis using refresh_modal same_operator(5) by metis
  qed (use refresh_modal same_operator(5) in metis)+
  then show ?thesis using p(2) same_modal by blast
next
  case (OiOther A)
  then have "after_command E A (UcNone, st) subscription retry_at = Some (asked, stop, (subscription', st'), retry')"
    using assms by (simp add: operator_step_def)
  from after_command_modal [OF this, of xid] show ?thesis by auto
next
  case (OiBroken m A)
  then have "after_command E A (UcNone, st\<lparr>pn_error := Some (''terminal input: '' @ m)\<rparr>) subscription retry_at =
      Some (asked, stop, (subscription', st'), retry')" using assms by (simp add: operator_step_def)
  from after_command_modal [OF this, of xid] show ?thesis by (auto simp: asks_about_def)
next
  case (OiEnd A)
  then have "after_command E A (UcQuit, st) subscription retry_at = Some (asked, stop, (subscription', st'), retry')"
    using assms by (simp add: operator_step_def)
  from after_command_modal [OF this, of xid] show ?thesis by auto
qed

text \<open>A run step by step: what is drawn, and the run after it.\<close>

lemma operator_run_induct:
  assumes keeps: "\<And>E Y area i subscription st retry_at asked s'. P subscription st \<Longrightarrow> right i \<Longrightarrow>
      operator_step E i ((subscription, draw_operator Y area st), retry_at) = Some (asked, None, s') \<Longrightarrow> P (fst (fst s')) (snd (fst s'))"
    and start: "P (fst (fst r)) (snd (fst r))" and right: "\<forall>(a, i) \<in> set turns. right i"
    and entry: "(subscription, st, asked) \<in> set (operator_run E Y turns r)"
  shows "\<exists>st0 area. P subscription st0 \<and> st = draw_operator Y area st0"
  using start right entry
proof (induction turns arbitrary: r)
  case (Cons turn turns)
  obtain a i where t: "turn = (a, i)" by fastforce
  show ?case
  proof (cases a)
    case (Inl e)
    then show ?thesis using Cons.prems(3) by (simp add: t)
  next
    case (Inr area)
    obtain sub0 st0 retry0 where r: "r = ((sub0, st0), retry0)" by (cases r) auto
    then obtain asked1 stop s' where s: "operator_step E i ((sub0, draw_operator Y area st0), retry0) = Some (asked1, stop, s')"
      using Cons.prems(3) Inr by (cases "operator_step E i ((sub0, draw_operator Y area st0), retry0)") (auto simp: t Let_def)
    show ?thesis
    proof (cases "(subscription, st, asked) = (sub0, draw_operator Y area st0, asked1)")
      case True
      then show ?thesis using Cons.prems(1) r by auto
    next
      case False
      then have "stop = None" "(subscription, st, asked) \<in> set (operator_run E Y turns s')"
        using Cons.prems(3) Inr s by (auto simp: t r Let_def split: if_split_asm)
      moreover from this have "P (fst (fst s')) (snd (fst s'))"
        using keeps [of sub0 st0 i E Y area retry0 asked1 s'] Cons.prems(1,2) s by (simp add: r t)
      ultimately show ?thesis using Cons.IH [of s'] Cons.prems(2) by simp
    qed
  qed
qed simp

text \<open>C35: In every state the operator screen shows, from its start and through any keys, clicks, polls, stream events and failures,
  an execution is selected whenever one is listed, and it is one of those listed under the current session and search; so
  are the rows a click can hit; the row of the selected one is on the screen, and every row has its text.\<close>

theorem operator_selection_visible:
  assumes "operator_start E A options now = Inr (Some r)" and "(subscription, st, asked) \<in> set (operator_run E Y turns r)"
  shows "(case op_execution st of None \<Rightarrow> visible_execution_ids st = [] | Some i \<Rightarrow> i \<in> set (visible_execution_ids st)) \<and>
    (\<forall>area i. (area, HitExecution i) \<in> set (op_regions st) \<longrightarrow> i \<in> set (visible_execution_ids st)) \<and>
    (\<forall>i \<in> set (visible_execution_ids st). execution_row_text st i \<noteq> None) \<and>
    (\<forall>i \<in> set (visible_session_ids st). session_row_text t st i \<noteq> None) \<and>
    (\<forall>b i. (b, HitPane OnExecutions) \<in> set (op_regions st) \<longrightarrow> op_execution st = Some i \<longrightarrow> length (visible_execution_ids st) < 2 ^ 64 \<longrightarrow>
       i \<in> set (displayed_rows (op_execution_offset st) b (visible_execution_ids st)))"
proof -
  let ?P = "\<lambda>(subscription :: execution option) st. selection_visible st"
  obtain changed st0 where f: "operator_refresh A (operator_new options) = (Inr changed, st0)" and l: "load_and_subscribe E A st0 = Some (fst r)"
    using assms(1) by (auto simp: operator_start_def split: prod.split_asm sum.split_asm)
  have start: "selection_visible (snd (fst r))"
    using refresh_visible [OF f] same_more_visible [OF load_and_subscribe_more [of E A st0 "fst (fst r)" "snd (fst r)"]] l by simp
  have "\<exists>st0 area. ?P subscription st0 \<and> st = draw_operator Y area st0"
  proof (rule operator_run_induct [where P = ?P and right = "\<lambda>_. True", OF _ _ _ assms(2)])
    fix E' Y' area' i' sub' st' retry' asked' s'
    assume "?P sub' st'" and "operator_step E' i' ((sub', draw_operator Y' area' st'), retry') = Some (asked', None, s')"
    then show "?P (fst (fst s')) (snd (fst s'))"
      using operator_step_visible [of E' i' sub' "draw_operator Y' area' st'" retry' asked' "fst (fst s')" "snd (fst s')" "snd s'"]
        drawn_visible drawn_rows_visible by simp
  qed (use start in auto)
  then obtain st0 area where d: "selection_visible st" "st = draw_operator Y area st0" using drawn_visible by blast
  have "i \<in> set (displayed_rows (op_execution_offset st) b (visible_execution_ids st))"
    if "(b, HitPane OnExecutions) \<in> set (op_regions st)" "op_execution st = Some i" "length (visible_execution_ids st) < 2 ^ 64" for b i
    using selected_row_shown drawn_offset [of b Y area st0] that d by (auto simp: selection_visible_def)
  then show ?thesis using d drawn_rows_visible [of Y area st0] rows_have_texts by (auto simp: selection_visible_def rows_visible_def)
qed


definition demo_layout :: screen_layout where
  "demo_layout = \<lparr>ly_middle = (\<lambda>a. a\<lparr>re_y := 3, re_height := re_height a - 4\<rparr>),
     ly_three = (\<lambda>a. (a\<lparr>re_width := 35\<rparr>, a\<lparr>re_x := 35, re_width := 48\<rparr>, a\<lparr>re_x := 83, re_width := 57\<rparr>)),
     ly_two = (\<lambda>a. (a\<lparr>re_width := 34\<rparr>, a\<lparr>re_x := 34, re_width := 66\<rparr>)),
     ly_output = (\<lambda>a. a\<lparr>re_y := 11, re_height := re_height a - 8\<rparr>)\<rparr>"

definition demo_answers :: operator_answers where
  "demo_answers = \<lparr>oa_lists = Inr ([demo_recorded], sd_executions demo_shown_session), oa_detail = (\<lambda>_. Inr demo_shown_session),
     oa_cancel = (\<lambda>_. Inl DaemonDraining), oa_reads = (\<lambda>_. [\<lambda>_. Inl DaemonDraining]),
     oa_subscribe = (\<lambda>i _. Inr (demo_listed\<lparr>ex_id := i\<rparr>))\<rparr>"

definition demo_options :: ui_options where
  "demo_options = \<lparr>uo_workspace = \<lparr>ws_id = ''w0'', ws_name = ''w'', ws_root = ''/w'', ws_created_at_ms = 1\<rparr>,
     uo_selected_session_id = Some ''s1'', uo_notice = None\<rparr>"

definition demo_area :: rect where
  "demo_area = \<lparr>re_x = 0, re_y = 0, re_width = 80, re_height = 24\<rparr>"

definition demo_key :: "key_code \<Rightarrow> rect result \<times> operator_input" where
  "demo_key code = (Inr demo_area, OiKey \<lparr>ke_press = True, ke_code = code, ke_control = False, ke_alt = False\<rparr> demo_answers)"

lemmas demo_operator_defs = operator_start_def operator_refresh_def operator_new_def apply_snapshot_def ensure_execution_selection_def
  visible_execution_ids_def newest_first_def matches_execution_def query_matches_def scoped_executions_def reset_output_def
  load_and_subscribe_def operator_load_def load_output_def subscribe_output_def
  operator_step_def after_command_def operator_command_def sync_subscription_def handle_key_def operator_plain_key_def operator_char_def
  handle_modal_key_def invoke_action_def selected_execution_def confirming_keys_def is_live_def cancel_notice_def
  draw_operator_def draw_sessions_def
  demo_answers_def demo_options_def demo_recorded_def demo_shown_session_def demo_listed_def demo_key_def demo_area_def

lemma demo_started: "\<exists>r. operator_start demo_screen demo_answers demo_options 5 = Inr (Some r)"
  by (simp add: demo_operator_defs Let_def)


definition demo_state :: operator_run_state where
  "demo_state = (case operator_start demo_screen demo_answers demo_options 5 of Inr (Some r) \<Rightarrow> r | _ \<Rightarrow> ((None, operator_new demo_options), 0))"

lemma demo_state: "operator_start demo_screen demo_answers demo_options 5 = Inr (Some demo_state)"
  using demo_started by (auto simp: demo_state_def)

definition demo_asking :: "(rect result \<times> operator_input) list" where
  "demo_asking = [demo_key (KChar ''c''), demo_key KEnter]"

lemma demo_run:
  "\<exists>st1 st2 x. operator_run demo_screen demo_layout demo_asking demo_state = [(Some x, st1, None), (Some x, st2, Some ''a'')] \<and>
     op_modal st2 = Some (ModalCancel ''a'') \<and> ex_id x = ''a'' \<and> op_execution st2 = Some ''a'' \<and> op_execution st1 = Some ''a'' \<and>
     live_selected st1 ''a''"
  by (simp add: demo_asking_def demo_state_def demo_operator_defs Let_def demo_layout_def live_selected_def)

theorem operator_selection_visible_witness:
  "\<exists>subscription st asked. (subscription, st, asked) \<in> set (operator_run demo_screen demo_layout demo_asking demo_state) \<and>
     op_execution st = Some ''a'' \<and> ''a'' \<in> set (visible_execution_ids st)"
  using demo_run operator_selection_visible [OF demo_state, where Y = demo_layout and turns = demo_asking] by fastforce

text \<open>A stream of output that is open in the operator screen is the selected execution's, so no event of another execution enters
  the pane, provided the daemon answers each subscription with the execution it was asked for.\<close>

theorem stream_is_selected:
  assumes "operator_start E A options now = Inr (Some r)" and "answers_right A" and "\<forall>(a, i) \<in> set turns. input_right i"
    and "(Some x, st, asked) \<in> set (operator_run E Y turns r)"
  shows "op_execution st = Some (ex_id x)"
proof -
  obtain changed st0 where l: "load_and_subscribe E A st0 = Some (fst r)"
    using assms(1) by (auto simp: operator_start_def split: prod.split_asm sum.split_asm)
  then have start: "stream_selected (fst (fst r)) (snd (fst r))" using load_selected [OF assms(2), of E st0] by (cases "fst r") simp
  have d: "stream_selected s (draw_operator Y' area' st') = stream_selected s st'" for s Y' area' st'
    using draw_keeps(1) [of Y' area' st'] by (simp add: stream_selected_def view_of_def)
  have "\<exists>st0 area. stream_selected (Some x) st0 \<and> st = draw_operator Y area st0"
  proof (rule operator_run_induct [where P = stream_selected and right = input_right, OF _ start assms(3,4)])
    fix E' Y' area' i' sub' st' retry' asked' s'
    assume "stream_selected sub' st'" and "input_right i'"
      and "operator_step E' i' ((sub', draw_operator Y' area' st'), retry') = Some (asked', None, s')"
    then show "stream_selected (fst (fst s')) (snd (fst s'))"
      using operator_step_selected [of E' i' sub' "draw_operator Y' area' st'" retry' asked' "fst (fst s')" "snd (fst s')" "snd s'"] d by simp
  qed
  then have "stream_selected (Some x) st" using d by blast
  then show ?thesis by (simp add: stream_selected_def)
qed

lemma demo_right: "answers_right demo_answers" "\<forall>(a, i) \<in> set demo_asking. input_right i"
  by (simp_all add: answers_right_def demo_answers_def demo_asking_def demo_key_def)

theorem stream_is_selected_witness:
  "\<exists>x st asked. (Some x, st, asked) \<in> set (operator_run demo_screen demo_layout demo_asking demo_state) \<and> op_execution st = Some (ex_id x)"
  using demo_run stream_is_selected [OF demo_state demo_right, where Y = demo_layout] by fastforce

text \<open>Runs remember the questions that were asked.\<close>

lemma run_asks:
  assumes "\<And>xid. asks_about xid (snd (fst r)) \<Longrightarrow> xid \<in> H"
    and "k < length (operator_run E Y turns r)" and "operator_run E Y turns r ! k = (subscription, st, Some xid)"
  shows "asks_about xid st \<and> (xid \<in> H \<or> (\<exists>j < k. live_selected (fst (snd (operator_run E Y turns r ! j))) xid))"
  using assms
proof (induction turns arbitrary: r H k)
  case (Cons turn turns)
  obtain a i where t: "turn = (a, i)" by fastforce
  obtain area where a: "a = Inr area" using Cons.prems(2) t by (cases a) auto
  obtain sub0 st0 retry0 where r: "r = ((sub0, st0), retry0)" by (cases r) auto
  let ?D = "draw_operator Y area st0"
  obtain asked1 stop s' where s: "operator_step E i ((sub0, ?D), retry0) = Some (asked1, stop, s')"
    using Cons.prems(2) by (cases "operator_step E i ((sub0, ?D), retry0)") (auto simp: t a r Let_def)
  let ?tail = "if stop = None then operator_run E Y turns s' else []"
  have run: "operator_run E Y (turn # turns) r = (sub0, ?D, asked1) # ?tail" by (simp add: t a r s Let_def)
  have m: "(asked1 = Some x \<longrightarrow> asks_about x ?D) \<and> (asks_about x (snd (fst s')) \<longrightarrow> asks_about x ?D \<or> live_selected ?D x)" for x
    using operator_step_modal [of E i sub0 ?D retry0 asked1 stop "fst (fst s')" "snd (fst s')" "snd s'"] s by simp
  have d: "asks_about x ?D \<Longrightarrow> x \<in> H" for x
    using Cons.prems(1) [of x] draw_keeps(2) [of Y area st0] by (simp add: asks_about_def r)
  show ?case
  proof (cases k)
    case 0
    then show ?thesis using Cons.prems(3) m d by (simp add: run)
  next
    case (Suc n)
    then have k: "n < length (operator_run E Y turns s')" "operator_run E Y turns s' ! n = (subscription, st, Some xid)" "stop = None"
      using Cons.prems(2,3) by (auto simp: run split: if_split_asm)
    have "x \<in> H \<union> {x. live_selected ?D x}" if "asks_about x (snd (fst s'))" for x using m that d by blast
    from Cons.IH [OF this k(1,2)] have "asks_about xid st \<and>
        ((xid \<in> H \<or> live_selected ?D xid) \<or> (\<exists>j < n. live_selected (fst (snd (operator_run E Y turns s' ! j))) xid))" by blast
    then show ?thesis using k(3) Suc by (auto simp: run)
  qed
qed simp

text \<open>C34: The operator screen sends a cancellation only for the execution named by the question it shows, and that question was put
  when the very execution was selected and shown as queued or running: no refresh, click, stream event or search in between
  can turn the answer to another execution.\<close>

theorem cancel_was_asked:
  assumes "operator_start E A options now = Inr (Some r)" and "k < length (operator_run E Y turns r)"
    and "operator_run E Y turns r ! k = (subscription, st, Some xid)"
  shows "op_modal st = Some (ModalCancel xid) \<and>
    (\<exists>j < k. \<exists>x. selected_execution (fst (snd (operator_run E Y turns r ! j))) = Some x \<and> ex_id x = xid \<and>
       (ex_state x = Queued \<or> ex_state x = Running))"
proof -
  obtain changed st0 where f: "operator_refresh A (operator_new options) = (Inr changed, st0)" and l: "load_and_subscribe E A st0 = Some (fst r)"
    using assms(1) by (auto simp: operator_start_def split: prod.split_asm sum.split_asm)
  have "op_modal (snd (fst r)) = op_modal st0"
    using same_operator(5) [OF load_and_subscribe_more [of E A st0 "fst (fst r)" "snd (fst r)"]] l by simp
  then have "op_modal (snd (fst r)) = None" using refresh_modal [OF f] by (simp add: operator_new_def)
  then have "\<And>x. asks_about x (snd (fst r)) \<Longrightarrow> x \<in> {}" by (simp add: asks_about_def)
  from run_asks [OF this assms(2,3)] show ?thesis by (auto simp: asks_about_def live_selected_def is_live_def)
qed

theorem cancel_was_asked_witness:
  "\<exists>subscription st. operator_run demo_screen demo_layout demo_asking demo_state ! 1 = (subscription, st, Some ''a'') \<and>
     op_modal st = Some (ModalCancel ''a'')"
proof -
  obtain st1 st2 x where r: "operator_run demo_screen demo_layout demo_asking demo_state = [(Some x, st1, None), (Some x, st2, Some ''a'')]"
    using demo_run by blast
  then show ?thesis using cancel_was_asked [OF demo_state, where k = 1 and Y = demo_layout and turns = demo_asking] by simp
qed


section \<open>Clicking\<close>

text \<open>The last region that holds the point counts.\<close>

lemma find_rev_unique:
  assumes "k < length xs" and "P (xs ! k)" and "\<And>j. j < length xs \<Longrightarrow> P (xs ! j) \<Longrightarrow> j = k"
  shows "find P (rev xs) = Some (xs ! k)"
  using assms
proof (induction xs rule: rev_induct)
  case (snoc x xs)
  show ?case
  proof (cases "k = length xs")
    case True
    then show ?thesis using snoc.prems(2) by simp
  next
    case False
    then have k: "k < length xs" using snoc.prems(1) by simp
    have "\<not> P x" using snoc.prems(3) [of "length xs"] False by auto
    moreover have "find P (rev xs) = Some (xs ! k)"
    proof (rule snoc.IH [OF k])
      show "P (xs ! k)" using snoc.prems(2) k by (simp add: nth_append)
      show "j = k" if "j < length xs" "P (xs ! j)" for j using snoc.prems(3) [of j] that by (simp add: nth_append)
    qed
    ultimately show ?thesis using k by (simp add: nth_append)
  qed
qed simp

lemma row_regions_nth: "row < length ts \<Longrightarrow> row_regions area ts ! row = (row_rect area row, ts ! row)"
  by (simp add: row_regions_def nth_enumerate_eq)

lemma length_row_regions [simp]: "length (row_regions area ts) = length ts"
  by (simp add: row_regions_def)

lemma hit_row:
  assumes "re_x b + re_width b < 2 ^ 16" and "re_y b + re_height b < 2 ^ 16"
    and "re_x b < me_column e" and "me_column e + 1 < re_x b + re_width b" and "me_row e = re_y b + 1 + row"
    and "row < length ts" and "length ts + 2 \<le> re_height b"
  shows "find (\<lambda>(area, _). rect_contains area (me_column e) (me_row e)) (rev (row_regions b ts)) = Some (row_rect b row, ts ! row)"
proof -
  have "find (\<lambda>(area, _). rect_contains area (me_column e) (me_row e)) (rev (row_regions b ts)) = Some (row_regions b ts ! row)"
    by (rule find_rev_unique) (use assms in \<open>auto simp: row_regions_nth rect_contains_def row_rect_def\<close>)
  then show ?thesis using assms(6) by (simp add: row_regions_nth)
qed

lemma find_append_None: "find P xs = None \<Longrightarrow> find P (xs @ ys) = find P ys"
  by (induction xs) auto

lemma find_append_Some: "find P xs = Some x \<Longrightarrow> find P (xs @ ys) = Some x"
  by (induction xs) auto

text \<open>C38: On every layout, a click into the row of an execution on the operator screen selects the execution in that row, and puts the
  focus on the list; the output is then emptied and loaded anew, unless it was selected already.\<close>

theorem click_selects_row:
  assumes "st = draw_operator Y area st0" and "(b, HitPane OnExecutions) \<in> set (op_regions st)"
    and "re_x b + re_width b < 2 ^ 16" and "re_y b + re_height b < 2 ^ 16" and "3 \<le> re_height b"
    and "re_x b < me_column e" and "me_column e + 1 < re_x b + re_width b" and "me_row e = re_y b + 1 + row"
    and "row < length (displayed_rows (op_execution_offset st) b (visible_execution_ids st))"
    and "\<forall>c. (c, HitPane OnOutput) \<in> set (op_regions st) \<longrightarrow> \<not> rect_contains c (me_column e) (me_row e)"
    and "me_kind e = MouseLeft" and "handle_mouse e st = (c, st')"
  shows "op_execution st' = Some (displayed_rows (op_execution_offset st) b (visible_execution_ids st) ! row) \<and> op_focus st' = OnExecutions \<and>
    (if op_execution st' = op_execution st then c = UcNone \<and> pn_output st' = pn_output st
     else c = UcReloadOutput \<and> pn_output st' = [] \<and> pn_cursor st' = 0)"
proof -
  let ?rows = "displayed_rows (op_execution_offset st) b (visible_execution_ids st)"
  obtain pre b' post where r: "op_regions st = pre @ execution_regions st b' @ post" "no_executions pre"
    "post = [] \<or> (\<exists>c. post = [(c, HitPane OnOutput)])"
    using draw_regions [of Y area st0] assms(1,2) by (fastforce simp: no_executions_def)
  have b: "b' = b" by (rule pane_region_unique [OF r assms(2)])
  have "length (map HitExecution ?rows) + 2 \<le> re_height b" using assms(5) by (simp add: displayed_rows_def list_capacity_def)
  then have "find (\<lambda>(area, _). rect_contains area (me_column e) (me_row e)) (rev (row_regions b (map HitExecution ?rows))) =
      Some (row_rect b row, HitExecution (?rows ! row))"
    using hit_row [OF assms(3,4,6,7,8), of "map HitExecution ?rows"] assms(9) by simp
  moreover have "find (\<lambda>(area, _). rect_contains area (me_column e) (me_row e)) (rev post) = None"
    using r(1,3) assms(10) by (auto simp: find_None_iff)
  ultimately have "hit_at e (op_regions st) = Some (HitExecution (?rows ! row))"
    by (simp add: hit_at_def r(1) b execution_regions_def find_append_None find_append_Some)
  then have "command_if UcReloadOutput (select_execution (?rows ! row) (st\<lparr>op_focus := OnExecutions\<rparr>)) = (c, st')"
    using assms(11,12) by (simp add: handle_mouse_def)
  then show ?thesis by (auto simp: command_if_def select_execution_def reset_output_def split: if_split_asm)
qed


definition demo_click :: mouse_event where
  "demo_click = \<lparr>me_kind = MouseLeft, me_column = 40, me_row = 5\<rparr>"

definition demo_listing :: operator_state where
  "demo_listing = (operator_new demo_options)\<lparr>op_executions := sd_executions demo_shown_session, op_execution := Some ''a'', op_focus := OnExecutions\<rparr>"

definition demo_middle :: rect where
  "demo_middle = \<lparr>re_x = 0, re_y = 3, re_width = 80, re_height = 20\<rparr>"

lemma demo_visible: "visible_execution_ids demo_listing = [''a'', ''b'']"
  by (simp add: demo_listing_def operator_new_def demo_shown_session_def demo_listed_def visible_execution_ids_def newest_first_def
      matches_execution_def query_matches_def scoped_executions_def)

lemma demo_drawn:
  "draw_operator demo_layout demo_area demo_listing =
     demo_listing\<lparr>op_regions := [(demo_middle, HitPane OnExecutions), (row_rect demo_middle 0, HitExecution ''a''), (row_rect demo_middle 1, HitExecution ''b'')]\<rparr>"
proof -
  let ?st = "demo_listing\<lparr>op_regions := []\<rparr>"
  have f: "op_focus demo_listing = OnExecutions" "op_execution ?st = Some ''a''" "op_execution_offset ?st = 0" "op_execution_offset demo_listing = 0"
    by (simp_all add: demo_listing_def operator_new_def)
  have v: "visible_execution_ids ?st = [''a'', ''b'']" using demo_visible same_visible [of ?st demo_listing] by simp
  have "draw_operator demo_layout demo_area demo_listing = draw_executions demo_middle ?st"
    using f by (simp add: draw_operator_def Let_def demo_layout_def demo_area_def demo_middle_def)
  also have "\<dots> = demo_listing\<lparr>op_execution_offset := 0, op_regions := [(demo_middle, HitPane OnExecutions), (row_rect demo_middle 0, HitExecution ''a''), (row_rect demo_middle 1, HitExecution ''b'')]\<rparr>"
    using f v by (simp add: draw_executions_def Let_def selection_offset_def displayed_rows_def list_capacity_def demo_middle_def
        row_regions_def index_of_def sat_add_def)
  finally show ?thesis using f by (simp add: demo_listing_def operator_new_def)
qed

theorem click_selects_row_witness:
  "\<exists>st'. handle_mouse demo_click (draw_operator demo_layout demo_area demo_listing) = (UcReloadOutput, st') \<and> op_execution st' = Some ''b''"
proof -
  let ?st = "draw_operator demo_layout demo_area demo_listing"
  obtain c st' where h: "handle_mouse demo_click ?st = (c, st')" by fastforce
  have v: "visible_execution_ids ?st = [''a'', ''b'']" using demo_visible view_visible [OF draw_keeps(1), of demo_layout demo_area demo_listing] by simp
  have o: "op_execution_offset ?st = 0" "op_execution ?st = Some ''a''"
    unfolding demo_drawn by (simp_all add: demo_listing_def operator_new_def)
  have d: "displayed_rows (op_execution_offset ?st) demo_middle (visible_execution_ids ?st) = [''a'', ''b'']"
    by (simp add: v o displayed_rows_def list_capacity_def demo_middle_def)
  have "op_execution st' = Some ([''a'', ''b''] ! 1) \<and> op_focus st' = OnExecutions \<and>
      (if op_execution st' = op_execution ?st then c = UcNone \<and> pn_output st' = pn_output ?st
       else c = UcReloadOutput \<and> pn_output st' = [] \<and> pn_cursor st' = 0)"
    unfolding d [symmetric]
    by (rule click_selects_row [OF refl _ _ _ _ _ _ _ _ _ _ h])
      (simp_all only: d, simp_all add: demo_drawn demo_middle_def demo_click_def row_rect_def)
  then show ?thesis using h o(2) by simp
qed

section \<open>What goes wrong\<close>

text \<open>Opening the search selects the newest execution again: when it is the selected one and its stream is open, the pane is emptied and
  nothing is loaded, so what the stream brings later follows a gap.\<close>

lemma search_drops_output:
  assumes "op_execution st = Some (ex_id x)" and "first_opt (visible_execution_ids st) = Some (ex_id x)"
    and "op_detail st = None" and "\<not> op_searching st" and "op_modal st = None"
    and "ke_press key" and "ke_code key = KChar ''/''" and "\<not> ke_control key"
  shows "\<exists>st'. operator_step E (OiKey key A) ((Some x, st), retry_at) = Some (None, None, (Some x, st'), retry_at) \<and>
    op_execution st' = op_execution st \<and> pn_output st' = [] \<and> pn_cursor st' = 0"
proof -
  let ?st = "st\<lparr>op_searching := True, op_session := None, op_detail := None, op_execution := None, op_session_offset := 0, op_execution_offset := 0\<rparr>"
  have "visible_execution_ids ?st = visible_execution_ids st" by (rule same_visible) (simp_all add: assms(3))
  then have "open_search st = reset_output (?st\<lparr>op_execution := Some (ex_id x)\<rparr>)"
    using assms(2) by (simp add: open_search_def ensure_execution_selection_def Let_def)
  then show ?thesis using assms
    by (simp add: operator_step_def handle_key_def operator_plain_key_def operator_char_def after_command_def operator_command_def
        sync_subscription_def reset_output_def)
qed

text \<open>A daemon that cannot be asked for the lists ends the screen when the user asks for a refresh, while the poll only reports it.\<close>

lemma refresh_failure_ends:
  assumes "oa_lists A = Inl e" and "\<not> op_searching st" and "op_modal st = None"
    and "ke_press key" and "ke_code key = KChar ''r''" and "\<not> ke_control key"
  shows "\<exists>s. operator_step E (OiKey key A) ((subscription, st), retry_at) = Some (None, Some (Inl e), s)"
    and "\<exists>s. operator_step E (OiPoll A now) ((subscription, st), retry_at) = Some (None, None, s)"
  using assms
  by (simp_all add: operator_step_def handle_key_def operator_plain_key_def operator_char_def after_command_def operator_command_def
      operator_refresh_def poll_step_def)

end
