(* ===== verification/Spec2Isabelle.thy ===== *)
theory Spec2Isabelle
  imports StoreProperties ModelProperties CaptureProperties SupervisorProperties EngineProperties SubscriptionProperties DaemonProperties ClientProperties McpProperties AgentProperties SessionProperties RecorderProperties LaunchProperties OnboardingProperties OperatorProperties
begin

text \<open>
  A verification of Loomterm, which runs commands for coding agents and keeps what they did.

  \<^bold>\<open>The program.\<close> A daemon (\<open>src/daemon.rs\<close>) serves requests on a local socket. Its engine (\<open>src/executor.rs\<close>) queues
  executions and runs each through a supervisor process of its own (\<open>src/supervisor.rs\<close>), whose output it cuts at a limit and
  writes in batches to the store (\<open>src/store.rs\<close>): SQLite tables with workspaces, executions and their numbered event logs,
  and recorded agent sessions with their turns and actions, owned by one actor thread. Clients (\<open>src/client.rs\<close>) open one
  connection per call: the command line (\<open>src/bin/loom.rs\<close>), the MCP server an agent talks to (\<open>src/mcp.rs\<close>), the hooks
  agents call (\<open>src/agent.rs\<close>), the recorder of an agent's terminal (\<open>src/session.rs\<close>), and two screens, the observer
  (\<open>src/watch.rs\<close>) and the operator screen (\<open>src/ui.rs\<close>). \<open>src/onboarding.rs\<close> sets a project up for the agents.

  \<^bold>\<open>The theories.\<close> A function of the source is a definition of the same name, or of that name with the component in front of
  it; a struct is a record whose fields have a prefix of two letters, an enum a datatype.

  \<^item> \<open>Prelude\<close>, \<open>Text\<close>, \<open>Tables\<close>, \<open>Json\<close>, \<open>Iterators\<close>, \<open>Rewriting\<close>: results as sums, saturating and wrapping 64-bit
    arithmetic, UTF-8 and paths, the fragment of SQL the store uses, JSON values, replacing in texts. \<open>Prelude\<close> also has the
    locales \<open>invariant_machine\<close> and \<open>monotone_machine\<close>: a step that keeps an invariant, or moves along a preorder, and what
    follows for its runs. The storage actor, the supervisor's loop, the capture writer, the engine and the lock are
    interpretations of them.
  \<^item> \<open>Errors\<close>, \<open>Model\<close>, \<open>Settings\<close>, \<open>Wire\<close>: \<open>src/error.rs\<close>, \<open>src/model.rs\<close>, \<open>src/config.rs\<close>, \<open>src/protocol.rs\<close>.
  \<^item> \<open>StoreState\<close> (one record per row, a database as lists of rows in insertion order), \<open>StoreInv\<close> (keys, foreign keys, state
    columns, logs numbered from one), \<open>StoreWorkspaces\<close>, \<open>StoreExecutions\<close>, \<open>StoreSessions\<close>, \<open>StoreStats\<close> (the operations of
    \<open>Database\<close> and that each keeps the invariant), \<open>StoreSchema\<close> (the migrations), \<open>StoreActor\<close> (every command of the actor), and
    what the operations achieve: \<open>StoreLog\<close>, \<open>StoreRead\<close>, \<open>StoreTurns\<close>, \<open>StoreLifecycle\<close>, \<open>StoreReconcile\<close>, \<open>StorePrune\<close>,
    \<open>StoreLive\<close>. A failing operation leaves the database as it was: the transaction is rolled back.
  \<^item> \<open>Capture\<close>, \<open>Engine\<close> and \<open>EngineSlots\<close>, \<open>EngineCancel\<close>, \<open>EngineFlush\<close>, \<open>EngineSealed\<close>, \<open>EngineDrain\<close>: the engine as a
    state with one task per execution; an input is one step of a task, of the capture writer or of a client, and the lemmas
    hold for every list of inputs, that is for every interleaving. \<open>Capture\<close> has the locale \<open>capture_store\<close>, what the
    writer needs of the store, interpreted on \<open>append_capture_batch\<close>.
  \<^item> \<open>Supervisor\<close>: the select loop as a function of what becomes ready, and the whole run of the process.
  \<^item> \<open>Daemon\<close>, \<open>DaemonInv\<close>, \<open>SessionFiles\<close>, \<open>DaemonLock\<close>, \<open>Subscription\<close>: dispatching, connections, the files of recordings
    and their reconciliation, processes racing for the lock file one system call at a time, and subscriptions over the locale
    \<open>paged_log\<close>, which the store provides.
  \<^item> \<open>Client\<close>, \<open>ClientDaemon\<close>, \<open>Cli\<close>: a call is an action on the state of whatever answers; connected to \<open>serve_frame\<close> that is
    the daemon of this development.
  \<^item> \<open>Mcp\<close>; \<open>AgentHooks\<close>; \<open>SessionCast\<close>, \<open>SessionRecorder\<close>, \<open>SessionRedact\<close>, \<open>SessionExport\<close>; \<open>Launch\<close>, \<open>Handoff\<close>,
    \<open>LaunchDaemon\<close>, \<open>CliRun\<close>; \<open>Onboarding\<close>, \<open>OnboardingHooks\<close>, \<open>Integration\<close>: the clients, the recording of a session from
    the first byte of the terminal to the exported page, starting and handing over agents, running a command and reading its
    log, and the configuration of a project.
  \<^item> \<open>Screen\<close> (the pane with the output of an execution, shared by both screens, and the observer), \<open>Operator\<close> and
    \<open>OperatorLoop\<close> (the operator screen): a turn draws the state, which fixes scroll positions and the regions a click can
    hit, and then handles a key, a click, an event of the stream or a poll.
  \<^item> The theories whose name ends in \<open>Properties\<close> state what the program promises; those that end in \<open>Demo\<close> hold the concrete
    states on which the examples of their hypotheses are evaluated.

  \<^bold>\<open>What is shown.\<close> Of the store: consistency under every sequence of commands, that executions only move forward and a log
  a client has seen only grows, that a batch is all or nothing, that pages join to the log. Of the engine: whatever the
  interleaving, a cancellation reaches its supervisor, nothing is captured after the terminal event a run writes, draining is
  final, waiting misses no event. Of capture and supervisor: the exact limit, an answered barrier means stored, every byte is
  reported in order and one end, signals escalate once. Of the daemon: exclusion by the lock when nobody reads it half
  written, that only the directories of ended recordings are removed, which sessions reconciliation interrupts, complete
  subscriptions. Of the clients: errors pass through unchanged, an MCP server stays in its workspace, what an agent reads is
  the captured output, hooks make valid requests, no redacted pattern survives an export, a recorder leaves no child and no
  raw terminal behind, a launch that ends has reported its outcome, \<open>loom init\<close> makes a project ready and keeps foreign
  settings, logs are printed completely. Of the screens: the pane holds the longest end of the log that fits, a selection
  is always visible, and a cancellation is only sent for the execution the user was asked about. Where the code falls short
  the exact condition is proved instead, and a lemma shows the failing run: a lock held twice, a log that goes on after its
  terminal event, reading that never ends, sessions that block every request, paths that leave the sessions directory,
  a lost stream that is not noticed, an output pane that is emptied by opening the search.

  \<^bold>\<open>Bounds and fuel.\<close> Three kinds of lists stand for what an unbounded wait or loop would consume: inputs (messages, timers,
  keys, steps of tasks), states read (the databases a subscription sees) and answers to calls (the pages of a log).
  Functions over them return \<open>None\<close>, or the state reached, when they are used up, and the properties that say a loop returns
  give the length that is enough: a page brings at least one event while there is one, so as many calls as events are left,
  plus one, read a log to its end (\<open>logs_print_everything\<close>, \<open>pane_shows_tail\<close>, \<open>mcp_reading_ends\<close>). Loops the code bounds
  itself are recursion on its bound: three attempts at a session's lock, two at the daemon's, eight levels in a tool's
  response, sixty probes of a starting daemon. Integers keep their width where they can reach it: 64-bit saturation and
  wrap-around, 32-bit process identifiers, 16-bit scroll positions and coordinates. A log is taken to be shorter than \<open>2^63\<close>
  where its cursor passes through SQLite's integers.

  \<^bold>\<open>Not modelled.\<close> Third-party code is a parameter of the definitions that use it, with its documented laws as named
  hypotheses: base64, serde's reading and printing, the TOML editor, the file system, the clock, processes and the terminal.
  The length-delimited frames on the socket are values; a request that does not wait is served in one step, since the actor
  serialises it. ratatui's widgets and its division of an area, colours, the dialogs' and the observer's header texts, the
  constant HTML around an exported recording, the tables \<open>loom\<close> prints, clap's reading of arguments, the terminal guard
  (\<open>src/terminal.rs\<close>) and the creation of directories in \<open>src/config.rs\<close> are left out: they have no state of the program's
  own. Panics of debug arithmetic on coordinates at the edge of 16 bits are not modelled either.
\<close>

end
